(* ===== verification/Prelude.thy ===== *)
theory Prelude
  imports Main "HOL-Library.List_Lexorder" "HOL-Library.Char_ord" "HOL-Library.Sublist" "HOL-Library.Word"
begin

section \<open>Prelude: results, actions and automation shared by every component\<close>

text \<open>
  Rust's \<open>Result\<close> is a sum, \<open>Inl\<close> the error and \<open>Inr\<close> the value; the \<open>?\<close> operator is
  \<open>try_r\<close>. A call that reads or changes shared state (a driver call) is an action: a function
  from the state to a result and the new state. \<open>try_a\<close> is \<open>?\<close> after an awaited call,
  \<open>match_a\<close> is a \<open>match\<close> on the result of one.
\<close>

subsection \<open>Results\<close>

definition try_r :: "'e + 'a \<Rightarrow> ('a \<Rightarrow> 'e + 'b) \<Rightarrow> 'e + 'b" where
  "try_r m f = (case m of Inl e \<Rightarrow> Inl e | Inr x \<Rightarrow> f x)"

lemma try_r_simps [simp]:
  "try_r (Inl e) f = Inl e"
  "try_r (Inr x) f = f x"
  by (simp_all add: try_r_def)

lemma try_r_Inr_iff: "try_r m f = Inr y \<longleftrightarrow> (\<exists>x. m = Inr x \<and> f x = Inr y)"
  by (cases m) auto

lemma try_r_Inl_iff: "try_r m f = Inl e \<longleftrightarrow> m = Inl e \<or> (\<exists>x. m = Inr x \<and> f x = Inl e)"
  by (cases m) auto

lemma try_r_split: "P (try_r m f) \<longleftrightarrow> (\<forall>e. m = Inl e \<longrightarrow> P (Inl e)) \<and> (\<forall>x. m = Inr x \<longrightarrow> P (f x))"
  by (cases m) auto

lemma try_r_cong [fundef_cong]:
  "m = m' \<Longrightarrow> (\<And>x. m' = Inr x \<Longrightarrow> f x = f' x) \<Longrightarrow> try_r m f = try_r m' f'"
  by (cases m') auto

text \<open>\<open>Option::ok_or\<close>, \<open>Result::map_err\<close> and \<open>Result::ok\<close>.\<close>

definition ok_or :: "'e \<Rightarrow> 'a option \<Rightarrow> 'e + 'a" where
  "ok_or e m = (case m of None \<Rightarrow> Inl e | Some x \<Rightarrow> Inr x)"

lemma ok_or_simps [simp]: "ok_or e None = Inl e" "ok_or e (Some x) = Inr x"
  by (simp_all add: ok_or_def)

lemma ok_or_Inr_iff [simp]: "ok_or e m = Inr x \<longleftrightarrow> m = Some x"
  by (cases m) auto

lemma ok_or_Inl_iff: "ok_or e m = Inl e' \<longleftrightarrow> m = None \<and> e' = e"
  by (cases m) auto

definition map_err :: "('e \<Rightarrow> 'f) \<Rightarrow> 'e + 'a \<Rightarrow> 'f + 'a" where
  "map_err g m = (case m of Inl e \<Rightarrow> Inl (g e) | Inr x \<Rightarrow> Inr x)"

lemma map_err_simps [simp]: "map_err g (Inl e) = Inl (g e)" "map_err g (Inr x) = Inr x"
  by (simp_all add: map_err_def)

lemma map_err_Inr_iff [simp]: "map_err g m = Inr x \<longleftrightarrow> m = Inr x"
  by (cases m) auto

definition result_ok :: "'e + 'a \<Rightarrow> 'a option" where
  "result_ok m = (case m of Inl _ \<Rightarrow> None | Inr x \<Rightarrow> Some x)"

lemma result_ok_simps [simp]: "result_ok (Inl e) = None" "result_ok (Inr x) = Some x"
  by (simp_all add: result_ok_def)

definition guard_r :: "bool \<Rightarrow> 'e \<Rightarrow> 'e + unit" where
  "guard_r b e = (if b then Inr () else Inl e)"

lemma guard_r_simps [simp]:
  "guard_r True e = Inr ()" "guard_r False e = Inl e"
  "guard_r b e = Inr u \<longleftrightarrow> b" "guard_r b e = Inl e' \<longleftrightarrow> \<not> b \<and> e' = e"
  by (auto simp: guard_r_def)

text \<open>Collecting an iterator of results, or of options, into one: the first failure wins.\<close>

fun try_map :: "('a \<Rightarrow> 'e + 'b) \<Rightarrow> 'a list \<Rightarrow> 'e + 'b list" where
  "try_map f [] = Inr []"
| "try_map f (x # xs) = try_r (f x) (\<lambda>y. try_r (try_map f xs) (\<lambda>ys. Inr (y # ys)))"

lemma try_map_Inr: "(\<And>x. x \<in> set xs \<Longrightarrow> f x = Inr (g x)) \<Longrightarrow> try_map f xs = Inr (map g xs)"
  by (induction xs) auto

lemma try_map_Inr_iff: "try_map f xs = Inr ys \<longleftrightarrow> list_all2 (\<lambda>x y. f x = Inr y) xs ys"
  by (induction xs arbitrary: ys) (auto simp: try_r_Inr_iff list_all2_Cons1)

text \<open>A \<open>for\<close> loop over a list whose body may return early with an error.\<close>

fun try_fold :: "('a \<Rightarrow> 's \<Rightarrow> 'e + 's) \<Rightarrow> 'a list \<Rightarrow> 's \<Rightarrow> 'e + 's" where
  "try_fold f [] s = Inr s"
| "try_fold f (x # xs) s = try_r (f x s) (\<lambda>s'. try_fold f xs s')"

lemma try_fold_append: "try_fold f (xs @ ys) s = try_r (try_fold f xs s) (\<lambda>s'. try_fold f ys s')"
  by (induction xs arbitrary: s) (auto simp: try_r_def split: sum.splits)

lemma try_fold_invariant:
  assumes "P s" and "\<And>x s s'. x \<in> set xs \<Longrightarrow> P s \<Longrightarrow> f x s = Inr s' \<Longrightarrow> P s'"
    and "try_fold f xs s = Inr s'"
  shows "P s'"
  using assms by (induction xs arbitrary: s) (auto simp: try_r_Inr_iff)

subsection \<open>Actions\<close>

type_synonym ('s, 'e, 'a) act = "'s \<Rightarrow> ('e + 'a) \<times> 's"

definition ret_a :: "'a \<Rightarrow> ('s, 'e, 'a) act" where
  "ret_a x = (\<lambda>s. (Inr x, s))"

definition err_a :: "'e \<Rightarrow> ('s, 'e, 'a) act" where
  "err_a e = (\<lambda>s. (Inl e, s))"

definition lift_a :: "'e + 'a \<Rightarrow> ('s, 'e, 'a) act" where
  "lift_a r = (\<lambda>s. (r, s))"

definition match_a :: "('s, 'e, 'a) act \<Rightarrow> ('e + 'a \<Rightarrow> ('s, 'f, 'b) act) \<Rightarrow> ('s, 'f, 'b) act" where
  "match_a m f = (\<lambda>s. case m s of (r, s') \<Rightarrow> f r s')"

definition try_a :: "('s, 'e, 'a) act \<Rightarrow> ('a \<Rightarrow> ('s, 'e, 'b) act) \<Rightarrow> ('s, 'e, 'b) act" where
  "try_a m f = match_a m (\<lambda>r. case r of Inl e \<Rightarrow> err_a e | Inr x \<Rightarrow> f x)"

lemma act_simps [simp]:
  "ret_a x s = (Inr x, s)"
  "err_a e s = (Inl e, s)"
  "lift_a r s = (r, s)"
  by (simp_all add: ret_a_def err_a_def lift_a_def)

lemma match_a_apply: "match_a m f s = (case m s of (r, s') \<Rightarrow> f r s')"
  by (simp add: match_a_def)

lemma try_a_apply:
  "try_a m f s = (case m s of (Inl e, s') \<Rightarrow> (Inl e, s') | (Inr x, s') \<Rightarrow> f x s')"
  by (simp add: try_a_def match_a_def split: prod.splits sum.splits)

lemma try_a_lift [simp]: "try_a (lift_a r) f s = (case r of Inl e \<Rightarrow> (Inl e, s) | Inr x \<Rightarrow> f x s)"
  by (simp add: try_a_apply split: sum.splits)

lemma match_a_lift [simp]: "match_a (lift_a r) f s = f r s"
  by (simp add: match_a_apply)

lemma try_aE:
  assumes "try_a m f s = (r, s')"
  obtains (err) e where "m s = (Inl e, s')" and "r = Inl e"
  | (ok) x s1 where "m s = (Inr x, s1)" and "f x s1 = (r, s')"
  using assms by (auto simp: try_a_apply split: prod.splits sum.splits)

text \<open>A run that succeeds, call by call.\<close>

lemma try_a_Inr_iff: "try_a m f s = (Inr y, s') \<longleftrightarrow> (\<exists>x s1. m s = (Inr x, s1) \<and> f x s1 = (Inr y, s'))"
  by (auto simp: try_a_apply split: prod.splits sum.splits)

lemma lift_a_Inr_iff: "lift_a r s = (Inr y, s') \<longleftrightarrow> r = Inr y \<and> s' = s"
  by auto

lemma ret_a_Inr_iff: "ret_a x s = (Inr y, s') \<longleftrightarrow> y = x \<and> s' = s"
  by auto

lemma err_a_Inr_iff: "err_a e s = (Inr y, s') \<longleftrightarrow> False"
  by simp

lemmas act_Inr_iff = try_a_Inr_iff lift_a_Inr_iff ret_a_Inr_iff err_a_Inr_iff

text \<open>A Hoare-style rule for invariants of a whole sequence of actions.\<close>

definition keeps :: "('s \<Rightarrow> bool) \<Rightarrow> ('s, 'e, 'a) act \<Rightarrow> bool" where
  "keeps I m \<longleftrightarrow> (\<forall>s. I s \<longrightarrow> I (snd (m s)))"

lemma keepsI: "(\<And>s. I s \<Longrightarrow> I (snd (m s))) \<Longrightarrow> keeps I m"
  by (simp add: keeps_def)

lemma keepsD: "keeps I m \<Longrightarrow> I s \<Longrightarrow> I (snd (m s))"
  by (simp add: keeps_def)

named_theorems keeps_intros \<open>compositional rules for keeps\<close>

lemma keeps_ret [keeps_intros]: "keeps I (ret_a x)"
  by (simp add: keeps_def)

lemma keeps_err [keeps_intros]: "keeps I (err_a e)"
  by (simp add: keeps_def)

lemma keeps_lift [keeps_intros]: "keeps I (lift_a r)"
  by (simp add: keeps_def)

lemma keeps_match [keeps_intros]:
  "keeps I m \<Longrightarrow> (\<And>r. keeps I (f r)) \<Longrightarrow> keeps I (match_a m f)"
  by (simp add: keeps_def match_a_apply split: prod.splits) fastforce

lemma keeps_try [keeps_intros]:
  assumes "keeps I m" and "\<And>x. keeps I (f x)"
  shows "keeps I (try_a m f)"
  unfolding try_a_def
  by (rule keeps_match [OF assms(1)]) (auto intro: assms(2) keeps_intros split: sum.splits)

text \<open>A \<open>for\<close> loop whose body awaits a call and may return early with an error.\<close>

fun try_for :: "('a \<Rightarrow> ('s, 'e, unit) act) \<Rightarrow> 'a list \<Rightarrow> ('s, 'e, unit) act" where
  "try_for f [] = ret_a ()"
| "try_for f (x # xs) = try_a (f x) (\<lambda>_. try_for f xs)"

lemma keeps_try_for [keeps_intros]: "(\<And>x. x \<in> set xs \<Longrightarrow> keeps I (f x)) \<Longrightarrow> keeps I (try_for f xs)"
  by (induction xs) (auto intro: keeps_intros)

end
