(* ===== verification/BTree_Map.thy ===== *)
theory BTree_Map
  imports Prelude
begin

section \<open>\<open>BTreeMap\<close>: ordered maps as sorted association lists\<close>

text \<open>
  A \<open>BTreeMap<K, V>\<close> is the association list its iterator yields: keys strictly ascending. The
  list is canonical, so equality of the model is equality of the maps. \<open>ordered_map\<close> states what
  the clients (capabilities, access keys, object attributes, the abstract store) rely on.
\<close>

type_synonym ('k, 'v) btree = "('k \<times> 'v) list"

abbreviation bt_keys :: "('k, 'v) btree \<Rightarrow> 'k list" where
  "bt_keys m \<equiv> map fst m"

definition bt_wf :: "('k::linorder, 'v) btree \<Rightarrow> bool" where
  "bt_wf m \<longleftrightarrow> sorted_wrt (<) (bt_keys m)"

definition bt_get :: "('k, 'v) btree \<Rightarrow> 'k \<Rightarrow> 'v option" where
  "bt_get m k = map_of m k"

fun bt_insert :: "'k::linorder \<Rightarrow> 'v \<Rightarrow> ('k, 'v) btree \<Rightarrow> ('k, 'v) btree" where
  "bt_insert k v [] = [(k, v)]"
| "bt_insert k v ((a, b) # m) =
     (if k < a then (k, v) # (a, b) # m
      else if k = a then (k, v) # m else (a, b) # bt_insert k v m)"

definition bt_remove :: "'k \<Rightarrow> ('k, 'v) btree \<Rightarrow> ('k, 'v) btree" where
  "bt_remove k m = filter (\<lambda>(a, _). a \<noteq> k) m"

definition bt_from_list :: "('k::linorder \<times> 'v) list \<Rightarrow> ('k, 'v) btree" where
  "bt_from_list xs = fold (\<lambda>(k, v). bt_insert k v) xs []"

subsection \<open>Characterisation by lookup\<close>

lemma bt_wf_Nil [simp]: "bt_wf []"
  by (simp add: bt_wf_def)

lemma bt_wf_Cons: "bt_wf ((a, b) # m) \<longleftrightarrow> (\<forall>k \<in> set (bt_keys m). a < k) \<and> bt_wf m"
  by (simp add: bt_wf_def)

lemma bt_wf_distinct: "bt_wf m \<Longrightarrow> distinct (bt_keys m)"
  by (simp add: bt_wf_def strict_sorted_iff)

lemma bt_get_Nil [simp]: "bt_get [] k = None"
  by (simp add: bt_get_def)

lemma bt_get_insert: "bt_wf m \<Longrightarrow> bt_get (bt_insert k v m) = (bt_get m)(k \<mapsto> v)"
  by (induction k v m rule: bt_insert.induct) (auto simp: bt_get_def bt_wf_Cons fun_eq_iff)

lemma keys_bt_insert: "set (bt_keys (bt_insert k v m)) = insert k (set (bt_keys m))"
  by (induction k v m rule: bt_insert.induct) auto

lemma bt_wf_insert: "bt_wf m \<Longrightarrow> bt_wf (bt_insert k v m)"
proof (induction k v m rule: bt_insert.induct)
  case (2 k v a b m)
  then show ?case
    using keys_bt_insert [of k v m] by (auto simp: bt_wf_Cons simp del: set_map)
qed (simp add: bt_wf_def)

lemma bt_get_remove: "bt_get (bt_remove k m) = (bt_get m)(k := None)"
  by (induction m) (auto simp: bt_get_def bt_remove_def fun_eq_iff)

lemma bt_wf_remove: "bt_wf m \<Longrightarrow> bt_wf (bt_remove k m)"
  unfolding bt_wf_def bt_remove_def by (induction m) auto

lemma bt_get_Some_in: "bt_get m k = Some v \<Longrightarrow> (k, v) \<in> set m"
  by (simp add: bt_get_def map_of_SomeD)

lemma bt_in_get: "bt_wf m \<Longrightarrow> (k, v) \<in> set m \<longleftrightarrow> bt_get m k = Some v"
  by (simp add: bt_get_def bt_wf_distinct map_of_eq_Some_iff)

lemma bt_get_None_iff: "bt_get m k = None \<longleftrightarrow> k \<notin> set (bt_keys m)"
  by (simp add: bt_get_def map_of_eq_None_iff)

lemma bt_dom: "dom (bt_get m) = set (bt_keys m)"
  by (simp add: bt_get_def [abs_def] dom_map_of_conv_image_fst)

text \<open>Two well-formed maps with the same lookups are the same list.\<close>

lemma bt_ext:
  assumes "bt_wf m" and "bt_wf n" and "bt_get m = bt_get n"
  shows "m = n"
proof (rule map_sorted_distinct_set_unique [of fst])
  have eq: "set m = set n"
    using assms bt_in_get by (metis subset_antisym subrelI)
  show "inj_on fst (set m \<union> set n)"
    using eq bt_wf_distinct [OF assms(1)] by (simp add: distinct_map)
  show "sorted (map fst m)" "distinct (map fst m)" "sorted (map fst n)" "distinct (map fst n)"
    using assms(1,2) by (auto simp: bt_wf_def strict_sorted_iff)
  show "set m = set n" by (rule eq)
qed

subsection \<open>The interface\<close>

locale ordered_map =
  fixes wf :: "'m \<Rightarrow> bool"
    and empty :: "'m"
    and get :: "'m \<Rightarrow> 'k::linorder \<Rightarrow> 'v option"
    and ins :: "'k \<Rightarrow> 'v \<Rightarrow> 'm \<Rightarrow> 'm"
    and rem :: "'k \<Rightarrow> 'm \<Rightarrow> 'm"
    and keys :: "'m \<Rightarrow> 'k list"
  assumes wf_empty: "wf empty"
    and get_empty: "get empty k = None"
    and wf_ins: "wf m \<Longrightarrow> wf (ins k v m)"
    and get_ins: "wf m \<Longrightarrow> get (ins k v m) = (get m)(k \<mapsto> v)"
    and wf_rem: "wf m \<Longrightarrow> wf (rem k m)"
    and get_rem: "wf m \<Longrightarrow> get (rem k m) = (get m)(k := None)"
    and keys_sorted: "wf m \<Longrightarrow> sorted_wrt (<) (keys m)"
    and set_keys: "set (keys m) = dom (get m)"
    and ext: "wf m \<Longrightarrow> wf n \<Longrightarrow> get m = get n \<Longrightarrow> m = n"
begin

lemma ins_ins_same: "wf m \<Longrightarrow> ins k v (ins k w m) = ins k v m"
  by (rule ext) (auto simp: wf_ins get_ins)

lemma ins_commute: "wf m \<Longrightarrow> j \<noteq> k \<Longrightarrow> ins j v (ins k w m) = ins k w (ins j v m)"
  by (rule ext) (auto simp: wf_ins get_ins fun_upd_twist)

lemma ins_same: "wf m \<Longrightarrow> get m k = Some v \<Longrightarrow> ins k v m = m"
  by (rule ext) (auto simp: wf_ins get_ins)

lemma rem_absent: "wf m \<Longrightarrow> get m k = None \<Longrightarrow> rem k m = m"
  by (rule ext) (auto simp: wf_rem get_rem)

lemma rem_ins: "wf m \<Longrightarrow> get m k = None \<Longrightarrow> rem k (ins k v m) = m"
  by (rule ext) (auto simp: wf_rem get_rem wf_ins get_ins)

lemma keys_ins: "wf m \<Longrightarrow> set (keys (ins k v m)) = insert k (set (keys m))"
  by (simp add: set_keys get_ins)

lemma keys_rem: "wf m \<Longrightarrow> set (keys (rem k m)) = set (keys m) - {k}"
  by (auto simp: set_keys get_rem)

lemma wf_fold_ins: "wf m \<Longrightarrow> wf (fold (\<lambda>(k, v). ins k v) xs m)"
  by (induction xs arbitrary: m) (auto simp: wf_ins)

lemma get_fold_ins: "wf m \<Longrightarrow> get (fold (\<lambda>(k, v). ins k v) xs m) = get m ++ map_of (rev xs)"
  by (induction xs arbitrary: m) (auto simp: wf_ins get_ins map_add_def fun_eq_iff split: option.splits)

lemma wf_foldr_ins: "wf (foldr (\<lambda>r. ins (f r) (g r)) rs empty)"
  by (induction rs) (auto simp: wf_ins wf_empty)

lemma get_foldr_ins:
  "get (foldr (\<lambda>r. ins (f r) (g r)) rs empty) k = map_option g (find (\<lambda>r. f r = k) rs)"
proof (induction rs)
  case (Cons r rs)
  then show ?case by (simp add: get_ins wf_foldr_ins)
qed (simp add: get_empty)

end

interpretation bt: ordered_map bt_wf "[]" bt_get bt_insert bt_remove bt_keys
  by unfold_locales
    (auto simp: bt_wf_insert bt_wf_remove bt_get_insert bt_get_remove bt_dom bt_wf_def [symmetric]
      intro: bt_ext)

lemma bt_wf_from_list [simp]: "bt_wf (bt_from_list xs)"
  by (simp add: bt_from_list_def bt.wf_fold_ins)

lemma bt_from_list_Nil [simp]: "bt_from_list [] = []"
  by (simp add: bt_from_list_def)

lemma bt_from_list_snoc: "bt_from_list (xs @ [(k, v)]) = bt_insert k v (bt_from_list xs)"
  by (simp add: bt_from_list_def)

lemma bt_from_list_id: "bt_wf m \<Longrightarrow> bt_from_list m = m"
proof (rule bt_ext)
  assume m: "bt_wf m"
  then have "map_of (rev m) = map_of m"
    by (intro map_of_inject_set [THEN iffD2]) (simp_all add: bt_wf_distinct rev_map [symmetric])
  moreover have "bt_get (bt_from_list m) = map_of (rev m)"
    unfolding bt_from_list_def by (subst bt.get_fold_ins) (simp_all add: bt_get_def [abs_def] map_add_def)
  ultimately show "bt_get (bt_from_list m) = bt_get m"
    by (simp add: bt_get_def [abs_def])
qed simp_all

subsection \<open>A table read through its key\<close>

text \<open>
  The rows of a table whose column \<open>key\<close> is unique, as a map; reading them with \<open>ORDER BY key\<close>
  gives exactly its entries.
\<close>

definition bt_of_rows :: "('r \<Rightarrow> 'k::linorder) \<Rightarrow> ('r \<Rightarrow> 'v) \<Rightarrow> 'r list \<Rightarrow> ('k, 'v) btree" where
  "bt_of_rows key val rows = foldr (\<lambda>r. bt_insert (key r) (val r)) rows []"

lemma bt_wf_of_rows [simp]: "bt_wf (bt_of_rows key val rows)"
  by (simp add: bt_of_rows_def bt.wf_foldr_ins)

lemma bt_get_of_rows: "bt_get (bt_of_rows key val rows) k = map_option val (find (\<lambda>r. key r = k) rows)"
  by (simp add: bt_of_rows_def bt.get_foldr_ins)

lemma find_unique:
  "distinct (map key rows) \<Longrightarrow> r \<in> set rows \<Longrightarrow> find (\<lambda>x. key x = key r) rows = Some r"
  by (induction rows) auto

lemma find_key_Some: "find (\<lambda>x. key x = k) rows = Some r \<Longrightarrow> r \<in> set rows \<and> key r = k"
  by (auto simp: find_Some_iff)

lemma bt_of_rows_sort:
  assumes "distinct (map key rows)"
  shows "map (\<lambda>r. (key r, val r)) (sort_key key rows) = bt_of_rows key val rows"
proof (rule bt_ext)
  have d: "distinct (map key (sort_key key rows))"
    using assms by (simp add: distinct_map)
  have k: "map fst (map (\<lambda>r. (key r, val r)) (sort_key key rows)) = map key (sort_key key rows)"
    by simp
  show "bt_wf (map (\<lambda>r. (key r, val r)) (sort_key key rows))"
    unfolding bt_wf_def strict_sorted_iff k using d by simp
  show "bt_get (map (\<lambda>r. (key r, val r)) (sort_key key rows)) = bt_get (bt_of_rows key val rows)"
  proof
    fix x
    have "map_of (map (\<lambda>r. (key r, val r)) rs) x = map_option val (find (\<lambda>r. key r = x) rs)" for rs
      by (induction rs) auto
    moreover have "find (\<lambda>r. key r = x) (sort_key key rows) = find (\<lambda>r. key r = x) rows"
    proof (cases "find (\<lambda>r. key r = x) rows")
      case None
      then have "find (\<lambda>r. key r = x) (sort_key key rows) = None" by (simp add: find_None_iff)
      with None show ?thesis by simp
    next
      case (Some r)
      then have "r \<in> set (sort_key key rows)" "key r = x" by (auto dest: find_key_Some)
      with find_unique [OF d] Some show ?thesis by auto
    qed
    ultimately show "bt_get (map (\<lambda>r. (key r, val r)) (sort_key key rows)) x =
        bt_get (bt_of_rows key val rows) x"
      unfolding bt_get_of_rows by (simp add: bt_get_def)
  qed
qed simp

text \<open>What \<open>INSERT\<close>, \<open>UPDATE\<close>, \<open>DELETE\<close> and a filter do to the map of a table.\<close>

lemma find_append: "find P (xs @ ys) = (case find P xs of None \<Rightarrow> find P ys | Some x \<Rightarrow> Some x)"
  by (induction xs) auto

lemma find_filter: "(\<And>x. x \<in> set xs \<Longrightarrow> P x \<Longrightarrow> Q x) \<Longrightarrow> find P (filter Q xs) = find P xs"
  by (induction xs) auto

lemma find_filter_None: "(\<And>x. x \<in> set xs \<Longrightarrow> P x \<Longrightarrow> \<not> Q x) \<Longrightarrow> find P (filter Q xs) = None"
  by (auto simp: find_None_iff)

lemma bt_of_rows_replace:
  "bt_of_rows key val (filter (\<lambda>x. key x \<noteq> key r) rows @ [r]) = bt_insert (key r) (val r) (bt_of_rows key val rows)"
proof (rule bt_ext)
  show "bt_get (bt_of_rows key val (filter (\<lambda>x. key x \<noteq> key r) rows @ [r])) =
      bt_get (bt_insert (key r) (val r) (bt_of_rows key val rows))"
  proof
    fix k
    show "bt_get (bt_of_rows key val (filter (\<lambda>x. key x \<noteq> key r) rows @ [r])) k =
        bt_get (bt_insert (key r) (val r) (bt_of_rows key val rows)) k"
      by (cases "k = key r") (auto simp: bt_get_insert bt_get_of_rows find_append find_filter find_filter_None
          split: option.splits)
  qed
qed (simp_all add: bt_wf_insert)

lemma bt_of_rows_append:
  "key r \<notin> key ` set rows \<Longrightarrow> bt_of_rows key val (rows @ [r]) = bt_insert (key r) (val r) (bt_of_rows key val rows)"
  using bt_of_rows_replace [of key val r rows] by (metis (mono_tags, lifting) filter_True image_eqI)

lemma find_update:
  "find (\<lambda>x. key x = k) (map (\<lambda>x. if key x = key r then r else x) rows) =
     (if k = key r \<and> key r \<in> key ` set rows then Some r else find (\<lambda>x. key x = k) rows)"
proof (induction rows)
  case (Cons x rows)
  then show ?case by (cases "key x = key r"; cases "key x = k") auto
qed simp

lemma bt_of_rows_update:
  assumes "key r \<in> key ` set rows"
  shows "bt_of_rows key val (map (\<lambda>x. if key x = key r then r else x) rows) =
    bt_insert (key r) (val r) (bt_of_rows key val rows)"
proof (rule bt_ext)
  show "bt_get (bt_of_rows key val (map (\<lambda>x. if key x = key r then r else x) rows)) =
      bt_get (bt_insert (key r) (val r) (bt_of_rows key val rows))"
    unfolding bt_get_insert [OF bt_wf_of_rows]
  proof
    fix k
    show "bt_get (bt_of_rows key val (map (\<lambda>x. if key x = key r then r else x) rows)) k =
        ((bt_get (bt_of_rows key val rows))(key r \<mapsto> val r)) k"
      unfolding bt_get_of_rows find_update using assms by (simp add: bt_get_of_rows)
  qed
qed (simp_all add: bt_wf_insert)

lemma find_delete:
  "find (\<lambda>x. key x = j) (filter (\<lambda>x. key x \<noteq> k) rows) = (if j = k then None else find (\<lambda>x. key x = j) rows)"
  by (induction rows) auto

lemma bt_of_rows_delete:
  "bt_of_rows key val (filter (\<lambda>x. key x \<noteq> k) rows) = bt_remove k (bt_of_rows key val rows)"
proof (rule bt_ext)
  show "bt_get (bt_of_rows key val (filter (\<lambda>x. key x \<noteq> k) rows)) = bt_get (bt_remove k (bt_of_rows key val rows))"
  proof
    fix j
    show "bt_get (bt_of_rows key val (filter (\<lambda>x. key x \<noteq> k) rows)) j = bt_get (bt_remove k (bt_of_rows key val rows)) j"
      unfolding bt_get_remove bt_get_of_rows find_delete by (simp add: bt_get_of_rows)
  qed
qed (simp_all add: bt_wf_remove)

lemma bt_of_rows_filter:
  assumes "distinct (map key rows)"
  shows "bt_of_rows key val (filter P rows) = filter (\<lambda>e. \<exists>r \<in> set rows. P r \<and> e = (key r, val r)) (bt_of_rows key val rows)"
proof -
  have d: "distinct (map key (filter P rows))" using assms by (simp add: distinct_map inj_on_def)
  have "filter (\<lambda>e. \<exists>r \<in> set rows. P r \<and> e = (key r, val r)) (map (\<lambda>r. (key r, val r)) (sort_key key rows)) =
      map (\<lambda>r. (key r, val r)) (filter P (sort_key key rows))"
    unfolding filter_map
  proof (intro arg_cong [where f = "map _"] filter_cong refl)
    fix x assume x: "x \<in> set (sort_key key rows)"
    have *: "P x" if "r \<in> set rows" "P r" "key x = key r" for r
      using assms x that inj_onD [of key "set rows" x r] by (simp add: distinct_map)
    show "((\<lambda>e. \<exists>r \<in> set rows. P r \<and> e = (key r, val r)) \<circ> (\<lambda>r. (key r, val r))) x = P x"
      using x by (auto intro: *)
  qed
  then show ?thesis
    by (simp add: bt_of_rows_sort [OF d, symmetric] bt_of_rows_sort [OF assms, symmetric] filter_sort)
qed

lemma bt_of_rows_cong:
  "(\<And>r. r \<in> set rows \<Longrightarrow> key r = key' r \<and> val r = val' r) \<Longrightarrow> bt_of_rows key val rows = bt_of_rows key' val' rows"
  unfolding bt_of_rows_def by (induction rows) auto

end
