(* ===== verification/Rust_Str.thy ===== *)
theory Rust_Str
  imports Prelude
begin

section \<open>Rust strings, bytes and number parsing\<close>

text \<open>
  A Rust \<open>String\<close> is its UTF-8 bytes: HOL's \<open>char\<close> is a byte, so \<open>length\<close> is \<open>str::len\<close>,
  the list order is the bytewise order of \<open>str::cmp\<close>, and \<open>as_bytes\<close> is the identity.
  The functions below are the parts of \<open>std::str\<close>, \<open>u8\<close> and \<open>FromStr\<close> that the source uses.
\<close>

type_synonym bytes = string

abbreviation byte :: "char \<Rightarrow> nat" where
  "byte \<equiv> of_char"

subsection \<open>ASCII classes\<close>

definition is_ascii_digit :: "char \<Rightarrow> bool" where
  "is_ascii_digit c \<longleftrightarrow> 48 \<le> byte c \<and> byte c \<le> 57"

definition is_ascii_lowercase :: "char \<Rightarrow> bool" where
  "is_ascii_lowercase c \<longleftrightarrow> 97 \<le> byte c \<and> byte c \<le> 122"

definition is_ascii_uppercase :: "char \<Rightarrow> bool" where
  "is_ascii_uppercase c \<longleftrightarrow> 65 \<le> byte c \<and> byte c \<le> 90"

definition is_ascii_alphanumeric :: "char \<Rightarrow> bool" where
  "is_ascii_alphanumeric c \<longleftrightarrow> is_ascii_digit c \<or> is_ascii_lowercase c \<or> is_ascii_uppercase c"

definition is_ascii_hexdigit :: "char \<Rightarrow> bool" where
  "is_ascii_hexdigit c \<longleftrightarrow>
     is_ascii_digit c \<or> 97 \<le> byte c \<and> byte c \<le> 102 \<or> 65 \<le> byte c \<and> byte c \<le> 70"

text \<open>Printable ASCII without the space; such bytes are never trimmed.\<close>

definition is_ascii_graphic :: "char \<Rightarrow> bool" where
  "is_ascii_graphic c \<longleftrightarrow> 33 \<le> byte c \<and> byte c \<le> 126"

lemma byte_less_256 [simp]: "byte c < 256"
  using of_char_mod_256 [of c, where 'a = nat] by (metis mod_less_divisor zero_less_numeral)

lemma char_of_byte [simp]: "char_of (byte c) = c"
  by (rule char_of_char)

lemma byte_char_of: "n < 256 \<Longrightarrow> byte (char_of n) = n"
  by (simp add: of_char_of)

lemma byte_inj [simp]: "byte a = byte b \<longleftrightarrow> a = b"
  by simp

definition to_ascii_lowercase_c :: "char \<Rightarrow> char" where
  "to_ascii_lowercase_c c = (if is_ascii_uppercase c then char_of (byte c + 32) else c)"

definition to_ascii_lowercase :: "string \<Rightarrow> string" where
  "to_ascii_lowercase s = map to_ascii_lowercase_c s"

definition eq_ignore_ascii_case :: "string \<Rightarrow> string \<Rightarrow> bool" where
  "eq_ignore_ascii_case a b \<longleftrightarrow> to_ascii_lowercase a = to_ascii_lowercase b"

lemma lowercase_c_not_upper [simp]: "\<not> is_ascii_uppercase (to_ascii_lowercase_c c)"
  by (auto simp: to_ascii_lowercase_c_def is_ascii_uppercase_def byte_char_of)

lemma lowercase_c_id: "\<not> is_ascii_uppercase c \<Longrightarrow> to_ascii_lowercase_c c = c"
  by (simp add: to_ascii_lowercase_c_def)

lemma to_ascii_lowercase_idem [simp]:
  "to_ascii_lowercase (to_ascii_lowercase s) = to_ascii_lowercase s"
  by (simp add: to_ascii_lowercase_def lowercase_c_id)

lemma to_ascii_lowercase_id: "(\<And>c. c \<in> set s \<Longrightarrow> \<not> is_ascii_uppercase c) \<Longrightarrow> to_ascii_lowercase s = s"
  by (simp add: to_ascii_lowercase_def map_idI lowercase_c_id)

lemma length_to_ascii_lowercase [simp]: "length (to_ascii_lowercase s) = length s"
  by (simp add: to_ascii_lowercase_def)

lemma hexdigit_lowercase [simp]: "is_ascii_hexdigit (to_ascii_lowercase_c c) = is_ascii_hexdigit c"
  by (auto simp: is_ascii_hexdigit_def is_ascii_digit_def to_ascii_lowercase_c_def
      is_ascii_uppercase_def byte_char_of)

subsection \<open>Prefixes, searching and splitting\<close>

text \<open>\<open>str::strip_prefix\<close> (the pattern first).\<close>

fun strip_prefix :: "'a list \<Rightarrow> 'a list \<Rightarrow> 'a list option" where
  "strip_prefix [] s = Some s"
| "strip_prefix (p # ps) [] = None"
| "strip_prefix (p # ps) (c # s) = (if p = c then strip_prefix ps s else None)"

lemma strip_prefix_Some_iff [simp]: "strip_prefix p s = Some r \<longleftrightarrow> s = p @ r"
  by (induction p s rule: strip_prefix.induct) auto

lemma strip_prefix_None_iff: "strip_prefix p s = None \<longleftrightarrow> \<not> prefix p s"
  by (induction p s rule: strip_prefix.induct) auto

lemma strip_prefix_append [simp]: "strip_prefix p (p @ r) = Some r"
  by simp

text \<open>\<open>str::find\<close> of a substring: the byte offset of its first occurrence.\<close>

fun str_find :: "'a list \<Rightarrow> 'a list \<Rightarrow> nat option" where
  "str_find p s = (if prefix p s then Some 0
     else (case s of [] \<Rightarrow> None | _ # s' \<Rightarrow> map_option Suc (str_find p s')))"

declare str_find.simps [simp del]

lemma str_find_Some:
  "str_find p s = Some i \<Longrightarrow> \<exists>b. s = take i s @ p @ b \<and> i + length p \<le> length s"
proof (induction s arbitrary: i)
  case Nil
  then show ?case by (auto simp: str_find.simps [of p "[]"] prefix_def split: if_splits)
next
  case (Cons c s)
  show ?case
  proof (cases "prefix p (c # s)")
    case True
    with Cons.prems have "i = 0" by (simp add: str_find.simps [of p "c # s"])
    with True show ?thesis by (auto simp: prefix_def dest: arg_cong [where f = length])
  next
    case False
    with Cons.prems obtain j where j: "str_find p s = Some j" "i = Suc j"
      by (auto simp: str_find.simps [of p "c # s"])
    from Cons.IH [OF j(1)] j(2) show ?thesis by auto
  qed
qed

lemma str_find_least:
  "str_find p s = Some i \<Longrightarrow> j < i \<Longrightarrow> \<not> prefix p (drop j s)"
proof (induction s arbitrary: i j)
  case Nil
  then show ?case by (auto simp: str_find.simps [of p "[]"] split: if_splits)
next
  case (Cons c s)
  then have np: "\<not> prefix p (c # s)" and "\<exists>k. str_find p s = Some k \<and> i = Suc k"
    by (auto simp: str_find.simps [of p "c # s"] split: if_splits)
  then obtain k where k: "str_find p s = Some k" "i = Suc k" by blast
  show ?case
  proof (cases j)
    case 0
    with np show ?thesis by simp
  next
    case (Suc j')
    with Cons.IH [OF k(1), of j'] k(2) Cons.prems(2) show ?thesis by simp
  qed
qed

lemma str_find_None_iff: "str_find p s = None \<longleftrightarrow> \<not> sublist p s"
proof (induction s)
  case Nil
  then show ?case by (auto simp: str_find.simps [of p "[]"])
next
  case (Cons c s)
  then show ?case by (auto simp: str_find.simps [of p "c # s"] sublist_Cons_right)
qed

text \<open>The first occurrence depends on the text up to its end only.\<close>

lemma str_find_append:
  assumes "str_find p s = Some i" and "length s' \<ge> i + length p" and "prefix s' s"
  shows "str_find p s' = Some i"
  using assms
proof (induction s arbitrary: i s')
  case Nil
  then show ?case by (auto simp: str_find.simps split: if_splits)
next
  case (Cons c s)
  show ?case
  proof (cases "prefix p (c # s)")
    case True
    with Cons.prems have "i = 0" by (simp add: str_find.simps [of p "c # s"])
    moreover from True Cons.prems this have "prefix p s'"
      by (metis add_0 prefix_length_prefix)
    ultimately show ?thesis by (simp add: str_find.simps [of p s'])
  next
    case False
    with Cons.prems obtain j where j: "str_find p s = Some j" "i = Suc j"
      by (auto simp: str_find.simps [of p "c # s"])
    from Cons.prems(2,3) j obtain t where t: "s' = c # t" "prefix t s"
      by (cases s') auto
    have "str_find p t = Some j"
      using Cons.IH [OF j(1) _ t(2)] Cons.prems(2) j(2) t(1) by simp
    moreover have "\<not> prefix p s'"
      using False Cons.prems(3) prefix_order.trans by blast
    ultimately show ?thesis using t(1) j(2) by (simp add: str_find.simps [of p "c # t"])
  qed
qed

text \<open>\<open>str::split_once\<close>, \<open>str::split\<close> and \<open>str::contains\<close> with a one-byte separator.\<close>

fun split_once :: "char \<Rightarrow> string \<Rightarrow> (string \<times> string) option" where
  "split_once c [] = None"
| "split_once c (x # s) =
     (if x = c then Some ([], s)
      else map_option (\<lambda>(a, b). (x # a, b)) (split_once c s))"

lemma split_once_Some_iff: "split_once c s = Some (a, b) \<longleftrightarrow> s = a @ c # b \<and> c \<notin> set a"
proof (induction s arbitrary: a)
  case (Cons x s)
  show ?case by (cases a) (auto simp: Cons.IH)
qed simp

lemma split_once_None_iff: "split_once c s = None \<longleftrightarrow> c \<notin> set s"
  by (induction s) auto

lemma split_once_append [simp]: "c \<notin> set a \<Longrightarrow> split_once c (a @ c # b) = Some (a, b)"
  by (simp add: split_once_Some_iff)

fun split_c :: "char \<Rightarrow> string \<Rightarrow> string list" where
  "split_c c [] = [[]]"
| "split_c c (x # s) =
     (if x = c then [] # split_c c s
      else (case split_c c s of [] \<Rightarrow> [[x]] | p # ps \<Rightarrow> (x # p) # ps))"

lemma split_c_ne [simp]: "split_c c s \<noteq> []"
  by (induction s) (auto split: list.splits)

fun join :: "string \<Rightarrow> string list \<Rightarrow> string" where
  "join sep [] = []"
| "join sep [x] = x"
| "join sep (x # y # xs) = x @ sep @ join sep (y # xs)"

lemma split_c_no_sep: "c \<notin> set a \<Longrightarrow> split_c c a = [a]"
  by (induction a) auto

lemma split_c_append: "c \<notin> set a \<Longrightarrow> split_c c (a @ c # b) = a # split_c c b"
  by (induction a) auto

lemma split_c_join:
  "xs \<noteq> [] \<Longrightarrow> (\<And>x. x \<in> set xs \<Longrightarrow> c \<notin> set x) \<Longrightarrow> split_c c (join [c] xs) = xs"
  by (induction "[c]" xs rule: join.induct) (auto simp: split_c_no_sep split_c_append)

lemma join_split_c: "join [c] (split_c c s) = s"
proof (induction s)
  case (Cons x s)
  then show ?case by (cases "split_c c s") (auto, (metis join.simps(2,3) list.exhaust append_Cons)+)
qed simp

lemma split_c_sep_free: "p \<in> set (split_c c s) \<Longrightarrow> c \<notin> set p"
  by (induction s arbitrary: p) (auto split: list.splits if_splits)

lemma split_c_subset: "p \<in> set (split_c c s) \<Longrightarrow> set p \<subseteq> set s"
proof (induction s arbitrary: p)
  case (Cons x s)
  then show ?case by (cases "split_c c s") (auto split: if_splits, fastforce+)
qed simp

end
