(* ===== verification/Rust_Text.thy ===== *)
theory Rust_Text
  imports Rust_Str
begin

section \<open>Trimming, UTF-8 and number parsing\<close>

text \<open>
  The parts of the standard library that look inside characters: \<open>str::trim\<close> (Unicode white
  space, by its UTF-8 encodings), \<open>split_ascii_whitespace\<close>, \<open>str::from_utf8\<close> and
  \<open>String::from_utf8_lossy\<close>, and \<open>FromStr\<close> and \<open>from_str_radix\<close> of the integer types.
\<close>

subsection \<open>Trimming\<close>

text \<open>The byte length of the white-space character at the front of \<open>s\<close>, 0 when there is none.\<close>

definition ws_len :: "string \<Rightarrow> nat" where
  "ws_len s = (case s of [] \<Rightarrow> 0
     | a # r \<Rightarrow>
       if byte a = 32 \<or> 9 \<le> byte a \<and> byte a \<le> 13 then 1
       else (case r of [] \<Rightarrow> 0
         | b # r2 \<Rightarrow>
           if byte a = 194 \<and> (byte b = 133 \<or> byte b = 160) then 2
           else (case r2 of [] \<Rightarrow> 0
             | c # _ \<Rightarrow>
               if byte a = 225 \<and> byte b = 154 \<and> byte c = 128
                 \<or> byte a = 226 \<and> byte b = 128 \<and>
                     (128 \<le> byte c \<and> byte c \<le> 138 \<or> byte c = 168 \<or> byte c = 169 \<or> byte c = 175)
                 \<or> byte a = 226 \<and> byte b = 129 \<and> byte c = 159
                 \<or> byte a = 227 \<and> byte b = 128 \<and> byte c = 128
               then 3 else 0)))"

lemma ws_len_Nil [simp]: "ws_len [] = 0"
  by (simp add: ws_len_def)

lemma ws_len_graphic [simp]: "is_ascii_graphic c \<Longrightarrow> ws_len (c # s) = 0"
  by (auto simp: ws_len_def is_ascii_graphic_def split: list.splits)

lemma ws_len_le: "ws_len s \<le> length s"
  by (auto simp: ws_len_def split: list.splits)

function trim_start :: "string \<Rightarrow> string" where
  "trim_start s = (if ws_len s = 0 then s else trim_start (drop (ws_len s) s))"
  by pat_completeness auto
termination
  by (relation "measure length") (auto simp: ws_len_def split: list.splits if_splits)

declare trim_start.simps [simp del]

text \<open>
  From the end: the last character is white space when the last one, two or three bytes are one of
  the encodings above (in valid UTF-8 a lead byte never occurs inside a character).
\<close>

definition ws_end_len :: "string \<Rightarrow> nat" where
  "ws_end_len s =
     (if 1 \<le> length s \<and> ws_len (drop (length s - 1) s) = 1 then 1
      else if 2 \<le> length s \<and> ws_len (drop (length s - 2) s) = 2 then 2
      else if 3 \<le> length s \<and> ws_len (drop (length s - 3) s) = 3 then 3 else 0)"

function trim_end :: "string \<Rightarrow> string" where
  "trim_end s = (if ws_end_len s = 0 then s else trim_end (take (length s - ws_end_len s) s))"
  by pat_completeness auto
termination
  by (relation "measure length") (auto simp: ws_end_len_def split: if_splits)

declare trim_end.simps [simp del]

definition trim :: "string \<Rightarrow> string" where
  "trim s = trim_end (trim_start s)"

lemma trim_start_id: "ws_len s = 0 \<Longrightarrow> trim_start s = s"
  by (simp add: trim_start.simps [of s])

lemma trim_end_id: "ws_end_len s = 0 \<Longrightarrow> trim_end s = s"
  by (simp add: trim_end.simps [of s])

lemma ws_end_len_graphic:
  assumes "s \<noteq> []" and "is_ascii_graphic (last s)"
  shows "ws_end_len s = 0"
proof -
  obtain t c where s: "s = t @ [c]" by (metis assms(1) rev_exhaust)
  have c: "33 \<le> byte c" "byte c \<le> 126" using assms(2) s by (auto simp: is_ascii_graphic_def)
  have one: "ws_len [c] \<noteq> 1" using c by (simp add: ws_len_def)
  have two: "ws_len [b, c] \<noteq> 2" for b using c by (simp add: ws_len_def)
  have three: "ws_len [a, b, c] \<noteq> 3" for a b using c by (simp add: ws_len_def)
  show ?thesis
  proof (cases t rule: rev_cases)
    case Nil
    with s one show ?thesis by (simp add: ws_end_len_def)
  next
    case (snoc t' b)
    then show ?thesis using s one two three
      by (cases t' rule: rev_cases) (simp_all add: ws_end_len_def)
  qed
qed

text \<open>A text that starts and ends with printable ASCII is left alone.\<close>

lemma trim_id:
  assumes "s \<noteq> [] \<Longrightarrow> is_ascii_graphic (hd s)" and "s \<noteq> [] \<Longrightarrow> is_ascii_graphic (last s)"
  shows "trim s = s"
proof (cases s)
  case Nil
  then show ?thesis by (simp add: trim_def trim_start_id trim_end_id ws_end_len_def)
next
  case (Cons c t)
  with assms(1) have "trim_start s = s" by (simp add: trim_start_id)
  moreover have "trim_end s = s"
    using assms(2) Cons by (intro trim_end_id ws_end_len_graphic) auto
  ultimately show ?thesis by (simp add: trim_def)
qed

lemma trim_graphic: "(\<And>c. c \<in> set s \<Longrightarrow> is_ascii_graphic c) \<Longrightarrow> trim s = s"
  by (rule trim_id) auto

lemma trim_space_left: "trim (CHR '' '' # s) = trim s"
proof -
  have "ws_len (CHR '' '' # s) = 1" by (simp add: ws_len_def)
  then have "trim_start (CHR '' '' # s) = trim_start s" by (simp add: trim_start.simps [of "_ # s"])
  then show ?thesis by (simp add: trim_def)
qed

lemma trim_start_suffix: "suffix (trim_start s) s"
proof (induction s rule: trim_start.induct)
  case (1 s)
  then show ?case
    by (metis suffix_drop suffix_order.order_refl suffix_order.trans trim_start.simps)
qed

lemma trim_end_prefix: "prefix (trim_end s) s"
proof (induction s rule: trim_end.induct)
  case (1 s)
  then show ?case
    by (metis take_is_prefix prefix_order.order_refl prefix_order.trans trim_end.simps)
qed

lemma set_trim_subset: "set (trim s) \<subseteq> set s"
  unfolding trim_def
  by (meson set_mono_prefix set_mono_suffix trim_end_prefix trim_start_suffix subset_trans)

text \<open>\<open>str::split_ascii_whitespace\<close>: runs of bytes between ASCII white space.\<close>

definition is_ascii_whitespace :: "char \<Rightarrow> bool" where
  "is_ascii_whitespace c \<longleftrightarrow> byte c = 32 \<or> byte c = 9 \<or> byte c = 10 \<or> byte c = 12 \<or> byte c = 13"

function split_ascii_whitespace :: "string \<Rightarrow> string list" where
  "split_ascii_whitespace s =
     (let t = dropWhile is_ascii_whitespace s in
      if t = [] then []
      else takeWhile (\<lambda>c. \<not> is_ascii_whitespace c) t
             # split_ascii_whitespace (dropWhile (\<lambda>c. \<not> is_ascii_whitespace c) t))"
  by pat_completeness auto
termination
proof (relation "measure length")
  fix s t :: string
  assume t: "t = dropWhile is_ascii_whitespace s" and ne: "t \<noteq> []"
  then have "\<not> is_ascii_whitespace (hd t)" by (simp add: hd_dropWhile)
  with ne have "length (dropWhile (\<lambda>c. \<not> is_ascii_whitespace c) t) < length t"
    by (cases t) (auto simp: le_imp_less_Suc length_dropWhile_le)
  also have "length t \<le> length s" by (simp add: t length_dropWhile_le)
  finally show "(dropWhile (\<lambda>c. \<not> is_ascii_whitespace c) t, s) \<in> measure length" by simp
qed simp

declare split_ascii_whitespace.simps [simp del]

subsection \<open>UTF-8\<close>

definition is_cont :: "char \<Rightarrow> bool" where
  "is_cont c \<longleftrightarrow> 128 \<le> byte c \<and> byte c \<le> 191"

text \<open>
  One step of the decoder of \<open>core::str\<close>: how many bytes the next character takes and whether they
  are one; for an ill-formed sequence, the length of the part that one replacement character
  stands for.
\<close>

definition second_ok :: "nat \<Rightarrow> nat \<Rightarrow> bool" where
  "second_ok a b \<longleftrightarrow>
     (if a = 224 then 160 \<le> b \<and> b \<le> 191
      else if a = 237 then 128 \<le> b \<and> b \<le> 159
      else if a = 240 then 144 \<le> b \<and> b \<le> 191
      else if a = 244 then 128 \<le> b \<and> b \<le> 143
      else 128 \<le> b \<and> b \<le> 191)"

definition utf8_step :: "string \<Rightarrow> nat \<times> bool" where
  "utf8_step s = (case s of [] \<Rightarrow> (0, True)
     | a # r \<Rightarrow>
       let w = (if byte a < 128 then 1 else if 194 \<le> byte a \<and> byte a \<le> 223 then 2
                else if 224 \<le> byte a \<and> byte a \<le> 239 then 3
                else if 240 \<le> byte a \<and> byte a \<le> 244 then 4 else (0::nat))
       in if w = 1 then (1, True)
          else if w = 0 then (1, False)
          else (case r of [] \<Rightarrow> (1, False)
            | b # r2 \<Rightarrow>
              if \<not> second_ok (byte a) (byte b) then (1, False)
              else if w = 2 then (2, True)
              else (case r2 of [] \<Rightarrow> (2, False)
                | c # r3 \<Rightarrow>
                  if \<not> is_cont c then (2, False)
                  else if w = 3 then (3, True)
                  else (case r3 of [] \<Rightarrow> (3, False)
                    | d # _ \<Rightarrow> if is_cont d then (4, True) else (3, False)))))"

lemma utf8_step_pos: "s \<noteq> [] \<Longrightarrow> 0 < fst (utf8_step s)"
  by (cases s) (simp_all add: utf8_step_def Let_def split: list.splits)

text \<open>\<open>str::from_utf8\<close>.\<close>

function from_utf8_ok :: "string \<Rightarrow> bool" where
  "from_utf8_ok s =
     (if s = [] then True
      else if snd (utf8_step s) then from_utf8_ok (drop (fst (utf8_step s)) s) else False)"
  by pat_completeness auto
termination
  by (relation "measure length") (simp_all add: utf8_step_pos)

declare from_utf8_ok.simps [simp del]

definition from_utf8 :: "bytes \<Rightarrow> string option" where
  "from_utf8 b = (if from_utf8_ok b then Some b else None)"

text \<open>\<open>String::from_utf8_lossy\<close>: U+FFFD for each ill-formed part.\<close>

definition replacement :: string where
  "replacement = [char_of (239::nat), char_of (191::nat), char_of (189::nat)]"

function from_utf8_lossy :: "bytes \<Rightarrow> string" where
  "from_utf8_lossy s =
     (if s = [] then []
      else (if snd (utf8_step s) then take (fst (utf8_step s)) s else replacement)
             @ from_utf8_lossy (drop (fst (utf8_step s)) s))"
  by pat_completeness auto
termination
  by (relation "measure length") (simp_all add: utf8_step_pos)

declare from_utf8_lossy.simps [simp del]

lemma from_utf8_lossy_ok: "from_utf8_ok s \<Longrightarrow> from_utf8_lossy s = s"
proof (induction s rule: from_utf8_lossy.induct)
  case (1 s)
  show ?case
  proof (cases "s = []")
    case True
    then show ?thesis by (simp add: from_utf8_lossy.simps [of "[]"])
  next
    case False
    with 1 show ?thesis
      by (simp add: from_utf8_lossy.simps [of s] from_utf8_ok.simps [of s] split: if_splits)
  qed
qed

lemma from_utf8_ok_ascii: "(\<And>c. c \<in> set s \<Longrightarrow> byte c < 128) \<Longrightarrow> from_utf8_ok s"
proof (induction s)
  case Nil
  then show ?case by (simp add: from_utf8_ok.simps [of "[]"])
next
  case (Cons c s)
  then show ?case by (simp add: from_utf8_ok.simps [of "c # s"] utf8_step_def)
qed

lemma utf8_step_append: "s \<noteq> [] \<Longrightarrow> snd (utf8_step s) \<Longrightarrow> utf8_step (s @ t) = utf8_step s"
  by (cases s) (auto simp: utf8_step_def Let_def split: list.splits if_splits)

lemma utf8_step_le: "snd (utf8_step s) \<Longrightarrow> fst (utf8_step s) \<le> length s"
  by (cases s) (auto simp: utf8_step_def Let_def split: list.splits if_splits)

lemma from_utf8_ok_append: "from_utf8_ok s \<Longrightarrow> from_utf8_ok (s @ t) \<longleftrightarrow> from_utf8_ok t"
proof (induction s rule: from_utf8_ok.induct)
  case (1 s)
  show ?case
  proof (cases "s = []")
    case False
    then have ok: "snd (utf8_step s)" "from_utf8_ok (drop (fst (utf8_step s)) s)"
      using 1(2) by (auto simp: from_utf8_ok.simps [of s] split: if_splits)
    then show ?thesis
      using False 1(1) [OF False ok] utf8_step_le [OF ok(1)]
      by (simp add: from_utf8_ok.simps [of "s @ t"] utf8_step_append)
  qed simp
qed

lemma from_utf8_ok_hd: "from_utf8_ok (c # s) \<Longrightarrow> \<not> is_cont c"
  by (auto simp: from_utf8_ok.simps [of "c # s"] utf8_step_def is_cont_def Let_def split: if_splits)

subsection \<open>Parsing and printing numbers\<close>

text \<open>\<open>char::to_digit\<close>.\<close>

definition to_digit :: "nat \<Rightarrow> char \<Rightarrow> nat option" where
  "to_digit radix c =
     (let d = (if is_ascii_digit c then byte c - 48
               else if is_ascii_lowercase c then byte c - 87
               else if is_ascii_uppercase c then byte c - 55 else 36)
      in if d < radix then Some d else None)"

fun digits_value :: "nat \<Rightarrow> nat \<Rightarrow> string \<Rightarrow> nat option" where
  "digits_value radix acc [] = Some acc"
| "digits_value radix acc (c # cs) =
     (case to_digit radix c of None \<Rightarrow> None | Some d \<Rightarrow> digits_value radix (acc * radix + d) cs)"

text \<open>
  \<open>from_str_radix\<close> of an unsigned type with \<open>bound\<close> values: an optional \<open>+\<close>, at least one digit,
  and no overflow.
\<close>

definition parse_unsigned :: "nat \<Rightarrow> nat \<Rightarrow> string \<Rightarrow> nat option" where
  "parse_unsigned radix bound s =
     (let r = (case s of [] \<Rightarrow> [] | c # cs \<Rightarrow> if c = CHR ''+'' then cs else s)
      in if r = [] then None
         else (case digits_value radix 0 r of None \<Rightarrow> None
               | Some n \<Rightarrow> if n < bound then Some n else None))"

text \<open>The signed types also take a leading minus sign.\<close>

definition parse_signed :: "nat \<Rightarrow> nat \<Rightarrow> string \<Rightarrow> int option" where
  "parse_signed radix half s =
     (case s of [] \<Rightarrow> None
      | c # cs \<Rightarrow>
        if c = CHR ''-'' then
          (if cs = [] then None
           else (case digits_value radix 0 cs of None \<Rightarrow> None
                 | Some n \<Rightarrow> if n \<le> half then Some (- int n) else None))
        else map_option int (parse_unsigned radix half s))"

lemma parse_unsigned_bound: "parse_unsigned radix bound s = Some n \<Longrightarrow> n < bound"
  by (auto simp: parse_unsigned_def Let_def split: option.splits if_splits)

lemma parse_signed_bounds:
  "parse_signed radix half s = Some i \<Longrightarrow> - int half \<le> i \<and> i < int half \<or> i = 0"
  by (auto simp: parse_signed_def dest: parse_unsigned_bound split: list.splits option.splits if_splits)

text \<open>Decimal and hexadecimal printing (\<open>Display\<close>, \<open>{:x}\<close>).\<close>

definition digit_char :: "nat \<Rightarrow> char" where
  "digit_char d = (if d < 10 then char_of (48 + d) else char_of (87 + d))"

function show_radix :: "nat \<Rightarrow> nat \<Rightarrow> string" where
  "show_radix r n = (if r < 2 \<or> n < r then [digit_char n] else show_radix r (n div r) @ [digit_char (n mod r)])"
  by pat_completeness auto
termination
  by (relation "measure snd") (auto simp: not_less)

declare show_radix.simps [simp del]

abbreviation show_nat :: "nat \<Rightarrow> string" where
  "show_nat \<equiv> show_radix 10"

definition show_int :: "int \<Rightarrow> string" where
  "show_int i = (if i < 0 then CHR ''-'' # show_nat (nat (- i)) else show_nat (nat i))"

lemma byte_digit_char: "d < 36 \<Longrightarrow> byte (digit_char d) = (if d < 10 then 48 + d else 87 + d)"
  by (simp add: digit_char_def byte_char_of)

lemma to_digit_digit_char: "d < radix \<Longrightarrow> radix \<le> 36 \<Longrightarrow> to_digit radix (digit_char d) = Some d"
  by (auto simp: to_digit_def is_ascii_digit_def is_ascii_lowercase_def byte_digit_char)

lemma digit_char_graphic: "d < 36 \<Longrightarrow> is_ascii_graphic (digit_char d)"
  by (simp add: is_ascii_graphic_def byte_digit_char)

lemma digits_value_append:
  "digits_value r acc (xs @ ys) =
     (case digits_value r acc xs of None \<Rightarrow> None | Some a \<Rightarrow> digits_value r a ys)"
  by (induction xs arbitrary: acc) (auto split: option.splits)

lemma digits_value_show: "2 \<le> r \<Longrightarrow> r \<le> 36 \<Longrightarrow> digits_value r 0 (show_radix r n) = Some n"
proof (induction r n rule: show_radix.induct)
  case (1 r n)
  show ?case
  proof (cases "n < r")
    case True
    with 1 show ?thesis by (simp add: show_radix.simps [of r n] to_digit_digit_char)
  next
    case False
    with 1 have "digits_value r 0 (show_radix r (n div r)) = Some (n div r)" by simp
    moreover have "to_digit r (digit_char (n mod r)) = Some (n mod r)"
      using 1 by (simp add: to_digit_digit_char)
    ultimately show ?thesis using False 1
      by (simp add: show_radix.simps [of r n] digits_value_append)
  qed
qed

lemma show_radix_ne [simp]: "show_radix r n \<noteq> []"
  by (simp add: show_radix.simps [of r n])

lemma show_radix_chars:
  "2 \<le> r \<Longrightarrow> r \<le> 36 \<Longrightarrow> c \<in> set (show_radix r n) \<Longrightarrow> \<exists>d<r. c = digit_char d"
proof (induction r n rule: show_radix.induct)
  case (1 r n)
  show ?case
  proof (cases "n < r")
    case True
    with 1 show ?thesis by (auto simp: show_radix.simps [of r n])
  next
    case False
    with 1 consider "c \<in> set (show_radix r (n div r))" | "c = digit_char (n mod r)"
      by (auto simp: show_radix.simps [of r n])
    then show ?thesis
    proof cases
      case 1
      with "1.IH" "1.prems" False show ?thesis by auto
    next
      case 2
      with "1.prems" show ?thesis by (intro exI [of _ "n mod r"]) simp
    qed
  qed
qed

lemma show_radix_graphic:
  "2 \<le> r \<Longrightarrow> r \<le> 36 \<Longrightarrow> c \<in> set (show_radix r n) \<Longrightarrow> is_ascii_graphic c"
  using show_radix_chars digit_char_graphic by fastforce

lemma digit_char_not_plus: "d < 36 \<Longrightarrow> digit_char d \<noteq> CHR ''+''"
  by (auto dest: arg_cong [where f = byte] simp: byte_digit_char split: if_splits)

theorem parse_show_radix:
  assumes "2 \<le> r" and "r \<le> 36" and "n < bound"
  shows "parse_unsigned r bound (show_radix r n) = Some n"
proof -
  obtain c cs where c: "show_radix r n = c # cs" by (cases "show_radix r n") auto
  with assms have "c \<noteq> CHR ''+''"
    by (metis digit_char_not_plus list.set_intros(1) order_less_le_trans show_radix_chars)
  with c show ?thesis
    using digits_value_show [OF assms(1,2), of n] assms(3) by (simp add: parse_unsigned_def)
qed

end
