(* ===== verification/Rgw_Error.thy ===== *)
theory Rgw_Error
  imports Rust_Text
begin

section \<open>\<open>rgw-types/src/error.rs\<close>: the error table\<close>

text \<open>
  \<open>RgwError\<close> with its S3 code, its HTTP status and its \<open>Display\<close> text (the \<open>#[error]\<close> strings).
\<close>

datatype rgw_error =
    AccessDenied
  | InvalidAccessKeyId
  | SignatureDoesNotMatch
  | RequestTimeTooSkewed
  | AuthorizationHeaderMalformed string
  | XAmzContentSha256Mismatch
  | BadDigest
  | InvalidDigest
  | UserSuspended
  | EntityTooLarge
  | MissingContentLength
  | NoSuchUser
  | UserAlreadyExists
  | KeyExists
  | NoSuchBucket
  | BucketAlreadyExists
  | BucketAlreadyOwnedByYou
  | BucketNotEmpty
  | InvalidBucketName
  | TooManyBuckets
  | NoSuchKey
  | InvalidRange
  | InvalidArgument string
  | InvalidRequest string
  | MalformedXml
  | MethodNotAllowed
  | NotImplemented
  | InternalError string

type_synonym 'a rgw_result = "rgw_error + 'a"
type_synonym ('s, 'a) rgw_act = "('s, rgw_error, 'a) act"

fun error_display :: "rgw_error \<Rightarrow> string" where
  "error_display AccessDenied = ''access denied''"
| "error_display InvalidAccessKeyId = ''invalid access key id''"
| "error_display SignatureDoesNotMatch = ''signature does not match''"
| "error_display RequestTimeTooSkewed = ''request time too skewed''"
| "error_display (AuthorizationHeaderMalformed m) = ''authorization header malformed: '' @ m"
| "error_display XAmzContentSha256Mismatch = ''x-amz-content-sha256 does not match the payload''"
| "error_display BadDigest = ''content-md5 does not match the payload''"
| "error_display InvalidDigest = ''content-md5 is not valid base64''"
| "error_display UserSuspended = ''user suspended''"
| "error_display EntityTooLarge = ''entity too large''"
| "error_display MissingContentLength = ''missing content length''"
| "error_display NoSuchUser = ''no such user''"
| "error_display UserAlreadyExists = ''user already exists''"
| "error_display KeyExists = ''access key already exists''"
| "error_display NoSuchBucket = ''no such bucket''"
| "error_display BucketAlreadyExists = ''bucket already exists''"
| "error_display BucketAlreadyOwnedByYou = ''bucket already owned by you''"
| "error_display BucketNotEmpty = ''bucket not empty''"
| "error_display InvalidBucketName = ''invalid bucket name''"
| "error_display TooManyBuckets = ''too many buckets''"
| "error_display NoSuchKey = ''no such key''"
| "error_display InvalidRange = ''invalid range''"
| "error_display (InvalidArgument m) = ''invalid argument: '' @ m"
| "error_display (InvalidRequest m) = ''invalid request: '' @ m"
| "error_display MalformedXml = ''malformed xml''"
| "error_display MethodNotAllowed = ''method not allowed''"
| "error_display NotImplemented = ''not implemented''"
| "error_display (InternalError m) = ''internal error: '' @ m"

fun error_code :: "rgw_error \<Rightarrow> string" where
  "error_code AccessDenied = ''AccessDenied''"
| "error_code InvalidAccessKeyId = ''InvalidAccessKeyId''"
| "error_code SignatureDoesNotMatch = ''SignatureDoesNotMatch''"
| "error_code RequestTimeTooSkewed = ''RequestTimeTooSkewed''"
| "error_code (AuthorizationHeaderMalformed _) = ''AuthorizationHeaderMalformed''"
| "error_code XAmzContentSha256Mismatch = ''XAmzContentSHA256Mismatch''"
| "error_code BadDigest = ''BadDigest''"
| "error_code InvalidDigest = ''InvalidDigest''"
| "error_code UserSuspended = ''UserSuspended''"
| "error_code EntityTooLarge = ''EntityTooLarge''"
| "error_code MissingContentLength = ''MissingContentLength''"
| "error_code NoSuchUser = ''NoSuchUser''"
| "error_code UserAlreadyExists = ''UserAlreadyExists''"
| "error_code KeyExists = ''KeyExists''"
| "error_code NoSuchBucket = ''NoSuchBucket''"
| "error_code BucketAlreadyExists = ''BucketAlreadyExists''"
| "error_code BucketAlreadyOwnedByYou = ''BucketAlreadyOwnedByYou''"
| "error_code BucketNotEmpty = ''BucketNotEmpty''"
| "error_code InvalidBucketName = ''InvalidBucketName''"
| "error_code TooManyBuckets = ''TooManyBuckets''"
| "error_code NoSuchKey = ''NoSuchKey''"
| "error_code InvalidRange = ''InvalidRange''"
| "error_code (InvalidArgument _) = ''InvalidArgument''"
| "error_code (InvalidRequest _) = ''InvalidRequest''"
| "error_code MalformedXml = ''MalformedXML''"
| "error_code MethodNotAllowed = ''MethodNotAllowed''"
| "error_code NotImplemented = ''NotImplemented''"
| "error_code (InternalError _) = ''InternalError''"

fun http_status :: "rgw_error \<Rightarrow> nat" where
  "http_status AccessDenied = 403"
| "http_status InvalidAccessKeyId = 403"
| "http_status SignatureDoesNotMatch = 403"
| "http_status RequestTimeTooSkewed = 403"
| "http_status UserSuspended = 403"
| "http_status (AuthorizationHeaderMalformed _) = 400"
| "http_status XAmzContentSha256Mismatch = 400"
| "http_status BadDigest = 400"
| "http_status InvalidDigest = 400"
| "http_status EntityTooLarge = 400"
| "http_status InvalidBucketName = 400"
| "http_status TooManyBuckets = 400"
| "http_status (InvalidArgument _) = 400"
| "http_status (InvalidRequest _) = 400"
| "http_status MalformedXml = 400"
| "http_status NoSuchUser = 404"
| "http_status NoSuchBucket = 404"
| "http_status NoSuchKey = 404"
| "http_status MethodNotAllowed = 405"
| "http_status MissingContentLength = 411"
| "http_status UserAlreadyExists = 409"
| "http_status KeyExists = 409"
| "http_status BucketAlreadyExists = 409"
| "http_status BucketAlreadyOwnedByYou = 409"
| "http_status BucketNotEmpty = 409"
| "http_status InvalidRange = 416"
| "http_status (InternalError _) = 500"
| "http_status NotImplemented = 501"

text \<open>\<open>RgwError::internal\<close>, given the wrapped error's \<open>Display\<close> text.\<close>

definition internal :: "string \<Rightarrow> rgw_error" where
  "internal m = InternalError m"

definition is_internal :: "rgw_error \<Rightarrow> bool" where
  "is_internal e \<longleftrightarrow> (\<exists>m. e = InternalError m)"

lemma is_internal_simps [simp]: "is_internal (InternalError m)" "is_internal (internal m)"
  by (simp_all add: is_internal_def internal_def)

end
