(* ===== verification/Rgw_User.thy ===== *)
theory Rgw_User
  imports BTree_Map Rgw_Error
begin

section \<open>\<open>rgw-types/src/user.rs\<close>: user ids, capabilities, access keys and user records\<close>

unbundle bit_operations_syntax

subsection \<open>User ids\<close>

datatype user_id = UserId (uid_tenant: string) (uid_id: string)

text \<open>\<open>#[derive(PartialOrd, Ord)]\<close>: tenant first, then id.\<close>

instantiation user_id :: linorder
begin

definition less_eq_user_id :: "user_id \<Rightarrow> user_id \<Rightarrow> bool" where
  "less_eq_user_id a b \<longleftrightarrow> uid_tenant a < uid_tenant b \<or> uid_tenant a = uid_tenant b \<and> uid_id a \<le> uid_id b"

definition less_user_id :: "user_id \<Rightarrow> user_id \<Rightarrow> bool" where
  "less_user_id a b \<longleftrightarrow> uid_tenant a < uid_tenant b \<or> uid_tenant a = uid_tenant b \<and> uid_id a < uid_id b"

instance
  by standard (auto simp: less_eq_user_id_def less_user_id_def user_id.expand)

end

definition user_id_new :: "string \<Rightarrow> user_id" where
  "user_id_new i = UserId [] i"

definition user_id_parse :: "string \<Rightarrow> user_id" where
  "user_id_parse s = (case split_once (CHR ''$'') s of
     Some (tenant, i) \<Rightarrow> UserId tenant i
   | None \<Rightarrow> user_id_new s)"

definition user_id_is_empty :: "user_id \<Rightarrow> bool" where
  "user_id_is_empty u \<longleftrightarrow> uid_id u = []"

definition user_id_display :: "user_id \<Rightarrow> string" where
  "user_id_display u =
     (if uid_tenant u = [] then uid_id u else uid_tenant u @ CHR ''$'' # uid_id u)"

text \<open>
  The ids whose string form is unambiguous: no \<open>$\<close> in the tenant, and none in a tenantless id.
  \<open>canon_user_id\<close> is what an id becomes when it is written and read back, as the serde impls
  and the driver's \<open>uid\<close> column do.
\<close>

definition canonical_uid :: "user_id \<Rightarrow> bool" where
  "canonical_uid u \<longleftrightarrow>
     CHR ''$'' \<notin> set (uid_tenant u) \<and> (uid_tenant u = [] \<longrightarrow> CHR ''$'' \<notin> set (uid_id u))"

definition canon_user_id :: "user_id \<Rightarrow> user_id" where
  "canon_user_id u = user_id_parse (user_id_display u)"

lemma user_id_parse_display: "canonical_uid u \<Longrightarrow> user_id_parse (user_id_display u) = u"
  by (cases u)
    (auto simp: canonical_uid_def user_id_display_def user_id_parse_def user_id_new_def
      split: option.splits simp: split_once_None_iff split_once_Some_iff)

lemma user_id_display_parse:
  "user_id_display (user_id_parse s) = (case s of [] \<Rightarrow> [] | c # r \<Rightarrow> if c = CHR ''$'' then r else s)"
  by (cases s)
    (auto simp: user_id_parse_def user_id_display_def user_id_new_def split_once_Some_iff
      split: option.splits)

text \<open>
  Parsing yields a canonical id unless the text starts with \<open>$\<close> and holds a second one: then the
  tenantless id keeps a \<open>$\<close> and its string form names the user of another tenant.
\<close>

lemma canonical_parse_iff:
  "canonical_uid (user_id_parse s) \<longleftrightarrow> \<not> (\<exists>r. s = CHR ''$'' # r \<and> CHR ''$'' \<in> set r)"
proof (cases "split_once (CHR ''$'') s")
  case None
  then have "CHR ''$'' \<notin> set s" by (simp add: split_once_None_iff)
  with None show ?thesis
    by (auto simp: user_id_parse_def canonical_uid_def user_id_new_def)
next
  case (Some p)
  then show ?thesis
    by (cases p; cases "fst p") (auto simp: user_id_parse_def canonical_uid_def split_once_Some_iff)
qed

lemma canon_canonical [simp]: "canonical_uid u \<Longrightarrow> canon_user_id u = u"
  by (simp add: canon_user_id_def user_id_parse_display)

lemma display_inj: "canonical_uid u \<Longrightarrow> canonical_uid v \<Longrightarrow> user_id_display u = user_id_display v \<Longrightarrow> u = v"
  by (metis user_id_parse_display)

text \<open>The ids whose string form does not start with \<open>$\<close>: writing and reading keeps that form.\<close>

definition uid_stable :: "user_id \<Rightarrow> bool" where
  "uid_stable u \<longleftrightarrow> \<not> prefix ''$'' (user_id_display u)"

lemma canonical_stable: "canonical_uid u \<Longrightarrow> uid_stable u"
  by (cases u; cases "uid_tenant u"; cases "uid_id u")
    (auto simp: uid_stable_def canonical_uid_def user_id_display_def)

lemma stable_canon: "uid_stable u \<Longrightarrow> canonical_uid (canon_user_id u) \<and> user_id_display (canon_user_id u) = user_id_display u"
  unfolding uid_stable_def canon_user_id_def canonical_parse_iff user_id_display_parse
  by (auto split: list.splits)

subsection \<open>Capability bits\<close>

datatype cap_perm = CapPerm (cap_bits: "8 word")

definition CAP_NONE :: cap_perm where "CAP_NONE = CapPerm 0"
definition CAP_READ :: cap_perm where "CAP_READ = CapPerm 1"
definition CAP_WRITE :: cap_perm where "CAP_WRITE = CapPerm 2"
definition CAP_ALL :: cap_perm where "CAP_ALL = CapPerm 3"

lemmas cap_consts = CAP_NONE_def CAP_READ_def CAP_WRITE_def CAP_ALL_def

definition cap_contains :: "cap_perm \<Rightarrow> cap_perm \<Rightarrow> bool" where
  "cap_contains p other \<longleftrightarrow> cap_bits p AND cap_bits other = cap_bits other"

definition cap_union :: "cap_perm \<Rightarrow> cap_perm \<Rightarrow> cap_perm" where
  "cap_union p other = CapPerm (cap_bits p OR cap_bits other)"

definition cap_difference :: "cap_perm \<Rightarrow> cap_perm \<Rightarrow> cap_perm" where
  "cap_difference p other = CapPerm (cap_bits p AND NOT (cap_bits other))"

definition cap_is_none :: "cap_perm \<Rightarrow> bool" where
  "cap_is_none p \<longleftrightarrow> cap_bits p = 0"

definition cap_perm_token :: "string \<Rightarrow> cap_perm rgw_result" where
  "cap_perm_token t =
     (if t = ''*'' then Inr CAP_ALL
      else if t = ''read'' then Inr CAP_READ
      else if t = ''write'' then Inr CAP_WRITE
      else Inl (InvalidArgument (''invalid cap perm: '' @ t)))"

definition cap_perm_parse :: "string \<Rightarrow> cap_perm rgw_result" where
  "cap_perm_parse s =
     try_fold (\<lambda>part perm. try_r (cap_perm_token part) (\<lambda>p. Inr (cap_union perm p)))
       (map trim (split_c (CHR '','') s)) CAP_NONE"

definition cap_perm_display :: "cap_perm \<Rightarrow> string" where
  "cap_perm_display p =
     (if p = CAP_ALL then ''*'' else if p = CAP_READ then ''read''
      else if p = CAP_WRITE then ''write'' else ''<invalid>'')"

text \<open>The bits a stored capability can hold: at least one, of the two.\<close>

definition cap_valid :: "cap_perm \<Rightarrow> bool" where
  "cap_valid p \<longleftrightarrow> p = CAP_READ \<or> p = CAP_WRITE \<or> p = CAP_ALL"

lemma cap_union_valid:
  "cap_valid p \<or> p = CAP_NONE \<Longrightarrow> cap_valid q \<Longrightarrow> cap_valid (cap_union p q)"
  "cap_valid p \<Longrightarrow> cap_valid q \<or> q = CAP_NONE \<Longrightarrow> cap_valid (cap_union p q)"
  by (auto simp: cap_valid_def cap_union_def cap_consts)

lemma byte_le_3: "x \<le> 3 \<Longrightarrow> x = 0 \<or> x = 1 \<or> x = 2 \<or> x = (3 :: 8 word)"
  by unat_arith

lemma cap_difference_valid:
  assumes "cap_valid p" and nz: "\<not> cap_is_none (cap_difference p q)"
  shows "cap_valid (cap_difference p q)"
proof -
  let ?d = "cap_bits p AND NOT (cap_bits q)"
  have p: "cap_bits p = 1 \<or> cap_bits p = 2 \<or> cap_bits p = 3"
    using assms(1) by (auto simp: cap_valid_def cap_consts)
  then have "cap_bits p \<le> 3" by auto
  then have "?d \<le> 3" by (rule order_trans [OF word_and_le2])
  moreover have "?d \<noteq> 0" using nz by (simp add: cap_is_none_def cap_difference_def)
  ultimately have "?d = 1 \<or> ?d = 2 \<or> ?d = 3" using byte_le_3 by blast
  then show ?thesis by (auto simp: cap_valid_def cap_difference_def cap_consts)
qed

end
