(* ===== verification/User_Caps.thy ===== *)
theory User_Caps
  imports Rgw_User
begin

section \<open>\<open>UserCaps\<close>: admin capabilities of a user\<close>

text \<open>
  \<open>rgw-types/src/user.rs\<close>: a map from capability type to bits. \<open>&mut self\<close> methods return the new
  map; where one fails, every caller drops the half-changed map, so an error carries no map.
\<close>

type_synonym user_caps = "(string, cap_perm) btree"

definition VALID_CAP_TYPES :: "string list" where
  "VALID_CAP_TYPES =
     [''user'', ''users'', ''bucket'', ''buckets'', ''metadata'', ''info'', ''usage'', ''zone'',
      ''bilog'', ''mdlog'', ''datalog'', ''roles'', ''user-policy'', ''amz-cache'',
      ''oidc-provider'', ''ratelimit'', ''user-info-without-keys'', ''accounts'']"

definition caps_new :: user_caps where
  "caps_new = []"

definition caps_bits :: "user_caps \<Rightarrow> string \<Rightarrow> cap_perm" where
  "caps_bits caps cap = (case bt_get caps cap of None \<Rightarrow> CAP_NONE | Some p \<Rightarrow> p)"

definition user_caps_add :: "user_caps \<Rightarrow> string \<Rightarrow> cap_perm \<Rightarrow> user_caps rgw_result" where
  "user_caps_add caps cap perm =
     (if cap \<notin> set VALID_CAP_TYPES then Inl (InvalidArgument (''invalid cap type: '' @ cap))
      else Inr (bt_insert cap (cap_union (caps_bits caps cap) perm) caps))"

definition user_caps_remove :: "user_caps \<Rightarrow> string \<Rightarrow> cap_perm \<Rightarrow> user_caps" where
  "user_caps_remove caps cap perm =
     (case bt_get caps cap of
        None \<Rightarrow> caps
      | Some entry \<Rightarrow>
          (let entry' = cap_difference entry perm in
           if cap_is_none entry' then bt_remove cap caps else bt_insert cap entry' caps))"

definition caps_items :: "string \<Rightarrow> string list" where
  "caps_items s = filter (\<lambda>t. t \<noteq> []) (map trim (split_c (CHR '';'') s))"

definition caps_add_item :: "string \<Rightarrow> user_caps \<Rightarrow> user_caps rgw_result" where
  "caps_add_item item caps =
     try_r (ok_or (InvalidArgument (''invalid cap: '' @ item)) (split_once (CHR ''='') item))
       (\<lambda>(cap, perm). try_r (cap_perm_parse perm) (\<lambda>p. user_caps_add caps (trim cap) p))"

definition caps_add_from_string :: "user_caps \<Rightarrow> string \<Rightarrow> user_caps rgw_result" where
  "caps_add_from_string caps s = try_fold caps_add_item (caps_items s) caps"

definition caps_check_cap :: "user_caps \<Rightarrow> string \<Rightarrow> cap_perm \<Rightarrow> bool" where
  "caps_check_cap caps cap perm =
     (case bt_get caps cap of None \<Rightarrow> False | Some have \<Rightarrow> cap_contains have perm)"

subsection \<open>The invariant and the effect of each operation\<close>

definition caps_wf :: "user_caps \<Rightarrow> bool" where
  "caps_wf caps \<longleftrightarrow>
     bt_wf caps \<and> (\<forall>(cap, p) \<in> set caps. cap \<in> set VALID_CAP_TYPES \<and> cap_valid p)"

lemma caps_wf_bt [simp]: "caps_wf caps \<Longrightarrow> bt_wf caps"
  by (simp add: caps_wf_def)

lemma caps_wf_iff:
  "caps_wf caps \<longleftrightarrow> bt_wf caps \<and> (\<forall>cap p. bt_get caps cap = Some p \<longrightarrow> cap \<in> set VALID_CAP_TYPES \<and> cap_valid p)"
proof (cases "bt_wf caps")
  case True
  then have "set caps = {(c, p). bt_get caps c = Some p}"
    by (auto simp: bt_in_get)
  then show ?thesis unfolding caps_wf_def by auto
qed (simp add: caps_wf_def)

lemma caps_wf_new: "caps_wf caps_new"
  by (simp add: caps_wf_def caps_new_def)

lemma caps_bits_valid: "caps_wf caps \<Longrightarrow> cap_valid (caps_bits caps c) \<or> caps_bits caps c = CAP_NONE"
  by (auto simp: caps_wf_iff caps_bits_def split: option.splits)

lemma caps_add_wf:
  "caps_wf caps \<Longrightarrow> cap_valid p \<Longrightarrow> user_caps_add caps c p = Inr caps' \<Longrightarrow> caps_wf caps'"
  using caps_bits_valid [of caps c]
  by (auto simp: user_caps_add_def caps_wf_iff bt_wf_insert bt_get_insert cap_union_valid split: if_splits)

lemma caps_remove_wf: "caps_wf caps \<Longrightarrow> caps_wf (user_caps_remove caps c p)"
  by (auto simp: user_caps_remove_def caps_wf_iff Let_def bt_wf_insert bt_wf_remove bt_get_insert
      bt_get_remove cap_difference_valid split: option.splits if_splits)

lemma caps_add_bits:
  "caps_wf caps \<Longrightarrow> user_caps_add caps c p = Inr caps' \<Longrightarrow>
   caps_bits caps' = (caps_bits caps)(c := cap_union (caps_bits caps c) p)"
  by (auto simp: user_caps_add_def caps_bits_def bt_get_insert fun_eq_iff split: if_splits)

lemma cap_difference_NONE [simp]: "cap_difference CAP_NONE p = CAP_NONE"
  by (simp add: cap_difference_def cap_consts)

lemma cap_is_none_eq: "cap_is_none p \<longleftrightarrow> p = CAP_NONE"
  by (cases p) (simp add: cap_is_none_def cap_consts)

lemma caps_remove_bits:
  "caps_wf caps \<Longrightarrow>
   caps_bits (user_caps_remove caps c p) = (caps_bits caps)(c := cap_difference (caps_bits caps c) p)"
  by (auto simp: user_caps_remove_def caps_bits_def Let_def bt_get_insert bt_get_remove fun_eq_iff
      cap_is_none_eq split: option.splits)

lemma caps_check_bits:
  "caps_wf caps \<Longrightarrow> cap_valid p \<Longrightarrow> caps_check_cap caps c p \<longleftrightarrow> cap_contains (caps_bits caps c) p"
  by (auto simp: caps_check_cap_def caps_bits_def cap_contains_def cap_valid_def cap_consts split: option.splits)

subsection \<open>Parsing capability texts\<close>

lemma cap_token_valid: "cap_perm_token t = Inr p \<Longrightarrow> cap_valid p"
  by (auto simp: cap_perm_token_def cap_valid_def split: if_splits)

lemma cap_parse_valid: "cap_perm_parse s = Inr p \<Longrightarrow> cap_valid p"
proof -
  assume p: "cap_perm_parse s = Inr p"
  obtain t ts where ts: "map trim (split_c (CHR '','') s) = t # ts"
    by (metis list.exhaust map_is_Nil_conv split_c_ne)
  let ?step = "\<lambda>part perm. try_r (cap_perm_token part) (\<lambda>p. Inr (cap_union perm p))"
  from p ts obtain q where q: "cap_perm_token t = Inr q"
    and rest: "try_fold ?step ts (cap_union CAP_NONE q) = Inr p"
    by (auto simp: cap_perm_parse_def try_r_Inr_iff)
  have "cap_valid (cap_union CAP_NONE q)"
    using q by (simp add: cap_token_valid cap_union_valid)
  then show ?thesis
    by (rule try_fold_invariant [where P = cap_valid, OF _ _ rest])
      (auto simp: try_r_Inr_iff intro: cap_union_valid cap_token_valid)
qed

lemma caps_item_wf: "caps_wf caps \<Longrightarrow> caps_add_item item caps = Inr caps' \<Longrightarrow> caps_wf caps'"
  by (auto simp: caps_add_item_def try_r_Inr_iff intro: caps_add_wf dest: cap_parse_valid)

lemma caps_from_string_wf:
  "caps_wf caps \<Longrightarrow> caps_add_from_string caps s = Inr caps' \<Longrightarrow> caps_wf caps'"
  unfolding caps_add_from_string_def
  by (erule try_fold_invariant [where P = caps_wf, rotated -1]) (auto intro: caps_item_wf)

text \<open>What one item of the text grants, and what all of them grant for one type.\<close>

definition caps_item_grant :: "string \<Rightarrow> (string \<times> cap_perm) option" where
  "caps_item_grant item =
     (case split_once (CHR ''='') item of None \<Rightarrow> None
      | Some (cap, perm) \<Rightarrow>
          (case cap_perm_parse perm of Inl _ \<Rightarrow> None
           | Inr p \<Rightarrow> if trim cap \<in> set VALID_CAP_TYPES then Some (trim cap, p) else None))"

fun granted :: "(string \<times> cap_perm) option list \<Rightarrow> string \<Rightarrow> cap_perm \<Rightarrow> cap_perm" where
  "granted [] c p = p"
| "granted (Some (c', q) # gs) c p = granted gs c (if c' = c then cap_union p q else p)"
| "granted (None # gs) c p = granted gs c p"

lemma caps_add_item_Inr_iff:
  "caps_add_item item caps = Inr caps' \<longleftrightarrow>
     (\<exists>c p. caps_item_grant item = Some (c, p) \<and> user_caps_add caps c p = Inr caps')"
  by (auto simp: caps_add_item_def caps_item_grant_def try_r_Inr_iff user_caps_add_def
      split: option.splits sum.splits prod.splits if_splits)

lemma caps_add_item_total:
  "caps_item_grant item = Some (c, p) \<Longrightarrow> \<exists>caps'. user_caps_add caps c p = Inr caps'"
  by (auto simp: caps_item_grant_def user_caps_add_def split: option.splits sum.splits prod.splits if_splits)

lemma caps_fold_items:
  assumes "caps_wf caps"
  shows "(\<exists>caps'. try_fold caps_add_item items caps = Inr caps') \<longleftrightarrow> None \<notin> set (map caps_item_grant items)"
    and "try_fold caps_add_item items caps = Inr caps' \<Longrightarrow>
           caps_bits caps' c = granted (map caps_item_grant items) c (caps_bits caps c)"
  using assms
proof (induction items arbitrary: caps)
  case (Cons i items)
  case 1
  show ?case
  proof (cases "caps_item_grant i")
    case None
    then show ?thesis by (auto simp: try_r_Inr_iff caps_add_item_Inr_iff)
  next
    case (Some g)
    obtain d p where g: "g = (d, p)" by (cases g)
    obtain c1 where c1: "user_caps_add caps d p = Inr c1"
      using caps_add_item_total Some g by blast
    then have step: "caps_add_item i caps = Inr c1"
      using Some g by (auto simp: caps_add_item_Inr_iff)
    then have "caps_wf c1" using caps_item_wf 1 by blast
    with Cons.IH(1) [of c1] step Some show ?thesis by simp
  qed
next
  case (Cons i items)
  case 2
  then obtain c1 where step: "caps_add_item i caps = Inr c1"
    and rest: "try_fold caps_add_item items c1 = Inr caps'"
    by (auto simp: try_r_Inr_iff)
  from step obtain d p where g: "caps_item_grant i = Some (d, p)" "user_caps_add caps d p = Inr c1"
    by (auto simp: caps_add_item_Inr_iff)
  have wf1: "caps_wf c1" using caps_item_wf step 2 by blast
  show ?case
    using Cons.IH(2) [OF rest wf1] caps_add_bits [OF 2(2) g(2)] g(1) by simp
qed auto

lemma cap_contains_union: "cap_contains p r \<Longrightarrow> cap_contains (cap_union p q) r"
  by (cases p; cases q; cases r)
    (auto simp: cap_contains_def cap_union_def bit_eq_iff bit_simps)

lemma granted_mono: "cap_contains p r \<Longrightarrow> cap_contains (granted gs c p) r"
  by (induction gs c p rule: granted.induct) (auto simp: cap_contains_union)

lemma granted_unnamed: "(\<And>q. Some (c, q) \<notin> set gs) \<Longrightarrow> granted gs c p = p"
  by (induction gs c p rule: granted.induct) auto

text \<open>
  C16 (functional): \<open>UserCaps::add_from_string\<close> succeeds exactly when every \<open>;\<close>-separated item names
  a valid capability type and parses, and then each type holds its old bits and the union of what
  the items naming it grant; the map stays well-formed (sorted, valid types, no empty entry).
\<close>

theorem caps_add_from_string_spec:
  assumes "caps_wf caps"
  shows "case caps_add_from_string caps s of
           Inl _ \<Rightarrow> None \<in> set (map caps_item_grant (caps_items s))
         | Inr caps' \<Rightarrow> None \<notin> set (map caps_item_grant (caps_items s)) \<and> caps_wf caps' \<and>
             (\<forall>c. caps_bits caps' c = granted (map caps_item_grant (caps_items s)) c (caps_bits caps c))"
proof (cases "caps_add_from_string caps s")
  case (Inl e)
  then show ?thesis
    using caps_fold_items(1) [OF assms, of "caps_items s"] by (simp add: caps_add_from_string_def)
next
  case (Inr caps')
  then show ?thesis
    using caps_fold_items [OF assms, of "caps_items s"] caps_from_string_wf [OF assms, of s]
    by (simp add: caps_add_from_string_def)
qed

theorem caps_add_from_string_spec_witness:
  "case caps_add_from_string caps_new ''users=*;buckets=read'' of
     Inl _ \<Rightarrow> False
   | Inr caps' \<Rightarrow> caps_wf caps' \<and> caps_bits caps' ''buckets'' = CAP_READ \<and>
       caps_bits caps' ''users'' =
         granted (map caps_item_grant (caps_items ''users=*;buckets=read'')) ''users'' CAP_NONE"
proof -
  let ?caps = "[(''buckets'', CAP_READ), (''users'', CAP_ALL)]"
  have r: "caps_add_from_string caps_new ''users=*;buckets=read'' = Inr ?caps"
    by code_simp
  have "caps_wf ?caps \<and> (\<forall>c. caps_bits ?caps c =
      granted (map caps_item_grant (caps_items ''users=*;buckets=read'')) c (caps_bits caps_new c))"
    using caps_add_from_string_spec [OF caps_wf_new, of "''users=*;buckets=read''"]
    unfolding r by simp
  moreover have "caps_bits ?caps ''buckets'' = CAP_READ" "caps_bits caps_new ''users'' = CAP_NONE"
    by code_simp+
  ultimately show ?thesis unfolding r by (simp only: sum.case)
qed

end
