(* ===== verification/Rgw_Types.thy ===== *)
theory Rgw_Types
  imports User_Caps
begin

section \<open>The data model: \<open>rgw-types/src/{user,bucket,object}.rs\<close>\<close>

text \<open>
  The records every component passes around. A \<open>DateTime<Utc>\<close> is its nanoseconds since the epoch;
  \<open>i32\<close> and \<open>u32\<close> are \<open>32 word\<close> (read with \<open>sint\<close> and \<open>uint\<close>), \<open>u64\<close> is \<open>64 word\<close>.
\<close>

type_synonym time = int
type_synonym i32 = "32 word"
type_synonym u32 = "32 word"
type_synonym u64 = "64 word"

subsection \<open>Users\<close>

record access_key =
  ak_id :: string
  ak_key :: string
  ak_subuser :: string
  ak_active :: bool
  ak_create_date :: time

record user_info =
  ui_user_id :: user_id
  ui_display_name :: string
  ui_user_email :: string
  ui_access_keys :: "(string, access_key) btree"
  ui_caps :: user_caps
  ui_suspended :: bool
  ui_max_buckets :: i32
  ui_system :: bool
  ui_admin :: bool
  ui_create_date :: time

definition RGW_DEFAULT_MAX_BUCKETS :: i32 where
  "RGW_DEFAULT_MAX_BUCKETS = 1000"

definition user_info_new :: "user_id \<Rightarrow> string \<Rightarrow> time \<Rightarrow> user_info" where
  "user_info_new uid name now =
     \<lparr>ui_user_id = uid, ui_display_name = name, ui_user_email = [], ui_access_keys = [],
      ui_caps = caps_new, ui_suspended = False, ui_max_buckets = RGW_DEFAULT_MAX_BUCKETS,
      ui_system = False, ui_admin = False, ui_create_date = now\<rparr>"

definition add_access_key :: "access_key \<Rightarrow> user_info \<Rightarrow> user_info" where
  "add_access_key key u = u\<lparr>ui_access_keys := bt_insert (ak_id key) key (ui_access_keys u)\<rparr>"

text \<open>What the Rust types guarantee of a record: ordered maps, and capabilities built by \<open>UserCaps\<close>.\<close>

definition user_wf :: "user_info \<Rightarrow> bool" where
  "user_wf u \<longleftrightarrow> bt_wf (ui_access_keys u) \<and> caps_wf (ui_caps u)"

definition user_has_key :: "user_info \<Rightarrow> string \<Rightarrow> bool" where
  "user_has_key u k \<longleftrightarrow> k \<in> set (bt_keys (ui_access_keys u))"

text \<open>The record as it reads back after being written: its id in canonical form.\<close>

definition canon_user :: "user_info \<Rightarrow> user_info" where
  "canon_user u = u\<lparr>ui_user_id := canon_user_id (ui_user_id u)\<rparr>"

lemma canon_user_simps [simp]:
  "ui_user_id (canon_user u) = canon_user_id (ui_user_id u)"
  "ui_display_name (canon_user u) = ui_display_name u"
  "ui_user_email (canon_user u) = ui_user_email u"
  "ui_access_keys (canon_user u) = ui_access_keys u"
  "ui_caps (canon_user u) = ui_caps u"
  "ui_suspended (canon_user u) = ui_suspended u"
  "ui_max_buckets (canon_user u) = ui_max_buckets u"
  "ui_system (canon_user u) = ui_system u"
  "ui_admin (canon_user u) = ui_admin u"
  "ui_create_date (canon_user u) = ui_create_date u"
  "user_wf (canon_user u) = user_wf u"
  "user_has_key (canon_user u) = user_has_key u"
  by (simp_all add: canon_user_def user_wf_def user_has_key_def [abs_def])

lemma canon_user_id_user [simp]: "canonical_uid (ui_user_id u) \<Longrightarrow> canon_user u = u"
  by (simp add: canon_user_def)

lemma user_wf_new [simp]: "user_wf (user_info_new uid name now)"
  by (simp add: user_wf_def user_info_new_def caps_wf_new)

lemma user_wf_add_key: "user_wf u \<Longrightarrow> user_wf (add_access_key k u)"
  by (simp add: user_wf_def add_access_key_def bt_wf_insert)

lemma user_has_key_add: "user_has_key (add_access_key key u) k \<longleftrightarrow> k = ak_id key \<or> user_has_key u k"
  by (auto simp: user_has_key_def add_access_key_def keys_bt_insert simp del: set_map)

subsection \<open>Buckets\<close>

record bucket_key =
  bk_tenant :: string
  bk_name :: string
  bk_bucket_id :: string
  bk_marker :: string

definition bucket_key_new :: "string \<Rightarrow> string \<Rightarrow> string \<Rightarrow> bucket_key" where
  "bucket_key_new tenant name bucket_id =
     \<lparr>bk_tenant = tenant, bk_name = name, bk_bucket_id = bucket_id, bk_marker = bucket_id\<rparr>"

definition bucket_full_name :: "bucket_key \<Rightarrow> string" where
  "bucket_full_name b =
     (if bk_tenant b = [] then bk_name b else bk_tenant b @ CHR ''/'' # bk_name b)"

record bucket_info =
  bi_bucket :: bucket_key
  bi_owner :: user_id
  bi_creation_time :: time
  bi_placement_rule :: string
  bi_zonegroup :: string
  bi_num_shards :: u32

record bucket_stats =
  bs_num_objects :: u64
  bs_size :: u64

definition canon_bucket :: "bucket_info \<Rightarrow> bucket_info" where
  "canon_bucket b = b\<lparr>bi_owner := canon_user_id (bi_owner b)\<rparr>"

lemma canon_bucket_simps [simp]:
  "bi_bucket (canon_bucket b) = bi_bucket b"
  "bi_owner (canon_bucket b) = canon_user_id (bi_owner b)"
  "bi_creation_time (canon_bucket b) = bi_creation_time b"
  "bi_placement_rule (canon_bucket b) = bi_placement_rule b"
  "bi_zonegroup (canon_bucket b) = bi_zonegroup b"
  "bi_num_shards (canon_bucket b) = bi_num_shards b"
  by (simp_all add: canon_bucket_def)

subsection \<open>Objects\<close>

datatype object_key = ObjectKey (ok_name: string) (ok_instance: string)

text \<open>\<open>#[derive(PartialOrd, Ord)]\<close>: name first, then instance.\<close>

instantiation object_key :: linorder
begin

definition less_eq_object_key :: "object_key \<Rightarrow> object_key \<Rightarrow> bool" where
  "less_eq_object_key a b \<longleftrightarrow> ok_name a < ok_name b \<or> ok_name a = ok_name b \<and> ok_instance a \<le> ok_instance b"

definition less_object_key :: "object_key \<Rightarrow> object_key \<Rightarrow> bool" where
  "less_object_key a b \<longleftrightarrow> ok_name a < ok_name b \<or> ok_name a = ok_name b \<and> ok_instance a < ok_instance b"

instance
  by standard (auto simp: less_eq_object_key_def less_object_key_def object_key.expand)

end

definition object_key_new :: "string \<Rightarrow> object_key" where
  "object_key_new name = ObjectKey name []"

record owner =
  ow_id :: user_id
  ow_display_name :: string

type_synonym attrs = "(string, bytes) btree"

definition RGW_ATTR_PREFIX :: string where "RGW_ATTR_PREFIX = ''user.rgw.''"
definition RGW_ATTR_ETAG :: string where "RGW_ATTR_ETAG = ''user.rgw.etag''"
definition RGW_ATTR_CONTENT_TYPE :: string where "RGW_ATTR_CONTENT_TYPE = ''user.rgw.content_type''"
definition RGW_ATTR_META_PREFIX :: string where "RGW_ATTR_META_PREFIX = ''user.rgw.x-amz-meta-''"

record object_info =
  oi_key :: object_key
  oi_size :: u64
  oi_etag :: string
  oi_mtime :: time
  oi_owner :: owner
  oi_storage_class :: string
  oi_attrs :: attrs

definition content_type :: "object_info \<Rightarrow> string option" where
  "content_type ob = Option.bind (bt_get (oi_attrs ob) RGW_ATTR_CONTENT_TYPE) from_utf8"

definition user_metadata :: "object_info \<Rightarrow> (string \<times> bytes) list" where
  "user_metadata ob =
     List.map_filter (\<lambda>(k, v). map_option (\<lambda>s. (s, v)) (strip_prefix RGW_ATTR_META_PREFIX k)) (oi_attrs ob)"

definition canon_object :: "object_info \<Rightarrow> object_info" where
  "canon_object ob =
     ob\<lparr>oi_owner := (oi_owner ob)\<lparr>ow_id := canon_user_id (ow_id (oi_owner ob))\<rparr>\<rparr>"

lemma canon_object_simps [simp]:
  "oi_key (canon_object ob) = oi_key ob"
  "oi_size (canon_object ob) = oi_size ob"
  "oi_etag (canon_object ob) = oi_etag ob"
  "oi_mtime (canon_object ob) = oi_mtime ob"
  "oi_storage_class (canon_object ob) = oi_storage_class ob"
  "oi_attrs (canon_object ob) = oi_attrs ob"
  by (simp_all add: canon_object_def)

end
