(* ===== verification/Crates.thy ===== *)
theory Crates
  imports Rgw_Types "HOL-Library.Monad_Syntax"
begin

section \<open>The third-party crates the program calls\<close>

text \<open>
  Code that is not in the repository is an argument of the definitions that call it: one record
  holds the functions of \<open>serde_json\<close>, \<open>chrono\<close>, \<open>md5\<close>, \<open>sha2\<close>, \<open>hmac\<close>, \<open>hex\<close>, \<open>base64\<close>,
  \<open>crc32fast\<close>, \<open>percent-encoding\<close>, \<open>quick-xml\<close> and \<open>http\<close> that the source uses. What they are documented to do is a
  named predicate on the record, a hypothesis of the theorems that need it. \<open>body_to_bytes\<close> is
  \<open>axum::body::to_bytes\<close>, \<open>None\<close> its length limit error. \<open>json_text\<close> is the \<open>Display\<close> of a
  \<open>serde_json::Value\<close>, \<open>json_pretty\<close> its \<open>to_string_pretty\<close>. \<open>header_name\<close> is
  \<open>HeaderName::try_from\<close>, \<open>header_error\<close> the text of \<open>http\<close>'s \<open>InvalidHeaderValue\<close>. \<open>serde_error\<close> and
  \<open>sqlite_error\<close> are the texts of those crates' errors. The text of a JSON document has the type
  \<open>'j\<close>: the source only stores it and reads it back.
\<close>

datatype json =
    JNull
  | JBool bool
  | JNum int
  | JStr string
  | JArr "json list"
  | JObj "(string \<times> json) list"

text \<open>
  An XML document as the serializer is given it (an element's name, attributes and children), and
  the events the reader of \<open>quick-xml\<close> turns a text into: \<open>xml_events\<close> gives them up to the end of
  the text (\<open>True\<close>) or to a syntax error.
\<close>

datatype xml = XElem string "(string \<times> string) list" "xml list" | XText string

datatype xml_event =
    XmlStart string
  | XmlEmpty string
  | XmlEnd
  | XmlText string
  | XmlCData string
  | XmlRef string
  | XmlOther

record 'j crates =
  json_to_string :: "json \<Rightarrow> string + 'j"
  json_from_str :: "'j \<Rightarrow> string + json"
  serde_error :: string
  sqlite_error :: string
  chrono_to_serde :: "time \<Rightarrow> string"
  chrono_of_serde :: "string \<Rightarrow> time option"
  to_rfc3339_nanos :: "time \<Rightarrow> string"
  parse_from_rfc3339 :: "string \<Rightarrow> string + time"
  format_amz :: "time \<Rightarrow> string"
  parse_amz :: "string \<Rightarrow> time option"
  parse_rfc2822 :: "string \<Rightarrow> time option"
  format_http_date :: "time \<Rightarrow> string"
  format_iso8601_millis :: "time \<Rightarrow> string"
  format_iso8601_micros :: "time \<Rightarrow> string"
  md5_digest :: "bytes \<Rightarrow> bytes"
  sha256_digest :: "bytes \<Rightarrow> bytes"
  hmac_sha256_mac :: "bytes \<Rightarrow> bytes \<Rightarrow> bytes"
  hex_encode :: "bytes \<Rightarrow> string"
  hex_decode :: "string \<Rightarrow> bytes option"
  base64_decode :: "bytes \<Rightarrow> bytes option"
  crc32_hash :: "bytes \<Rightarrow> 32 word"
  percent_decode :: "string \<Rightarrow> bytes"
  percent_encode_set :: "(char \<Rightarrow> bool) \<Rightarrow> string \<Rightarrow> string"
  body_to_bytes :: "(string + bytes) list \<Rightarrow> nat \<Rightarrow> string option + bytes"
  json_text :: "json \<Rightarrow> string"
  json_pretty :: "json \<Rightarrow> string + string"
  xml_to_string :: "xml \<Rightarrow> string + string"
  xml_events :: "string \<Rightarrow> xml_event list \<times> bool"
  xml_char_ref :: "string \<Rightarrow> unit + string option"
  header_name :: "string \<Rightarrow> string option"
  header_error :: string

text \<open>Writing a value as JSON and reading the text gives the value back.\<close>

definition json_ok :: "'j crates \<Rightarrow> bool" where
  "json_ok cr \<longleftrightarrow> (\<forall>v t. json_to_string cr v = Inr t \<longrightarrow> json_from_str cr t = Inr v)"

text \<open>Serialising a document of the data model to a string never fails.\<close>

definition json_total :: "'j crates \<Rightarrow> bool" where
  "json_total cr \<longleftrightarrow> (\<forall>v. \<exists>t. json_to_string cr v = Inr t)"

text \<open>A time written with nanoseconds in RFC 3339 form reads back as the same instant.\<close>

definition chrono_ok :: "'j crates \<Rightarrow> bool" where
  "chrono_ok cr \<longleftrightarrow>
     (\<forall>t. chrono_of_serde cr (chrono_to_serde cr t) = Some t) \<and>
     (\<forall>t. parse_from_rfc3339 cr (to_rfc3339_nanos cr t) = Inr t)"

text \<open>
  \<open>hex\<close>: \<open>encode\<close> gives two lowercase digits per byte, \<open>decode\<close> reads either case and is its
  inverse. An HMAC-SHA-256 tag and a SHA-256 digest have 32 bytes.
\<close>

definition hex_ok :: "'j crates \<Rightarrow> bool" where
  "hex_ok cr \<longleftrightarrow>
     (\<forall>b. hex_decode cr (hex_encode cr b) = Some b \<and> length (hex_encode cr b) = 2 * length b \<and>
        (\<forall>c \<in> set (hex_encode cr b). is_ascii_hexdigit c \<and> \<not> is_ascii_uppercase c)) \<and>
     (\<forall>s. hex_decode cr (to_ascii_lowercase s) = hex_decode cr s) \<and>
     (\<forall>s b. hex_decode cr s = Some b \<longrightarrow> hex_encode cr b = to_ascii_lowercase s)"

definition mac_ok :: "'j crates \<Rightarrow> bool" where
  "mac_ok cr \<longleftrightarrow> (\<forall>k m. length (hmac_sha256_mac cr k m) = 32) \<and> (\<forall>m. length (sha256_digest cr m) = 32)"

text \<open>\<open>to_bytes\<close> returns the whole body, and only when it is within the limit.\<close>

definition to_bytes_ok :: "'j crates \<Rightarrow> bool" where
  "to_bytes_ok cr \<longleftrightarrow> (\<forall>body limit b. body_to_bytes cr body limit = Inr b \<longrightarrow>
     length b \<le> limit \<and> (\<forall>c \<in> set body. \<exists>d. c = Inr d) \<and> b = concat (map projr body))"

text \<open>Percent decoding replaces \<open>%XY\<close> by the byte and leaves every other byte alone.\<close>

definition pct_ok :: "'j crates \<Rightarrow> bool" where
  "pct_ok cr \<longleftrightarrow>
     percent_decode cr [] = [] \<and>
     (\<forall>c s. c \<noteq> CHR ''%'' \<longrightarrow> percent_decode cr (c # s) = c # percent_decode cr s) \<and>
     (\<forall>a b x y s. to_digit 16 a = Some x \<longrightarrow> to_digit 16 b = Some y \<longrightarrow>
        percent_decode cr (CHR ''%'' # a # b # s) = char_of (16 * x + y) # percent_decode cr s)"

subsection \<open>The serde impls of the data model\<close>

text \<open>
  The derived \<open>Serialize\<close>/\<open>Deserialize\<close> of the records (fields in declaration order, a missing
  \<open>#[serde(default)]\<close> field takes its default, a repeated one is an error, an unknown one is
  ignored) and the hand-written ones of \<open>UserId\<close> (its string form) and \<open>UserCaps\<close> (a list).
  \<open>None\<close> is a data error.
\<close>

definition fields_named :: "(string \<times> json) list \<Rightarrow> string \<Rightarrow> json list" where
  "fields_named fs n = map snd (filter (\<lambda>(k, _). k = n) fs)"

definition de_field :: "(json \<Rightarrow> 'a option) \<Rightarrow> (string \<times> json) list \<Rightarrow> string \<Rightarrow> 'a option" where
  "de_field f fs n = (case fields_named fs n of [v] \<Rightarrow> f v | _ \<Rightarrow> None)"

definition de_default :: "'a \<Rightarrow> (json \<Rightarrow> 'a option) \<Rightarrow> (string \<times> json) list \<Rightarrow> string \<Rightarrow> 'a option" where
  "de_default d f fs n = (case fields_named fs n of [] \<Rightarrow> Some d | [v] \<Rightarrow> f v | _ \<Rightarrow> None)"

fun de_str :: "json \<Rightarrow> string option" where
  "de_str (JStr s) = Some s"
| "de_str _ = None"

fun de_bool :: "json \<Rightarrow> bool option" where
  "de_bool (JBool b) = Some b"
| "de_bool _ = None"

fun de_int :: "int \<Rightarrow> int \<Rightarrow> json \<Rightarrow> int option" where
  "de_int lo hi (JNum n) = (if lo \<le> n \<and> n < hi then Some n else None)"
| "de_int lo hi _ = None"

fun de_obj :: "json \<Rightarrow> (string \<times> json) list option" where
  "de_obj (JObj fs) = Some fs"
| "de_obj _ = None"

fun de_arr :: "json \<Rightarrow> json list option" where
  "de_arr (JArr xs) = Some xs"
| "de_arr _ = None"

definition de_i32 :: "json \<Rightarrow> i32 option" where
  "de_i32 j = map_option word_of_int (de_int (- (2 ^ 31)) (2 ^ 31) j)"

definition de_u32 :: "json \<Rightarrow> u32 option" where
  "de_u32 j = map_option word_of_int (de_int 0 (2 ^ 32) j)"

definition de_byte :: "json \<Rightarrow> char option" where
  "de_byte j = map_option (\<lambda>n. char_of (nat n)) (de_int 0 256 j)"

definition de_time :: "'j crates \<Rightarrow> json \<Rightarrow> time option" where
  "de_time cr j = Option.bind (de_str j) (chrono_of_serde cr)"

fun opt_map :: "('a \<Rightarrow> 'b option) \<Rightarrow> 'a list \<Rightarrow> 'b list option" where
  "opt_map f [] = Some []"
| "opt_map f (x # xs) = do { y \<leftarrow> f x; ys \<leftarrow> opt_map f xs; Some (y # ys) }"

lemma opt_map_map: "(\<And>x. x \<in> set xs \<Longrightarrow> f (g x) = Some (h x)) \<Longrightarrow> opt_map f (map g xs) = Some (map h xs)"
  by (induction xs) auto

definition de_map :: "(json \<Rightarrow> 'a option) \<Rightarrow> json \<Rightarrow> (string, 'a) btree option" where
  "de_map f j = do {
     fs \<leftarrow> de_obj j;
     kvs \<leftarrow> opt_map (\<lambda>(k, v). map_option (Pair k) (f v)) fs;
     Some (bt_from_list kvs) }"

lemma de_map_entries:
  "bt_wf m \<Longrightarrow> (\<And>k v. (k, v) \<in> set m \<Longrightarrow> f (g v) = Some v) \<Longrightarrow>
   de_map f (JObj (map (\<lambda>(k, v). (k, g v)) m)) = Some m"
  using opt_map_map [of m "\<lambda>(k, v). map_option (Pair k) (f v)" "\<lambda>(k, v). (k, g v)" "\<lambda>x. x"]
  by (auto simp: de_map_def bt_from_list_id split_beta)

definition user_id_to_json :: "user_id \<Rightarrow> json" where
  "user_id_to_json u = JStr (user_id_display u)"

definition user_id_of_json :: "json \<Rightarrow> user_id option" where
  "user_id_of_json j = map_option user_id_parse (de_str j)"

definition caps_to_json :: "user_caps \<Rightarrow> json" where
  "caps_to_json caps =
     JArr (map (\<lambda>(t, p). JObj [(''type'', JStr t), (''perm'', JStr (cap_perm_display p))]) caps)"

definition cap_entry_of_json :: "json \<Rightarrow> (string \<times> string) option" where
  "cap_entry_of_json j = do {
     fs \<leftarrow> de_obj j; t \<leftarrow> de_field de_str fs ''type''; p \<leftarrow> de_field de_str fs ''perm''; Some (t, p) }"

definition caps_of_json :: "json \<Rightarrow> user_caps option" where
  "caps_of_json j = do {
     xs \<leftarrow> de_arr j;
     es \<leftarrow> opt_map cap_entry_of_json xs;
     result_ok (try_fold (\<lambda>(t, p) caps. try_r (cap_perm_parse p) (\<lambda>q. user_caps_add caps t q)) es caps_new) }"

definition access_key_to_json :: "'j crates \<Rightarrow> access_key \<Rightarrow> json" where
  "access_key_to_json cr k = JObj
     [(''id'', JStr (ak_id k)), (''key'', JStr (ak_key k)), (''subuser'', JStr (ak_subuser k)),
      (''active'', JBool (ak_active k)), (''create_date'', JStr (chrono_to_serde cr (ak_create_date k)))]"

definition access_key_of_json :: "'j crates \<Rightarrow> json \<Rightarrow> access_key option" where
  "access_key_of_json cr j = do {
     fs \<leftarrow> de_obj j;
     i \<leftarrow> de_field de_str fs ''id'';
     k \<leftarrow> de_field de_str fs ''key'';
     s \<leftarrow> de_default [] de_str fs ''subuser'';
     a \<leftarrow> de_default True de_bool fs ''active'';
     d \<leftarrow> de_field (de_time cr) fs ''create_date'';
     Some \<lparr>ak_id = i, ak_key = k, ak_subuser = s, ak_active = a, ak_create_date = d\<rparr> }"

definition user_to_json :: "'j crates \<Rightarrow> user_info \<Rightarrow> json" where
  "user_to_json cr u = JObj
     [(''user_id'', user_id_to_json (ui_user_id u)),
      (''display_name'', JStr (ui_display_name u)),
      (''user_email'', JStr (ui_user_email u)),
      (''access_keys'', JObj (map (\<lambda>(k, v). (k, access_key_to_json cr v)) (ui_access_keys u))),
      (''caps'', caps_to_json (ui_caps u)),
      (''suspended'', JBool (ui_suspended u)),
      (''max_buckets'', JNum (sint (ui_max_buckets u))),
      (''system'', JBool (ui_system u)),
      (''admin'', JBool (ui_admin u)),
      (''create_date'', JStr (chrono_to_serde cr (ui_create_date u)))]"

definition user_of_json :: "'j crates \<Rightarrow> json \<Rightarrow> user_info option" where
  "user_of_json cr j = do {
     fs \<leftarrow> de_obj j;
     uid \<leftarrow> de_field user_id_of_json fs ''user_id'';
     name \<leftarrow> de_default [] de_str fs ''display_name'';
     email \<leftarrow> de_default [] de_str fs ''user_email'';
     keys \<leftarrow> de_default [] (de_map (access_key_of_json cr)) fs ''access_keys'';
     caps \<leftarrow> de_default caps_new caps_of_json fs ''caps'';
     susp \<leftarrow> de_default False de_bool fs ''suspended'';
     mx \<leftarrow> de_default RGW_DEFAULT_MAX_BUCKETS de_i32 fs ''max_buckets'';
     sys \<leftarrow> de_default False de_bool fs ''system'';
     adm \<leftarrow> de_default False de_bool fs ''admin'';
     d \<leftarrow> de_field (de_time cr) fs ''create_date'';
     Some \<lparr>ui_user_id = uid, ui_display_name = name, ui_user_email = email, ui_access_keys = keys,
           ui_caps = caps, ui_suspended = susp, ui_max_buckets = mx, ui_system = sys,
           ui_admin = adm, ui_create_date = d\<rparr> }"

definition bucket_key_to_json :: "bucket_key \<Rightarrow> json" where
  "bucket_key_to_json b = JObj
     [(''tenant'', JStr (bk_tenant b)), (''name'', JStr (bk_name b)),
      (''bucket_id'', JStr (bk_bucket_id b)), (''marker'', JStr (bk_marker b))]"

definition bucket_key_of_json :: "json \<Rightarrow> bucket_key option" where
  "bucket_key_of_json j = do {
     fs \<leftarrow> de_obj j;
     t \<leftarrow> de_field de_str fs ''tenant''; n \<leftarrow> de_field de_str fs ''name'';
     i \<leftarrow> de_field de_str fs ''bucket_id''; m \<leftarrow> de_field de_str fs ''marker'';
     Some \<lparr>bk_tenant = t, bk_name = n, bk_bucket_id = i, bk_marker = m\<rparr> }"

definition bucket_to_json :: "'j crates \<Rightarrow> bucket_info \<Rightarrow> json" where
  "bucket_to_json cr b = JObj
     [(''bucket'', bucket_key_to_json (bi_bucket b)),
      (''owner'', user_id_to_json (bi_owner b)),
      (''creation_time'', JStr (chrono_to_serde cr (bi_creation_time b))),
      (''placement_rule'', JStr (bi_placement_rule b)),
      (''zonegroup'', JStr (bi_zonegroup b)),
      (''num_shards'', JNum (uint (bi_num_shards b)))]"

definition bucket_of_json :: "'j crates \<Rightarrow> json \<Rightarrow> bucket_info option" where
  "bucket_of_json cr j = do {
     fs \<leftarrow> de_obj j;
     b \<leftarrow> de_field bucket_key_of_json fs ''bucket'';
     ow \<leftarrow> de_field user_id_of_json fs ''owner'';
     t \<leftarrow> de_field (de_time cr) fs ''creation_time'';
     p \<leftarrow> de_default [] de_str fs ''placement_rule'';
     z \<leftarrow> de_default [] de_str fs ''zonegroup'';
     n \<leftarrow> de_default 0 de_u32 fs ''num_shards'';
     Some \<lparr>bi_bucket = b, bi_owner = ow, bi_creation_time = t, bi_placement_rule = p,
           bi_zonegroup = z, bi_num_shards = n\<rparr> }"

definition bytes_to_json :: "bytes \<Rightarrow> json" where
  "bytes_to_json b = JArr (map (\<lambda>c. JNum (int (byte c))) b)"

definition bytes_of_json :: "json \<Rightarrow> bytes option" where
  "bytes_of_json j = do { xs \<leftarrow> de_arr j; opt_map de_byte xs }"

definition attrs_to_json :: "attrs \<Rightarrow> json" where
  "attrs_to_json a = JObj (map (\<lambda>(k, v). (k, bytes_to_json v)) a)"

definition attrs_of_json :: "json \<Rightarrow> attrs option" where
  "attrs_of_json j = de_map bytes_of_json j"

subsection \<open>Round trips\<close>

lemmas de_simps = de_field_def de_default_def fields_named_def de_time_def

lemma bytes_json_rt [simp]: "bytes_of_json (bytes_to_json b) = Some b"
proof -
  have "opt_map de_byte (map (\<lambda>c. JNum (int (byte c))) b) = Some (map (\<lambda>c. c) b)"
    by (rule opt_map_map) (simp add: de_byte_def of_nat_less_iff [where 'a = int, of _ 256, simplified])
  then show ?thesis by (simp add: bytes_of_json_def bytes_to_json_def)
qed

lemma attrs_json_rt: "bt_wf a \<Longrightarrow> attrs_of_json (attrs_to_json a) = Some a"
  by (simp add: attrs_of_json_def attrs_to_json_def de_map_entries)

lemma cap_perm_parse_display: "cap_valid p \<Longrightarrow> cap_perm_parse (cap_perm_display p) = Inr p"
proof -
  have "cap_perm_parse ''*'' = Inr CAP_ALL" "cap_perm_parse ''read'' = Inr CAP_READ"
    "cap_perm_parse ''write'' = Inr CAP_WRITE"
    by code_simp+
  then show "cap_valid p \<Longrightarrow> cap_perm_parse (cap_perm_display p) = Inr p"
    by (auto simp: cap_valid_def cap_perm_display_def cap_consts)
qed

lemma cap_union_NONE [simp]: "cap_union CAP_NONE p = p"
  by (simp add: cap_union_def cap_consts)

lemma caps_entries_rebuild:
  assumes "caps_wf (done @ todo)"
  shows "try_fold (\<lambda>(t, p) caps. try_r (cap_perm_parse p) (\<lambda>q. user_caps_add caps t q))
           (map (\<lambda>(t, p). (t, cap_perm_display p)) todo) (bt_from_list done) =
         Inr (bt_from_list (done @ todo))"
  using assms
proof (induction todo arbitrary: "done")
  case (Cons e todo)
  obtain t p where e: "e = (t, p)" by (cases e)
  have wf: "caps_wf ((done @ [(t, p)]) @ todo)" using Cons.prems e by simp
  then have d: "bt_wf done" and tp: "t \<in> set VALID_CAP_TYPES" "cap_valid p"
    and fresh: "t \<notin> set (bt_keys done)"
    by (auto simp: caps_wf_def bt_wf_def sorted_wrt_append)
  from fresh have "caps_bits done t = CAP_NONE"
    by (simp add: caps_bits_def bt_get_None_iff [THEN iffD2])
  with d tp have "user_caps_add (bt_from_list done) t p = Inr (bt_from_list (done @ [(t, p)]))"
    by (simp add: user_caps_add_def bt_from_list_id bt_from_list_snoc)
  with Cons.IH [OF wf] e tp show ?case by (simp add: cap_perm_parse_display)
qed simp

lemma caps_json_rt: "caps_wf caps \<Longrightarrow> caps_of_json (caps_to_json caps) = Some caps"
proof -
  assume wf: "caps_wf caps"
  have es: "opt_map cap_entry_of_json
      (map (\<lambda>(t, p). JObj [(''type'', JStr t), (''perm'', JStr (cap_perm_display p))]) caps) =
      Some (map (\<lambda>(t, p). (t, cap_perm_display p)) caps)"
    by (rule opt_map_map) (auto simp: cap_entry_of_json_def de_simps)
  have "try_fold (\<lambda>(t, p) caps. try_r (cap_perm_parse p) (\<lambda>q. user_caps_add caps t q))
      (map (\<lambda>(t, p). (t, cap_perm_display p)) caps) caps_new = Inr caps"
    using caps_entries_rebuild [of "[]" caps] wf
    by (simp add: bt_from_list_id caps_new_def)
  with es show ?thesis by (simp add: caps_of_json_def caps_to_json_def)
qed

lemma access_key_json_rt: "chrono_ok cr \<Longrightarrow> access_key_of_json cr (access_key_to_json cr k) = Some k"
  by (simp add: access_key_of_json_def access_key_to_json_def de_simps chrono_ok_def)

lemma i32_rt [simp]: "de_i32 (JNum (sint (w :: i32))) = Some w"
  using sint_greater_eq [of w] sint_less [of w] by (simp add: de_i32_def)

lemma u32_rt [simp]: "de_u32 (JNum (uint (w :: u32))) = Some w"
  using uint_lt2p [of w] by (simp add: de_u32_def)

text \<open>
  A user record written by its serde impls reads back as the record with its id in canonical form,
  whatever its keys, capabilities and flags.
\<close>

lemma user_json_rt:
  assumes "chrono_ok cr" and "user_wf u"
  shows "user_of_json cr (user_to_json cr u) = Some (canon_user u)"
proof -
  have "de_map (access_key_of_json cr) (JObj (map (\<lambda>(k, v). (k, access_key_to_json cr v)) (ui_access_keys u)))
      = Some (ui_access_keys u)"
    using assms by (intro de_map_entries) (auto simp: user_wf_def access_key_json_rt)
  then show ?thesis
    using assms
    by (simp add: user_of_json_def user_to_json_def de_simps chrono_ok_def caps_json_rt user_wf_def
        user_id_to_json_def user_id_of_json_def canon_user_def canon_user_id_def)
qed

lemma bucket_json_rt:
  assumes "chrono_ok cr"
  shows "bucket_of_json cr (bucket_to_json cr b) = Some (canon_bucket b)"
  using assms
  by (simp add: bucket_of_json_def bucket_to_json_def bucket_key_of_json_def bucket_key_to_json_def
      de_simps chrono_ok_def user_id_to_json_def user_id_of_json_def canon_bucket_def canon_user_id_def)

end
