(* ===== verification/Sal.thy ===== *)
theory Sal
  imports Crates "HOL-Library.Product_Lexorder"
begin

section \<open>\<open>rgw-sal/src/lib.rs\<close>: the storage abstraction layer\<close>

text \<open>
  The trait \<open>Driver\<close> is a record of its methods over a store type \<open>'s\<close>, the value a handler calls
  through (\<open>&dyn Driver\<close>). Its documented contract is a second, abstract driver over ordered maps
  (\<open>gw\<close>); \<open>sal_driver\<close> is the locale of the drivers that meet it. \<open>usize\<close> counts are naturals.
\<close>

subsection \<open>Parameters and results\<close>

record list_params =
  lp_prefix :: string
  lp_delimiter :: string
  lp_marker :: string
  lp_max_keys :: nat

definition list_params_default :: list_params where
  "list_params_default = \<lparr>lp_prefix = [], lp_delimiter = [], lp_marker = [], lp_max_keys = 0\<rparr>"

record list_result =
  lr_objects :: "object_info list"
  lr_common_prefixes :: "string list"
  lr_is_truncated :: bool
  lr_next_marker :: string

definition list_result_default :: list_result where
  "list_result_default =
     \<lparr>lr_objects = [], lr_common_prefixes = [], lr_is_truncated = False, lr_next_marker = []\<rparr>"

record bucket_list =
  bl_buckets :: "bucket_info list"
  bl_is_truncated :: bool
  bl_next_marker :: string

definition bucket_list_default :: bucket_list where
  "bucket_list_default = \<lparr>bl_buckets = [], bl_is_truncated = False, bl_next_marker = []\<rparr>"

datatype byte_range = Absolute (range_start: u64) (range_end: "u64 option") | Suffix u64

text \<open>A payload stream: chunks, or an I/O error (its text) that ends it.\<close>

type_synonym object_body = "(string + bytes) list"

record object_read =
  rd_info :: object_info
  rd_range :: "(u64 \<times> u64) option"
  rd_body :: object_body

definition DEFAULT_MAX_ENTRIES :: nat where
  "DEFAULT_MAX_ENTRIES = 1000"

definition body_from_bytes :: "bytes \<Rightarrow> object_body" where
  "body_from_bytes b = [Inr b]"

fun read_body :: "object_body \<Rightarrow> string + bytes" where
  "read_body [] = Inr []"
| "read_body (Inl e # _) = Inl e"
| "read_body (Inr c # body) = try_r (read_body body) (\<lambda>rest. Inr (c @ rest))"

lemma read_body_from_bytes [simp]: "read_body (body_from_bytes b) = Inr b"
  by (simp add: body_from_bytes_def)

text \<open>A \<open>Vec<u8>\<close> holds at most \<open>isize::MAX\<close> bytes, so every body that can be collected fits.\<close>

definition body_fits :: "object_body \<Rightarrow> bool" where
  "body_fits body \<longleftrightarrow> (case read_body body of Inl _ \<Rightarrow> True | Inr d \<Rightarrow> length d < 2 ^ 63)"

subsection \<open>The trait\<close>

text \<open>\<open>put_object\<close> reads the system clock; the reading is its first argument.\<close>

record 's driver =
  drv_name :: string
  load_user :: "user_id \<Rightarrow> ('s, user_info) rgw_act"
  load_user_by_access_key :: "string \<Rightarrow> ('s, user_info) rgw_act"
  load_user_by_email :: "string \<Rightarrow> ('s, user_info) rgw_act"
  store_user :: "user_info \<Rightarrow> bool \<Rightarrow> ('s, unit) rgw_act"
  remove_user :: "user_id \<Rightarrow> ('s, unit) rgw_act"
  list_users :: "string \<Rightarrow> nat \<Rightarrow> ('s, user_id list) rgw_act"
  create_bucket :: "bucket_info \<Rightarrow> ('s, unit) rgw_act"
  load_bucket :: "string \<Rightarrow> string \<Rightarrow> ('s, bucket_info) rgw_act"
  list_buckets :: "user_id option \<Rightarrow> string \<Rightarrow> nat \<Rightarrow> ('s, bucket_list) rgw_act"
  remove_bucket :: "string \<Rightarrow> string \<Rightarrow> ('s, unit) rgw_act"
  read_stats :: "bucket_key \<Rightarrow> ('s, bucket_stats) rgw_act"
  list_objects :: "bucket_key \<Rightarrow> list_params \<Rightarrow> ('s, list_result) rgw_act"
  head_object :: "bucket_key \<Rightarrow> object_key \<Rightarrow> ('s, object_info) rgw_act"
  get_object :: "bucket_key \<Rightarrow> object_key \<Rightarrow> byte_range option \<Rightarrow> ('s, object_read) rgw_act"
  put_object :: "time \<Rightarrow> bucket_key \<Rightarrow> object_key \<Rightarrow> owner \<Rightarrow> attrs \<Rightarrow> object_body \<Rightarrow> ('s, object_info) rgw_act"
  delete_object :: "bucket_key \<Rightarrow> object_key \<Rightarrow> ('s, unit) rgw_act"

subsection \<open>The listing contract\<close>

text \<open>
  One entry of a listing: an object, or a common prefix that stands for every key sharing it. The
  listing of a bucket is the entries of its keys in order, each common prefix once; a page is the
  entries after the marker, at most \<open>max\<close> of them.
\<close>

datatype entry = EObject object_info | EPrefix string

fun entry_name :: "entry \<Rightarrow> string" where
  "entry_name (EObject ob) = ok_name (oi_key ob)"
| "entry_name (EPrefix p) = p"

definition common_prefix :: "string \<Rightarrow> string \<Rightarrow> string \<Rightarrow> string option" where
  "common_prefix pre delim name =
     (if delim = [] then None
      else (case strip_prefix pre name of None \<Rightarrow> None
            | Some rest \<Rightarrow>
                map_option (\<lambda>i. take (length pre + i + length delim) name) (str_find delim rest)))"

definition entry_of :: "string \<Rightarrow> string \<Rightarrow> object_info \<Rightarrow> entry" where
  "entry_of pre delim ob =
     (case common_prefix pre delim (ok_name (oi_key ob)) of None \<Rightarrow> EObject ob | Some cp \<Rightarrow> EPrefix cp)"

definition list_entries :: "string \<Rightarrow> string \<Rightarrow> object_info list \<Rightarrow> entry list" where
  "list_entries pre delim obs =
     remdups_adj (map (entry_of pre delim) (filter (\<lambda>ob. prefix pre (ok_name (oi_key ob))) obs))"

definition entries_after :: "list_params \<Rightarrow> object_info list \<Rightarrow> entry list" where
  "entries_after p obs =
     filter (\<lambda>e. lp_marker p < entry_name e) (list_entries (lp_prefix p) (lp_delimiter p) obs)"

definition entry_objects :: "entry list \<Rightarrow> object_info list" where
  "entry_objects es = List.map_filter (\<lambda>e. case e of EObject ob \<Rightarrow> Some ob | EPrefix _ \<Rightarrow> None) es"

definition entry_prefixes :: "entry list \<Rightarrow> string list" where
  "entry_prefixes es = List.map_filter (\<lambda>e. case e of EObject _ \<Rightarrow> None | EPrefix p \<Rightarrow> Some p) es"

definition page_size :: "nat \<Rightarrow> nat" where
  "page_size mx = (if mx = 0 then DEFAULT_MAX_ENTRIES else mx)"

definition page_of :: "nat \<Rightarrow> entry list \<Rightarrow> list_result" where
  "page_of mx es =
     (let page = take mx es in
      \<lparr>lr_objects = entry_objects page, lr_common_prefixes = entry_prefixes page,
       lr_is_truncated = (mx < length es),
       lr_next_marker = (if page = [] then [] else entry_name (last page))\<rparr>)"

subsection \<open>The abstract store and the contract of each method\<close>

text \<open>
  Users by the string form of their id, the access key index, buckets by \<open>(name, tenant)\<close> and
  objects, with their payload, by \<open>(bucket id, name)\<close>; each map ordered by its key.
\<close>

record gw =
  g_users :: "(string, user_info) btree"
  g_keys :: "(string, string) btree"
  g_buckets :: "(string \<times> string, bucket_info) btree"
  g_objects :: "(string \<times> string, object_info \<times> bytes) btree"

abbreviation b_id :: "bucket_info \<Rightarrow> string" where
  "b_id b \<equiv> bk_bucket_id (bi_bucket b)"

definition g_bucket_ids :: "gw \<Rightarrow> string list" where
  "g_bucket_ids g = map (b_id \<circ> snd) (g_buckets g)"

definition gw_wf :: "gw \<Rightarrow> bool" where
  "gw_wf g \<longleftrightarrow>
     bt_wf (g_users g) \<and> bt_wf (g_keys g) \<and> bt_wf (g_buckets g) \<and> bt_wf (g_objects g) \<and>
     (\<forall>uid u. bt_get (g_users g) uid = Some u \<longrightarrow>
        user_wf u \<and> canonical_uid (ui_user_id u) \<and> user_id_display (ui_user_id u) = uid) \<and>
     (\<forall>k uid. bt_get (g_keys g) k = Some uid \<longleftrightarrow>
        (\<exists>u. bt_get (g_users g) uid = Some u \<and> user_has_key u k)) \<and>
     (\<forall>n t b. bt_get (g_buckets g) (n, t) = Some b \<longrightarrow>
        bk_name (bi_bucket b) = n \<and> bk_tenant (bi_bucket b) = t \<and> canonical_uid (bi_owner b)) \<and>
     distinct (g_bucket_ids g) \<and>
     (\<forall>i n ob d. bt_get (g_objects g) (i, n) = Some (ob, d) \<longrightarrow>
        i \<in> set (g_bucket_ids g) \<and> oi_key ob = object_key_new n \<and> unat (oi_size ob) = length d \<and>
        from_utf8_ok n)"

definition gw_empty :: gw where
  "gw_empty = \<lparr>g_users = [], g_keys = [], g_buckets = [], g_objects = []\<rparr>"

definition g_objects_of :: "gw \<Rightarrow> string \<Rightarrow> object_info list" where
  "g_objects_of g i = map (fst \<circ> snd) (filter (\<lambda>e. fst (fst e) = i) (g_objects g))"

definition spec_load_user :: "user_id \<Rightarrow> (gw, user_info) rgw_act" where
  "spec_load_user uid g = (ok_or NoSuchUser (bt_get (g_users g) (user_id_display uid)), g)"

definition spec_load_user_by_access_key :: "string \<Rightarrow> (gw, user_info) rgw_act" where
  "spec_load_user_by_access_key k g =
     (ok_or NoSuchUser (Option.bind (bt_get (g_keys g) k) (bt_get (g_users g))), g)"

definition spec_load_user_by_email :: "string \<Rightarrow> (gw, user_info) rgw_act" where
  "spec_load_user_by_email email g =
     (if email = [] then Inl NoSuchUser
      else ok_or NoSuchUser (find (\<lambda>u. ui_user_email u = email) (map snd (g_users g))), g)"

definition g_key_clash :: "gw \<Rightarrow> string \<Rightarrow> user_info \<Rightarrow> bool" where
  "g_key_clash g uid info \<longleftrightarrow>
     (\<exists>k \<in> set (bt_keys (ui_access_keys info)).
        case bt_get (g_keys g) k of None \<Rightarrow> False | Some ow \<Rightarrow> ow \<noteq> uid)"

lemma g_key_clash_iff:
  "g_key_clash g uid info \<longleftrightarrow>
     (\<exists>k \<in> set (bt_keys (ui_access_keys info)). \<exists>ow. bt_get (g_keys g) k = Some ow \<and> ow \<noteq> uid)"
  unfolding g_key_clash_def by (rule bex_cong) (auto split: option.splits)

definition g_put_user :: "string \<Rightarrow> user_info \<Rightarrow> gw \<Rightarrow> gw" where
  "g_put_user uid info g =
     g\<lparr>g_users := bt_insert uid (canon_user info) (g_users g),
       g_keys := fold (\<lambda>k. bt_insert k uid) (bt_keys (ui_access_keys info))
                   (filter (\<lambda>(_, ow). ow \<noteq> uid) (g_keys g))\<rparr>"

definition spec_store_user :: "user_info \<Rightarrow> bool \<Rightarrow> (gw, unit) rgw_act" where
  "spec_store_user info exclusive g =
     (let uid = user_id_display (ui_user_id info) in
      if exclusive \<and> bt_get (g_users g) uid \<noteq> None then (Inl UserAlreadyExists, g)
      else if g_key_clash g uid info then (Inl KeyExists, g)
      else (Inr (), g_put_user uid info g))"

definition spec_remove_user :: "user_id \<Rightarrow> (gw, unit) rgw_act" where
  "spec_remove_user u g =
     (let uid = user_id_display u in
      if bt_get (g_users g) uid = None then (Inl NoSuchUser, g)
      else (Inr (), g\<lparr>g_users := bt_remove uid (g_users g),
                      g_keys := filter (\<lambda>(_, ow). ow \<noteq> uid) (g_keys g)\<rparr>))"

definition spec_list_users :: "string \<Rightarrow> nat \<Rightarrow> (gw, user_id list) rgw_act" where
  "spec_list_users marker mx g =
     (Inr (map user_id_parse (take (page_size mx) (filter (\<lambda>u. marker < u) (bt_keys (g_users g))))), g)"

definition spec_create_bucket :: "bucket_info \<Rightarrow> (gw, unit) rgw_act" where
  "spec_create_bucket info g =
     (let b = bi_bucket info; k = (bk_name b, bk_tenant b) in
      if bk_bucket_id b \<in> set (g_bucket_ids g) \<or> bt_get (g_buckets g) k \<noteq> None
      then (Inl BucketAlreadyExists, g)
      else (Inr (), g\<lparr>g_buckets := bt_insert k (canon_bucket info) (g_buckets g)\<rparr>))"

definition spec_load_bucket :: "string \<Rightarrow> string \<Rightarrow> (gw, bucket_info) rgw_act" where
  "spec_load_bucket tenant name g = (ok_or NoSuchBucket (bt_get (g_buckets g) (name, tenant)), g)"

definition g_buckets_of :: "gw \<Rightarrow> user_id option \<Rightarrow> string \<Rightarrow> bucket_info list" where
  "g_buckets_of g ow marker =
     filter (\<lambda>b. marker < bk_name (bi_bucket b) \<and>
              (case ow of None \<Rightarrow> True | Some u \<Rightarrow> user_id_display (bi_owner b) = user_id_display u))
       (map snd (g_buckets g))"

definition spec_list_buckets :: "user_id option \<Rightarrow> string \<Rightarrow> nat \<Rightarrow> (gw, bucket_list) rgw_act" where
  "spec_list_buckets ow marker mx g =
     (let bs = g_buckets_of g ow marker; page = take (page_size mx) bs in
      (Inr \<lparr>bl_buckets = page, bl_is_truncated = (page_size mx < length bs),
            bl_next_marker = (if page = [] then [] else bk_name (bi_bucket (last page)))\<rparr>, g))"

definition spec_remove_bucket :: "string \<Rightarrow> string \<Rightarrow> (gw, unit) rgw_act" where
  "spec_remove_bucket tenant name g =
     (case bt_get (g_buckets g) (name, tenant) of
        None \<Rightarrow> (Inl NoSuchBucket, g)
      | Some b \<Rightarrow>
          if g_objects_of g (b_id b) \<noteq> [] then (Inl BucketNotEmpty, g)
          else (Inr (), g\<lparr>g_buckets := bt_remove (name, tenant) (g_buckets g)\<rparr>))"

definition spec_read_stats :: "bucket_key \<Rightarrow> (gw, bucket_stats) rgw_act" where
  "spec_read_stats b g =
     (let obs = g_objects_of g (bk_bucket_id b) in
      if bk_bucket_id b \<notin> set (g_bucket_ids g) then (Inl NoSuchBucket, g)
      else (Inr \<lparr>bs_num_objects = of_nat (length obs),
                 bs_size = of_nat (sum_list (map (unat \<circ> oi_size) obs))\<rparr>, g))"

definition spec_list_objects :: "bucket_key \<Rightarrow> list_params \<Rightarrow> (gw, list_result) rgw_act" where
  "spec_list_objects b p g =
     (if bk_bucket_id b \<notin> set (g_bucket_ids g) then Inl NoSuchBucket
      else Inr (page_of (page_size (lp_max_keys p)) (entries_after p (g_objects_of g (bk_bucket_id b)))), g)"

definition g_find_object :: "gw \<Rightarrow> bucket_key \<Rightarrow> object_key \<Rightarrow> (object_info \<times> bytes) rgw_result" where
  "g_find_object g b k =
     (if bk_bucket_id b \<notin> set (g_bucket_ids g) then Inl NoSuchBucket
      else ok_or NoSuchKey (bt_get (g_objects g) (bk_bucket_id b, ok_name k)))"

definition spec_head_object :: "bucket_key \<Rightarrow> object_key \<Rightarrow> (gw, object_info) rgw_act" where
  "spec_head_object b k g = (try_r (g_find_object g b k) (\<lambda>(ob, _). Inr ob), g)"

text \<open>The byte range a request selects of \<open>len\<close> bytes, as positions of the first and last one.\<close>

definition spec_range :: "byte_range \<Rightarrow> nat \<Rightarrow> (nat \<times> nat) option" where
  "spec_range r len = (case r of
       Absolute s e \<Rightarrow>
         (let last = (case e of None \<Rightarrow> len - 1 | Some e \<Rightarrow> min (unat e) (len - 1)) in
          if unat s < len \<and> unat s \<le> last then Some (unat s, last) else None)
     | Suffix n \<Rightarrow> if 0 < len \<and> n \<noteq> 0 then Some (len - unat n, len - 1) else None)"

lemma unat_pred: "sz \<noteq> 0 \<Longrightarrow> unat (sz - 1 :: 'a::len word) = unat sz - 1"
  by (simp add: unat_minus_one)

lemma spec_range_bounds: "spec_range r len = Some (lo, hi) \<Longrightarrow> lo \<le> hi \<and> hi < len"
proof (cases r)
  case (Suffix n)
  then show "spec_range r len = Some (lo, hi) \<Longrightarrow> ?thesis"
    using unat_gt_0 [of n] by (auto simp: spec_range_def split: if_splits)
qed (auto simp: spec_range_def Let_def split: option.splits if_splits)

definition spec_get_object :: "bucket_key \<Rightarrow> object_key \<Rightarrow> byte_range option \<Rightarrow> (gw, object_read) rgw_act" where
  "spec_get_object b k rng g =
     (try_r (g_find_object g b k) (\<lambda>(ob, d).
        case rng of
          None \<Rightarrow> Inr \<lparr>rd_info = ob, rd_range = None, rd_body = body_from_bytes d\<rparr>
        | Some r \<Rightarrow> try_r (ok_or InvalidRange (spec_range r (length d))) (\<lambda>(lo, hi).
            Inr \<lparr>rd_info = ob, rd_range = Some (of_nat lo, of_nat hi),
                 rd_body = body_from_bytes (take (hi - lo + 1) (drop lo d))\<rparr>)), g)"

definition new_object :: "(bytes \<Rightarrow> string) \<Rightarrow> time \<Rightarrow> object_key \<Rightarrow> owner \<Rightarrow> attrs \<Rightarrow> bytes \<Rightarrow> object_info" where
  "new_object etag now k ow at d =
     \<lparr>oi_key = object_key_new (ok_name k), oi_size = of_nat (length d), oi_etag = etag d,
      oi_mtime = now, oi_owner = ow, oi_storage_class = ''STANDARD'', oi_attrs = at\<rparr>"

definition spec_put_object ::
    "(bytes \<Rightarrow> string) \<Rightarrow> time \<Rightarrow> bucket_key \<Rightarrow> object_key \<Rightarrow> owner \<Rightarrow> attrs \<Rightarrow> object_body \<Rightarrow>
     (gw, object_info) rgw_act" where
  "spec_put_object etag now b k ow at body g =
     (case read_body body of
        Inl m \<Rightarrow> (Inl (InternalError m), g)
      | Inr d \<Rightarrow>
          (let ob = new_object etag now k ow at d in
           if bk_bucket_id b \<notin> set (g_bucket_ids g) then (Inl NoSuchBucket, g)
           else (Inr ob, g\<lparr>g_objects := bt_insert (bk_bucket_id b, ok_name k) (canon_object ob, d) (g_objects g)\<rparr>)))"

definition spec_delete_object :: "bucket_key \<Rightarrow> object_key \<Rightarrow> (gw, unit) rgw_act" where
  "spec_delete_object b k g =
     (case g_find_object g b k of
        Inl e \<Rightarrow> (Inl e, g)
      | Inr _ \<Rightarrow> (Inr (), g\<lparr>g_objects := bt_remove (bk_bucket_id b, ok_name k) (g_objects g)\<rparr>))"

end
