(* ===== verification/Sqlite_Db.thy ===== *)
theory Sqlite_Db
  imports Sal
begin

section \<open>\<open>rgw-sal-sqlite/src/lib.rs\<close>: the database and its statements\<close>

text \<open>
  The tables of \<open>SCHEMA\<close> are lists of rows, a statement is a function of the database; a
  statement that violates a constraint is \<open>None\<close>. Text columns compare bytewise (SQLite's
  \<open>BINARY\<close> collation). A connection is a database with a schedule of faults: every call into
  SQLite, the lock and the blocking pool included, takes the next entry of the schedule, and
  \<open>Some e\<close> makes that call fail with the text \<open>e\<close>. An empty schedule never fails.
\<close>

type_synonym i64 = "64 word"

subsection \<open>Tables\<close>

record 'j user_row =
  ur_uid :: string
  ur_email :: "string option"
  ur_info :: 'j

record key_row =
  kr_access_key :: string
  kr_uid :: string

record 'j bucket_row =
  br_bucket_id :: string
  br_tenant :: string
  br_name :: string
  br_owner :: string
  br_info :: 'j

text \<open>\<open>ObjectRow\<close>: the columns of \<open>OBJECT_COLS\<close>.\<close>

record 'j object_row =
  or_name :: string
  or_size :: i64
  or_etag :: string
  or_mtime :: string
  or_owner_id :: string
  or_owner_display :: string
  or_storage_class :: string
  or_attrs :: 'j

record 'j object_rec =
  ob_bucket_id :: string
  ob_row :: "'j object_row"
  ob_data :: bytes

record 'j db =
  db_users :: "'j user_row list"
  db_keys :: "key_row list"
  db_buckets :: "'j bucket_row list"
  db_objects :: "'j object_rec list"

definition db_empty :: "'j db" where
  "db_empty = \<lparr>db_users = [], db_keys = [], db_buckets = [], db_objects = []\<rparr>"

abbreviation ob_col_name :: "'j object_rec \<Rightarrow> string" where
  "ob_col_name r \<equiv> or_name (ob_row r)"

subsection \<open>Conversions\<close>

definition to_json :: "'j crates \<Rightarrow> json \<Rightarrow> 'j rgw_result" where
  "to_json cr v = map_err internal (json_to_string cr v)"

definition from_json :: "'j crates \<Rightarrow> (json \<Rightarrow> 'a option) \<Rightarrow> 'j \<Rightarrow> 'a rgw_result" where
  "from_json cr de s =
     try_r (map_err internal (json_from_str cr s)) (\<lambda>v. ok_or (internal (serde_error cr)) (de v))"

definition fmt_time :: "'j crates \<Rightarrow> time \<Rightarrow> string" where
  "fmt_time cr t = to_rfc3339_nanos cr t"

definition parse_time :: "'j crates \<Rightarrow> string \<Rightarrow> time rgw_result" where
  "parse_time cr s = map_err internal (parse_from_rfc3339 cr s)"

definition try_from_int_error :: string where
  "try_from_int_error = ''out of range integral type conversion attempted''"

definition to_i64 :: "u64 \<Rightarrow> i64 rgw_result" where
  "to_i64 n = (if uint n < 2 ^ 63 then Inr n else Inl (internal try_from_int_error))"

definition to_u64 :: "i64 \<Rightarrow> u64 rgw_result" where
  "to_u64 n = (if 0 \<le> sint n then Inr n else Inl (internal try_from_int_error))"

text \<open>\<open>ObjectRow::into_info\<close>.\<close>

definition into_info :: "'j crates \<Rightarrow> 'j object_row \<Rightarrow> object_info rgw_result" where
  "into_info cr r =
     try_r (to_u64 (or_size r)) (\<lambda>size.
     try_r (parse_time cr (or_mtime r)) (\<lambda>mtime.
     try_r (from_json cr attrs_of_json (or_attrs r)) (\<lambda>attrs.
     Inr \<lparr>oi_key = object_key_new (or_name r), oi_size = size, oi_etag = or_etag r, oi_mtime = mtime,
          oi_owner = \<lparr>ow_id = user_id_parse (or_owner_id r), ow_display_name = or_owner_display r\<rparr>,
          oi_storage_class = or_storage_class r, oi_attrs = attrs\<rparr>)))"

text \<open>\<open>resolve_range\<close>, in \<open>u64\<close>.\<close>

definition resolve_range :: "byte_range \<Rightarrow> u64 \<Rightarrow> (u64 \<times> u64) rgw_result" where
  "resolve_range rng sz =
     (if sz = 0 then Inl InvalidRange
      else
        let last = sz - 1 in
        (case rng of
           Absolute start e \<Rightarrow>
             (let end' = (case e of None \<Rightarrow> last | Some e \<Rightarrow> min e last) in
              if last < start \<or> end' < start then Inl InvalidRange else Inr (start, end'))
         | Suffix n \<Rightarrow> if n = 0 then Inl InvalidRange else Inr (sz - min n sz, last)))"

subsection \<open>SQL functions\<close>

text \<open>
  \<open>length(X)\<close> counts the characters before the first NUL and \<open>substr(X, 1, n)\<close> takes the first
  \<open>n\<close> characters before it; a character of UTF-8 text is a byte and the continuation bytes after it.
\<close>

function sql_characters :: "string \<Rightarrow> string list" where
  "sql_characters [] = []"
| "sql_characters (c # s) = (c # takeWhile is_cont s) # sql_characters (dropWhile is_cont s)"
  by pat_completeness auto
termination by (relation "measure length") (auto simp: less_Suc_eq_le length_dropWhile_le)

definition sql_text :: "string \<Rightarrow> string" where
  "sql_text s = takeWhile (\<lambda>c. c \<noteq> CHR 0x00) s"

definition sql_length :: "string \<Rightarrow> nat" where
  "sql_length s = length (sql_characters (sql_text s))"

definition sql_substr1 :: "string \<Rightarrow> nat \<Rightarrow> string" where
  "sql_substr1 s n = concat (take n (sql_characters (sql_text s)))"

text \<open>\<open>substr\<close> of a BLOB from a 1-based byte position.\<close>

definition sql_blob_substr :: "bytes \<Rightarrow> i64 \<Rightarrow> i64 \<Rightarrow> bytes" where
  "sql_blob_substr d from len = take (nat (sint len)) (drop (nat (sint from - 1)) d)"

text \<open>\<open>coalesce(sum(x), 0)\<close> of integers: an error when a partial sum leaves the 64-bit range.\<close>

definition sql_add :: "int \<Rightarrow> int \<Rightarrow> int option" where
  "sql_add a b = (if - (2 ^ 63) \<le> a + b \<and> a + b < 2 ^ 63 then Some (a + b) else None)"

definition sql_sum :: "int list \<Rightarrow> int option" where
  "sql_sum xs = fold (\<lambda>x acc. Option.bind acc (\<lambda>a. sql_add a x)) xs (Some 0)"

subsection \<open>Statements that read\<close>

definition sql_user_info :: "string \<Rightarrow> 'j db \<Rightarrow> 'j option" where
  "sql_user_info uid d = map_option ur_info (find (\<lambda>r. ur_uid r = uid) (db_users d))"

definition sql_user_info_by_key :: "string \<Rightarrow> 'j db \<Rightarrow> 'j option" where
  "sql_user_info_by_key key d =
     Option.bind (find (\<lambda>k. kr_access_key k = key) (db_keys d)) (\<lambda>k. sql_user_info (kr_uid k) d)"

definition sql_user_info_by_email :: "string \<Rightarrow> 'j db \<Rightarrow> 'j option" where
  "sql_user_info_by_email email d =
     (case sort_key ur_uid (filter (\<lambda>r. ur_email r = Some email) (db_users d)) of
        [] \<Rightarrow> None | r # _ \<Rightarrow> Some (ur_info r))"

definition sql_user_exists :: "string \<Rightarrow> 'j db \<Rightarrow> bool" where
  "sql_user_exists uid d \<longleftrightarrow> (\<exists>r \<in> set (db_users d). ur_uid r = uid)"

definition sql_key_owner :: "string \<Rightarrow> 'j db \<Rightarrow> string option" where
  "sql_key_owner key d = map_option kr_uid (find (\<lambda>k. kr_access_key k = key) (db_keys d))"

definition sql_uids :: "string \<Rightarrow> i64 \<Rightarrow> 'j db \<Rightarrow> string list" where
  "sql_uids marker limit d =
     take (nat (sint limit)) (sort (filter (\<lambda>u. marker < u) (map ur_uid (db_users d))))"

definition sql_bucket_clash :: "string \<Rightarrow> string \<Rightarrow> string \<Rightarrow> 'j db \<Rightarrow> bool" where
  "sql_bucket_clash i tenant name d \<longleftrightarrow>
     (\<exists>r \<in> set (db_buckets d). br_bucket_id r = i \<or> br_tenant r = tenant \<and> br_name r = name)"

definition sql_bucket :: "string \<Rightarrow> string \<Rightarrow> 'j db \<Rightarrow> 'j bucket_row option" where
  "sql_bucket tenant name d = find (\<lambda>r. br_tenant r = tenant \<and> br_name r = name) (db_buckets d)"

definition sql_bucket_infos :: "string \<Rightarrow> string option \<Rightarrow> i64 \<Rightarrow> 'j db \<Rightarrow> 'j list" where
  "sql_bucket_infos marker owner limit d =
     map br_info (take (nat (sint limit))
       (sort_key (\<lambda>r. (br_name r, br_tenant r))
         (filter (\<lambda>r. marker < br_name r \<and> (owner = None \<or> owner = Some (br_owner r))) (db_buckets d))))"

definition sql_bucket_exists :: "string \<Rightarrow> 'j db \<Rightarrow> bool" where
  "sql_bucket_exists i d \<longleftrightarrow> (\<exists>r \<in> set (db_buckets d). br_bucket_id r = i)"

definition sql_has_objects :: "string \<Rightarrow> 'j db \<Rightarrow> bool" where
  "sql_has_objects i d \<longleftrightarrow> (\<exists>r \<in> set (db_objects d). ob_bucket_id r = i)"

definition sql_bucket_sizes :: "string \<Rightarrow> 'j db \<Rightarrow> i64 list" where
  "sql_bucket_sizes i d = map (or_size \<circ> ob_row) (filter (\<lambda>r. ob_bucket_id r = i) (db_objects d))"

definition sql_object_rows :: "string \<Rightarrow> string \<Rightarrow> string \<Rightarrow> 'j db \<Rightarrow> 'j object_row list" where
  "sql_object_rows i marker pre d =
     sort_key or_name
       (filter (\<lambda>r. marker < or_name r \<and> pre \<le> or_name r \<and> sql_substr1 (or_name r) (sql_length pre) = pre)
         (map ob_row (filter (\<lambda>r. ob_bucket_id r = i) (db_objects d))))"

definition sql_object :: "string \<Rightarrow> string \<Rightarrow> 'j db \<Rightarrow> 'j object_rec option" where
  "sql_object i name d = find (\<lambda>r. ob_bucket_id r = i \<and> ob_col_name r = name) (db_objects d)"

subsection \<open>Statements that write: the rows changed and the database, \<open>None\<close> on a violated constraint\<close>

definition sql_upsert_user :: "'j user_row \<Rightarrow> 'j db \<Rightarrow> (nat \<times> 'j db) option" where
  "sql_upsert_user r d = Some (1,
     if sql_user_exists (ur_uid r) d
     then d\<lparr>db_users := map (\<lambda>x. if ur_uid x = ur_uid r then r else x) (db_users d)\<rparr>
     else d\<lparr>db_users := db_users d @ [r]\<rparr>)"

definition sql_delete_keys :: "string \<Rightarrow> 'j db \<Rightarrow> (nat \<times> 'j db) option" where
  "sql_delete_keys uid d = Some (length (filter (\<lambda>k. kr_uid k = uid) (db_keys d)),
     d\<lparr>db_keys := filter (\<lambda>k. kr_uid k \<noteq> uid) (db_keys d)\<rparr>)"

definition sql_insert_key :: "string \<Rightarrow> string \<Rightarrow> 'j db \<Rightarrow> (nat \<times> 'j db) option" where
  "sql_insert_key key uid d =
     (if (\<exists>k \<in> set (db_keys d). kr_access_key k = key) \<or> \<not> sql_user_exists uid d then None
      else Some (1, d\<lparr>db_keys := db_keys d @ [\<lparr>kr_access_key = key, kr_uid = uid\<rparr>]\<rparr>))"

text \<open>Deleting a user cascades to its key rows.\<close>

definition sql_delete_user :: "string \<Rightarrow> 'j db \<Rightarrow> (nat \<times> 'j db) option" where
  "sql_delete_user uid d = Some (length (filter (\<lambda>r. ur_uid r = uid) (db_users d)),
     d\<lparr>db_users := filter (\<lambda>r. ur_uid r \<noteq> uid) (db_users d),
       db_keys := (if sql_user_exists uid d then filter (\<lambda>k. kr_uid k \<noteq> uid) (db_keys d) else db_keys d)\<rparr>)"

definition sql_insert_bucket :: "'j bucket_row \<Rightarrow> 'j db \<Rightarrow> (nat \<times> 'j db) option" where
  "sql_insert_bucket r d =
     (if sql_bucket_clash (br_bucket_id r) (br_tenant r) (br_name r) d then None
      else Some (1, d\<lparr>db_buckets := db_buckets d @ [r]\<rparr>))"

text \<open>The rows of \<open>objects\<close> reference the bucket, without a cascade.\<close>

definition sql_delete_bucket :: "string \<Rightarrow> 'j db \<Rightarrow> (nat \<times> 'j db) option" where
  "sql_delete_bucket i d =
     (if sql_has_objects i d then None
      else Some (length (filter (\<lambda>r. br_bucket_id r = i) (db_buckets d)),
                 d\<lparr>db_buckets := filter (\<lambda>r. br_bucket_id r \<noteq> i) (db_buckets d)\<rparr>))"

definition sql_replace_object :: "'j object_rec \<Rightarrow> 'j db \<Rightarrow> (nat \<times> 'j db) option" where
  "sql_replace_object r d =
     (if \<not> sql_bucket_exists (ob_bucket_id r) d then None
      else Some (1, d\<lparr>db_objects :=
        filter (\<lambda>x. \<not> (ob_bucket_id x = ob_bucket_id r \<and> ob_col_name x = ob_col_name r)) (db_objects d) @ [r]\<rparr>))"

definition sql_delete_object :: "string \<Rightarrow> string \<Rightarrow> 'j db \<Rightarrow> (nat \<times> 'j db) option" where
  "sql_delete_object i name d = Some
     (length (filter (\<lambda>r. ob_bucket_id r = i \<and> ob_col_name r = name) (db_objects d)),
      d\<lparr>db_objects := filter (\<lambda>r. \<not> (ob_bucket_id r = i \<and> ob_col_name r = name)) (db_objects d)\<rparr>)"

end
