(* ===== verification/Sqlite_Conn.thy ===== *)
theory Sqlite_Conn
  imports Sqlite_Db
begin

section \<open>Calls into SQLite: faults, transactions and what a fault may do\<close>

subsection \<open>The connection\<close>

record 'j conn =
  cn_db :: "'j db"
  cn_faults :: "string option list"

type_synonym ('j, 'a) sql_act = "('j conn, 'a) rgw_act"

definition conn_of :: "'j db \<Rightarrow> 'j conn" where
  "conn_of d = \<lparr>cn_db = d, cn_faults = []\<rparr>"

text \<open>One fallible call that neither reads nor changes the tables.\<close>

definition fault_point :: "('j, unit) sql_act" where
  "fault_point c = (case cn_faults c of
       [] \<Rightarrow> (Inr (), c)
     | f # fs \<Rightarrow> (case f of None \<Rightarrow> Inr () | Some e \<Rightarrow> Inl (internal e), c\<lparr>cn_faults := fs\<rparr>))"

definition sql_query :: "('j db \<Rightarrow> 'a) \<Rightarrow> ('j, 'a) sql_act" where
  "sql_query q = try_a fault_point (\<lambda>_ c. (Inr (q (cn_db c)), c))"

definition sql_exec :: "'j crates \<Rightarrow> ('j db \<Rightarrow> (nat \<times> 'j db) option) \<Rightarrow> ('j, nat) sql_act" where
  "sql_exec cr st = try_a fault_point (\<lambda>_ c. case st (cn_db c) of
       None \<Rightarrow> (Inl (internal (sqlite_error cr)), c)
     | Some (n, d) \<Rightarrow> (Inr n, c\<lparr>cn_db := d\<rparr>))"

definition sql_prepare :: "('j, unit) sql_act" where
  "sql_prepare = fault_point"

text \<open>
  \<open>query_map\<close>: the rows come one by one, each may fail; \<open>g\<close> is the loop that consumes them. The
  schedule also has entries for rows the loop does not step to.
\<close>

fun step_rows :: "'r list \<Rightarrow> 'j conn \<Rightarrow> 'r rgw_result list \<times> 'j conn" where
  "step_rows [] c = ([], c)"
| "step_rows (x # xs) c =
     (case fault_point c of (r, c1) \<Rightarrow>
        (case step_rows xs c1 of (rs, c2) \<Rightarrow> (try_r r (\<lambda>_. Inr x) # rs, c2)))"

definition sql_query_map :: "('j db \<Rightarrow> 'r list) \<Rightarrow> ('r rgw_result list \<Rightarrow> 'a rgw_result) \<Rightarrow> ('j, 'a) sql_act" where
  "sql_query_map q g = try_a fault_point (\<lambda>_ c.
     case step_rows (q (cn_db c)) c of (rs, c') \<Rightarrow> (g rs, c'))"

text \<open>\<open>with_conn\<close> takes the lock on the blocking pool; both may fail.\<close>

definition with_conn :: "('j, 'a) sql_act \<Rightarrow> ('j, 'a) sql_act" where
  "with_conn f = try_a fault_point (\<lambda>_. f)"

text \<open>\<open>with_tx\<close>: a transaction that is dropped before it is committed rolls back.\<close>

definition with_tx :: "('j, 'a) sql_act \<Rightarrow> ('j, 'a) sql_act" where
  "with_tx f = with_conn (try_a fault_point (\<lambda>_ c.
     case f c of
       (Inl e, c1) \<Rightarrow> (Inl e, c1\<lparr>cn_db := cn_db c\<rparr>)
     | (Inr x, c1) \<Rightarrow>
         (case fault_point c1 of
            (Inl e, c2) \<Rightarrow> (Inl e, c2\<lparr>cn_db := cn_db c\<rparr>)
          | (Inr _, c2) \<Rightarrow> (Inr x, c2))))"

subsection \<open>The run without faults\<close>

lemma conn_of_simps [simp]: "cn_db (conn_of d) = d" "cn_faults (conn_of d) = []"
  by (simp_all add: conn_of_def)

lemma conn_of_update [simp]: "conn_of d\<lparr>cn_db := d'\<rparr> = conn_of d'"
  by (simp add: conn_of_def)

lemma conn_of_eq: "cn_faults c = [] \<Longrightarrow> c = conn_of (cn_db c)"
  by (simp add: conn_of_def)

lemma fault_point_conn_of [simp]: "fault_point (conn_of d) = (Inr (), conn_of d)"
  by (simp add: fault_point_def)

lemma sql_query_conn_of [simp]: "sql_query q (conn_of d) = (Inr (q d), conn_of d)"
  by (simp add: sql_query_def try_a_apply)

lemma sql_prepare_conn_of [simp]: "sql_prepare (conn_of d) = (Inr (), conn_of d)"
  by (simp add: sql_prepare_def)

lemma sql_exec_conn_of [simp]:
  "sql_exec cr st (conn_of d) = (case st d of None \<Rightarrow> (Inl (internal (sqlite_error cr)), conn_of d)
     | Some (n, d') \<Rightarrow> (Inr n, conn_of d'))"
  by (simp add: sql_exec_def try_a_apply split: option.splits)

lemma step_rows_conn_of [simp]: "step_rows xs (conn_of d) = (map Inr xs, conn_of d)"
  by (induction xs) auto

lemma sql_query_map_conn_of [simp]: "sql_query_map q g (conn_of d) = (g (map Inr (q d)), conn_of d)"
  by (simp add: sql_query_map_def try_a_apply)

lemma with_conn_conn_of [simp]: "with_conn f (conn_of d) = f (conn_of d)"
  by (simp add: with_conn_def try_a_apply)

subsection \<open>What a fault may do\<close>

text \<open>
  \<open>sound m\<close>: under any schedule \<open>m\<close> either does what it does without faults, or fails with
  \<open>InternalError\<close>. \<open>atomic m\<close>: in the second case the database is as before.
\<close>

definition ideal :: "('j, 'a) sql_act \<Rightarrow> 'j db \<Rightarrow> 'a rgw_result \<times> 'j db" where
  "ideal m d = (case m (conn_of d) of (r, c) \<Rightarrow> (r, cn_db c))"

definition sound :: "('j, 'a) sql_act \<Rightarrow> bool" where
  "sound m \<longleftrightarrow> (\<forall>d. cn_faults (snd (m (conn_of d))) = []) \<and>
     (\<forall>c r c'. m c = (r, c') \<longrightarrow> (\<exists>e. r = Inl (InternalError e)) \<or> (r, cn_db c') = ideal m (cn_db c))"

definition atomic :: "('j, 'a) sql_act \<Rightarrow> bool" where
  "atomic m \<longleftrightarrow> (\<forall>d. cn_faults (snd (m (conn_of d))) = []) \<and>
     (\<forall>c r c'. m c = (r, c') \<longrightarrow>
        (\<exists>e. r = Inl (InternalError e)) \<and> cn_db c' = cn_db c \<or> (r, cn_db c') = ideal m (cn_db c))"

named_theorems fault_intros \<open>compositional rules for sound and atomic\<close>

lemma soundI:
  "(\<And>d. cn_faults (snd (m (conn_of d))) = []) \<Longrightarrow>
   (\<And>c r c'. m c = (r, c') \<Longrightarrow> (\<exists>e. r = Inl (InternalError e)) \<or> (r, cn_db c') = ideal m (cn_db c)) \<Longrightarrow>
   sound m"
  by (auto simp: sound_def)

lemma atomicI:
  "(\<And>d. cn_faults (snd (m (conn_of d))) = []) \<Longrightarrow>
   (\<And>c r c'. m c = (r, c') \<Longrightarrow>
      (\<exists>e. r = Inl (InternalError e)) \<and> cn_db c' = cn_db c \<or> (r, cn_db c') = ideal m (cn_db c)) \<Longrightarrow>
   atomic m"
  by (auto simp: atomic_def)

lemma soundD: "sound m \<Longrightarrow> m c = (r, c') \<Longrightarrow> (\<exists>e. r = Inl (InternalError e)) \<or> (r, cn_db c') = ideal m (cn_db c)"
  by (auto simp: sound_def)

lemma atomicD:
  "atomic m \<Longrightarrow> m c = (r, c') \<Longrightarrow>
   (\<exists>e. r = Inl (InternalError e)) \<and> cn_db c' = cn_db c \<or> (r, cn_db c') = ideal m (cn_db c)"
  by (auto simp: atomic_def)

lemma sound_conn_of: "sound m \<Longrightarrow> m (conn_of d) = (r, c) \<Longrightarrow> c = conn_of (cn_db c)"
  unfolding sound_def by (metis conn_of_eq snd_conv)

lemma atomic_sound: "atomic m \<Longrightarrow> sound m"
  unfolding atomic_def sound_def by blast

lemma sound_ret [fault_intros]: "sound (ret_a x)"
  by (rule soundI) (auto simp: ideal_def)

lemma sound_err [fault_intros]: "sound (err_a e)"
  by (rule soundI) (auto simp: ideal_def)

lemma sound_lift [fault_intros]: "sound (lift_a r)"
  by (rule soundI) (auto simp: ideal_def)

lemma fault_point_cases:
  "fault_point c = (r, c') \<Longrightarrow> cn_db c' = cn_db c \<and> (r = Inr () \<or> (\<exists>e. r = Inl (InternalError e)))"
  by (auto simp: fault_point_def internal_def split: list.splits option.splits)

lemma atomic_fault_point [fault_intros]: "atomic fault_point"
  by (rule atomicI) (auto simp: ideal_def dest!: fault_point_cases)

lemma atomic_prepare [fault_intros]: "atomic sql_prepare"
  by (simp add: sql_prepare_def atomic_fault_point)

lemma sound_try [fault_intros]:
  assumes m: "sound m" and f: "\<And>x. sound (f x)"
  shows "sound (try_a m f)"
proof (rule soundI)
  fix d
  obtain r c where rc: "m (conn_of d) = (r, c)" by fastforce
  have "c = conn_of (cn_db c)" using sound_conn_of [OF m rc] .
  then show "cn_faults (snd (try_a m f (conn_of d))) = []"
    using rc f unfolding sound_def
    by (cases r) (simp_all add: try_a_apply, metis conn_of_simps(2), metis)
next
  fix c r c' assume run: "try_a m f c = (r, c')"
  obtain r0 c0 where i0: "m (conn_of (cn_db c)) = (r0, c0)" by fastforce
  have c0: "c0 = conn_of (cn_db c0)" using sound_conn_of [OF m i0] .
  from run show "(\<exists>e. r = Inl (InternalError e)) \<or> (r, cn_db c') = ideal (try_a m f) (cn_db c)"
  proof (cases rule: try_aE)
    case (err e)
    with soundD [OF m err(1)] i0 show ?thesis by (auto simp: ideal_def try_a_apply)
  next
    case (ok x s1)
    have 1: "(Inr x, cn_db s1) = (r0, cn_db c0)"
      using soundD [OF m ok(1)] i0 by (auto simp: ideal_def)
    then have "ideal (try_a m f) (cn_db c) = ideal (f x) (cn_db s1)"
      using i0 c0 by (auto simp: ideal_def try_a_apply)
    with soundD [OF f ok(2)] show ?thesis by simp
  qed
qed

lemma sound_try_for [fault_intros]: "(\<And>x. sound (f x)) \<Longrightarrow> sound (try_for f xs)"
  by (induction xs) (auto intro: fault_intros)

lemma atomic_try_lift [fault_intros]:
  assumes "atomic m"
  shows "atomic (try_a m (\<lambda>x. lift_a (h x)))"
proof (rule atomicI)
  show "cn_faults (snd (try_a m (\<lambda>x. lift_a (h x)) (conn_of d))) = []" for d
    using assms unfolding atomic_def by (auto simp: try_a_apply split: prod.splits sum.splits) (metis snd_conv)+
next
  fix c r c' assume run: "try_a m (\<lambda>x. lift_a (h x)) c = (r, c')"
  then show "(\<exists>e. r = Inl (InternalError e)) \<and> cn_db c' = cn_db c \<or>
      (r, cn_db c') = ideal (try_a m (\<lambda>x. lift_a (h x))) (cn_db c)"
  proof (cases rule: try_aE)
    case (err e)
    with atomicD [OF assms err(1)] show ?thesis by (auto simp: ideal_def try_a_apply split: prod.splits)
  next
    case (ok x s1)
    with atomicD [OF assms ok(1)] show ?thesis by (auto simp: ideal_def try_a_apply split: prod.splits)
  qed
qed

lemma atomic_query [fault_intros]: "atomic (sql_query q)"
  by (rule atomicI)
    (auto simp: sql_query_def ideal_def try_a_apply dest!: fault_point_cases split: prod.splits sum.splits)

lemma atomic_exec [fault_intros]: "atomic (sql_exec cr st)"
proof (rule atomicI)
  show "cn_faults (snd (sql_exec cr st (conn_of d))) = []" for d
    by (auto split: option.splits)
next
  fix c r c' assume "sql_exec cr st c = (r, c')"
  then show "(\<exists>e. r = Inl (InternalError e)) \<and> cn_db c' = cn_db c \<or>
      (r, cn_db c') = ideal (sql_exec cr st) (cn_db c)"
    unfolding sql_exec_def
    by (cases rule: try_aE)
      (auto simp: ideal_def try_a_apply dest!: fault_point_cases split: option.splits)
qed

text \<open>A loop over rows fails with the first failed row it reaches.\<close>

definition row_loop :: "('r rgw_result list \<Rightarrow> 'a rgw_result) \<Rightarrow> bool" where
  "row_loop g \<longleftrightarrow> (\<forall>rs xs. list_all2 (\<lambda>r x. r = Inr x \<or> (\<exists>e. r = Inl (InternalError e))) rs xs \<longrightarrow>
     (\<exists>e. g rs = Inl (InternalError e)) \<or> g rs = g (map Inr xs))"

lemma step_rows_all2:
  "step_rows xs c = (rs, c') \<Longrightarrow>
   cn_db c' = cn_db c \<and> list_all2 (\<lambda>r x. r = Inr x \<or> (\<exists>e. r = Inl (InternalError e))) rs xs"
proof (induction xs arbitrary: c rs)
  case (Cons x xs)
  obtain r c1 where 1: "fault_point c = (r, c1)" by fastforce
  obtain rs' c2 where 2: "step_rows xs c1 = (rs', c2)" by fastforce
  from Cons.prems 1 2 have "rs = try_r r (\<lambda>_. Inr x) # rs'" "c' = c2" by auto
  with Cons.IH [of c1 rs'] 2 fault_point_cases [OF 1] show ?case by auto
qed simp

lemma atomic_query_map [fault_intros]:
  assumes "row_loop g"
  shows "atomic (sql_query_map q g)"
proof (rule atomicI)
  show "cn_faults (snd (sql_query_map q g (conn_of d))) = []" for d by simp
next
  fix c r c' assume run: "sql_query_map q g c = (r, c')"
  from run [unfolded sql_query_map_def] show "(\<exists>e. r = Inl (InternalError e)) \<and> cn_db c' = cn_db c \<or>
      (r, cn_db c') = ideal (sql_query_map q g) (cn_db c)"
  proof (cases rule: try_aE)
    case (err e)
    with fault_point_cases [OF err(1)] show ?thesis by auto
  next
    case (ok x s1)
    obtain rs c2 where st: "step_rows (q (cn_db s1)) s1 = (rs, c2)" by fastforce
    have db: "cn_db s1 = cn_db c" using fault_point_cases [OF ok(1)] by simp
    from step_rows_all2 [OF st] have "cn_db c2 = cn_db s1"
      and "list_all2 (\<lambda>r x. r = Inr x \<or> (\<exists>e. r = Inl (InternalError e))) rs (q (cn_db s1))" by auto
    moreover from this(2) assms have "(\<exists>e. g rs = Inl (InternalError e)) \<or> g rs = g (map Inr (q (cn_db s1)))"
      unfolding row_loop_def by blast
    moreover have "c' = c2" "r = g rs" using ok(2) st by auto
    ultimately show ?thesis using db by (simp add: ideal_def try_a_apply)
  qed
qed

lemma with_tx_unfold: "with_tx f = try_a fault_point (\<lambda>_. try_a fault_point (\<lambda>_ c.
     case f c of
       (Inl e, c1) \<Rightarrow> (Inl e, c1\<lparr>cn_db := cn_db c\<rparr>)
     | (Inr x, c1) \<Rightarrow>
         (case fault_point c1 of
            (Inl e, c2) \<Rightarrow> (Inl e, c2\<lparr>cn_db := cn_db c\<rparr>)
          | (Inr _, c2) \<Rightarrow> (Inr x, c2))))"
  by (simp add: with_tx_def with_conn_def)

lemma with_tx_conn_of:
  assumes "sound f"
  shows "with_tx f (conn_of d) = (case ideal f d of (Inl e, _) \<Rightarrow> (Inl e, conn_of d) | (Inr x, d') \<Rightarrow> (Inr x, conn_of d'))"
proof -
  obtain r c where rc: "f (conn_of d) = (r, c)" by fastforce
  with sound_conn_of [OF assms rc] obtain d' where "c = conn_of d'" by blast
  with rc show ?thesis by (cases r) (auto simp: with_tx_unfold try_a_apply ideal_def)
qed

lemma atomic_with_conn [fault_intros]:
  assumes "atomic f"
  shows "atomic (with_conn f)"
proof (rule atomicI)
  show "cn_faults (snd (with_conn f (conn_of d))) = []" for d using assms by (simp add: atomic_def)
next
  fix c r c' assume run: "with_conn f c = (r, c')"
  from run [unfolded with_conn_def] show "(\<exists>e. r = Inl (InternalError e)) \<and> cn_db c' = cn_db c \<or>
      (r, cn_db c') = ideal (with_conn f) (cn_db c)"
  proof (cases rule: try_aE)
    case (ok x s1)
    with atomicD [OF assms ok(2)] fault_point_cases [OF ok(1)] show ?thesis
      by (simp add: ideal_def try_a_apply)
  qed (auto dest!: fault_point_cases)
qed

lemma atomic_with_tx [fault_intros]:
  assumes "sound f"
  shows "atomic (with_tx f)"
proof (rule atomicI)
  show "cn_faults (snd (with_tx f (conn_of d))) = []" for d
    by (auto simp: with_tx_conn_of [OF assms] split: prod.splits sum.splits)
next
  fix c r c' assume run: "with_tx f c = (r, c')"
  from run [unfolded with_tx_unfold] show "(\<exists>e. r = Inl (InternalError e)) \<and> cn_db c' = cn_db c \<or>
      (r, cn_db c') = ideal (with_tx f) (cn_db c)"
  proof (cases rule: try_aE)
    case (err e)
    with fault_point_cases [OF err(1)] show ?thesis by auto
  next
    case (ok x c1)
    from ok(2) show ?thesis
    proof (cases rule: try_aE)
      case (err e)
      with fault_point_cases [OF ok(1)] fault_point_cases [OF err(1)] show ?thesis by auto
    next
      case (ok y c2)
      have db: "cn_db c2 = cn_db c"
        using fault_point_cases [OF ok(1)] fault_point_cases [OF \<open>fault_point c = (Inr x, c1)\<close>] by simp
      obtain rf cf where fc: "f c2 = (rf, cf)" by fastforce
      from soundD [OF assms fc] db have i: "(\<exists>e. rf = Inl (InternalError e)) \<or> ideal f (cn_db c) = (rf, cn_db cf)"
        by auto
      have w: "ideal (with_tx f) (cn_db c) =
          (case ideal f (cn_db c) of (Inl e, _) \<Rightarrow> (Inl e, cn_db c) | (Inr x, d') \<Rightarrow> (Inr x, d'))"
        by (auto simp: ideal_def with_tx_conn_of [OF assms, unfolded ideal_def] split: prod.splits sum.splits)
      show ?thesis
      proof (cases rf)
        case (Inl e)
        with ok(2) fc db i w show ?thesis by auto
      next
        case (Inr z)
        obtain rp cp where fp: "fault_point cf = (rp, cp)" by fastforce
        with ok(2) fc db i w Inr fault_point_cases [OF fp] show ?thesis
          by (auto split: sum.splits)
      qed
    qed
  qed
qed

lemma sound_query_map [fault_intros]: "row_loop g \<Longrightarrow> sound (sql_query_map q g)"
  by (intro atomic_sound fault_intros)

lemmas sound_atomics [fault_intros] =
  atomic_fault_point [THEN atomic_sound] atomic_prepare [THEN atomic_sound]
  atomic_query [THEN atomic_sound] atomic_exec [THEN atomic_sound]

text \<open>A failed atomic operation that changes nothing when it fails without faults changes nothing at all.\<close>

definition failsafe :: "('j, 'a) sql_act \<Rightarrow> bool" where
  "failsafe m \<longleftrightarrow> (\<forall>c e c'. m c = (Inl e, c') \<longrightarrow> cn_db c' = cn_db c)"

lemma failsafeD: "failsafe m \<Longrightarrow> m c = (Inl e, c') \<Longrightarrow> cn_db c' = cn_db c"
  by (auto simp: failsafe_def)

lemma failsafe_with_tx [fault_intros]:
  assumes "sound f"
  shows "failsafe (with_tx f)"
  unfolding failsafe_def
proof (intro allI impI)
  fix c e c' assume run: "with_tx f c = (Inl e, c')"
  from atomicD [OF atomic_with_tx [OF assms] run] show "cn_db c' = cn_db c"
    by (auto simp: ideal_def with_tx_conn_of [OF assms] split: prod.splits sum.splits)
qed

text \<open>An action that never writes.\<close>

definition reader :: "('j, 'a) sql_act \<Rightarrow> bool" where
  "reader m \<longleftrightarrow> (\<forall>c. cn_db (snd (m c)) = cn_db c)"

lemma reader_failsafe: "reader m \<Longrightarrow> failsafe m"
  by (auto simp: reader_def failsafe_def) (metis snd_conv)

lemma reader_atomic: "reader m \<Longrightarrow> sound m \<Longrightarrow> atomic m"
  unfolding reader_def sound_def atomic_def by (metis snd_conv)

lemma reader_rules [fault_intros]:
  "reader (ret_a x)" "reader (err_a e)" "reader (lift_a r)" "reader fault_point" "reader sql_prepare"
  "reader (sql_query q)" "reader (sql_query_map q' g)"
proof -
  show fp: "reader fault_point" "reader sql_prepare"
    by (auto simp: reader_def sql_prepare_def fault_point_def split: list.splits)
  show "reader (sql_query q)"
    unfolding reader_def sql_query_def try_a_apply
    by (auto split: prod.splits sum.splits dest!: fault_point_cases)
  have st: "cn_db (snd (step_rows xs c)) = cn_db c" for xs :: "'z list" and c :: "'j conn"
    using step_rows_all2 [of xs c] by (cases "step_rows xs c") auto
  show "reader (sql_query_map q' g)"
    unfolding reader_def sql_query_map_def try_a_apply
    by (auto split: prod.splits sum.splits dest!: fault_point_cases step_rows_all2)
qed (simp_all add: reader_def)

lemma reader_try [fault_intros]: "reader m \<Longrightarrow> (\<And>x. reader (f x)) \<Longrightarrow> reader (try_a m f)"
  by (auto simp: reader_def try_a_apply split: prod.splits sum.splits) (metis snd_conv)+

lemma reader_with_conn [fault_intros]: "reader m \<Longrightarrow> reader (with_conn m)"
  unfolding with_conn_def by (auto intro: fault_intros)

end
