(* ===== verification/Sqlite.thy ===== *)
theory Sqlite
  imports Sqlite_Conn
begin

section \<open>\<open>rgw-sal-sqlite/src/lib.rs\<close>: the driver\<close>

text \<open>
  \<open>SqliteDriver\<close>'s methods over the statements of \<open>Sqlite_Db\<close>, in the order the code makes its
  calls; \<open>conn.query_row(..).optional()\<close> is a query returning an option.
\<close>

subsection \<open>\<open>list_page\<close>\<close>

text \<open>
  The loop carries the result so far and the last common prefix emitted; \<open>next_marker\<close> follows
  whatever was emitted last.
\<close>

fun list_page_loop ::
    "'j crates \<Rightarrow> list_params \<Rightarrow> nat \<Rightarrow> 'j object_row rgw_result list \<Rightarrow> list_result \<Rightarrow> string option \<Rightarrow>
     list_result rgw_result" where
  "list_page_loop cr params mx [] out last_prefix = Inr out"
| "list_page_loop cr params mx (row # rows) out last_prefix =
     try_r row (\<lambda>r.
       case strip_prefix (lp_prefix params) (or_name r) of
         None \<Rightarrow> list_page_loop cr params mx rows out last_prefix
       | Some rest \<Rightarrow>
           let common =
             (if lp_delimiter params = [] then None
              else map_option
                     (\<lambda>i. take (length (lp_prefix params) + i + length (lp_delimiter params)) (or_name r))
                     (str_find (lp_delimiter params) rest))
           in
           if (case common of None \<Rightarrow> False | Some cp \<Rightarrow> last_prefix = Some cp \<or> cp \<le> lp_marker params)
           then list_page_loop cr params mx rows out last_prefix
           else if mx \<le> length (lr_objects out) + length (lr_common_prefixes out)
           then Inr (out\<lparr>lr_is_truncated := True\<rparr>)
           else (case common of
               Some cp \<Rightarrow>
                 list_page_loop cr params mx rows
                   (out\<lparr>lr_next_marker := cp, lr_common_prefixes := lr_common_prefixes out @ [cp]\<rparr>) (Some cp)
             | None \<Rightarrow>
                 try_r (into_info cr r) (\<lambda>info.
                   list_page_loop cr params mx rows
                     (out\<lparr>lr_next_marker := or_name r, lr_objects := lr_objects out @ [info]\<rparr>) last_prefix)))"

definition list_page :: "'j crates \<Rightarrow> list_params \<Rightarrow> 'j object_row rgw_result list \<Rightarrow> list_result rgw_result" where
  "list_page cr params rows =
     list_page_loop cr params (page_size (lp_max_keys params)) rows list_result_default None"

subsection \<open>Users\<close>

definition check_bucket :: "string \<Rightarrow> ('j, unit) sql_act" where
  "check_bucket i = try_a (sql_query (sql_bucket_exists i)) (\<lambda>b. lift_a (guard_r b NoSuchBucket))"

definition user_by :: "'j crates \<Rightarrow> ('j db \<Rightarrow> 'j option) \<Rightarrow> ('j, user_info) sql_act" where
  "user_by cr sql = try_a (sql_query sql) (\<lambda>info.
     lift_a (try_r (ok_or NoSuchUser info) (from_json cr (user_of_json cr))))"

definition sq_load_user :: "'j crates \<Rightarrow> user_id \<Rightarrow> ('j, user_info) sql_act" where
  "sq_load_user cr uid = with_conn (user_by cr (sql_user_info (user_id_display uid)))"

definition sq_load_user_by_access_key :: "'j crates \<Rightarrow> string \<Rightarrow> ('j, user_info) sql_act" where
  "sq_load_user_by_access_key cr k = with_conn (user_by cr (sql_user_info_by_key k))"

definition sq_load_user_by_email :: "'j crates \<Rightarrow> string \<Rightarrow> ('j, user_info) sql_act" where
  "sq_load_user_by_email cr email =
     (if email = [] then err_a NoSuchUser else with_conn (user_by cr (sql_user_info_by_email email)))"

definition key_check :: "string \<Rightarrow> string \<Rightarrow> ('j, unit) sql_act" where
  "key_check uid key = try_a (sql_query (sql_key_owner key)) (\<lambda>owner.
     lift_a (guard_r (owner = None \<or> owner = Some uid) KeyExists))"

definition insert_key :: "'j crates \<Rightarrow> string \<Rightarrow> string \<Rightarrow> ('j, unit) sql_act" where
  "insert_key cr uid key = try_a (sql_exec cr (sql_insert_key key uid)) (\<lambda>_. ret_a ())"

definition sq_store_tx :: "'j crates \<Rightarrow> bool \<Rightarrow> 'j user_row \<Rightarrow> string list \<Rightarrow> ('j, unit) sql_act" where
  "sq_store_tx cr exclusive row keys =
     try_a (if exclusive then try_a (sql_query (sql_user_exists (ur_uid row)))
              (\<lambda>exists. lift_a (guard_r (\<not> exists) UserAlreadyExists)) else ret_a ()) (\<lambda>_.
     try_a sql_prepare (\<lambda>_.
     try_a (try_for (key_check (ur_uid row)) keys) (\<lambda>_.
     try_a (sql_exec cr (sql_upsert_user row)) (\<lambda>_.
     try_a (sql_exec cr (sql_delete_keys (ur_uid row))) (\<lambda>_.
     try_a sql_prepare (\<lambda>_.
     try_for (insert_key cr (ur_uid row)) keys))))))"

definition user_row_of :: "user_info \<Rightarrow> 'j \<Rightarrow> 'j user_row" where
  "user_row_of info t = \<lparr>ur_uid = user_id_display (ui_user_id info),
     ur_email = (if ui_user_email info = [] then None else Some (ui_user_email info)), ur_info = t\<rparr>"

definition sq_store_user :: "'j crates \<Rightarrow> user_info \<Rightarrow> bool \<Rightarrow> ('j, unit) sql_act" where
  "sq_store_user cr info exclusive =
     try_a (lift_a (to_json cr (user_to_json cr info))) (\<lambda>t.
       with_tx (sq_store_tx cr exclusive (user_row_of info t) (bt_keys (ui_access_keys info))))"

definition sq_remove_user :: "'j crates \<Rightarrow> user_id \<Rightarrow> ('j, unit) sql_act" where
  "sq_remove_user cr uid =
     with_conn (try_a (sql_exec cr (sql_delete_user (user_id_display uid)))
       (\<lambda>n. lift_a (guard_r (n \<noteq> 0) NoSuchUser)))"

definition sq_list_users :: "string \<Rightarrow> nat \<Rightarrow> ('j, user_id list) sql_act" where
  "sq_list_users marker mx =
     try_a (lift_a (to_i64 (of_nat (page_size mx)))) (\<lambda>limit.
       with_conn (try_a sql_prepare (\<lambda>_.
         sql_query_map (sql_uids marker limit) (try_map (\<lambda>r. try_r r (\<lambda>s. Inr (user_id_parse s)))))))"

subsection \<open>Buckets\<close>

definition bucket_row_of :: "bucket_info \<Rightarrow> 'j \<Rightarrow> 'j bucket_row" where
  "bucket_row_of info t = \<lparr>br_bucket_id = bk_bucket_id (bi_bucket info), br_tenant = bk_tenant (bi_bucket info),
     br_name = bk_name (bi_bucket info), br_owner = user_id_display (bi_owner info), br_info = t\<rparr>"

definition sq_create_tx :: "'j crates \<Rightarrow> 'j bucket_row \<Rightarrow> ('j, unit) sql_act" where
  "sq_create_tx cr row =
     try_a (sql_query (sql_bucket_clash (br_bucket_id row) (br_tenant row) (br_name row))) (\<lambda>exists.
     try_a (lift_a (guard_r (\<not> exists) BucketAlreadyExists)) (\<lambda>_.
     try_a (sql_exec cr (sql_insert_bucket row)) (\<lambda>_. ret_a ())))"

definition sq_create_bucket :: "'j crates \<Rightarrow> bucket_info \<Rightarrow> ('j, unit) sql_act" where
  "sq_create_bucket cr info =
     try_a (lift_a (to_json cr (bucket_to_json cr info))) (\<lambda>t.
       with_tx (sq_create_tx cr (bucket_row_of info t)))"

definition sq_load_bucket :: "'j crates \<Rightarrow> string \<Rightarrow> string \<Rightarrow> ('j, bucket_info) sql_act" where
  "sq_load_bucket cr tenant name =
     with_conn (try_a (sql_query (sql_bucket tenant name)) (\<lambda>row.
       lift_a (try_r (ok_or NoSuchBucket row) (\<lambda>r. from_json cr (bucket_of_json cr) (br_info r)))))"

fun list_buckets_loop ::
    "'j crates \<Rightarrow> nat \<Rightarrow> 'j rgw_result list \<Rightarrow> bucket_list \<Rightarrow> bucket_list rgw_result" where
  "list_buckets_loop cr mx [] out = Inr out"
| "list_buckets_loop cr mx (row # rows) out =
     try_r row (\<lambda>t.
     try_r (from_json cr (bucket_of_json cr) t) (\<lambda>info.
       if length (bl_buckets out) = mx then Inr (out\<lparr>bl_is_truncated := True\<rparr>)
       else list_buckets_loop cr mx rows
              (out\<lparr>bl_next_marker := bk_name (bi_bucket info), bl_buckets := bl_buckets out @ [info]\<rparr>)))"

text \<open>\<open>max as u64 + 1\<close> wraps at the top of \<open>u64\<close>.\<close>

definition sq_list_buckets :: "'j crates \<Rightarrow> user_id option \<Rightarrow> string \<Rightarrow> nat \<Rightarrow> ('j, bucket_list) sql_act" where
  "sq_list_buckets cr ow marker mx =
     (let mx' = page_size mx in
      try_a (lift_a (to_i64 (of_nat mx' + 1))) (\<lambda>limit.
        with_conn (try_a sql_prepare (\<lambda>_.
          sql_query_map (sql_bucket_infos marker (map_option user_id_display ow) limit)
            (\<lambda>rows. list_buckets_loop cr mx' rows bucket_list_default)))))"

definition sq_remove_bucket_tx :: "'j crates \<Rightarrow> string \<Rightarrow> string \<Rightarrow> ('j, unit) sql_act" where
  "sq_remove_bucket_tx cr tenant name =
     try_a (sql_query (sql_bucket tenant name)) (\<lambda>row.
     try_a (lift_a (ok_or NoSuchBucket (map_option br_bucket_id row))) (\<lambda>i.
     try_a (sql_query (sql_has_objects i)) (\<lambda>has_objects.
     try_a (lift_a (guard_r (\<not> has_objects) BucketNotEmpty)) (\<lambda>_.
     try_a (sql_exec cr (sql_delete_bucket i)) (\<lambda>_. ret_a ())))))"

definition sq_remove_bucket :: "'j crates \<Rightarrow> string \<Rightarrow> string \<Rightarrow> ('j, unit) sql_act" where
  "sq_remove_bucket cr tenant name = with_tx (sq_remove_bucket_tx cr tenant name)"

definition sum_sizes :: "'j crates \<Rightarrow> i64 list \<Rightarrow> bucket_stats rgw_result" where
  "sum_sizes cr sizes =
     try_r (ok_or (internal (sqlite_error cr)) (sql_sum (map sint sizes))) (\<lambda>size.
     try_r (to_u64 (of_nat (length sizes))) (\<lambda>num.
     try_r (to_u64 (word_of_int size)) (\<lambda>size.
       Inr \<lparr>bs_num_objects = num, bs_size = size\<rparr>)))"

definition sq_bucket_stats :: "'j crates \<Rightarrow> bucket_key \<Rightarrow> ('j, bucket_stats) sql_act" where
  "sq_bucket_stats cr b =
     with_conn (try_a (check_bucket (bk_bucket_id b)) (\<lambda>_.
       try_a (sql_query (sql_bucket_sizes (bk_bucket_id b))) (\<lambda>sizes. lift_a (sum_sizes cr sizes))))"

subsection \<open>Objects\<close>

definition sq_list_objects :: "'j crates \<Rightarrow> bucket_key \<Rightarrow> list_params \<Rightarrow> ('j, list_result) sql_act" where
  "sq_list_objects cr b params =
     with_conn (try_a (check_bucket (bk_bucket_id b)) (\<lambda>_.
       try_a sql_prepare (\<lambda>_.
         sql_query_map (sql_object_rows (bk_bucket_id b) (lp_marker params) (lp_prefix params))
           (list_page cr params))))"

definition load_object :: "'j crates \<Rightarrow> string \<Rightarrow> string \<Rightarrow> ('j, object_info) sql_act" where
  "load_object cr i name =
     try_a (check_bucket i) (\<lambda>_.
     try_a (sql_query (sql_object i name)) (\<lambda>row.
       lift_a (try_r (ok_or NoSuchKey row) (\<lambda>r. into_info cr (ob_row r)))))"

definition sq_head_object :: "'j crates \<Rightarrow> bucket_key \<Rightarrow> object_key \<Rightarrow> ('j, object_info) sql_act" where
  "sq_head_object cr b k = with_conn (load_object cr (bk_bucket_id b) (ok_name k))"

definition read_window :: "(u64 \<times> u64) option \<Rightarrow> u64 \<Rightarrow> (i64 \<times> i64) rgw_result" where
  "read_window rng sz =
     (case rng of
        Some (s, e) \<Rightarrow> try_r (to_i64 (s + 1)) (\<lambda>from. try_r (to_i64 (e - s + 1)) (\<lambda>len. Inr (from, len)))
      | None \<Rightarrow> try_r (to_i64 sz) (\<lambda>len. Inr (1, len)))"

definition sq_get_object ::
    "'j crates \<Rightarrow> bucket_key \<Rightarrow> object_key \<Rightarrow> byte_range option \<Rightarrow> ('j, object_read) sql_act" where
  "sq_get_object cr b k rng =
     with_conn (
       try_a (load_object cr (bk_bucket_id b) (ok_name k)) (\<lambda>info.
       try_a (lift_a (case rng of None \<Rightarrow> Inr None
                      | Some r \<Rightarrow> try_r (resolve_range r (oi_size info)) (\<lambda>w. Inr (Some w)))) (\<lambda>rng'.
       try_a (lift_a (read_window rng' (oi_size info))) (\<lambda>(from, len).
       try_a (if len = 0 then ret_a []
              else try_a (sql_query (sql_object (bk_bucket_id b) (ok_name k))) (\<lambda>row.
                lift_a (ok_or (internal (sqlite_error cr))
                  (map_option (\<lambda>r. sql_blob_substr (ob_data r) from len) row)))) (\<lambda>data.
       ret_a \<lparr>rd_info = info, rd_range = rng', rd_body = body_from_bytes data\<rparr>)))))"

definition md5_hex :: "'j crates \<Rightarrow> bytes \<Rightarrow> string" where
  "md5_hex cr d = hex_encode cr (md5_digest cr d)"

definition STANDARD :: string where
  "STANDARD = ''STANDARD''"

definition put_info :: "'j crates \<Rightarrow> time \<Rightarrow> object_key \<Rightarrow> owner \<Rightarrow> attrs \<Rightarrow> bytes \<Rightarrow> object_info" where
  "put_info cr now k ow at d =
     \<lparr>oi_key = object_key_new (ok_name k), oi_size = of_nat (length d), oi_etag = md5_hex cr d,
      oi_mtime = now, oi_owner = ow, oi_storage_class = STANDARD, oi_attrs = at\<rparr>"

definition object_rec_of :: "'j crates \<Rightarrow> string \<Rightarrow> object_info \<Rightarrow> i64 \<Rightarrow> 'j \<Rightarrow> bytes \<Rightarrow> 'j object_rec" where
  "object_rec_of cr i info sz at d =
     \<lparr>ob_bucket_id = i,
      ob_row = \<lparr>or_name = ok_name (oi_key info), or_size = sz, or_etag = oi_etag info,
        or_mtime = fmt_time cr (oi_mtime info), or_owner_id = user_id_display (ow_id (oi_owner info)),
        or_owner_display = ow_display_name (oi_owner info), or_storage_class = oi_storage_class info,
        or_attrs = at\<rparr>,
      ob_data = d\<rparr>"

definition sq_put_tx :: "'j crates \<Rightarrow> 'j object_rec \<Rightarrow> ('j, unit) sql_act" where
  "sq_put_tx cr row =
     try_a (check_bucket (ob_bucket_id row)) (\<lambda>_.
     try_a (sql_exec cr (sql_replace_object row)) (\<lambda>_. ret_a ()))"

definition sq_put_object ::
    "'j crates \<Rightarrow> time \<Rightarrow> bucket_key \<Rightarrow> object_key \<Rightarrow> owner \<Rightarrow> attrs \<Rightarrow> object_body \<Rightarrow> ('j, object_info) sql_act" where
  "sq_put_object cr now b k ow at body =
     try_a (lift_a (map_err internal (read_body body))) (\<lambda>data.
     let info = put_info cr now k ow at data in
     try_a (lift_a (to_i64 (oi_size info))) (\<lambda>sz.
     try_a (lift_a (to_json cr (attrs_to_json (oi_attrs info)))) (\<lambda>t.
     try_a (with_tx (sq_put_tx cr (object_rec_of cr (bk_bucket_id b) info sz t data))) (\<lambda>_.
     ret_a info))))"

definition sq_delete_object :: "'j crates \<Rightarrow> bucket_key \<Rightarrow> object_key \<Rightarrow> ('j, unit) sql_act" where
  "sq_delete_object cr b k =
     with_tx (
       try_a (check_bucket (bk_bucket_id b)) (\<lambda>_.
       try_a (sql_exec cr (sql_delete_object (bk_bucket_id b) (ok_name k))) (\<lambda>n.
       lift_a (guard_r (n \<noteq> 0) NoSuchKey))))"

text \<open>
  Opening: the connection, the pragmas and the schema, whose statements create what is not there.
  The database of the file is the state, \<open>db_empty\<close> that of a new file.
\<close>

definition sq_init :: "('j, unit) sql_act" where
  "sq_init = try_a fault_point (\<lambda>_. try_a fault_point (\<lambda>_. ret_a ()))"

definition sq_open :: "('j, unit) sql_act" where
  "sq_open = try_a fault_point (\<lambda>_. try_a fault_point (\<lambda>_. sq_init))"

definition sq_open_in_memory :: "('j, unit) sql_act" where
  "sq_open_in_memory = try_a fault_point (\<lambda>_ c. sq_init (c\<lparr>cn_db := db_empty\<rparr>))"

lemma fault_point_db: "fault_point c = (r, c') \<Longrightarrow> cn_db c' = cn_db c"
  by (auto simp: fault_point_def split: list.splits option.splits)

lemma sq_open_db: "sq_open c = (r, c') \<Longrightarrow> cn_db c' = cn_db c"
  unfolding sq_open_def sq_init_def by (elim try_aE) (auto dest!: fault_point_db elim!: try_aE)

definition sqlite_driver :: "'j crates \<Rightarrow> 'j conn driver" where
  "sqlite_driver cr =
     \<lparr>drv_name = ''sqlite'',
      load_user = sq_load_user cr,
      load_user_by_access_key = sq_load_user_by_access_key cr,
      load_user_by_email = sq_load_user_by_email cr,
      store_user = sq_store_user cr,
      remove_user = sq_remove_user cr,
      list_users = sq_list_users,
      create_bucket = sq_create_bucket cr,
      load_bucket = sq_load_bucket cr,
      list_buckets = sq_list_buckets cr,
      remove_bucket = sq_remove_bucket cr,
      read_stats = sq_bucket_stats cr,
      list_objects = sq_list_objects cr,
      head_object = sq_head_object cr,
      get_object = sq_get_object cr,
      put_object = sq_put_object cr,
      delete_object = sq_delete_object cr\<rparr>"

end
