(* ===== verification/Sqlite_Sound.thy ===== *)
theory Sqlite_Sound
  imports Sqlite
begin

section \<open>Faults in the driver\<close>

text \<open>
  Every method of the driver is atomic: whatever calls fail, it does what the fault-free run does
  or it reports \<open>InternalError\<close> and the database is untouched.
\<close>

subsection \<open>The loops over rows\<close>

abbreviation row_ok :: "'r rgw_result \<Rightarrow> 'r \<Rightarrow> bool" where
  "row_ok r x \<equiv> r = Inr x \<or> (\<exists>e. r = Inl (InternalError e))"

lemma row_loopI:
  "(\<And>rs xs. list_all2 row_ok rs xs \<Longrightarrow> (\<exists>e. g rs = Inl (InternalError e)) \<or> g rs = g (map Inr xs)) \<Longrightarrow> row_loop g"
  by (simp add: row_loop_def)

lemma row_loop_try_map: "row_loop (try_map (\<lambda>r. try_r r f))"
proof (rule row_loopI)
  fix rs :: "'a rgw_result list" and xs
  assume "list_all2 row_ok rs xs"
  then show "(\<exists>e. try_map (\<lambda>r. try_r r f) rs = Inl (InternalError e)) \<or>
      try_map (\<lambda>r. try_r r f) rs = try_map (\<lambda>r. try_r r f) (map Inr xs)"
  proof induction
    case (Cons r rs x xs)
    then show ?case by (cases "f x") auto
  qed simp
qed

lemma row_loop_list_page: "row_loop (\<lambda>rs. list_page_loop cr params mx rs out lp)"
proof (rule row_loopI)
  fix rs :: "'a object_row rgw_result list" and xs
  assume "list_all2 row_ok rs xs"
  then show "(\<exists>e. list_page_loop cr params mx rs out lp = Inl (InternalError e)) \<or>
      list_page_loop cr params mx rs out lp = list_page_loop cr params mx (map Inr xs) out lp"
  proof (induction arbitrary: out lp)
    case (Cons r rs x xs)
    show ?case
    proof (cases r)
      case (Inr y)
      with Cons.hyps(1) have "y = x" by simp
      with Inr Cons.IH show ?thesis
        by (auto simp: Let_def try_r_def split: option.splits sum.splits)
    qed (use Cons.hyps(1) in auto)
  qed simp
qed

lemma row_loop_list_buckets: "row_loop (\<lambda>rs. list_buckets_loop cr mx rs out)"
proof (rule row_loopI)
  fix rs :: "'a rgw_result list" and xs
  assume "list_all2 row_ok rs xs"
  then show "(\<exists>e. list_buckets_loop cr mx rs out = Inl (InternalError e)) \<or>
      list_buckets_loop cr mx rs out = list_buckets_loop cr mx (map Inr xs) out"
  proof (induction arbitrary: out)
    case (Cons r rs x xs)
    show ?case
    proof (cases r)
      case (Inr y)
      with Cons.hyps(1) have "y = x" by simp
      with Inr Cons.IH show ?thesis by (cases "from_json cr (bucket_of_json cr) x") auto
    qed (use Cons.hyps(1) in auto)
  qed simp
qed

lemmas [fault_intros] = row_loop_try_map row_loop_list_buckets row_loop_list_page
  row_loop_list_page [of cr params "page_size (lp_max_keys params)" list_result_default None for cr params,
    folded list_page_def]

subsection \<open>Each method\<close>

lemma atomic_lift_try [fault_intros]:
  assumes "\<And>x. atomic (f x)"
  shows "atomic (try_a (lift_a r) f)"
proof (cases r)
  case (Inl e)
  then show ?thesis by (auto intro!: atomicI simp: ideal_def)
next
  case (Inr x)
  then have "try_a (lift_a r) f = f x" by (simp add: fun_eq_iff)
  with assms show ?thesis by simp
qed

lemma failsafe_lift_try [fault_intros]:
  assumes "\<And>x. failsafe (f x)"
  shows "failsafe (try_a (lift_a r) f)"
proof (cases r)
  case (Inl e)
  then show ?thesis by (simp add: failsafe_def)
next
  case (Inr x)
  then have "try_a (lift_a r) f = f x" by (simp add: fun_eq_iff)
  with assms show ?thesis by simp
qed

lemma failsafe_try_ret [fault_intros]: "failsafe m \<Longrightarrow> failsafe (try_a m (\<lambda>x. ret_a (h x)))"
  by (auto simp: failsafe_def elim!: try_aE)

lemma atomic_try_ret [fault_intros]: "atomic m \<Longrightarrow> atomic (try_a m (\<lambda>x. ret_a (h x)))"
  using atomic_try_lift [of m "\<lambda>x. Inr (h x)"] by (simp add: ret_a_def lift_a_def)

lemma reader_methods:
  "reader (sq_load_user cr uid)" "reader (sq_load_user_by_access_key cr k)"
  "reader (sq_load_user_by_email cr email)" "reader (sq_list_users marker mx)"
  "reader (sq_load_bucket cr tenant name)" "reader (sq_list_buckets cr ow marker mx)"
  "reader (sq_bucket_stats cr b)" "reader (sq_list_objects cr b p)" "reader (sq_head_object cr b oky)"
  "reader (sq_get_object cr b oky rng)"
  unfolding sq_load_user_def sq_load_user_by_access_key_def sq_load_user_by_email_def sq_list_users_def
    sq_load_bucket_def sq_list_buckets_def sq_bucket_stats_def sq_list_objects_def sq_head_object_def
    sq_get_object_def user_by_def check_bucket_def load_object_def Let_def
  by (auto intro!: fault_intros split: prod.splits)

lemma sound_check_bucket [fault_intros]: "sound (check_bucket i)"
  unfolding check_bucket_def by (auto intro!: fault_intros)

lemma sound_methods:
  "sound (user_by cr sql)" "sound (load_object cr i name)" "sound (sq_store_tx cr excl row keys)"
  "sound (sq_create_tx cr brow)" "sound (sq_remove_bucket_tx cr tenant name)" "sound (sq_put_tx cr orow)"
  unfolding user_by_def load_object_def sq_store_tx_def sq_create_tx_def sq_remove_bucket_tx_def
    sq_put_tx_def key_check_def insert_key_def
  by (auto intro!: fault_intros)

lemmas sound_conn = atomic_with_conn [OF reader_atomic, THEN atomic_sound]

lemma sound_with_conn [fault_intros]: "sound m \<Longrightarrow> sound (with_conn m)"
  unfolding with_conn_def by (auto intro: fault_intros)

lemma sound_readers:
  "sound (sq_load_user cr uid)" "sound (sq_load_user_by_access_key cr k)"
  "sound (sq_load_user_by_email cr email)" "sound (sq_list_users marker mx)"
  "sound (sq_load_bucket cr tenant name)" "sound (sq_list_buckets cr ow marker mx)"
  "sound (sq_bucket_stats cr b)" "sound (sq_list_objects cr b p)" "sound (sq_head_object cr b oky)"
  "sound (sq_get_object cr b oky rng)"
  unfolding sq_load_user_def sq_load_user_by_access_key_def sq_load_user_by_email_def sq_list_users_def
    sq_load_bucket_def sq_list_buckets_def sq_bucket_stats_def sq_list_objects_def sq_head_object_def
    sq_get_object_def Let_def
  by (auto intro!: fault_intros sound_methods split: prod.splits)

lemmas atomic_readers = reader_atomic [OF reader_methods(1) sound_readers(1)]
  reader_atomic [OF reader_methods(2) sound_readers(2)] reader_atomic [OF reader_methods(3) sound_readers(3)]
  reader_atomic [OF reader_methods(4) sound_readers(4)] reader_atomic [OF reader_methods(5) sound_readers(5)]
  reader_atomic [OF reader_methods(6) sound_readers(6)] reader_atomic [OF reader_methods(7) sound_readers(7)]
  reader_atomic [OF reader_methods(8) sound_readers(8)] reader_atomic [OF reader_methods(9) sound_readers(9)]
  reader_atomic [OF reader_methods(10) sound_readers(10)]

lemma sound_delete_object_tx:
  "sound (try_a (check_bucket i) (\<lambda>_. try_a (sql_exec cr (sql_delete_object i name))
     (\<lambda>n. lift_a (guard_r (n \<noteq> 0) NoSuchKey))))"
  by (auto intro!: fault_intros)

lemma atomic_writers:
  "atomic (sq_store_user cr info excl)" "atomic (sq_remove_user cr uid)" "atomic (sq_create_bucket cr b)"
  "atomic (sq_remove_bucket cr tenant name)" "atomic (sq_put_object cr now bk oky ow at body)"
  "atomic (sq_delete_object cr bk oky)"
  unfolding sq_store_user_def sq_remove_user_def sq_create_bucket_def sq_remove_bucket_def
    sq_put_object_def sq_delete_object_def Let_def
  by (intro fault_intros sound_methods sound_delete_object_tx)+

lemma failsafe_writers:
  "failsafe (sq_store_user cr info excl)" "failsafe (sq_create_bucket cr b)"
  "failsafe (sq_remove_bucket cr tenant name)" "failsafe (sq_put_object cr now bk oky ow at body)"
  "failsafe (sq_delete_object cr bk oky)"
  unfolding sq_store_user_def sq_create_bucket_def sq_remove_bucket_def
    sq_put_object_def sq_delete_object_def Let_def
  by (intro fault_intros sound_methods sound_delete_object_tx)+

text \<open>A delete that finds no row is the one failure outside a transaction, and it changed nothing.\<close>

lemma failsafe_remove_user: "failsafe (sq_remove_user cr uid)"
  unfolding failsafe_def
proof (intro allI impI)
  fix c e c' assume run: "sq_remove_user cr uid c = (Inl e, c')"
  have "snd (ideal (sq_remove_user cr uid) d) = d" if "fst (ideal (sq_remove_user cr uid) d) = Inl e" for d
    using that by (auto simp: ideal_def sq_remove_user_def sql_delete_user_def sql_user_exists_def try_a_apply
        guard_r_def filter_empty_conv filter_id_conv split: if_splits intro!: db.equality)
  with atomicD [OF atomic_writers(2) run] show "cn_db c' = cn_db c" by (metis fst_conv snd_conv)
qed

end
