(* ===== verification/Sal_Contract.thy ===== *)
theory Sal_Contract
  imports Sal
begin

section \<open>The contract as a locale\<close>

text \<open>
  A driver meets the contract when, seen through \<open>view\<close>, every method either does what the
  abstract method does or fails with \<open>InternalError\<close> and changes nothing; \<open>sinv\<close> is kept. The
  clients (S3 operations, admin operations, authentication) are proved against this locale.
\<close>

definition refines :: "('s \<Rightarrow> bool) \<Rightarrow> ('s \<Rightarrow> gw) \<Rightarrow> ('s, 'a) rgw_act \<Rightarrow> (gw, 'a) rgw_act \<Rightarrow> bool" where
  "refines sinv view m sp \<longleftrightarrow>
     (\<forall>s r s'. sinv s \<longrightarrow> m s = (r, s') \<longrightarrow>
        sinv s' \<and> ((\<exists>e. r = Inl e \<and> is_internal e) \<and> view s' = view s \<or> (r, view s') = sp (view s)))"

lemma refinesI:
  "(\<And>s r s'. sinv s \<Longrightarrow> m s = (r, s') \<Longrightarrow>
      sinv s' \<and> ((\<exists>e. r = Inl e \<and> is_internal e) \<and> view s' = view s \<or> (r, view s') = sp (view s))) \<Longrightarrow>
   refines sinv view m sp"
  by (auto simp: refines_def)

lemma refinesD:
  "refines sinv view m sp \<Longrightarrow> sinv s \<Longrightarrow> m s = (r, s') \<Longrightarrow>
   sinv s' \<and> ((\<exists>e. r = Inl e \<and> is_internal e) \<and> view s' = view s \<or> (r, view s') = sp (view s))"
  by (auto simp: refines_def)

text \<open>
  \<open>exact\<close>: in a calm state, one in which the environment will not fail, the method does what the
  abstract method does, and the state stays calm.
\<close>

definition exact ::
    "('s \<Rightarrow> bool) \<Rightarrow> ('s \<Rightarrow> bool) \<Rightarrow> ('s \<Rightarrow> gw) \<Rightarrow> ('s, 'a) rgw_act \<Rightarrow> (gw, 'a) rgw_act \<Rightarrow> bool" where
  "exact sinv calm view m sp \<longleftrightarrow>
     (\<forall>s r s'. sinv s \<longrightarrow> calm s \<longrightarrow> m s = (r, s') \<longrightarrow> calm s' \<and> (r, view s') = sp (view s))"

lemma exactI:
  "(\<And>s r s'. sinv s \<Longrightarrow> calm s \<Longrightarrow> m s = (r, s') \<Longrightarrow> calm s' \<and> (r, view s') = sp (view s)) \<Longrightarrow>
   exact sinv calm view m sp"
  by (auto simp: exact_def)

lemma exactD:
  "exact sinv calm view m sp \<Longrightarrow> sinv s \<Longrightarrow> calm s \<Longrightarrow> m s = (r, s') \<Longrightarrow>
   calm s' \<and> (r, view s') = sp (view s)"
  by (auto simp: exact_def)

text \<open>A method that only reads: the store looks the same afterwards.\<close>

definition reads :: "(gw, 'a) rgw_act \<Rightarrow> bool" where
  "reads sp \<longleftrightarrow> (\<forall>g. snd (sp g) = g)"

lemma reads_specs [simp]:
  "reads (spec_load_user uid)" "reads (spec_load_user_by_access_key k)"
  "reads (spec_load_user_by_email email)" "reads (spec_list_users m mx)"
  "reads (spec_load_bucket t n)" "reads (spec_list_buckets ow m mx)" "reads (spec_read_stats b)"
  "reads (spec_list_objects b p)" "reads (spec_head_object b oky)" "reads (spec_get_object b oky rng)"
  by (simp_all add: reads_def spec_load_user_def spec_load_user_by_access_key_def
      spec_load_user_by_email_def spec_list_users_def spec_load_bucket_def spec_list_buckets_def
      spec_read_stats_def spec_list_objects_def spec_head_object_def spec_get_object_def Let_def)

lemma refines_reads:
  assumes "refines sinv view m sp" and "reads sp" and "sinv s" and "m s = (r, s')"
  shows "sinv s' \<and> view s' = view s \<and> ((\<exists>e. r = Inl e \<and> is_internal e) \<or> fst (sp (view s)) = r)"
  using refinesD [OF assms(1,3,4)] assms(2) by (auto simp: reads_def) (metis fst_conv snd_conv)+

text \<open>What a well-formed store says of each table.\<close>

lemma gw_wf_maps: "gw_wf g \<Longrightarrow> bt_wf (g_users g) \<and> bt_wf (g_keys g) \<and> bt_wf (g_buckets g) \<and> bt_wf (g_objects g)"
  by (simp add: gw_wf_def)

lemma gw_wf_user:
  "gw_wf g \<Longrightarrow> bt_get (g_users g) uid = Some u \<Longrightarrow>
   user_wf u \<and> canonical_uid (ui_user_id u) \<and> user_id_display (ui_user_id u) = uid"
  by (simp add: gw_wf_def)

lemma gw_wf_key:
  "gw_wf g \<Longrightarrow> bt_get (g_keys g) k = Some uid \<longleftrightarrow> (\<exists>u. bt_get (g_users g) uid = Some u \<and> user_has_key u k)"
  by (simp add: gw_wf_def)

lemma gw_wf_bucket:
  "gw_wf g \<Longrightarrow> bt_get (g_buckets g) (n, t) = Some b \<Longrightarrow>
   bk_name (bi_bucket b) = n \<and> bk_tenant (bi_bucket b) = t \<and> canonical_uid (bi_owner b)"
  by (simp add: gw_wf_def)

lemma gw_wf_object:
  "gw_wf g \<Longrightarrow> bt_get (g_objects g) (i, n) = Some (ob, d) \<Longrightarrow>
   i \<in> set (g_bucket_ids g) \<and> oi_key ob = object_key_new n \<and> unat (oi_size ob) = length d \<and> from_utf8_ok n"
  by (simp add: gw_wf_def)

locale sal_driver =
  fixes drv :: "'s driver"
    and sinv :: "'s \<Rightarrow> bool"
    and view :: "'s \<Rightarrow> gw"
    and etag :: "bytes \<Rightarrow> string"
  assumes sinv_wf: "sinv s \<Longrightarrow> gw_wf (view s)"
    and load_user_ok: "refines sinv view (load_user drv uid) (spec_load_user uid)"
    and load_key_ok: "refines sinv view (load_user_by_access_key drv k) (spec_load_user_by_access_key k)"
    and load_email_ok: "refines sinv view (load_user_by_email drv email) (spec_load_user_by_email email)"
    and store_user_ok:
      "user_wf info \<Longrightarrow> uid_stable (ui_user_id info) \<Longrightarrow>
       refines sinv view (store_user drv info excl) (spec_store_user info excl)"
    and remove_user_ok: "refines sinv view (remove_user drv uid) (spec_remove_user uid)"
    and list_users_ok:
      "mx < 2 ^ 64 \<Longrightarrow> refines sinv view (list_users drv marker mx) (spec_list_users marker mx)"
    and create_bucket_ok:
      "uid_stable (bi_owner b) \<Longrightarrow> refines sinv view (create_bucket drv b) (spec_create_bucket b)"
    and load_bucket_ok: "refines sinv view (load_bucket drv tenant name) (spec_load_bucket tenant name)"
    and list_buckets_ok:
      "mx < 2 ^ 63 \<Longrightarrow> refines sinv view (list_buckets drv buser marker mx) (spec_list_buckets buser marker mx)"
    and remove_bucket_ok: "refines sinv view (remove_bucket drv tenant name) (spec_remove_bucket tenant name)"
    and read_stats_ok: "refines sinv view (read_stats drv bk) (spec_read_stats bk)"
    and list_objects_ok:
      "from_utf8_ok (lp_prefix p) \<Longrightarrow> CHR 0x00 \<notin> set (lp_prefix p) \<Longrightarrow>
       refines sinv view (list_objects drv bk p) (spec_list_objects bk p)"
    and list_objects_reads:
      "sinv s \<Longrightarrow> list_objects drv bk p s = (lr, s') \<Longrightarrow> sinv s' \<and> view s' = view s"
    and head_object_ok: "refines sinv view (head_object drv bk key) (spec_head_object bk key)"
    and get_object_ok: "refines sinv view (get_object drv bk key rng) (spec_get_object bk key rng)"
    and put_object_ok:
      "from_utf8_ok (ok_name key) \<Longrightarrow> bt_wf at \<Longrightarrow> body_fits body \<Longrightarrow>
       refines sinv view (put_object drv now bk key ow at body) (spec_put_object etag now bk key ow at body)"
    and delete_object_ok: "refines sinv view (delete_object drv bk key) (spec_delete_object bk key)"
begin

lemmas reads_ok =
  refines_reads [OF load_user_ok reads_specs(1)]
  refines_reads [OF load_key_ok reads_specs(2)]
  refines_reads [OF load_email_ok reads_specs(3)]
  refines_reads [OF list_users_ok reads_specs(4)]
  refines_reads [OF load_bucket_ok reads_specs(5)]
  refines_reads [OF list_buckets_ok reads_specs(6)]
  refines_reads [OF read_stats_ok reads_specs(7)]
  refines_reads [OF list_objects_ok reads_specs(8)]
  refines_reads [OF head_object_ok reads_specs(9)]
  refines_reads [OF get_object_ok reads_specs(10)]

lemma load_key_found:
  assumes "sinv s" and "load_user_by_access_key drv k s = (Inr u, s')"
  shows "\<exists>uid. bt_get (g_keys (view s)) k = Some uid \<and> bt_get (g_users (view s)) uid = Some u \<and>
    user_has_key u k \<and> sinv s' \<and> view s' = view s"
proof -
  from reads_ok(2) [OF assms] obtain uid where
    uid: "bt_get (g_keys (view s)) k = Some uid" "bt_get (g_users (view s)) uid = Some u" "sinv s'" "view s' = view s"
    by (auto simp: spec_load_user_by_access_key_def bind_eq_Some_conv)
  with gw_wf_key [OF sinv_wf [OF assms(1)], of k uid] show ?thesis by auto
qed

end

text \<open>
  A reliable driver also does exactly what the contract says while the environment does not fail.
  (\<open>read_stats\<close> is left out: SQLite's sum of the sizes may overflow.)
\<close>

locale reliable_driver = sal_driver +
  fixes calm :: "'a \<Rightarrow> bool"
  assumes load_user_exact: "exact sinv calm view (load_user drv uid) (spec_load_user uid)"
    and load_key_exact: "exact sinv calm view (load_user_by_access_key drv k) (spec_load_user_by_access_key k)"
    and load_email_exact: "exact sinv calm view (load_user_by_email drv email) (spec_load_user_by_email email)"
    and store_user_exact:
      "user_wf info \<Longrightarrow> uid_stable (ui_user_id info) \<Longrightarrow>
       exact sinv calm view (store_user drv info excl) (spec_store_user info excl)"
    and remove_user_exact: "exact sinv calm view (remove_user drv uid) (spec_remove_user uid)"
    and list_users_exact:
      "mx < 2 ^ 63 \<Longrightarrow> exact sinv calm view (list_users drv marker mx) (spec_list_users marker mx)"
    and create_bucket_exact:
      "uid_stable (bi_owner b) \<Longrightarrow> exact sinv calm view (create_bucket drv b) (spec_create_bucket b)"
    and load_bucket_exact: "exact sinv calm view (load_bucket drv tenant name) (spec_load_bucket tenant name)"
    and list_buckets_exact:
      "mx < 2 ^ 63 - 1 \<Longrightarrow>
       exact sinv calm view (list_buckets drv buser marker mx) (spec_list_buckets buser marker mx)"
    and remove_bucket_exact: "exact sinv calm view (remove_bucket drv tenant name) (spec_remove_bucket tenant name)"
    and list_objects_exact:
      "from_utf8_ok (lp_prefix p) \<Longrightarrow> CHR 0x00 \<notin> set (lp_prefix p) \<Longrightarrow>
       exact sinv calm view (list_objects drv bk p) (spec_list_objects bk p)"
    and head_object_exact: "exact sinv calm view (head_object drv bk key) (spec_head_object bk key)"
    and get_object_exact: "exact sinv calm view (get_object drv bk key rng) (spec_get_object bk key rng)"
    and put_object_exact:
      "from_utf8_ok (ok_name key) \<Longrightarrow> bt_wf at \<Longrightarrow> body_fits body \<Longrightarrow>
       exact sinv calm view (put_object drv now bk key ow at body) (spec_put_object etag now bk key ow at body)"
    and delete_object_exact: "exact sinv calm view (delete_object drv bk key) (spec_delete_object bk key)"

end
