(* ===== verification/Sal_History.thy ===== *)
theory Sal_History
  imports Sal_Contract
begin

section \<open>Histories: sequences of driver calls\<close>

text \<open>
  The calls that change a store, as data, and the stores that sequences of them reach. What one
  process does between two calls of another is more calls, so a history is any interleaving. Every
  history of a driver that meets the contract is a history of the abstract store.
\<close>

datatype sal_op =
    StoreUser user_info bool
  | RemoveUser user_id
  | CreateBucket bucket_info
  | RemoveBucket string string
  | PutObject time bucket_key object_key owner attrs object_body
  | DeleteObject bucket_key object_key

text \<open>The result of a call, \<open>Some\<close> the record of a new object.\<close>

fun exec_op :: "'s driver \<Rightarrow> sal_op \<Rightarrow> ('s, object_info option) rgw_act" where
  "exec_op drv (StoreUser u excl) = try_a (store_user drv u excl) (\<lambda>_. ret_a None)"
| "exec_op drv (RemoveUser uid) = try_a (remove_user drv uid) (\<lambda>_. ret_a None)"
| "exec_op drv (CreateBucket b) = try_a (create_bucket drv b) (\<lambda>_. ret_a None)"
| "exec_op drv (RemoveBucket t n) = try_a (remove_bucket drv t n) (\<lambda>_. ret_a None)"
| "exec_op drv (PutObject now b k ow at body) = try_a (put_object drv now b k ow at body) (\<lambda>ob. ret_a (Some ob))"
| "exec_op drv (DeleteObject b k) = try_a (delete_object drv b k) (\<lambda>_. ret_a None)"

fun spec_op :: "(bytes \<Rightarrow> string) \<Rightarrow> sal_op \<Rightarrow> (gw, object_info option) rgw_act" where
  "spec_op etag (StoreUser u excl) = try_a (spec_store_user u excl) (\<lambda>_. ret_a None)"
| "spec_op etag (RemoveUser uid) = try_a (spec_remove_user uid) (\<lambda>_. ret_a None)"
| "spec_op etag (CreateBucket b) = try_a (spec_create_bucket b) (\<lambda>_. ret_a None)"
| "spec_op etag (RemoveBucket t n) = try_a (spec_remove_bucket t n) (\<lambda>_. ret_a None)"
| "spec_op etag (PutObject now b k ow at body) = try_a (spec_put_object etag now b k ow at body) (\<lambda>ob. ret_a (Some ob))"
| "spec_op etag (DeleteObject b k) = try_a (spec_delete_object b k) (\<lambda>_. ret_a None)"

fun exec_ops :: "'s driver \<Rightarrow> sal_op list \<Rightarrow> 's \<Rightarrow> 's" where
  "exec_ops drv [] s = s"
| "exec_ops drv (op # ops) s = (case exec_op drv op s of (_, s') \<Rightarrow> exec_ops drv ops s')"

fun spec_ops :: "(bytes \<Rightarrow> string) \<Rightarrow> sal_op list \<Rightarrow> gw \<Rightarrow> gw" where
  "spec_ops etag [] g = g"
| "spec_ops etag (op # ops) g = (case spec_op etag op g of (_, g') \<Rightarrow> spec_ops etag ops g')"

text \<open>What the Rust types say of the arguments, and that an id's string form reads back as itself.\<close>

fun op_ok :: "sal_op \<Rightarrow> bool" where
  "op_ok (StoreUser u _) \<longleftrightarrow> user_wf u \<and> uid_stable (ui_user_id u)"
| "op_ok (CreateBucket b) \<longleftrightarrow> uid_stable (bi_owner b)"
| "op_ok (PutObject _ _ k _ at body) \<longleftrightarrow> from_utf8_ok (ok_name k) \<and> bt_wf at \<and> body_fits body"
| "op_ok _ \<longleftrightarrow> True"

inductive history :: "'s driver \<Rightarrow> 's \<Rightarrow> 's \<Rightarrow> bool" for drv :: "'s driver" where
  start: "history drv s s"
| step: "history drv s s1 \<Longrightarrow> op_ok op \<Longrightarrow> exec_op drv op s1 = (r, s2) \<Longrightarrow> history drv s s2"

inductive spec_history :: "(bytes \<Rightarrow> string) \<Rightarrow> gw \<Rightarrow> gw \<Rightarrow> bool" for etag :: "bytes \<Rightarrow> string" where
  start: "spec_history etag g g"
| step: "spec_history etag g g1 \<Longrightarrow> op_ok op \<Longrightarrow> spec_op etag op g1 = (r, g2) \<Longrightarrow> spec_history etag g g2"

lemma refines_try_ret:
  assumes "refines sinv view m sp"
  shows "refines sinv view (try_a m (\<lambda>x. ret_a (h x))) (try_a sp (\<lambda>x. ret_a (h x)))"
proof (rule refinesI)
  fix s r s' assume "sinv s" and run: "try_a m (\<lambda>x. ret_a (h x)) s = (r, s')"
  obtain r0 s0 where 0: "m s = (r0, s0)" by fastforce
  from refinesD [OF assms \<open>sinv s\<close> 0] run 0
  show "sinv s' \<and> ((\<exists>e. r = Inl e \<and> is_internal e) \<and> view s' = view s \<or>
      (r, view s') = try_a sp (\<lambda>x. ret_a (h x)) (view s))"
    by (cases r0) (auto simp: try_a_apply split: prod.splits sum.splits)
qed

context sal_driver
begin

lemma op_refines: "op_ok op \<Longrightarrow> refines sinv view (exec_op drv op) (spec_op etag op)"
  by (cases op)
    (simp_all add: refines_try_ret store_user_ok remove_user_ok create_bucket_ok remove_bucket_ok
      put_object_ok delete_object_ok)

lemma history_refines:
  "history drv s s' \<Longrightarrow> sinv s \<Longrightarrow> sinv s' \<and> spec_history etag (view s) (view s')"
proof (induction rule: history.induct)
  case (step s s1 op r s2)
  then have 1: "sinv s1" "spec_history etag (view s) (view s1)" by auto
  from refinesD [OF op_refines [OF step.hyps(2)] 1(1) step.hyps(3)]
  have "sinv s2" "view s2 = view s1 \<or> spec_op etag op (view s1) = (r, view s2)" by auto
  with 1 step.hyps(2) show ?case by (auto intro: spec_history.step)
qed (auto intro: spec_history.start)

lemma history_wf: "history drv s s' \<Longrightarrow> sinv s \<Longrightarrow> gw_wf (view s')"
  using history_refines sinv_wf by blast

subsection \<open>Laws of the store that clients use\<close>

lemma put_run:
  assumes "sinv s" and "from_utf8_ok (ok_name k)" and "bt_wf at" and "body_fits body"
    and "put_object drv now b k ow at body s = (Inr ob, s1)"
  obtains d where "read_body body = Inr d" and "ob = new_object etag now k ow at d" and "sinv s1"
    and "bk_bucket_id b \<in> set (g_bucket_ids (view s))"
    and "view s1 = (view s)\<lparr>g_objects := bt_insert (bk_bucket_id b, ok_name k) (canon_object ob, d) (g_objects (view s))\<rparr>"
  using refinesD [OF put_object_ok [OF assms(2-4)] assms(1,5)] that
  by (auto simp: spec_put_object_def Let_def split: sum.splits if_splits)

lemma get_put:
  assumes s: "sinv s" "from_utf8_ok (ok_name k)" "bt_wf at" "body_fits body"
    and put: "put_object drv now b k ow at body s = (Inr ob, s1)"
    and get: "get_object drv b k' rng s1 = (r, s2)"
  shows "(\<exists>e. r = Inl e \<and> is_internal e) \<or>
    (\<exists>d. read_body body = Inr d \<and>
      r = (if ok_name k' = ok_name k
           then fst (spec_get_object b k' rng ((view s)\<lparr>g_objects := [((bk_bucket_id b, ok_name k), (canon_object ob, d))]\<rparr>))
           else fst (spec_get_object b k' rng (view s))))"
proof (rule put_run [OF s put])
  fix d
  assume d: "read_body body = Inr d" and s1: "sinv s1"
    and v: "view s1 = (view s)\<lparr>g_objects := bt_insert (bk_bucket_id b, ok_name k) (canon_object ob, d) (g_objects (view s))\<rparr>"
  have "bt_wf (g_objects (view s))" using gw_wf_maps [OF sinv_wf [OF s(1)]] by simp
  then have look: "bt_get (g_objects (view s1)) = (bt_get (g_objects (view s)))((bk_bucket_id b, ok_name k) \<mapsto> (canon_object ob, d))"
    using v by (simp add: bt_get_insert)
  have ids: "g_bucket_ids (view s1) = g_bucket_ids (view s)" using v by (simp add: g_bucket_ids_def)
  have "fst (spec_get_object b k' rng (view s1)) =
    (if ok_name k' = ok_name k
     then fst (spec_get_object b k' rng ((view s)\<lparr>g_objects := [((bk_bucket_id b, ok_name k), (canon_object ob, d))]\<rparr>))
     else fst (spec_get_object b k' rng (view s)))"
    by (simp add: spec_get_object_def g_find_object_def look ids) (simp add: g_bucket_ids_def bt_get_def)
  with reads_ok(10) [OF s1 get] d show ?thesis by auto
qed

lemma get_deleted:
  assumes "sinv s" and del: "delete_object drv b k s = (Inr (), s1)" and get: "get_object drv b k rng s1 = (r, s2)"
  shows "(\<exists>e. r = Inl e \<and> is_internal e) \<or> r = Inl NoSuchKey"
proof -
  from refinesD [OF delete_object_ok assms(1) del]
  have "sinv s1" and "fst (spec_get_object b k rng (view s1)) = Inl NoSuchKey"
    by (auto simp: spec_delete_object_def spec_get_object_def g_find_object_def bt_get_remove g_bucket_ids_def
        split: sum.splits if_splits)
  with reads_ok(10) [OF _ get] show ?thesis by auto
qed

lemma get_slice:
  assumes "sinv s" and get: "get_object drv b k (Some rng) s = (Inr rd, s')"
  obtains ob d lo hi where "bt_get (g_objects (view s)) (bk_bucket_id b, ok_name k) = Some (ob, d)"
    and "rd_info rd = ob" and "spec_range rng (length d) = Some (lo, hi)"
    and "rd_range rd = Some (of_nat lo, of_nat hi)"
    and "rd_body rd = body_from_bytes (take (hi - lo + 1) (drop lo d))"
  using reads_ok(10) [OF assms] that
  by (auto simp: spec_get_object_def g_find_object_def try_r_Inr_iff split: if_splits)

lemma list_page_run:
  assumes "sinv s" and "from_utf8_ok (lp_prefix p)" and "CHR 0x00 \<notin> set (lp_prefix p)"
    and "list_objects drv b p s = (Inr res, s')"
  shows "sinv s' \<and> view s' = view s \<and>
    res = page_of (page_size (lp_max_keys p)) (entries_after p (g_objects_of (view s) (bk_bucket_id b)))"
  using refines_reads [OF list_objects_ok [OF assms(2,3)] reads_specs(8) assms(1,4)]
  by (auto simp: spec_list_objects_def split: if_splits)

end

lemma exact_try_ret:
  assumes "exact sinv calm view m sp"
  shows "exact sinv calm view (try_a m (\<lambda>x. ret_a (h x))) (try_a sp (\<lambda>x. ret_a (h x)))"
proof (rule exactI)
  fix s r s' assume "sinv s" "calm s" and run: "try_a m (\<lambda>x. ret_a (h x)) s = (r, s')"
  obtain r0 s0 where 0: "m s = (r0, s0)" by fastforce
  from exactD [OF assms \<open>sinv s\<close> \<open>calm s\<close> 0] run 0
  show "calm s' \<and> (r, view s') = try_a sp (\<lambda>x. ret_a (h x)) (view s)"
    by (cases r0) (auto simp: try_a_apply split: prod.splits sum.splits)
qed

context reliable_driver
begin

lemma op_exact: "op_ok op \<Longrightarrow> exact sinv calm view (exec_op drv op) (spec_op etag op)"
  by (cases op)
    (simp_all add: exact_try_ret store_user_exact remove_user_exact create_bucket_exact remove_bucket_exact
      put_object_exact delete_object_exact)

lemma ops_exact:
  "list_all op_ok ops \<Longrightarrow> sinv s \<Longrightarrow> calm s \<Longrightarrow>
   sinv (exec_ops drv ops s) \<and> calm (exec_ops drv ops s) \<and> view (exec_ops drv ops s) = spec_ops etag ops (view s)"
proof (induction ops arbitrary: s)
  case (Cons op ops)
  obtain r s' where run: "exec_op drv op s = (r, s')" by fastforce
  have op: "op_ok op" using Cons.prems(1) by simp
  have "calm s'" "spec_op etag op (view s) = (r, view s')" "sinv s'"
    using exactD [OF op_exact [OF op] Cons.prems(2,3) run] refinesD [OF op_refines [OF op] Cons.prems(2) run] by auto
  with Cons.IH [of s'] Cons.prems(1) run show ?case by simp
qed simp

lemma get_not_internal:
  assumes "sinv s" and "calm s" and "get_object drv b k rng s = (r, s')"
  shows "\<not> (\<exists>m. r = Inl (InternalError m))"
  using exactD [OF get_object_exact assms]
  by (auto simp: spec_get_object_def g_find_object_def try_r_Inl_iff ok_or_Inl_iff split: option.splits if_splits)

end

end
