(* ===== verification/Sqlite_View.thy ===== *)
theory Sqlite_View
  imports Sqlite_Sound Sal_History
begin

section \<open>The database as the abstract store\<close>

text \<open>
  \<open>view_db\<close> reads the tables as the ordered maps of the contract; \<open>db_ok\<close> is what the schema and
  the driver maintain: unique keys, references that resolve, documents that decode to records
  agreeing with their columns, and a key table that lists exactly the keys of the user records.
\<close>

subsection \<open>Rows as records\<close>

definition row_user :: "'j crates \<Rightarrow> 'j user_row \<Rightarrow> user_info" where
  "row_user cr r = projr (from_json cr (user_of_json cr) (ur_info r))"

definition row_bucket :: "'j crates \<Rightarrow> 'j bucket_row \<Rightarrow> bucket_info" where
  "row_bucket cr r = projr (from_json cr (bucket_of_json cr) (br_info r))"

definition row_object :: "'j crates \<Rightarrow> 'j object_row \<Rightarrow> object_info" where
  "row_object cr r = projr (into_info cr r)"

definition email_col :: "user_info \<Rightarrow> string option" where
  "email_col u = (if ui_user_email u = [] then None else Some (ui_user_email u))"

definition user_row_ok :: "'j crates \<Rightarrow> 'j user_row \<Rightarrow> bool" where
  "user_row_ok cr r \<longleftrightarrow> (\<exists>u. from_json cr (user_of_json cr) (ur_info r) = Inr u \<and> user_wf u \<and>
     canonical_uid (ui_user_id u) \<and> ur_uid r = user_id_display (ui_user_id u) \<and> ur_email r = email_col u)"

definition bucket_row_ok :: "'j crates \<Rightarrow> 'j bucket_row \<Rightarrow> bool" where
  "bucket_row_ok cr r \<longleftrightarrow> (\<exists>b. from_json cr (bucket_of_json cr) (br_info r) = Inr b \<and>
     br_bucket_id r = b_id b \<and> br_tenant r = bk_tenant (bi_bucket b) \<and> br_name r = bk_name (bi_bucket b) \<and>
     canonical_uid (bi_owner b) \<and> br_owner r = user_id_display (bi_owner b))"

definition object_rec_ok :: "'j crates \<Rightarrow> 'j object_rec \<Rightarrow> bool" where
  "object_rec_ok cr r \<longleftrightarrow> (\<exists>ob. into_info cr (ob_row r) = Inr ob) \<and>
     length (ob_data r) < 2 ^ 63 \<and> or_size (ob_row r) = of_nat (length (ob_data r)) \<and>
     from_utf8_ok (ob_col_name r)"

abbreviation bucket_row_key :: "'j bucket_row \<Rightarrow> string \<times> string" where
  "bucket_row_key r \<equiv> (br_name r, br_tenant r)"

abbreviation object_rec_key :: "'j object_rec \<Rightarrow> string \<times> string" where
  "object_rec_key r \<equiv> (ob_bucket_id r, ob_col_name r)"

definition db_ok :: "'j crates \<Rightarrow> 'j db \<Rightarrow> bool" where
  "db_ok cr d \<longleftrightarrow>
     distinct (map ur_uid (db_users d)) \<and> (\<forall>r \<in> set (db_users d). user_row_ok cr r) \<and>
     distinct (map kr_access_key (db_keys d)) \<and>
     (\<forall>k uid. \<lparr>kr_access_key = k, kr_uid = uid\<rparr> \<in> set (db_keys d) \<longleftrightarrow>
        (\<exists>r \<in> set (db_users d). ur_uid r = uid \<and> user_has_key (row_user cr r) k)) \<and>
     distinct (map br_bucket_id (db_buckets d)) \<and> distinct (map bucket_row_key (db_buckets d)) \<and>
     (\<forall>r \<in> set (db_buckets d). bucket_row_ok cr r) \<and>
     distinct (map object_rec_key (db_objects d)) \<and>
     (\<forall>r \<in> set (db_objects d). object_rec_ok cr r \<and> ob_bucket_id r \<in> br_bucket_id ` set (db_buckets d))"

definition view_db :: "'j crates \<Rightarrow> 'j db \<Rightarrow> gw" where
  "view_db cr d =
     \<lparr>g_users = bt_of_rows ur_uid (row_user cr) (db_users d),
      g_keys = bt_of_rows kr_access_key kr_uid (db_keys d),
      g_buckets = bt_of_rows bucket_row_key (row_bucket cr) (db_buckets d),
      g_objects = bt_of_rows object_rec_key (\<lambda>r. (row_object cr (ob_row r), ob_data r)) (db_objects d)\<rparr>"

lemma view_simps [simp]:
  "g_users (view_db cr d) = bt_of_rows ur_uid (row_user cr) (db_users d)"
  "g_keys (view_db cr d) = bt_of_rows kr_access_key kr_uid (db_keys d)"
  "g_buckets (view_db cr d) = bt_of_rows bucket_row_key (row_bucket cr) (db_buckets d)"
  "g_objects (view_db cr d) = bt_of_rows object_rec_key (\<lambda>r. (row_object cr (ob_row r), ob_data r)) (db_objects d)"
  by (simp_all add: view_db_def)

lemma db_okD:
  assumes "db_ok cr d"
  shows "distinct (map ur_uid (db_users d))" "\<And>r. r \<in> set (db_users d) \<Longrightarrow> user_row_ok cr r"
    "distinct (map kr_access_key (db_keys d))"
    "\<And>k uid. \<lparr>kr_access_key = k, kr_uid = uid\<rparr> \<in> set (db_keys d) \<longleftrightarrow>
        (\<exists>r \<in> set (db_users d). ur_uid r = uid \<and> user_has_key (row_user cr r) k)"
    "distinct (map br_bucket_id (db_buckets d))" "distinct (map bucket_row_key (db_buckets d))"
    "\<And>r. r \<in> set (db_buckets d) \<Longrightarrow> bucket_row_ok cr r"
    "distinct (map object_rec_key (db_objects d))"
    "\<And>r. r \<in> set (db_objects d) \<Longrightarrow> object_rec_ok cr r"
    "\<And>r. r \<in> set (db_objects d) \<Longrightarrow> ob_bucket_id r \<in> br_bucket_id ` set (db_buckets d)"
  using assms by (simp_all add: db_ok_def)

lemma user_row_decode:
  "user_row_ok cr r \<Longrightarrow> from_json cr (user_of_json cr) (ur_info r) = Inr (row_user cr r) \<and>
     user_wf (row_user cr r) \<and> canonical_uid (ui_user_id (row_user cr r)) \<and>
     ur_uid r = user_id_display (ui_user_id (row_user cr r)) \<and> ur_email r = email_col (row_user cr r)"
  by (auto simp: user_row_ok_def row_user_def)

lemma bucket_row_decode:
  "bucket_row_ok cr r \<Longrightarrow> from_json cr (bucket_of_json cr) (br_info r) = Inr (row_bucket cr r) \<and>
     br_bucket_id r = b_id (row_bucket cr r) \<and> br_tenant r = bk_tenant (bi_bucket (row_bucket cr r)) \<and>
     br_name r = bk_name (bi_bucket (row_bucket cr r)) \<and> canonical_uid (bi_owner (row_bucket cr r)) \<and>
     br_owner r = user_id_display (bi_owner (row_bucket cr r))"
  by (auto simp: bucket_row_ok_def row_bucket_def)

lemma unat_of_nat_u64: "n < 2 ^ 64 \<Longrightarrow> unat (of_nat n :: u64) = n"
  by (simp add: unat_of_nat take_bit_nat_eq_self)

lemma object_row_decode:
  "object_rec_ok cr r \<Longrightarrow> into_info cr (ob_row r) = Inr (row_object cr (ob_row r)) \<and>
     oi_key (row_object cr (ob_row r)) = object_key_new (ob_col_name r) \<and>
     oi_size (row_object cr (ob_row r)) = or_size (ob_row r) \<and>
     unat (or_size (ob_row r)) = length (ob_data r)"
  by (auto simp: object_rec_ok_def row_object_def into_info_def to_u64_def try_r_Inr_iff unat_of_nat_u64
      split: if_splits)

subsection \<open>The view is a well-formed store\<close>

lemma g_keys_iff:
  assumes "db_ok cr d"
  shows "bt_get (g_keys (view_db cr d)) k = Some uid \<longleftrightarrow> \<lparr>kr_access_key = k, kr_uid = uid\<rparr> \<in> set (db_keys d)"
proof
  assume "bt_get (g_keys (view_db cr d)) k = Some uid"
  then obtain r where "find (\<lambda>r. kr_access_key r = k) (db_keys d) = Some r" "kr_uid r = uid"
    by (auto simp: bt_get_of_rows)
  then have "r \<in> set (db_keys d)" "kr_access_key r = k" "kr_uid r = uid" by (auto dest: find_key_Some)
  then show "\<lparr>kr_access_key = k, kr_uid = uid\<rparr> \<in> set (db_keys d)"
    by (metis (full_types) key_row.surjective old.unit.exhaust)
next
  assume "\<lparr>kr_access_key = k, kr_uid = uid\<rparr> \<in> set (db_keys d)"
  from find_unique [OF db_okD(3) [OF assms] this]
  show "bt_get (g_keys (view_db cr d)) k = Some uid" by (simp add: bt_get_of_rows)
qed

lemma g_users_iff:
  assumes "db_ok cr d"
  shows "bt_get (g_users (view_db cr d)) uid = Some u \<longleftrightarrow> (\<exists>r \<in> set (db_users d). ur_uid r = uid \<and> row_user cr r = u)"
  using find_unique [OF db_okD(1) [OF assms]]
  by (auto simp: bt_get_of_rows dest!: find_key_Some)

lemma g_buckets_iff:
  assumes "db_ok cr d"
  shows "bt_get (g_buckets (view_db cr d)) k = Some b \<longleftrightarrow> (\<exists>r \<in> set (db_buckets d). bucket_row_key r = k \<and> row_bucket cr r = b)"
  using find_unique [OF db_okD(6) [OF assms]]
  by (fastforce simp: bt_get_of_rows dest!: find_key_Some)

lemma g_objects_iff:
  assumes "db_ok cr d"
  shows "bt_get (g_objects (view_db cr d)) k = Some (ob, x) \<longleftrightarrow>
    (\<exists>r \<in> set (db_objects d). object_rec_key r = k \<and> row_object cr (ob_row r) = ob \<and> ob_data r = x)"
  using find_unique [OF db_okD(8) [OF assms]]
  by (fastforce simp: bt_get_of_rows dest!: find_key_Some)

lemma g_bucket_ids_view:
  assumes "db_ok cr d"
  shows "g_bucket_ids (view_db cr d) = map br_bucket_id (sort_key bucket_row_key (db_buckets d))"
  unfolding g_bucket_ids_def view_simps bt_of_rows_sort [OF db_okD(6) [OF assms], symmetric]
  using bucket_row_decode [OF db_okD(7) [OF assms]] by simp

lemma set_g_bucket_ids:
  "db_ok cr d \<Longrightarrow> set (g_bucket_ids (view_db cr d)) = br_bucket_id ` set (db_buckets d)"
  by (simp add: g_bucket_ids_view)

lemma bucket_exists_view:
  "db_ok cr d \<Longrightarrow> sql_bucket_exists i d \<longleftrightarrow> i \<in> set (g_bucket_ids (view_db cr d))"
  by (auto simp: set_g_bucket_ids sql_bucket_exists_def)

lemma sort_key_const_fst:
  "(\<And>x. x \<in> set xs \<Longrightarrow> f x = i) \<Longrightarrow> sort_key (\<lambda>x. (f x, g x)) xs = sort_key g xs"
proof (induction xs)
  case (Cons x xs)
  have "insort_key (\<lambda>x. (f x, g x)) x ys = insort_key g x ys" if "\<forall>y \<in> set (x # ys). f y = i" for ys
    using that by (induction ys) auto
  with Cons show ?case by simp
qed simp

lemma sort_key_map: "sort_key f (map g xs) = map g (sort_key (\<lambda>x. f (g x)) xs)"
proof (induction xs)
  case (Cons x xs)
  have "insort_key f (g x) (map g ys) = map g (insort_key (\<lambda>x. f (g x)) x ys)" for ys
    by (induction ys) auto
  with Cons show ?case by simp
qed simp

lemma g_objects_of_view:
  assumes "db_ok cr d"
  shows "g_objects_of (view_db cr d) i =
    map (row_object cr) (sort_key or_name (map ob_row (filter (\<lambda>r. ob_bucket_id r = i) (db_objects d))))"
proof -
  have "g_objects_of (view_db cr d) i =
      map (\<lambda>r. row_object cr (ob_row r)) (sort_key object_rec_key (filter (\<lambda>r. ob_bucket_id r = i) (db_objects d)))"
    unfolding g_objects_of_def view_simps bt_of_rows_sort [OF db_okD(8) [OF assms], symmetric]
    by (simp add: filter_map o_def filter_sort)
  also have "sort_key object_rec_key (filter (\<lambda>r. ob_bucket_id r = i) (db_objects d)) =
      sort_key ob_col_name (filter (\<lambda>r. ob_bucket_id r = i) (db_objects d))"
    by (rule sort_key_const_fst) simp
  finally show ?thesis by (simp add: sort_key_map o_def)
qed

lemma gw_wf_view:
  assumes "db_ok cr d"
  shows "gw_wf (view_db cr d)"
  unfolding gw_wf_def
proof (intro conjI allI impI)
  show "bt_wf (g_users (view_db cr d))" "bt_wf (g_keys (view_db cr d))" "bt_wf (g_buckets (view_db cr d))"
    "bt_wf (g_objects (view_db cr d))" by simp_all
next
  fix uid u assume "bt_get (g_users (view_db cr d)) uid = Some u"
  then obtain r where "r \<in> set (db_users d)" "ur_uid r = uid" "row_user cr r = u"
    using g_users_iff [OF assms] by auto
  with user_row_decode [OF db_okD(2) [OF assms]]
  show "user_wf u" "canonical_uid (ui_user_id u)" "user_id_display (ui_user_id u) = uid" by auto
next
  fix k uid
  show "bt_get (g_keys (view_db cr d)) k = Some uid \<longleftrightarrow>
      (\<exists>u. bt_get (g_users (view_db cr d)) uid = Some u \<and> user_has_key u k)"
    unfolding g_keys_iff [OF assms] db_okD(4) [OF assms] g_users_iff [OF assms] by blast
next
  fix n t b assume "bt_get (g_buckets (view_db cr d)) (n, t) = Some b"
  then obtain r where "r \<in> set (db_buckets d)" "br_name r = n" "br_tenant r = t" "row_bucket cr r = b"
    using g_buckets_iff [OF assms] by auto
  with bucket_row_decode [OF db_okD(7) [OF assms]]
  show "bk_name (bi_bucket b) = n" "bk_tenant (bi_bucket b) = t" "canonical_uid (bi_owner b)" by auto
next
  show "distinct (g_bucket_ids (view_db cr d))"
    using db_okD(5) [OF assms] by (simp add: g_bucket_ids_view [OF assms] distinct_map)
next
  fix i n ob x assume "bt_get (g_objects (view_db cr d)) (i, n) = Some (ob, x)"
  then obtain r where r: "r \<in> set (db_objects d)" "ob_bucket_id r = i" "ob_col_name r = n"
    "row_object cr (ob_row r) = ob" "ob_data r = x"
    using g_objects_iff [OF assms] by auto
  from db_okD(10) [OF assms r(1)] r show "i \<in> set (g_bucket_ids (view_db cr d))"
    by (simp add: set_g_bucket_ids [OF assms])
  from object_row_decode [OF db_okD(9) [OF assms r(1)]] db_okD(9) [OF assms r(1)] r
  show "oi_key ob = object_key_new n" "unat (oi_size ob) = length x" "from_utf8_ok n"
    by (auto simp: object_rec_ok_def)
qed

lemma db_ok_empty [simp]: "db_ok cr db_empty"
  by (simp add: db_ok_def db_empty_def)

lemma view_empty [simp]: "view_db cr db_empty = gw_empty"
  by (simp add: view_db_def db_empty_def gw_empty_def bt_of_rows_def)

subsection \<open>The invariant of a connection, and refinement without faults\<close>

definition crates_ok :: "'j crates \<Rightarrow> bool" where
  "crates_ok cr \<longleftrightarrow> json_ok cr \<and> chrono_ok cr"

definition sq_inv :: "'j crates \<Rightarrow> 'j conn \<Rightarrow> bool" where
  "sq_inv cr c \<longleftrightarrow> crates_ok cr \<and> db_ok cr (cn_db c)"

definition sq_view :: "'j crates \<Rightarrow> 'j conn \<Rightarrow> gw" where
  "sq_view cr c = view_db cr (cn_db c)"

text \<open>
  A fault-free run implements a method of the contract; \<open>ex\<close> says that it does exactly that,
  otherwise it may also refuse with an internal error.
\<close>

definition implements :: "'j crates \<Rightarrow> bool \<Rightarrow> 'a rgw_result \<times> 'j db \<Rightarrow> 'j db \<Rightarrow> (gw, 'a) rgw_act \<Rightarrow> bool" where
  "implements cr ex out d sp \<longleftrightarrow>
     (case out of (r, d') \<Rightarrow> db_ok cr d' \<and>
        (\<not> ex \<and> (\<exists>e. r = Inl (InternalError e)) \<and> view_db cr d' = view_db cr d \<or>
         (r, view_db cr d') = sp (view_db cr d)))"

lemma refines_atomic:
  assumes "atomic m" and "\<And>d. crates_ok cr \<Longrightarrow> db_ok cr d \<Longrightarrow> implements cr ex (ideal m d) d sp"
  shows "refines (sq_inv cr) (sq_view cr) m sp"
proof (rule refinesI)
  fix c r c' assume inv: "sq_inv cr c" and run: "m c = (r, c')"
  from inv have ok: "crates_ok cr" "db_ok cr (cn_db c)" by (auto simp: sq_inv_def)
  from atomicD [OF assms(1) run] assms(2) [OF ok] ok
  show "sq_inv cr c' \<and> ((\<exists>e. r = Inl e \<and> is_internal e) \<and> sq_view cr c' = sq_view cr c \<or>
      (r, sq_view cr c') = sp (sq_view cr c))"
    by (auto simp: sq_inv_def sq_view_def implements_def is_internal_def split: prod.splits)
qed

text \<open>Nothing will fail: no fault is scheduled and every document serialises.\<close>

definition sq_calm :: "'j crates \<Rightarrow> 'j conn \<Rightarrow> bool" where
  "sq_calm cr c \<longleftrightarrow> cn_faults c = [] \<and> json_total cr"

lemma exact_atomic:
  assumes "atomic m" and "\<And>d. crates_ok cr \<Longrightarrow> db_ok cr d \<Longrightarrow> implements cr ex (ideal m d) d sp"
    and "json_total cr \<Longrightarrow> ex"
  shows "exact (sq_inv cr) (sq_calm cr) (sq_view cr) m sp"
proof (rule exactI)
  fix c r c' assume inv: "sq_inv cr c" and calm: "sq_calm cr c" and run: "m c = (r, c')"
  from inv have ok: "crates_ok cr" "db_ok cr (cn_db c)" by (auto simp: sq_inv_def)
  have c: "c = conn_of (cn_db c)" using calm by (simp add: sq_calm_def conn_of_eq)
  have i: "ideal m (cn_db c) = (r, cn_db c')" unfolding ideal_def c [symmetric] by (simp add: run)
  have "cn_faults c' = []" using assms(1) run c unfolding atomic_def by (metis snd_conv)
  with i assms(2) [OF ok] assms(3) calm
  show "sq_calm cr c' \<and> (r, sq_view cr c') = sp (sq_view cr c)"
    by (simp add: implements_def sq_calm_def sq_view_def)
qed

text \<open>For a method that only reads it is enough to compare the results.\<close>

lemma implements_reader:
  assumes "db_ok cr d" and "reader m" and "reads sp"
    and "\<not> ex \<and> (\<exists>e. fst (ideal m d) = Inl (InternalError e)) \<or> fst (ideal m d) = fst (sp (view_db cr d))"
  shows "implements cr ex (ideal m d) d sp"
proof -
  have "snd (ideal m d) = d"
    using assms(2) by (auto simp: reader_def ideal_def split: prod.splits) (metis conn_of_simps(1) snd_conv)
  moreover have "snd (sp (view_db cr d)) = view_db cr d" using assms(3) by (simp add: reads_def)
  ultimately show ?thesis
    using assms(1,4) by (cases "ideal m d"; cases "sp (view_db cr d)") (auto simp: implements_def)
qed

end
