(* ===== verification/Listing.thy ===== *)
theory Listing
  imports Sal
begin

section \<open>What a listing promises\<close>

text \<open>
  Facts about the listing contract of \<open>Sal\<close>: the entries of a bucket are strictly ordered by
  name, whatever prefix and delimiter a request chooses, and following \<open>next_marker\<close> from page to
  page enumerates each of them once.
\<close>

lemma prefix_le: "prefix p s \<Longrightarrow> p \<le> (s :: 'a::linorder list)"
  by (induction p arbitrary: s) (auto simp: prefix_def)

lemma prefix_between: "p \<le> m \<Longrightarrow> m \<le> n \<Longrightarrow> prefix p n \<Longrightarrow> prefix p (m :: 'a::linorder list)"
proof (induction p arbitrary: m n)
  case (Cons a p)
  from Cons.prems(3) obtain n' where n: "n = a # n'" "prefix p n'" by (cases n) auto
  from Cons.prems(1) obtain b m' where m: "m = b # m'" by (cases m) auto
  from Cons.prems(1,2) n m have "b = a" "p \<le> m'" "m' \<le> n'" by auto
  with Cons.IH [of m' n'] n m show ?case by simp
qed simp

lemma common_prefix_Some_iff:
  "common_prefix pre d name = Some cp \<longleftrightarrow>
   (\<exists>x. d \<noteq> [] \<and> cp = pre @ x @ d \<and> prefix cp name \<and> str_find d (x @ d) = Some (length x))"
  (is "?l \<longleftrightarrow> ?r")
proof
  assume ?l
  then obtain rest i where d: "d \<noteq> []" and name: "name = pre @ rest" and i: "str_find d rest = Some i"
    and cp: "cp = take (length pre + i + length d) name"
    by (auto simp: common_prefix_def split: if_splits option.splits)
  from str_find_Some [OF i] obtain b where b: "rest = take i rest @ d @ b" "i + length d \<le> length rest"
    by blast
  have len: "length (take i rest) = i" using b(2) by simp
  have "take (i + length d) rest = take i rest @ d" using b len by (metis append.assoc append_eq_conv_conj length_append)
  then have cp': "cp = pre @ take i rest @ d" using cp name by (simp add: add.assoc)
  have pre: "prefix (take i rest @ d) rest" using b(1) by (metis append.assoc prefixI)
  then have "str_find d (take i rest @ d) = Some i"
    using str_find_append [OF i, of "take i rest @ d"] len by simp
  with d cp' pre name len show ?r by (intro exI [of _ "take i rest"]) simp
next
  assume ?r
  then obtain x z where d: "d \<noteq> []" and cp: "cp = pre @ x @ d" and name: "name = pre @ x @ d @ z"
    and f: "str_find d (x @ d) = Some (length x)"
    by (auto simp: prefix_def)
  have "str_find d (x @ d @ z) \<noteq> None" unfolding str_find_None_iff sublist_def by blast
  then obtain j where j: "str_find d (x @ d @ z) = Some j" by auto
  have "\<not> length x < j" using str_find_least [OF j, of "length x"] by auto
  then have "str_find d (x @ d) = Some j" using str_find_append [OF j, of "x @ d"] by simp
  with f have "j = length x" by simp
  with d cp name j show ?l by (simp add: common_prefix_def)
qed

lemma common_prefix_prefix: "common_prefix pre d name = Some cp \<Longrightarrow> prefix cp name"
  by (auto simp: common_prefix_Some_iff)

lemma common_prefix_ext: "common_prefix pre d name = Some cp \<Longrightarrow> prefix cp name' \<Longrightarrow> common_prefix pre d name' = Some cp"
  unfolding common_prefix_Some_iff by blast

subsection \<open>Entries in order\<close>

abbreviation ob_name :: "object_info \<Rightarrow> string" where
  "ob_name ob \<equiv> ok_name (oi_key ob)"

definition entry_le :: "entry \<Rightarrow> entry \<Rightarrow> bool" where
  "entry_le a b \<longleftrightarrow> entry_name a < entry_name b \<or> a = b \<and> (\<exists>p. a = EPrefix p)"

lemma entry_name_le: "entry_name (entry_of pre d ob) \<le> ob_name ob"
  by (auto simp: entry_of_def dest!: common_prefix_prefix prefix_le split: option.splits)

lemma entry_le_mono:
  assumes "ob_name a < ob_name b"
  shows "entry_le (entry_of pre d a) (entry_of pre d b)"
proof (cases "common_prefix pre d (ob_name b)")
  case None
  then show ?thesis
    using order_le_less_trans [OF entry_name_le [of pre d a] assms]
    by (simp add: entry_le_def entry_of_def [of _ _ b])
next
  case (Some c)
  show ?thesis
  proof (cases "c \<le> ob_name a")
    case True
    then have "prefix c (ob_name a)"
      using prefix_between [OF True _ common_prefix_prefix [OF Some]] assms by simp
    from common_prefix_ext [OF Some this] Some show ?thesis by (simp add: entry_le_def entry_of_def)
  next
    case False
    then show ?thesis
      using Some entry_name_le [of pre d a] by (auto simp: entry_le_def entry_of_def [of _ _ b])
  qed
qed

definition obs_sorted :: "object_info list \<Rightarrow> bool" where
  "obs_sorted obs \<longleftrightarrow> sorted_wrt (\<lambda>a b. ob_name a < ob_name b) obs"

lemma obs_sorted_filter: "obs_sorted obs \<Longrightarrow> obs_sorted (filter P obs)"
  by (simp add: obs_sorted_def sorted_wrt_filter)

lemma sorted_map_entry_of: "obs_sorted obs \<Longrightarrow> sorted_wrt entry_le (map (entry_of pre d) obs)"
  unfolding obs_sorted_def sorted_wrt_map by (rule sorted_wrt_mono_rel) (auto intro: entry_le_mono)

lemma filter_remdups_adj:
  "sorted_wrt entry_le es \<Longrightarrow> filter P (remdups_adj es) = remdups_adj (filter P es)"
proof (induction es rule: remdups_adj.induct)
  case (3 x y es)
  show ?case
  proof (cases "x = y")
    case True
    with 3 show ?thesis by auto
  next
    case False
    have "x \<noteq> hd zs" if "zs = filter P (y # es)" "zs \<noteq> []" for zs
    proof -
      have "hd zs \<in> set (y # es)" using that hd_in_set by fastforce
      moreover have "x \<notin> set (y # es)" using 3(3) False by (auto simp: entry_le_def)
      ultimately show ?thesis by blast
    qed
    then have "remdups_adj (x # filter P (y # es)) = x # remdups_adj (filter P (y # es))"
      by (cases "filter P (y # es)") auto
    with 3 False show ?thesis by auto
  qed
qed auto

lemma remdups_adj_strict:
  "sorted_wrt entry_le es \<Longrightarrow> sorted_wrt (\<lambda>a b. entry_name a < entry_name b) (remdups_adj es)"
proof (induction es rule: remdups_adj.induct)
  case (3 x y es)
  show ?case
  proof (cases "x = y")
    case False
    then have "\<forall>e \<in> set (y # es). entry_name x < entry_name e" using 3(3) by (auto simp: entry_le_def)
    with 3 False show ?thesis by simp
  qed (use 3 in auto)
qed auto

lemma list_entries_strict:
  "obs_sorted obs \<Longrightarrow> sorted_wrt (\<lambda>a b. entry_name a < entry_name b) (list_entries pre d obs)"
  unfolding list_entries_def by (intro remdups_adj_strict sorted_map_entry_of obs_sorted_filter)

lemma entries_after_strict:
  "obs_sorted obs \<Longrightarrow> sorted_wrt (\<lambda>a b. entry_name a < entry_name b) (entries_after p obs)"
  by (simp add: entries_after_def list_entries_strict sorted_wrt_filter)

text \<open>The keys at or before the marker contribute nothing: filtering them first is the same.\<close>

lemma entries_after_rows:
  assumes "obs_sorted obs"
  shows "entries_after p obs =
     remdups_adj (filter (\<lambda>e. lp_marker p < entry_name e)
       (map (entry_of (lp_prefix p) (lp_delimiter p))
         (filter (\<lambda>ob. lp_marker p < ob_name ob \<and> prefix (lp_prefix p) (ob_name ob)) obs)))"
proof -
  let ?E = "entry_of (lp_prefix p) (lp_delimiter p)"
  have "ob \<in> set obs \<Longrightarrow> lp_marker p < entry_name (?E ob) \<Longrightarrow> lp_marker p < ob_name ob" for ob
    by (rule order_less_le_trans [OF _ entry_name_le])
  then have "filter (\<lambda>e. lp_marker p < entry_name e) (map ?E (filter (\<lambda>ob. prefix (lp_prefix p) (ob_name ob)) obs))
      = filter (\<lambda>e. lp_marker p < entry_name e) (map ?E (filter (\<lambda>ob. lp_marker p < ob_name ob \<and> prefix (lp_prefix p) (ob_name ob)) obs))"
    by (simp add: filter_map o_def) (intro arg_cong [where f = "map _"] filter_cong; auto)
  then show ?thesis
    unfolding entries_after_def list_entries_def
    by (simp add: filter_remdups_adj sorted_map_entry_of obs_sorted_filter assms)
qed

subsection \<open>Pages\<close>

lemma filter_after_nth:
  "sorted_wrt (\<lambda>a b. entry_name a < entry_name b) es \<Longrightarrow> k < length es \<Longrightarrow>
   filter (\<lambda>e. entry_name (es ! k) < entry_name e) es = drop (Suc k) es"
proof (induction es arbitrary: k)
  case (Cons e es)
  show ?case
  proof (cases k)
    case 0
    with Cons.prems show ?thesis by (auto intro: filter_True)
  next
    case (Suc j)
    with Cons.prems have "entry_name e < entry_name (es ! j)" by auto
    then have "\<not> entry_name (es ! j) < entry_name e" by (rule order_less_not_sym)
    with Suc Cons show ?thesis by auto
  qed
qed simp

text \<open>What is left after a page is exactly what the next marker selects.\<close>

lemma entries_resume:
  assumes "obs_sorted obs" and "0 < mx" and "entries_after p obs \<noteq> []"
  shows "entries_after (p\<lparr>lp_marker := lr_next_marker (page_of mx (entries_after p obs))\<rparr>) obs
       = drop mx (entries_after p obs)"
proof -
  let ?es = "entries_after p obs"
  define k where "k = min mx (length ?es) - 1"
  have k: "k < length ?es" "drop mx ?es = drop (Suc k) ?es"
    using assms(2,3) by (auto simp: k_def min_def)
  have "last (take mx ?es) = ?es ! k"
    using assms(2,3) k_def by (simp add: last_conv_nth nth_take min_def)
  then have m: "lr_next_marker (page_of mx ?es) = entry_name (?es ! k)"
    using assms(2,3) by (simp add: page_of_def Let_def)
  have in_es: "?es ! k \<in> set ?es" using k by simp
  then have lt: "lp_marker p < entry_name (?es ! k)" by (auto simp: entries_after_def)
  have "entries_after (p\<lparr>lp_marker := entry_name (?es ! k)\<rparr>) obs =
      filter (\<lambda>e. entry_name (?es ! k) < entry_name e) ?es"
    using lt by (auto simp: entries_after_def intro!: filter_cong)
  also have "\<dots> = drop (Suc k) ?es"
    by (rule filter_after_nth [OF entries_after_strict [OF assms(1)] k(1)])
  finally show ?thesis using m k(2) by simp
qed

lemma entry_objects_append: "entry_objects (xs @ ys) = entry_objects xs @ entry_objects ys"
  by (simp add: entry_objects_def map_filter_def)

lemma entry_prefixes_append: "entry_prefixes (xs @ ys) = entry_prefixes xs @ entry_prefixes ys"
  by (simp add: entry_prefixes_def map_filter_def)

lemma page_of_simps [simp]:
  "lr_objects (page_of mx es) = entry_objects (take mx es)"
  "lr_common_prefixes (page_of mx es) = entry_prefixes (take mx es)"
  "lr_is_truncated (page_of mx es) \<longleftrightarrow> mx < length es"
  by (simp_all add: page_of_def Let_def)

lemma page_size_pos [simp]: "0 < page_size mx" "page_size mx \<noteq> 0"
  by (simp_all add: page_size_def DEFAULT_MAX_ENTRIES_def)

end
