(* ===== verification/Sqlite_Read.thy ===== *)
theory Sqlite_Read
  imports Sqlite_View Listing
begin

section \<open>The reading methods implement the contract\<close>

lemma sint_u64: "uint (w :: u64) < 2 ^ 63 \<Longrightarrow> sint w = uint w"
  using signed_take_bit_int_eq_self [of 63 "uint w"] uint_ge_0 [of w] by (simp add: sint_uint)

lemma to_i64_Inr: "to_i64 w = Inr n \<longleftrightarrow> n = w \<and> uint w < 2 ^ 63"
  by (auto simp: to_i64_def)

lemma to_i64_nat: "to_i64 w = Inr n \<Longrightarrow> nat (sint n) = unat w"
  by (auto simp: to_i64_Inr sint_u64)

lemma to_i64_cases: obtains (ok) "to_i64 w = Inr w" "uint w < 2 ^ 63" "unat w < 2 ^ 63"
  | (err) e where "to_i64 w = Inl (InternalError e)" "\<not> unat w < 2 ^ 63"
  using of_nat_less_iff [where 'a = int, of "unat w" "2 ^ 63"]
  by (cases "uint w < 2 ^ 63") (auto simp: to_i64_def internal_def)

lemma to_u64_ok: "uint n < 2 ^ 63 \<Longrightarrow> to_u64 n = Inr n"
  by (simp add: to_u64_def sint_u64)

lemma to_u64_cases: obtains (ok) "to_u64 w = Inr w" | (err) e where "to_u64 w = Inl (InternalError e)"
  by (cases "0 \<le> sint w") (auto simp: to_u64_def internal_def)

subsection \<open>Users\<close>

lemma ideal_user_by: "ideal (with_conn (user_by cr sql)) d = (try_r (ok_or NoSuchUser (sql d)) (from_json cr (user_of_json cr)), d)"
  by (simp add: ideal_def user_by_def try_a_apply split: sum.splits)

lemma decode_find_user:
  assumes "db_ok cr d"
  shows "try_r (ok_or NoSuchUser (sql_user_info uid d)) (from_json cr (user_of_json cr)) =
    ok_or NoSuchUser (bt_get (g_users (view_db cr d)) uid)"
proof (cases "find (\<lambda>r. ur_uid r = uid) (db_users d)")
  case (Some r)
  then have "user_row_ok cr r" using db_okD(2) [OF assms] by (auto dest: find_key_Some)
  with Some user_row_decode show ?thesis by (auto simp: sql_user_info_def bt_get_of_rows)
qed (simp add: sql_user_info_def bt_get_of_rows)

lemma load_user_implements:
  assumes "crates_ok cr" and "db_ok cr d"
  shows "implements cr True (ideal (sq_load_user cr uid) d) d (spec_load_user uid)"
proof (rule implements_reader [OF _ reader_methods(1)])
  from assms(2) show "\<not> True \<and> (\<exists>e. fst (ideal (sq_load_user cr uid) d) = Inl (InternalError e)) \<or>
      fst (ideal (sq_load_user cr uid) d) = fst (spec_load_user uid (view_db cr d))"
    by (simp add: sq_load_user_def ideal_user_by decode_find_user spec_load_user_def)
qed (use assms in simp_all)

lemma load_user_refines:
  "refines (sq_inv cr) (sq_view cr) (sq_load_user cr uid) (spec_load_user uid)"
  by (rule refines_atomic [OF atomic_readers(1) load_user_implements])

lemma load_key_implements:
  assumes "crates_ok cr" and ok: "db_ok cr d"
  shows "implements cr True (ideal (sq_load_user_by_access_key cr k) d) d (spec_load_user_by_access_key k)"
proof (rule implements_reader [OF _ reader_methods(2)])
  have "try_r (ok_or NoSuchUser (sql_user_info_by_key k d)) (from_json cr (user_of_json cr)) =
      ok_or NoSuchUser (Option.bind (bt_get (g_keys (view_db cr d)) k) (bt_get (g_users (view_db cr d))))"
  proof (cases "find (\<lambda>r. kr_access_key r = k) (db_keys d)")
    case (Some kr)
    then show ?thesis
      using decode_find_user [OF ok, of "kr_uid kr"] by (simp add: sql_user_info_by_key_def bt_get_of_rows)
  qed (simp add: sql_user_info_by_key_def bt_get_of_rows)
  then show "\<not> True \<and> (\<exists>e. fst (ideal (sq_load_user_by_access_key cr k) d) = Inl (InternalError e)) \<or>
      fst (ideal (sq_load_user_by_access_key cr k) d) = fst (spec_load_user_by_access_key k (view_db cr d))"
    by (simp add: sq_load_user_by_access_key_def ideal_user_by spec_load_user_by_access_key_def)
qed (use assms in simp_all)

lemma load_key_refines:
  "refines (sq_inv cr) (sq_view cr) (sq_load_user_by_access_key cr k) (spec_load_user_by_access_key k)"
  by (rule refines_atomic [OF atomic_readers(2) load_key_implements])

lemma find_map_list: "find P (map f xs) = map_option f (find (\<lambda>x. P (f x)) xs)"
  by (induction xs) auto

lemma find_filter_hd: "find P xs = (case filter P xs of [] \<Rightarrow> None | x # _ \<Rightarrow> Some x)"
  by (induction xs) auto

lemma load_email_implements:
  assumes "crates_ok cr" and ok: "db_ok cr d"
  shows "implements cr True (ideal (sq_load_user_by_email cr email) d) d (spec_load_user_by_email email)"
proof (rule implements_reader [OF _ reader_methods(3)])
  show "\<not> True \<and> (\<exists>e. fst (ideal (sq_load_user_by_email cr email) d) = Inl (InternalError e)) \<or>
      fst (ideal (sq_load_user_by_email cr email) d) = fst (spec_load_user_by_email email (view_db cr d))"
  proof (cases "email = []")
    case True
    then show ?thesis by (simp add: sq_load_user_by_email_def spec_load_user_by_email_def ideal_def)
  next
    case False
    let ?S = "sort_key ur_uid (db_users d)"
    note dec = user_row_decode [OF db_okD(2) [OF ok]]
    have eq: "ur_email r = Some email \<longleftrightarrow> ui_user_email (row_user cr r) = email" if "r \<in> set (db_users d)" for r
      using dec [OF that] False by (auto simp: email_col_def)
    have f: "filter (\<lambda>r. ur_email r = Some email) ?S = filter (\<lambda>r. ui_user_email (row_user cr r) = email) ?S"
      by (rule filter_cong) (auto simp: eq)
    have "map snd (g_users (view_db cr d)) = map (row_user cr) ?S"
      by (simp add: bt_of_rows_sort [OF db_okD(1) [OF ok], symmetric])
    then have "find (\<lambda>u. ui_user_email u = email) (map snd (g_users (view_db cr d))) =
        map_option (row_user cr) (case filter (\<lambda>r. ur_email r = Some email) ?S of [] \<Rightarrow> None | r # _ \<Rightarrow> Some r)"
      by (simp only: find_map_list) (simp only: find_filter_hd f)
    moreover have "from_json cr (user_of_json cr) (ur_info r) = Inr (row_user cr r)"
      if "filter (\<lambda>r. ur_email r = Some email) ?S = r # rs" for r rs
    proof -
      have "r \<in> set (filter (\<lambda>r. ur_email r = Some email) ?S)" unfolding that by simp
      then have "r \<in> set (db_users d)" by simp
      from dec [OF this] show ?thesis by simp
    qed
    ultimately have "try_r (ok_or NoSuchUser (sql_user_info_by_email email d)) (from_json cr (user_of_json cr)) =
        ok_or NoSuchUser (find (\<lambda>u. ui_user_email u = email) (map snd (g_users (view_db cr d))))"
      by (cases "filter (\<lambda>r. ur_email r = Some email) ?S")
        (simp_all add: sql_user_info_by_email_def filter_sort [symmetric])
    with False show ?thesis
      by (simp add: sq_load_user_by_email_def spec_load_user_by_email_def ideal_user_by)
  qed
qed (use assms in simp_all)

lemma load_email_refines:
  "refines (sq_inv cr) (sq_view cr) (sq_load_user_by_email cr email) (spec_load_user_by_email email)"
  by (rule refines_atomic [OF atomic_readers(3) load_email_implements])

lemma bt_keys_of_rows: "distinct (map key rows) \<Longrightarrow> bt_keys (bt_of_rows key val rows) = sort (map key rows)"
  by (simp add: bt_of_rows_sort [symmetric] sort_key_map o_def)

lemma try_map_Inr_rows: "try_map (\<lambda>r. try_r r (\<lambda>s. Inr (f s))) (map Inr xs) = Inr (map f xs)"
  by (induction xs) auto

lemma list_users_implements:
  assumes "mx < 2 ^ 64"
    and "crates_ok cr" and ok: "db_ok cr d"
  shows "implements cr (mx < 2 ^ 63) (ideal (sq_list_users marker mx) d) d (spec_list_users marker mx)"
proof (rule implements_reader [OF _ reader_methods(4)])
  have mx: "unat (of_nat (page_size mx) :: u64) = page_size mx"
    using assms(1) by (intro unat_of_nat_u64) (simp add: page_size_def DEFAULT_MAX_ENTRIES_def)
  show "\<not> (mx < 2 ^ 63) \<and> (\<exists>e. fst (ideal (sq_list_users marker mx) d) = Inl (InternalError e)) \<or>
      fst (ideal (sq_list_users marker mx) d) = fst (spec_list_users marker mx (view_db cr d))"
  proof (cases rule: to_i64_cases [of "of_nat (page_size mx)"])
    case ok1: ok
    then show ?thesis
      using to_i64_nat [OF ok1(1)] mx
      by (simp add: sq_list_users_def ideal_def try_a_apply try_map_Inr_rows sql_uids_def
          spec_list_users_def bt_keys_of_rows [OF db_okD(1) [OF ok]] filter_sort)
  next
    case (err e)
    with mx have "\<not> mx < 2 ^ 63" by (auto simp: page_size_def DEFAULT_MAX_ENTRIES_def split: if_splits)
    with err(1) show ?thesis by (simp add: sq_list_users_def ideal_def try_a_apply)
  qed
qed (use assms in simp_all)

lemma list_users_refines:
  assumes "mx < 2 ^ 64"
  shows "refines (sq_inv cr) (sq_view cr) (sq_list_users marker mx) (spec_list_users marker mx)"
  using refines_atomic [OF atomic_readers(4) list_users_implements [OF assms]] by blast

subsection \<open>Buckets\<close>

lemma sql_bucket_view:
  assumes "db_ok cr d"
  shows "bt_get (g_buckets (view_db cr d)) (name, tenant) = map_option (row_bucket cr) (sql_bucket tenant name d)"
  by (simp add: bt_get_of_rows sql_bucket_def conj_commute)

lemma sql_bucket_row:
  assumes "db_ok cr d" and "sql_bucket tenant name d = Some r"
  shows "r \<in> set (db_buckets d) \<and> bucket_row_ok cr r \<and> br_tenant r = tenant \<and> br_name r = name"
  using assms by (auto simp: sql_bucket_def find_Some_iff intro!: db_okD(7))

lemma load_bucket_implements:
  assumes "crates_ok cr" and ok: "db_ok cr d"
  shows "implements cr True (ideal (sq_load_bucket cr tenant name) d) d (spec_load_bucket tenant name)"
proof (rule implements_reader [OF _ reader_methods(5)])
  show "\<not> True \<and> (\<exists>e. fst (ideal (sq_load_bucket cr tenant name) d) = Inl (InternalError e)) \<or>
      fst (ideal (sq_load_bucket cr tenant name) d) = fst (spec_load_bucket tenant name (view_db cr d))"
    using bucket_row_decode [of cr "the (sql_bucket tenant name d)"]
    by (cases "sql_bucket tenant name d")
      (auto dest: sql_bucket_row [OF ok] simp: sq_load_bucket_def ideal_def try_a_apply spec_load_bucket_def sql_bucket_view [OF ok]
        simp del: view_simps)
qed (use assms in simp_all)

lemma load_bucket_refines:
  "refines (sq_inv cr) (sq_view cr) (sq_load_bucket cr tenant name) (spec_load_bucket tenant name)"
  by (rule refines_atomic [OF atomic_readers(5) load_bucket_implements])

text \<open>The loop over bucket rows: \<open>mx + 1\<close> rows were asked for, so an extra one means truncation.\<close>

lemma list_buckets_loop_rows:
  assumes "\<And>r. r \<in> set rows \<Longrightarrow> bucket_row_ok cr r" and "length (bl_buckets out) \<le> mx"
  shows "list_buckets_loop cr mx (map (Inr \<circ> br_info) rows) out =
    (let k = mx - length (bl_buckets out); page = take k (map (row_bucket cr) rows) in
     Inr (out\<lparr>bl_buckets := bl_buckets out @ page,
              bl_is_truncated := (bl_is_truncated out \<or> k < length rows),
              bl_next_marker := (if page = [] then bl_next_marker out else bk_name (bi_bucket (last page)))\<rparr>))"
  using assms
proof (induction rows arbitrary: out)
  case (Cons r rows)
  have dec: "from_json cr (bucket_of_json cr) (br_info r) = Inr (row_bucket cr r)"
    using bucket_row_decode [OF Cons.prems(1)] by simp
  show ?case
  proof (cases "length (bl_buckets out) = mx")
    case True
    then show ?thesis by (simp add: dec)
  next
    case False
    then obtain k where k: "mx - length (bl_buckets out) = Suc k"
      using Cons.prems(2) by (metis Suc_diff_Suc le_neq_implies_less)
    then have k': "mx - Suc (length (bl_buckets out)) = k" by simp
    show ?thesis
      using False Cons.prems
      by (auto simp add: dec k k' Cons.IH [unfolded comp_def] comp_def Let_def)
  qed
qed (simp add: Let_def)

lemma list_buckets_implements:
  assumes "mx < 2 ^ 63"
    and "crates_ok cr" and ok: "db_ok cr d"
  shows "implements cr (mx < 2 ^ 63 - 1) (ideal (sq_list_buckets cr ow marker mx) d) d (spec_list_buckets ow marker mx)"
proof (rule implements_reader [OF _ reader_methods(6)])
  let ?own = "\<lambda>r. map_option user_id_display ow = None \<or> map_option user_id_display ow = Some (br_owner r)"
  let ?rows = "filter (\<lambda>r. marker < br_name r \<and> ?own r) (sort_key bucket_row_key (db_buckets d))"
  note dec = bucket_row_decode [OF db_okD(7) [OF ok]]
  have "g_buckets_of (view_db cr d) ow marker = map (row_bucket cr) ?rows"
    unfolding g_buckets_of_def view_simps bt_of_rows_sort [OF db_okD(6) [OF ok], symmetric]
    by (simp add: filter_map o_def)
      (intro arg_cong [where f = "map _"] filter_cong refl, auto simp: dec split: option.splits)
  then have g: "g_buckets_of (view_db cr d) ow marker = map (row_bucket cr) ?rows" .
  have mx: "unat (of_nat (page_size mx) + 1 :: u64) = Suc (page_size mx)"
    using assms(1) unat_of_nat_u64 [of "Suc (page_size mx)"] by (simp add: page_size_def DEFAULT_MAX_ENTRIES_def add.commute)
  show "\<not> (mx < 2 ^ 63 - 1) \<and> (\<exists>e. fst (ideal (sq_list_buckets cr ow marker mx) d) = Inl (InternalError e)) \<or>
      fst (ideal (sq_list_buckets cr ow marker mx) d) = fst (spec_list_buckets ow marker mx (view_db cr d))"
  proof (cases rule: to_i64_cases [of "of_nat (page_size mx) + 1"])
    case ok1: ok
    have rows: "map Inr (sql_bucket_infos marker (map_option user_id_display ow) (of_nat (page_size mx) + 1) d) =
        map (Inr \<circ> br_info) (take (Suc (page_size mx)) ?rows)"
      using to_i64_nat [OF ok1(1)] mx by (simp add: sql_bucket_infos_def filter_sort)
    have rok: "bucket_row_ok cr r" if "r \<in> set (take (Suc (page_size mx)) ?rows)" for r
      using that by (auto dest!: in_set_takeD intro: db_okD(7) [OF ok])
    have "list_buckets_loop cr (page_size mx) (map (Inr \<circ> br_info) (take (Suc (page_size mx)) ?rows)) bucket_list_default =
        fst (spec_list_buckets ow marker mx (view_db cr d))"
      by (subst list_buckets_loop_rows [OF rok])
        (auto simp: bucket_list_default_def Let_def spec_list_buckets_def g take_map [symmetric] min_def)
    then show ?thesis
      using ok1 by (simp add: sq_list_buckets_def ideal_def try_a_apply Let_def rows)
  next
    case (err e)
    with mx have "\<not> mx < 2 ^ 63 - 1" by (auto simp: page_size_def DEFAULT_MAX_ENTRIES_def split: if_splits)
    with err(1) show ?thesis by (simp add: sq_list_buckets_def ideal_def try_a_apply Let_def)
  qed
qed (use assms in simp_all)

lemma list_buckets_refines:
  assumes "mx < 2 ^ 63"
  shows "refines (sq_inv cr) (sq_view cr) (sq_list_buckets cr ow marker mx) (spec_list_buckets ow marker mx)"
  using refines_atomic [OF atomic_readers(6) list_buckets_implements [OF assms]] by blast

end
