(* ===== verification/Sqlite_Objects.thy ===== *)
theory Sqlite_Objects
  imports Sqlite_Read
begin

section \<open>The object methods that read implement the contract\<close>

subsection \<open>Statistics\<close>

lemma sql_sum_fold: "fold (\<lambda>x acc. Option.bind acc (\<lambda>a. sql_add a x)) xs acc = Some t \<Longrightarrow> \<exists>a. acc = Some a \<and> t = a + sum_list xs"
  by (induction xs arbitrary: acc) (fastforce simp: sql_add_def split: if_splits Option.bind_splits)+

lemma sql_sum_Some: "sql_sum xs = Some t \<Longrightarrow> t = sum_list xs"
  unfolding sql_sum_def by (drule sql_sum_fold) simp

lemma sum_list_sort_key: "sum_list (map f (sort_key g xs)) = sum_list (map f xs)" for f :: "'a \<Rightarrow> nat"
proof (induction xs)
  case (Cons x xs)
  have "sum_list (map f (insort_key g x ys)) = f x + sum_list (map f ys)" for ys
    by (induction ys) auto
  with Cons show ?case by simp
qed simp

lemma sum_list_int: "sum_list (map (\<lambda>x. int (f x)) xs) = int (sum_list (map f xs))"
  by (induction xs) auto

lemma sum_list_sizes:
  assumes "db_ok cr d"
  shows "sum_list (map (unat \<circ> oi_size) (g_objects_of (view_db cr d) i)) = sum_list (map unat (sql_bucket_sizes i d))"
proof -
  have "map (unat \<circ> oi_size \<circ> row_object cr \<circ> ob_row) (filter (\<lambda>r. ob_bucket_id r = i) (db_objects d)) =
      map (unat \<circ> or_size \<circ> ob_row) (filter (\<lambda>r. ob_bucket_id r = i) (db_objects d))"
    using object_row_decode [OF db_okD(9) [OF assms]] by simp
  from arg_cong [OF this, of sum_list] show ?thesis
    by (simp add: g_objects_of_view [OF assms] sql_bucket_sizes_def o_def sum_list_sort_key [where g = or_name])
qed

lemma sizes_nonneg:
  assumes "db_ok cr d" and "w \<in> set (sql_bucket_sizes i d)"
  shows "sint w = int (unat w)"
proof -
  from assms(2) obtain r where r: "r \<in> set (db_objects d)" "w = or_size (ob_row r)"
    by (auto simp: sql_bucket_sizes_def)
  from object_row_decode [OF db_okD(9) [OF assms(1) r(1)]] db_okD(9) [OF assms(1) r(1)] r(2)
  have "unat w < 2 ^ 63" by (simp add: object_rec_ok_def)
  then have "uint w < 2 ^ 63" using of_nat_less_iff [where 'a = int, of "unat w" "2 ^ 63"] by simp
  then show ?thesis by (simp add: sint_u64)
qed

lemma stats_implements:
  assumes "crates_ok cr" and ok: "db_ok cr d"
  shows "implements cr False (ideal (sq_bucket_stats cr b) d) d (spec_read_stats b)"
proof (rule implements_reader [OF _ reader_methods(7)])
  let ?i = "bk_bucket_id b" let ?s = "sql_bucket_sizes (bk_bucket_id b) d"
  have len: "length (g_objects_of (view_db cr d) ?i) = length ?s"
    by (simp add: g_objects_of_view [OF ok] sql_bucket_sizes_def)
  have "map sint ?s = map (\<lambda>w. int (unat w)) ?s" by (rule map_cong) (auto simp: sizes_nonneg [OF ok])
  then have sum: "word_of_int t = (of_nat (sum_list (map unat ?s)) :: u64)" if "sql_sum (map sint ?s) = Some t" for t
    unfolding sql_sum_Some [OF that] by (simp only: sum_list_int of_int_of_nat_eq)
  have "(\<exists>e. sum_sizes cr ?s = Inl (InternalError e)) \<or> sum_sizes cr ?s =
      Inr \<lparr>bs_num_objects = of_nat (length ?s), bs_size = of_nat (sum_list (map unat ?s))\<rparr>"
  proof (cases "sql_sum (map sint ?s)")
    case (Some t)
    show ?thesis
      by (cases rule: to_u64_cases [of "of_nat (length ?s)"]; cases rule: to_u64_cases [of "word_of_int t"])
        (simp_all add: sum_sizes_def Some sum [OF Some])
  qed (simp add: sum_sizes_def internal_def)
  then show "\<not> False \<and> (\<exists>e. fst (ideal (sq_bucket_stats cr b) d) = Inl (InternalError e)) \<or>
      fst (ideal (sq_bucket_stats cr b) d) = fst (spec_read_stats b (view_db cr d))"
    by (auto simp: sq_bucket_stats_def ideal_def try_a_apply check_bucket_def bucket_exists_view [OF ok] guard_r_def
        spec_read_stats_def Let_def sum_list_sizes [OF ok] len simp del: view_simps)
qed (use assms in simp_all)

lemma stats_refines:
  "refines (sq_inv cr) (sq_view cr) (sq_bucket_stats cr b) (spec_read_stats b)"
  by (rule refines_atomic [OF atomic_readers(7) stats_implements])

subsection \<open>Listing\<close>

text \<open>What the loop of \<open>list_page\<close> emits, given the entries of the rows it reads.\<close>

fun emit :: "string \<Rightarrow> string option \<Rightarrow> entry list \<Rightarrow> entry list" where
  "emit m lp [] = []"
| "emit m lp (EPrefix cp # es) =
     (if lp = Some cp \<or> cp \<le> m then emit m lp es else EPrefix cp # emit m (Some cp) es)"
| "emit m lp (EObject ob # es) = EObject ob # emit m lp es"

lemma list_page_loop_emit:
  assumes "\<And>r. r \<in> set rows \<Longrightarrow> into_info cr r = Inr (row_object cr r) \<and>
      ob_name (row_object cr r) = or_name r \<and> prefix (lp_prefix p) (or_name r)"
    and "length (lr_objects out) + length (lr_common_prefixes out) \<le> mx"
  shows "list_page_loop cr p mx (map Inr rows) out lp =
    (let k = mx - (length (lr_objects out) + length (lr_common_prefixes out));
         es = emit (lp_marker p) lp (map (entry_of (lp_prefix p) (lp_delimiter p) \<circ> row_object cr) rows);
         page = take k es in
     Inr (out\<lparr>lr_objects := lr_objects out @ entry_objects page,
              lr_common_prefixes := lr_common_prefixes out @ entry_prefixes page,
              lr_is_truncated := (lr_is_truncated out \<or> k < length es),
              lr_next_marker := (if page = [] then lr_next_marker out else entry_name (last page))\<rparr>))"
  using assms
proof (induction rows arbitrary: out lp)
  case (Cons r rows)
  let ?n = "length (lr_objects out) + length (lr_common_prefixes out)"
  have r: "into_info cr r = Inr (row_object cr r)" "ob_name (row_object cr r) = or_name r"
    and rest: "\<exists>rest. strip_prefix (lp_prefix p) (or_name r) = Some rest"
    using Cons.prems(1) [of r] by (auto simp: prefix_def)
  then obtain rest where rest: "strip_prefix (lp_prefix p) (or_name r) = Some rest" by blast
  define common where "common = common_prefix (lp_prefix p) (lp_delimiter p) (or_name r)"
  have common: "(if lp_delimiter p = [] then None else map_option
      (\<lambda>i. take (length (lp_prefix p) + i + length (lp_delimiter p)) (or_name r)) (str_find (lp_delimiter p) rest)) = common"
    using rest by (simp add: common_def common_prefix_def del: strip_prefix_Some_iff)
  have e: "entry_of (lp_prefix p) (lp_delimiter p) (row_object cr r) =
      (case common of None \<Rightarrow> EObject (row_object cr r) | Some cp \<Rightarrow> EPrefix cp)"
    by (simp add: entry_of_def common_def r)
  note IH = Cons.IH [unfolded comp_def]
  have step: "list_page_loop cr p mx (map Inr (r # rows)) out lp =
      (if (case common of None \<Rightarrow> False | Some cp \<Rightarrow> lp = Some cp \<or> cp \<le> lp_marker p)
       then list_page_loop cr p mx (map Inr rows) out lp
       else if mx \<le> ?n then Inr (out\<lparr>lr_is_truncated := True\<rparr>)
       else (case common of
           Some cp \<Rightarrow> list_page_loop cr p mx (map Inr rows)
             (out\<lparr>lr_next_marker := cp, lr_common_prefixes := lr_common_prefixes out @ [cp]\<rparr>) (Some cp)
         | None \<Rightarrow> list_page_loop cr p mx (map Inr rows)
             (out\<lparr>lr_next_marker := or_name r, lr_objects := lr_objects out @ [row_object cr r]\<rparr>) lp))"
    by (simp add: rest common Let_def r del: strip_prefix_Some_iff split: option.splits)
  have k: "mx - ?n = Suc (mx - Suc ?n)" if "\<not> mx \<le> ?n" using that by simp
  show ?case
  proof (cases "mx \<le> ?n")
    case True
    with Cons.prems(2) have "mx - ?n = 0" by simp
    with True step e IH [of out lp] Cons.prems show ?thesis
      by (cases common) (auto simp: Let_def comp_def entry_objects_def entry_prefixes_def map_filter_simps)
  next
    case False
    note k = k [OF False]
    show ?thesis
    proof (cases common)
      case None
      with False step e IH k Cons.prems r show ?thesis
        by (simp add: Let_def comp_def entry_objects_def entry_prefixes_def map_filter_simps)
    next
      case (Some cp)
      with False step e IH k Cons.prems show ?thesis
        by (simp add: Let_def comp_def entry_objects_def entry_prefixes_def map_filter_simps)
    qed
  qed
qed (simp add: Let_def entry_objects_def entry_prefixes_def map_filter_simps)

text \<open>On entries in name order, remembering one prefix is enough to emit each prefix once.\<close>

lemma emit_remdups:
  assumes "sorted_wrt entry_le es" and "\<And>ob. EObject ob \<in> set es \<Longrightarrow> m < ob_name ob"
  shows "(\<forall>lp. (\<forall>q. lp = Some q \<longrightarrow> EPrefix q \<notin> set es) \<longrightarrow>
        emit m lp es = remdups_adj (filter (\<lambda>e. m < entry_name e) es)) \<and>
      (\<forall>q. m < q \<longrightarrow> sorted_wrt entry_le (EPrefix q # es) \<longrightarrow>
        EPrefix q # emit m (Some q) es = remdups_adj (EPrefix q # filter (\<lambda>e. m < entry_name e) es))"
  using assms
proof (induction es)
  case (Cons e es)
  let ?F = "filter (\<lambda>e. m < entry_name e) es"
  have IH1: "emit m lp es = remdups_adj ?F" if "\<forall>q. lp = Some q \<longrightarrow> EPrefix q \<notin> set es" for lp
    using Cons that by simp
  have IH2: "EPrefix q # emit m (Some q) es = remdups_adj (EPrefix q # ?F)"
    if "m < q" "sorted_wrt entry_le (EPrefix q # es)" for q
    using Cons that by simp
  show ?case
  proof (cases e)
    case (EObject x)
    then have x: "EObject x \<notin> set es" "\<And>q. entry_le (EPrefix q) e \<Longrightarrow> EPrefix q \<notin> set es" "m < ob_name x"
      using Cons.prems by (auto simp: entry_le_def)
    then have "remdups_adj (EObject x # ?F) = EObject x # remdups_adj ?F"
      by (cases ?F) (auto dest: filter_eq_ConsD)
    with EObject x IH1 show ?thesis by auto
  next
    case (EPrefix p)
    with Cons.prems(1) IH1 IH2 show ?thesis by auto
  qed
qed simp

lemma sql_characters_append:
  "s = [] \<or> (t = [] \<or> \<not> is_cont (hd t)) \<Longrightarrow> sql_characters (s @ t) = sql_characters s @ sql_characters t"
proof (induction s rule: sql_characters.induct)
  case (2 c s)
  then have t: "t = [] \<or> \<not> is_cont (hd t)" by simp
  then have "takeWhile is_cont (s @ t) = takeWhile is_cont s" "dropWhile is_cont (s @ t) = dropWhile is_cont s @ t"
    by (induction s; cases t; auto)+
  with 2(1) t show ?case by simp
qed simp

lemma concat_sql_characters: "concat (sql_characters s) = s"
  by (induction s rule: sql_characters.induct) simp_all

lemma takeWhile_prefix: "prefix (takeWhile P s) s"
  by (metis prefixI takeWhile_dropWhile_id)

lemma concat_take_prefix: "prefix (concat (take n xs)) (concat xs)"
  by (metis append_take_drop_id concat_append prefixI)

text \<open>\<open>substr(name, 1, length(prefix)) = prefix\<close> tests for the prefix, when it has no NUL.\<close>

lemma sql_prefix_test:
  assumes "from_utf8_ok pre" and "CHR 0x00 \<notin> set pre" and "from_utf8_ok name"
  shows "sql_substr1 name (sql_length pre) = pre \<longleftrightarrow> prefix pre name"
proof
  assume "sql_substr1 name (sql_length pre) = pre"
  then have "prefix pre (sql_text name)"
    using concat_take_prefix [of "sql_length pre" "sql_characters (sql_text name)"]
    by (simp add: sql_substr1_def concat_sql_characters)
  then show "prefix pre name"
    unfolding sql_text_def using takeWhile_prefix prefix_order.trans by blast
next
  assume "prefix pre name"
  then obtain t where name: "name = pre @ t" by (auto simp: prefix_def)
  have pre: "sql_text pre = pre" and tx: "sql_text name = pre @ sql_text t"
    using assms(2) by (auto simp: sql_text_def name takeWhile_append takeWhile_eq_all_conv)
  have "from_utf8_ok t" using from_utf8_ok_append [OF assms(1)] assms(3) name by simp
  then have "sql_text t = [] \<or> \<not> is_cont (hd (sql_text t))"
    by (cases t) (auto simp: sql_text_def dest: from_utf8_ok_hd)
  then have "sql_characters (sql_text name) = sql_characters pre @ sql_characters (sql_text t)"
    unfolding tx by (intro sql_characters_append) simp
  then show "sql_substr1 name (sql_length pre) = pre"
    by (simp add: sql_substr1_def sql_length_def pre concat_sql_characters)
qed

lemma obs_sorted_view:
  assumes "db_ok cr d"
  shows "obs_sorted (g_objects_of (view_db cr d) i)"
proof -
  let ?R = "map ob_row (filter (\<lambda>r. ob_bucket_id r = i) (db_objects d))"
  have "inj_on ob_col_name (set (filter (\<lambda>r. ob_bucket_id r = i) (db_objects d)))"
    "distinct (filter (\<lambda>r. ob_bucket_id r = i) (db_objects d))"
    using db_okD(8) [OF assms] by (auto simp: distinct_map inj_on_def)
  then have "distinct (map ob_col_name (filter (\<lambda>r. ob_bucket_id r = i) (db_objects d)))"
    unfolding distinct_map by blast
  then have "distinct (map or_name ?R)" by (simp add: o_def)
  moreover have "map or_name (sort_key or_name ?R) = sort (map or_name ?R)" by (simp only: sort_key_map)
  ultimately have "sorted_wrt (<) (map or_name (sort_key or_name ?R))" by (simp add: strict_sorted_iff)
  then have s: "sorted_wrt (\<lambda>a b. or_name a < or_name b) (sort_key or_name ?R)" by (simp only: sorted_wrt_map)
  have "ob_name (row_object cr r) = or_name r" if "r \<in> set (sort_key or_name ?R)" for r
    using that object_row_decode [OF db_okD(9) [OF assms]] by (auto simp: object_key_new_def)
  with s show ?thesis
    unfolding obs_sorted_def g_objects_of_view [OF assms] sorted_wrt_map
    by (auto intro: sorted_wrt_mono_rel [rotated])
qed

lemma list_objects_implements:
  assumes pre: "from_utf8_ok (lp_prefix p)" "CHR 0x00 \<notin> set (lp_prefix p)"
    and "crates_ok cr" and ok: "db_ok cr d"
  shows "implements cr True (ideal (sq_list_objects cr b p) d) d (spec_list_objects b p)"
proof (rule implements_reader [OF _ reader_methods(8)])
  let ?i = "bk_bucket_id b"
  let ?R = "sort_key or_name (map ob_row (filter (\<lambda>r. ob_bucket_id r = ?i) (db_objects d)))"
  let ?obs = "g_objects_of (view_db cr d) ?i"
  define rows where "rows = filter (\<lambda>r. lp_marker p < or_name r \<and> prefix (lp_prefix p) (or_name r)) ?R"
  have obs: "?obs = map (row_object cr) ?R" by (rule g_objects_of_view [OF ok])
  have R: "into_info cr r = Inr (row_object cr r) \<and> ob_name (row_object cr r) = or_name r \<and> from_utf8_ok (or_name r)"
    if "r \<in> set ?R" for r
    using that object_row_decode [OF db_okD(9) [OF ok]] db_okD(9) [OF ok]
    by (auto simp: object_key_new_def object_rec_ok_def)
  have "filter (\<lambda>r. lp_marker p < or_name r \<and> lp_prefix p \<le> or_name r \<and>
      sql_substr1 (or_name r) (sql_length (lp_prefix p)) = lp_prefix p) ?R = rows"
    unfolding rows_def using R sql_prefix_test [OF pre] by (intro filter_cong refl) (auto intro: prefix_le)
  then have q: "sql_object_rows ?i (lp_marker p) (lp_prefix p) d = rows"
    by (simp add: sql_object_rows_def filter_sort)
  let ?es = "map (entry_of (lp_prefix p) (lp_delimiter p) \<circ> row_object cr) rows"
  have flt: "map (row_object cr) rows = filter (\<lambda>ob. lp_marker p < ob_name ob \<and> prefix (lp_prefix p) (ob_name ob)) ?obs"
    unfolding obs rows_def filter_map comp_def using R by (intro arg_cong [where f = "map _"] filter_cong refl) simp
  have es: "?es = map (entry_of (lp_prefix p) (lp_delimiter p)) (map (row_object cr) rows)" by simp
  have "sorted_wrt entry_le ?es"
    unfolding es flt by (intro sorted_map_entry_of obs_sorted_filter obs_sorted_view [OF ok])
  moreover have "lp_marker p < ob_name ob" if "EObject ob \<in> set ?es" for ob
    using that R unfolding rows_def by (auto simp: entry_of_def split: option.splits)
  ultimately have "emit (lp_marker p) None ?es = entries_after p ?obs"
    using emit_remdups [of ?es "lp_marker p"]
    by (simp add: entries_after_rows [OF obs_sorted_view [OF ok]] flt [symmetric])
  moreover have "into_info cr r = Inr (row_object cr r) \<and> ob_name (row_object cr r) = or_name r \<and>
      prefix (lp_prefix p) (or_name r)" if "r \<in> set rows" for r
    using that R by (auto simp: rows_def)
  ultimately have "list_page cr p (map Inr rows) = Inr (page_of (page_size (lp_max_keys p)) (entries_after p ?obs))"
    unfolding list_page_def by (subst list_page_loop_emit) (auto simp: list_result_default_def Let_def page_of_def)
  then show "\<not> True \<and> (\<exists>e. fst (ideal (sq_list_objects cr b p) d) = Inl (InternalError e)) \<or>
      fst (ideal (sq_list_objects cr b p) d) = fst (spec_list_objects b p (view_db cr d))"
    by (auto simp: sq_list_objects_def ideal_def try_a_apply check_bucket_def bucket_exists_view [OF ok]
        guard_r_def spec_list_objects_def q simp del: view_simps)
qed (use assms in simp_all)

lemma list_objects_refines:
  assumes pre: "from_utf8_ok (lp_prefix p)" "CHR 0x00 \<notin> set (lp_prefix p)"
  shows "refines (sq_inv cr) (sq_view cr) (sq_list_objects cr b p) (spec_list_objects b p)"
  using refines_atomic [OF atomic_readers(8) list_objects_implements [OF assms]] by blast

subsection \<open>Reading an object\<close>

text \<open>The \<open>u64\<close> arithmetic of \<open>resolve_range\<close> never wraps: it computes the range of the contract.\<close>

lemma of_nat_unat_u64: "of_nat (unat w) = (w :: u64)"
  by simp

lemma unat_min: "unat (min a b) = min (unat a) (unat (b :: u64))"
  by (simp add: min_def word_le_nat_alt)

lemma resolve_range_contract:
  "resolve_range r sz =
     (case spec_range r (unat sz) of None \<Rightarrow> Inl InvalidRange | Some (lo, hi) \<Rightarrow> Inr (of_nat lo, of_nat hi))"
proof (cases "sz = 0")
  case True
  then show ?thesis by (cases r) (auto simp: resolve_range_def spec_range_def Let_def)
next
  case False
  then have pos: "0 < unat sz" by (simp add: unat_gt_0)
  show ?thesis
  proof (cases r)
    case (Absolute s e)
    have "unat (case e of None \<Rightarrow> sz - 1 | Some e \<Rightarrow> min e (sz - 1)) =
        (case e of None \<Rightarrow> unat sz - 1 | Some e \<Rightarrow> min (unat e) (unat sz - 1))" (is "unat ?e = ?n")
      using False by (simp add: unat_min unat_pred split: option.splits)
    moreover have "of_nat (unat ?e) = ?e" by simp
    ultimately have "of_nat ?n = ?e" by metis
    with \<open>unat ?e = ?n\<close> show ?thesis
      using Absolute False pos
      by (auto simp: resolve_range_def spec_range_def Let_def word_less_nat_alt unat_pred)
  next
    case (Suffix n)
    have "unat (sz - min n sz) = unat sz - unat n"
      by (auto simp: unat_sub unat_min min_def word_le_nat_alt)
    moreover have "unat (sz - 1) = unat sz - 1" using False by (rule unat_pred)
    ultimately have "of_nat (unat sz - unat n) = sz - min n sz" "of_nat (unat sz - 1) = sz - 1"
      by (metis of_nat_unat_u64)+
    with Suffix False pos show ?thesis by (simp add: resolve_range_def spec_range_def Let_def)
  qed
qed

lemma sql_object_view:
  "db_ok cr d \<Longrightarrow> bt_get (g_objects (view_db cr d)) (i, name) =
     map_option (\<lambda>r. (row_object cr (ob_row r), ob_data r)) (sql_object i name d)"
  by (simp add: bt_get_of_rows sql_object_def)

lemma sql_object_row:
  assumes "db_ok cr d" and "sql_object i name d = Some r"
  shows "r \<in> set (db_objects d) \<and> object_rec_ok cr r"
  using assms by (auto simp: sql_object_def find_Some_iff intro!: db_okD(9))

lemma load_object_conn_of:
  assumes "db_ok cr d"
  shows "load_object cr (bk_bucket_id b) (ok_name k) (conn_of d) =
    (try_r (g_find_object (view_db cr d) b k) (\<lambda>(ob, _). Inr ob), conn_of d)"
proof (cases "sql_object (bk_bucket_id b) (ok_name k) d")
  case (Some r)
  with object_row_decode [OF sql_object_row [OF assms Some, THEN conjunct2]] show ?thesis
    by (auto simp: load_object_def try_a_apply check_bucket_def bucket_exists_view [OF assms] guard_r_def
        g_find_object_def sql_object_view [OF assms] simp del: view_simps)
qed (auto simp: load_object_def try_a_apply check_bucket_def bucket_exists_view [OF assms] guard_r_def
        g_find_object_def sql_object_view [OF assms] simp del: view_simps)

lemma head_object_implements:
  assumes "crates_ok cr" and "db_ok cr d"
  shows "implements cr True (ideal (sq_head_object cr b k) d) d (spec_head_object b k)"
proof (rule implements_reader [OF _ reader_methods(9)])
  from assms(2) show "\<not> True \<and> (\<exists>e. fst (ideal (sq_head_object cr b k) d) = Inl (InternalError e)) \<or>
      fst (ideal (sq_head_object cr b k) d) = fst (spec_head_object b k (view_db cr d))"
    by (simp add: sq_head_object_def ideal_def load_object_conn_of spec_head_object_def)
qed (use assms in simp_all)

lemma head_object_refines:
  "refines (sq_inv cr) (sq_view cr) (sq_head_object cr b k) (spec_head_object b k)"
  by (rule refines_atomic [OF atomic_readers(9) head_object_implements])

text \<open>The window of the BLOB that a resolved range selects; sizes below \<open>2 ^ 63\<close> always convert.\<close>

lemma uint_of_nat_u64: "n < 2 ^ 63 \<Longrightarrow> uint (of_nat n :: u64) = int n"
proof -
  assume "n < 2 ^ 63"
  then have "unat (of_nat n :: u64) = n" by (intro unat_of_nat_u64) simp
  then show ?thesis by (simp only: uint_nat)
qed

lemma window_range:
  assumes "lo \<le> hi" and "hi < n" and "n < 2 ^ 63" and "n = length x"
  shows "read_window (Some (of_nat lo, of_nat hi)) sz = Inr (of_nat (lo + 1), of_nat (hi - lo + 1)) \<and>
    (of_nat (hi - lo + 1) :: u64) \<noteq> 0 \<and>
    sql_blob_substr x (of_nat (lo + 1)) (of_nat (hi - lo + 1)) = take (hi - lo + 1) (drop lo x)"
proof -
  have u: "uint (of_nat (lo + 1) :: u64) = int (lo + 1)" "uint (of_nat (hi - lo + 1) :: u64) = int (hi - lo + 1)"
    using assms by (simp_all only: uint_of_nat_u64)
  have "of_nat hi - of_nat lo + 1 = (of_nat (hi - lo + 1) :: u64)" using assms(1) by (simp add: of_nat_diff)
  moreover have "(of_nat lo + 1 :: u64) = of_nat (lo + 1)" by simp
  moreover have "nat (int (Suc lo) - 1) = lo" by simp
  ultimately show ?thesis
    using u assms by (auto simp: read_window_def to_i64_def sql_blob_substr_def sint_u64 uint_0_iff [symmetric] nat_add_distrib
      simp del: of_nat_add of_nat_Suc of_nat_diff)
qed

lemma get_object_implements:
  assumes "crates_ok cr" and ok: "db_ok cr d"
  shows "implements cr True (ideal (sq_get_object cr b k rng) d) d (spec_get_object b k rng)"
proof (rule implements_reader [OF _ reader_methods(10)])
  let ?i = "bk_bucket_id b"
  show "\<not> True \<and> (\<exists>e. fst (ideal (sq_get_object cr b k rng) d) = Inl (InternalError e)) \<or>
      fst (ideal (sq_get_object cr b k rng) d) = fst (spec_get_object b k rng (view_db cr d))"
  proof (cases "g_find_object (view_db cr d) b k")
    case (Inl e)
    then show ?thesis
      by (simp add: sq_get_object_def ideal_def try_a_apply load_object_conn_of [OF ok] spec_get_object_def)
  next
    case (Inr z)
    obtain ob x where z: "z = (ob, x)" by (cases z)
    with Inr obtain r where r: "sql_object ?i (ok_name k) d = Some r" "ob = row_object cr (ob_row r)" "x = ob_data r"
      by (auto simp: g_find_object_def sql_object_view [OF ok] simp del: view_simps split: if_splits)
    have rok: "object_rec_ok cr r" using sql_object_row [OF ok r(1)] by simp
    have sz: "unat (oi_size ob) = length x" and len: "length x < 2 ^ 63"
      using object_row_decode [OF rok] rok r by (auto simp: object_rec_ok_def)
    note run = sq_get_object_def ideal_def try_a_apply load_object_conn_of [OF ok] spec_get_object_def Inr z r(1)
    show ?thesis
    proof (cases rng)
      case None
      have "oi_size ob = of_nat (length x)" using sz by (metis of_nat_unat_u64)
      then have w: "read_window None (oi_size ob) = Inr (1, of_nat (length x))"
        and z0: "(of_nat (length x) :: u64) = 0 \<longleftrightarrow> x = []"
        using len sz unat_of_nat_u64 [of "length x"]
        by (auto simp: read_window_def to_i64_def uint_of_nat_u64)
      have "sql_blob_substr x 1 (of_nat (length x)) = x"
        using len by (simp add: sql_blob_substr_def sint_u64 uint_of_nat_u64)
      with None w z0 show ?thesis by (simp add: run r(3))
    next
      case (Some rg)
      show ?thesis
      proof (cases "spec_range rg (length x)")
        case None
        with Some sz show ?thesis by (simp add: run resolve_range_contract)
      next
        case (Some w)
        obtain lo hi where w: "w = (lo, hi)" by (cases w)
        with Some spec_range_bounds [of rg "length x" lo hi] have "lo \<le> hi" "hi < length x" by auto
        from window_range [OF this len refl, of "oi_size ob"] \<open>rng = Some rg\<close> Some w sz show ?thesis
          by (simp add: run resolve_range_contract r(3) [symmetric])
      qed
    qed
  qed
qed (use assms in simp_all)

lemma get_object_refines:
  "refines (sq_inv cr) (sq_view cr) (sq_get_object cr b k rng) (spec_get_object b k rng)"
  by (rule refines_atomic [OF atomic_readers(10) get_object_implements])

end
