(* ===== verification/Sqlite_Write.thy ===== *)
theory Sqlite_Write
  imports Sqlite_Objects
begin

section \<open>The writing methods implement the contract\<close>

text \<open>
  Storing and removing users, creating and removing buckets, putting and deleting objects, each for
  the run without faults and then, as every one is atomic, under any; and the interpretations of the
  contract on the driver.
\<close>

lemma to_json_cases:
  obtains (ok) t where "to_json cr v = Inr t" "json_to_string cr v = Inr t"
  | (err) e where "to_json cr v = Inl (InternalError e)" "\<not> json_total cr"
proof (cases "json_to_string cr v")
  case (Inl m)
  then have "\<not> json_total cr" unfolding json_total_def by (metis sum.distinct(1))
  with Inl err [of m] show ?thesis by (simp add: to_json_def internal_def)
next
  case (Inr t)
  with ok [of t] show ?thesis by (simp add: to_json_def)
qed

lemma from_json_written:
  "crates_ok cr \<Longrightarrow> json_to_string cr v = Inr t \<Longrightarrow> de v = Some x \<Longrightarrow> from_json cr de t = Inr x"
  by (simp add: crates_ok_def json_ok_def from_json_def)

lemma ideal_with_tx:
  "sound f \<Longrightarrow> ideal (with_tx f) d = (case ideal f d of (Inl e, _) \<Rightarrow> (Inl e, d) | (Inr x, d') \<Rightarrow> (Inr x, d'))"
  by (auto simp: ideal_def with_tx_conn_of [unfolded ideal_def] split: prod.splits sum.splits)

lemma implements_internal: "db_ok cr d \<Longrightarrow> \<not> ex \<Longrightarrow> implements cr ex (Inl (InternalError e), d) d sp"
  by (simp add: implements_def)

subsection \<open>\<open>store_user\<close>\<close>

lemma key_check_loop:
  "try_for (key_check uid) keys (conn_of d) =
     (if \<forall>k \<in> set keys. sql_key_owner k d = None \<or> sql_key_owner k d = Some uid then Inr () else Inl KeyExists, conn_of d)"
  by (induction keys) (auto simp: try_a_apply key_check_def guard_r_def)

lemma insert_keys_loop:
  assumes "distinct keys" and "\<And>k. k \<in> set keys \<Longrightarrow> k \<notin> kr_access_key ` set (db_keys d)" and "sql_user_exists uid d"
  shows "try_for (insert_key cr uid) keys (conn_of d) =
    (Inr (), conn_of (d\<lparr>db_keys := db_keys d @ map (\<lambda>k. \<lparr>kr_access_key = k, kr_uid = uid\<rparr>) keys\<rparr>))"
  using assms
proof (induction keys arbitrary: d)
  case (Cons k keys)
  let ?d = "d\<lparr>db_keys := db_keys d @ [\<lparr>kr_access_key = k, kr_uid = uid\<rparr>]\<rparr>"
  have "sql_insert_key k uid d = Some (1, ?d)"
    using Cons.prems(2,3) by (auto simp: sql_insert_key_def)
  moreover have "try_for (insert_key cr uid) keys (conn_of ?d) =
      (Inr (), conn_of (?d\<lparr>db_keys := db_keys ?d @ map (\<lambda>k. \<lparr>kr_access_key = k, kr_uid = uid\<rparr>) keys\<rparr>))"
    using Cons.prems by (intro Cons.IH) (auto simp: sql_user_exists_def)
  ultimately show ?case by (simp add: try_a_apply insert_key_def [of _ _ k])
qed simp

definition stored_user :: "'j user_row \<Rightarrow> string list \<Rightarrow> 'j db \<Rightarrow> 'j db" where
  "stored_user row keys d =
     d\<lparr>db_users := (if sql_user_exists (ur_uid row) d
          then map (\<lambda>x. if ur_uid x = ur_uid row then row else x) (db_users d) else db_users d @ [row]),
       db_keys := filter (\<lambda>k. kr_uid k \<noteq> ur_uid row) (db_keys d)
          @ map (\<lambda>k. \<lparr>kr_access_key = k, kr_uid = ur_uid row\<rparr>) keys\<rparr>"

definition key_clash :: "string \<Rightarrow> string list \<Rightarrow> 'j db \<Rightarrow> bool" where
  "key_clash uid keys d \<longleftrightarrow> (\<exists>k \<in> set keys. \<exists>ow. sql_key_owner k d = Some ow \<and> ow \<noteq> uid)"

lemma no_clash_fresh:
  assumes "db_ok cr d" and "\<not> key_clash uid keys d" and "k \<in> set keys"
  shows "k \<notin> kr_access_key ` set (filter (\<lambda>r. kr_uid r \<noteq> uid) (db_keys d))"
proof
  assume "k \<in> kr_access_key ` set (filter (\<lambda>r. kr_uid r \<noteq> uid) (db_keys d))"
  then obtain r where r: "r \<in> set (db_keys d)" "kr_access_key r = k" "kr_uid r \<noteq> uid" by auto
  with find_unique [OF db_okD(3) [OF assms(1)] r(1)] have "sql_key_owner k d = Some (kr_uid r)"
    by (simp add: sql_key_owner_def)
  with r(3) assms(2,3) show False by (auto simp: key_clash_def)
qed

lemma ideal_store_tx:
  assumes "db_ok cr d" and "distinct keys"
  shows "ideal (sq_store_tx cr excl row keys) d =
    (if excl \<and> sql_user_exists (ur_uid row) d then (Inl UserAlreadyExists, d)
     else if key_clash (ur_uid row) keys d then (Inl KeyExists, d)
     else (Inr (), stored_user row keys d))"
proof -
  let ?uid = "ur_uid row"
  let ?d1 = "d\<lparr>db_users := (if sql_user_exists ?uid d
      then map (\<lambda>x. if ur_uid x = ?uid then row else x) (db_users d) else db_users d @ [row])\<rparr>"
  let ?d2 = "?d1\<lparr>db_keys := filter (\<lambda>k. kr_uid k \<noteq> ?uid) (db_keys d)\<rparr>"
  have e: "(\<forall>k \<in> set keys. sql_key_owner k d = None \<or> sql_key_owner k d = Some ?uid) \<longleftrightarrow> \<not> key_clash ?uid keys d"
    unfolding key_clash_def by (metis not_None_eq option.inject)
  have up: "sql_upsert_user row d = Some (1, ?d1)" by (simp add: sql_upsert_user_def)
  have del: "\<exists>n. sql_delete_keys ?uid ?d1 = Some (n, ?d2)" by (simp add: sql_delete_keys_def)
  have ex: "sql_user_exists ?uid ?d2" by (auto simp: sql_user_exists_def)
  have "try_for (insert_key cr ?uid) keys (conn_of ?d2) =
      (Inr (), conn_of (stored_user row keys d))" if "\<not> key_clash ?uid keys d"
    using no_clash_fresh [OF assms(1) that] insert_keys_loop [OF assms(2) _ ex]
    by (simp add: stored_user_def)
  with e up del show ?thesis
    by (auto simp: ideal_def sq_store_tx_def try_a_apply key_check_loop guard_r_def)
qed

lemma set_stored_users:
  "set (db_users (stored_user row keys d)) = insert row {r \<in> set (db_users d). ur_uid r \<noteq> ur_uid row}"
  by (auto simp: stored_user_def sql_user_exists_def)

lemma set_stored_keys:
  "\<lparr>kr_access_key = k, kr_uid = u\<rparr> \<in> set (db_keys (stored_user row keys d)) \<longleftrightarrow>
     (if u = ur_uid row then k \<in> set keys else \<lparr>kr_access_key = k, kr_uid = u\<rparr> \<in> set (db_keys d))"
  by (auto simp: stored_user_def)

lemma distinct_stored_users:
  assumes "distinct (map ur_uid (db_users d))"
  shows "distinct (map ur_uid (db_users (stored_user row keys d)))"
proof (cases "sql_user_exists (ur_uid row) d")
  case True
  have "map ur_uid (map (\<lambda>x. if ur_uid x = ur_uid row then row else x) (db_users d)) = map ur_uid (db_users d)"
    by simp
  with True assms have "distinct (map ur_uid (map (\<lambda>x. if ur_uid x = ur_uid row then row else x) (db_users d)))"
    by (simp only:)
  with True show ?thesis by (simp add: stored_user_def)
next
  case False
  with assms show ?thesis by (auto simp: stored_user_def sql_user_exists_def)
qed

lemma db_ok_stored_user:
  assumes ok: "db_ok cr d" and row: "user_row_ok cr row" and keys: "distinct keys"
    and has: "\<And>k. user_has_key (row_user cr row) k \<longleftrightarrow> k \<in> set keys"
    and clash: "\<not> key_clash (ur_uid row) keys d"
  shows "db_ok cr (stored_user row keys d)"
proof -
  have "distinct (map kr_access_key (db_keys (stored_user row keys d)))"
    using db_okD(3) [OF ok] keys no_clash_fresh [OF ok clash]
    by (auto simp: stored_user_def distinct_map inj_on_def o_def)
  moreover have "\<lparr>kr_access_key = k, kr_uid = u\<rparr> \<in> set (db_keys (stored_user row keys d)) \<longleftrightarrow>
      (\<exists>r \<in> set (db_users (stored_user row keys d)). ur_uid r = u \<and> user_has_key (row_user cr r) k)" for k u
    unfolding set_stored_keys set_stored_users using has db_okD(4) [OF ok] by auto
  moreover have "\<forall>r \<in> set (db_users (stored_user row keys d)). user_row_ok cr r"
    unfolding set_stored_users using row db_okD(2) [OF ok] by auto
  moreover have "db_buckets (stored_user row keys d) = db_buckets d" "db_objects (stored_user row keys d) = db_objects d"
    by (simp_all add: stored_user_def)
  ultimately show ?thesis
    using ok distinct_stored_users [OF db_okD(1) [OF ok]] unfolding db_ok_def by auto
qed

lemma bt_of_rows_keys:
  assumes "distinct keys" and "\<And>k. k \<in> set keys \<Longrightarrow> k \<notin> kr_access_key ` set rows"
  shows "bt_of_rows kr_access_key kr_uid (rows @ map (\<lambda>k. \<lparr>kr_access_key = k, kr_uid = uid\<rparr>) keys) =
    fold (\<lambda>k. bt_insert k uid) keys (bt_of_rows kr_access_key kr_uid rows)"
  using assms
proof (induction keys arbitrary: rows)
  case (Cons k keys)
  have "bt_of_rows kr_access_key kr_uid (rows @ [\<lparr>kr_access_key = k, kr_uid = uid\<rparr>]) =
      bt_insert k uid (bt_of_rows kr_access_key kr_uid rows)"
    using bt_of_rows_append [of kr_access_key "\<lparr>kr_access_key = k, kr_uid = uid\<rparr>" rows kr_uid] Cons.prems(2) by simp
  with Cons.IH [of "rows @ [\<lparr>kr_access_key = k, kr_uid = uid\<rparr>]"] Cons.prems show ?case by auto
qed simp

lemma view_filter_keys:
  assumes "db_ok cr d"
  shows "bt_of_rows kr_access_key kr_uid (filter (\<lambda>k. kr_uid k \<noteq> uid) (db_keys d)) =
    filter (\<lambda>(_, ow). ow \<noteq> uid) (g_keys (view_db cr d))"
  unfolding bt_of_rows_filter [OF db_okD(3) [OF assms]] view_simps
proof (rule filter_cong)
  fix e assume "e \<in> set (bt_of_rows kr_access_key kr_uid (db_keys d))"
  then obtain r where "r \<in> set (db_keys d)" "e = (kr_access_key r, kr_uid r)"
    by (auto simp: bt_of_rows_sort [OF db_okD(3) [OF assms], symmetric])
  then show "(\<exists>r \<in> set (db_keys d). kr_uid r \<noteq> uid \<and> e = (kr_access_key r, kr_uid r)) =
      (case e of (_, ow) \<Rightarrow> ow \<noteq> uid)" by auto
qed simp

lemma view_stored_user:
  assumes ok: "db_ok cr d" and clash: "\<not> key_clash (ur_uid row) keys d" and keys: "distinct keys"
  shows "view_db cr (stored_user row keys d) =
    (view_db cr d)\<lparr>g_users := bt_insert (ur_uid row) (row_user cr row) (g_users (view_db cr d)),
      g_keys := fold (\<lambda>k. bt_insert k (ur_uid row)) keys
        (filter (\<lambda>(_, ow). ow \<noteq> ur_uid row) (g_keys (view_db cr d)))\<rparr>"
proof -
  have "bt_of_rows ur_uid (row_user cr) (db_users (stored_user row keys d)) =
      bt_insert (ur_uid row) (row_user cr row) (bt_of_rows ur_uid (row_user cr) (db_users d))"
    using bt_of_rows_update [of ur_uid row "db_users d" "row_user cr"]
      bt_of_rows_append [of ur_uid row "db_users d" "row_user cr"]
    by (simp add: stored_user_def sql_user_exists_def image_iff eq_commute [of _ "ur_uid row"])
  moreover have "bt_of_rows kr_access_key kr_uid (db_keys (stored_user row keys d)) =
      fold (\<lambda>k. bt_insert k (ur_uid row)) keys (filter (\<lambda>(_, ow). ow \<noteq> ur_uid row) (g_keys (view_db cr d)))"
    using bt_of_rows_keys [OF keys no_clash_fresh [OF ok clash]]
    by (simp add: stored_user_def view_filter_keys [OF ok])
  ultimately show ?thesis by (simp add: view_db_def) (simp add: stored_user_def)
qed

lemma key_clash_view:
  assumes "db_ok cr d"
  shows "g_key_clash (view_db cr d) uid info \<longleftrightarrow> key_clash uid (bt_keys (ui_access_keys info)) d"
  by (simp add: g_key_clash_iff key_clash_def sql_key_owner_def bt_get_of_rows)

lemma user_exists_view: "bt_get (g_users (view_db cr d)) uid \<noteq> None \<longleftrightarrow> sql_user_exists uid d"
  by (auto simp: bt_get_of_rows sql_user_exists_def find_None_iff)

lemma store_user_implements:
  assumes wf: "user_wf info" and st: "uid_stable (ui_user_id info)"
    and cr: "crates_ok cr" and ok: "db_ok cr d"
  shows "implements cr (json_total cr) (ideal (sq_store_user cr info excl) d) d (spec_store_user info excl)"
proof -
  let ?uid = "user_id_display (ui_user_id info)" let ?keys = "bt_keys (ui_access_keys info)"
  have keys: "distinct ?keys" using wf by (simp add: user_wf_def bt_wf_distinct)
  show "implements cr (json_total cr) (ideal (sq_store_user cr info excl) d) d (spec_store_user info excl)"
  proof (cases rule: to_json_cases [of cr "user_to_json cr info"])
    case (err e)
    then show ?thesis
      using implements_internal [OF ok] by (simp add: sq_store_user_def ideal_def)
  next
    case (ok t)
    let ?row = "user_row_of info t"
    have uid: "ur_uid ?row = ?uid" by (simp add: user_row_of_def)
    have dec: "from_json cr (user_of_json cr) (ur_info ?row) = Inr (canon_user info)"
      using from_json_written [where de = "user_of_json cr", OF cr ok(2)] user_json_rt [of cr info] cr wf
      by (simp add: user_row_of_def crates_ok_def)
    then have ru: "row_user cr ?row = canon_user info" by (simp add: row_user_def)
    have row: "user_row_ok cr ?row"
      using dec wf stable_canon [OF st] by (auto simp: user_row_ok_def user_row_of_def email_col_def)
    have has: "user_has_key (row_user cr ?row) k \<longleftrightarrow> k \<in> set ?keys" for k
      unfolding ru by (simp add: user_has_key_def)
    have run: "ideal (sq_store_user cr info excl) d =
        (case ideal (sq_store_tx cr excl ?row ?keys) d of (Inl e, _) \<Rightarrow> (Inl e, d) | (Inr x, d') \<Rightarrow> (Inr x, d'))"
      using ok(1) ideal_with_tx [OF sound_methods(3)] by (simp add: sq_store_user_def ideal_def)
    note dok = \<open>db_ok cr d\<close>
    show ?thesis
      unfolding run ideal_store_tx [OF dok keys] uid
      using db_ok_stored_user [OF dok row keys has] view_stored_user [OF dok _ keys, where row = ?row] dok
        user_exists_view [of cr d ?uid]
      by (cases "sql_user_exists ?uid d") (auto simp: implements_def spec_store_user_def Let_def uid ru g_put_user_def
          key_clash_view [OF dok] simp del: view_simps)
  qed
qed

lemma store_user_refines:
  assumes wf: "user_wf info" and st: "uid_stable (ui_user_id info)"
  shows "refines (sq_inv cr) (sq_view cr) (sq_store_user cr info excl) (spec_store_user info excl)"
  using refines_atomic [OF atomic_writers(1) store_user_implements [OF assms]] by blast

lemma remove_user_implements:
  assumes "crates_ok cr" and ok: "db_ok cr d"
  shows "implements cr (json_total cr) (ideal (sq_remove_user cr u) d) d (spec_remove_user u)"
proof -
  let ?uid = "user_id_display u"
  let ?d = "d\<lparr>db_users := filter (\<lambda>r. ur_uid r \<noteq> ?uid) (db_users d), db_keys := filter (\<lambda>k. kr_uid k \<noteq> ?uid) (db_keys d)\<rparr>"
  have run: "ideal (sq_remove_user cr u) d = (if sql_user_exists ?uid d then (Inr (), ?d) else (Inl NoSuchUser, d))"
    by (auto simp: ideal_def sq_remove_user_def sql_delete_user_def try_a_apply guard_r_def sql_user_exists_def
        filter_empty_conv filter_id_conv intro!: db.equality)
  have "db_ok cr ?d"
    using ok db_okD(4) [OF ok] unfolding db_ok_def by (auto simp: distinct_map inj_on_def)
  moreover have "view_db cr ?d = (view_db cr d)\<lparr>g_users := bt_remove ?uid (g_users (view_db cr d)),
      g_keys := filter (\<lambda>(_, ow). ow \<noteq> ?uid) (g_keys (view_db cr d))\<rparr>"
    using view_filter_keys [OF ok] by (simp add: view_db_def bt_of_rows_delete)
  ultimately show "implements cr (json_total cr) (ideal (sq_remove_user cr u) d) d (spec_remove_user u)"
    using ok user_exists_view [of cr d ?uid]
    by (cases "sql_user_exists ?uid d") (auto simp: run implements_def spec_remove_user_def Let_def simp del: view_simps)
qed

lemma remove_user_refines:
  "refines (sq_inv cr) (sq_view cr) (sq_remove_user cr u) (spec_remove_user u)"
  by (rule refines_atomic [OF atomic_writers(2) remove_user_implements])

subsection \<open>Buckets\<close>

lemma bucket_clash_view:
  assumes "db_ok cr d"
  shows "sql_bucket_clash i tenant name d \<longleftrightarrow>
    i \<in> set (g_bucket_ids (view_db cr d)) \<or> bt_get (g_buckets (view_db cr d)) (name, tenant) \<noteq> None"
  by (auto simp: sql_bucket_clash_def set_g_bucket_ids [OF assms] bt_get_of_rows find_None_iff simp del: view_simps)
    (auto simp: bt_get_of_rows find_None_iff find_Some_iff)

lemma create_bucket_implements:
  assumes st: "uid_stable (bi_owner info)"
    and cr: "crates_ok cr" and dok: "db_ok cr d"
  shows "implements cr (json_total cr) (ideal (sq_create_bucket cr info) d) d (spec_create_bucket info)"
proof -
  let ?b = "bi_bucket info"
  show "implements cr (json_total cr) (ideal (sq_create_bucket cr info) d) d (spec_create_bucket info)"
  proof (cases rule: to_json_cases [of cr "bucket_to_json cr info"])
    case (err e)
    then show ?thesis using implements_internal [OF dok] by (simp add: sq_create_bucket_def ideal_def)
  next
    case (ok t)
    let ?row = "bucket_row_of info t"
    let ?d = "d\<lparr>db_buckets := db_buckets d @ [?row]\<rparr>"
    have cols: "br_bucket_id ?row = bk_bucket_id ?b" "br_tenant ?row = bk_tenant ?b" "br_name ?row = bk_name ?b"
      by (simp_all add: bucket_row_of_def)
    have dec: "from_json cr (bucket_of_json cr) (br_info ?row) = Inr (canon_bucket info)"
      using from_json_written [where de = "bucket_of_json cr", OF cr ok(2)] bucket_json_rt [of cr info] cr
      by (simp add: bucket_row_of_def crates_ok_def)
    then have rb: "row_bucket cr ?row = canon_bucket info" by (simp add: row_bucket_def)
    have row: "bucket_row_ok cr ?row"
      using dec stable_canon [OF st] by (auto simp: bucket_row_ok_def bucket_row_of_def)
    have run: "ideal (sq_create_bucket cr info) d =
        (if sql_bucket_clash (bk_bucket_id ?b) (bk_tenant ?b) (bk_name ?b) d then (Inl BucketAlreadyExists, d)
         else (Inr (), ?d))"
      using ok(1) ideal_with_tx [OF sound_methods(4), of cr ?row d]
      by (simp add: sq_create_bucket_def ideal_def sq_create_tx_def try_a_apply guard_r_def sql_insert_bucket_def cols)
    have new: "db_ok cr ?d \<and> view_db cr ?d = (view_db cr d)\<lparr>g_buckets :=
        bt_insert (bk_name ?b, bk_tenant ?b) (canon_bucket info) (g_buckets (view_db cr d))\<rparr>"
      if no: "\<not> sql_bucket_clash (bk_bucket_id ?b) (bk_tenant ?b) (bk_name ?b) d"
    proof
      show "db_ok cr ?d"
        using dok row no cols unfolding db_ok_def sql_bucket_clash_def by auto
      have "bucket_row_key ?row \<notin> bucket_row_key ` set (db_buckets d)"
        using no cols by (auto simp: sql_bucket_clash_def)
      from bt_of_rows_append [OF this, of "row_bucket cr"]
      show "view_db cr ?d = (view_db cr d)\<lparr>g_buckets :=
          bt_insert (bk_name ?b, bk_tenant ?b) (canon_bucket info) (g_buckets (view_db cr d))\<rparr>"
        by (simp add: view_db_def cols rb)
    qed
    show ?thesis
      unfolding run using dok new bucket_clash_view [OF dok, of "bk_bucket_id ?b" "bk_tenant ?b" "bk_name ?b"]
      by (cases "sql_bucket_clash (bk_bucket_id ?b) (bk_tenant ?b) (bk_name ?b) d")
        (auto simp: implements_def spec_create_bucket_def Let_def simp del: view_simps)
  qed
qed

lemma create_bucket_refines:
  assumes st: "uid_stable (bi_owner info)"
  shows "refines (sq_inv cr) (sq_view cr) (sq_create_bucket cr info) (spec_create_bucket info)"
  using refines_atomic [OF atomic_writers(3) create_bucket_implements [OF assms]] by blast

lemma has_objects_view:
  assumes "db_ok cr d"
  shows "sql_has_objects i d \<longleftrightarrow> g_objects_of (view_db cr d) i \<noteq> []"
proof -
  have "length (g_objects_of (view_db cr d) i) = length (filter (\<lambda>r. ob_bucket_id r = i) (db_objects d))"
    by (simp add: g_objects_of_view [OF assms])
  then show ?thesis
    unfolding sql_has_objects_def by (metis (mono_tags, lifting) filter_empty_conv length_0_conv)
qed

lemma remove_bucket_implements:
  assumes "crates_ok cr" and dok: "db_ok cr d"
  shows "implements cr (json_total cr) (ideal (sq_remove_bucket cr tenant name) d) d (spec_remove_bucket tenant name)"
proof -
  have run: "ideal (sq_remove_bucket cr tenant name) d =
      (case ideal (sq_remove_bucket_tx cr tenant name) d of (Inl e, _) \<Rightarrow> (Inl e, d) | (Inr x, d') \<Rightarrow> (Inr x, d'))"
    using ideal_with_tx [OF sound_methods(5)] by (simp add: sq_remove_bucket_def)
  show "implements cr (json_total cr) (ideal (sq_remove_bucket cr tenant name) d) d (spec_remove_bucket tenant name)"
  proof (cases "sql_bucket tenant name d")
    case None
    then have "ideal (sq_remove_bucket cr tenant name) d = (Inl NoSuchBucket, d)"
      unfolding run by (simp add: ideal_def sq_remove_bucket_tx_def try_a_apply)
    with None show ?thesis
      using dok by (simp add: implements_def spec_remove_bucket_def sql_bucket_view [OF dok] del: view_simps)
  next
    case (Some r)
    let ?i = "br_bucket_id r"
    let ?d = "d\<lparr>db_buckets := filter (\<lambda>r. br_bucket_id r \<noteq> ?i) (db_buckets d)\<rparr>"
    from sql_bucket_row [OF dok Some] have r: "r \<in> set (db_buckets d)" "br_tenant r = tenant" "br_name r = name"
      and i: "b_id (row_bucket cr r) = ?i"
      using bucket_row_decode [of cr r] by auto
    have get: "bt_get (g_buckets (view_db cr d)) (name, tenant) = Some (row_bucket cr r)"
      using Some by (simp add: sql_bucket_view [OF dok] del: view_simps)
    have run': "ideal (sq_remove_bucket cr tenant name) d =
        (if sql_has_objects ?i d then (Inl BucketNotEmpty, d) else (Inr (), ?d))"
      unfolding run using Some
      by (simp add: ideal_def sq_remove_bucket_tx_def try_a_apply guard_r_def sql_delete_bucket_def)
    have new: "db_ok cr ?d \<and> view_db cr ?d = (view_db cr d)\<lparr>g_buckets := bt_remove (name, tenant) (g_buckets (view_db cr d))\<rparr>"
      if no: "\<not> sql_has_objects ?i d"
    proof
      have key: "br_bucket_id x \<noteq> ?i \<longleftrightarrow> bucket_row_key x \<noteq> (name, tenant)" if "x \<in> set (db_buckets d)" for x
        using db_okD(5,6) [OF dok] r that by (auto simp: distinct_map inj_on_def)
      then have flt: "filter (\<lambda>r. br_bucket_id r \<noteq> ?i) (db_buckets d) = filter (\<lambda>x. bucket_row_key x \<noteq> (name, tenant)) (db_buckets d)"
        by (intro filter_cong refl)
      have "ob_bucket_id x \<in> br_bucket_id ` {r \<in> set (db_buckets d). br_bucket_id r \<noteq> ?i}"
        if "x \<in> set (db_objects d)" for x
        using db_okD(10) [OF dok that] no that by (auto simp: sql_has_objects_def)
      with dok show "db_ok cr ?d"
        unfolding db_ok_def by (auto simp: distinct_map inj_on_def)
      show "view_db cr ?d = (view_db cr d)\<lparr>g_buckets := bt_remove (name, tenant) (g_buckets (view_db cr d))\<rparr>"
        using bt_of_rows_delete [of bucket_row_key "row_bucket cr" "(name, tenant)" "db_buckets d"]
        by (simp add: view_db_def flt)
    qed
    show ?thesis
      unfolding run' using dok new has_objects_view [OF dok, of ?i]
      by (cases "sql_has_objects ?i d") (auto simp: implements_def spec_remove_bucket_def get i simp del: view_simps)
  qed
qed

lemma remove_bucket_refines:
  "refines (sq_inv cr) (sq_view cr) (sq_remove_bucket cr tenant name) (spec_remove_bucket tenant name)"
  by (rule refines_atomic [OF atomic_writers(4) remove_bucket_implements])

subsection \<open>Objects\<close>

lemma put_info_new: "put_info cr now k ow at x = new_object (md5_hex cr) now k ow at x"
  by (simp add: put_info_def new_object_def STANDARD_def)

lemma stored_object_ok:
  fixes now :: time and ow :: owner
  assumes cr: "crates_ok cr" and at: "bt_wf at" and t: "json_to_string cr (attrs_to_json at) = Inr t"
    and utf8: "from_utf8_ok (ok_name k)" and len: "length x < 2 ^ 63"
    and row: "row = object_rec_of cr i (put_info cr now k ow at x) (of_nat (length x)) t x"
  shows "object_rec_ok cr row \<and> row_object cr (ob_row row) = canon_object (put_info cr now k ow at x)"
proof -
  have "from_json cr attrs_of_json t = Inr at"
    using from_json_written [where de = attrs_of_json, OF cr t] attrs_json_rt [OF at] by simp
  moreover have "to_u64 (of_nat (length x)) = Inr (of_nat (length x))"
    using len by (simp add: to_u64_def sint_u64 uint_of_nat_u64)
  ultimately have dec: "into_info cr (ob_row row) = Inr (canon_object (put_info cr now k ow at x))"
    using cr by (simp add: into_info_def row object_rec_of_def put_info_def parse_time_def fmt_time_def
        crates_ok_def chrono_ok_def canon_object_def canon_user_id_def object_key_new_def)
  moreover have "ob_col_name row = ok_name k" by (simp add: row object_rec_of_def put_info_def object_key_new_def)
  ultimately show ?thesis
    using utf8 len by (auto simp: object_rec_ok_def row object_rec_of_def row_object_def)
qed

lemma replaced_object:
  assumes dok: "db_ok cr d" and row: "object_rec_ok cr row" and b: "sql_bucket_exists (ob_bucket_id row) d"
  defines "d' \<equiv> d\<lparr>db_objects := filter (\<lambda>x. \<not> (ob_bucket_id x = ob_bucket_id row \<and> ob_col_name x = ob_col_name row)) (db_objects d) @ [row]\<rparr>"
  shows "db_ok cr d' \<and> view_db cr d' = (view_db cr d)\<lparr>g_objects :=
    bt_insert (object_rec_key row) (row_object cr (ob_row row), ob_data row) (g_objects (view_db cr d))\<rparr>"
proof
  have "ob_bucket_id row \<in> br_bucket_id ` set (db_buckets d)"
    using b by (metis imageI sql_bucket_exists_def)
  with dok row show "db_ok cr d'"
    unfolding d'_def db_ok_def by (auto simp: distinct_map inj_on_def)
  have "filter (\<lambda>x. \<not> (ob_bucket_id x = ob_bucket_id row \<and> ob_col_name x = ob_col_name row)) (db_objects d) =
      filter (\<lambda>x. object_rec_key x \<noteq> object_rec_key row) (db_objects d)" by simp
  then show "view_db cr d' = (view_db cr d)\<lparr>g_objects :=
      bt_insert (object_rec_key row) (row_object cr (ob_row row), ob_data row) (g_objects (view_db cr d))\<rparr>"
    using bt_of_rows_replace [of object_rec_key "\<lambda>r. (row_object cr (ob_row r), ob_data r)" row "db_objects d"]
    by (simp add: d'_def view_db_def)
qed

lemma put_object_implements:
  assumes utf8: "from_utf8_ok (ok_name k)" and at: "bt_wf at" and fits: "body_fits body"
    and cr: "crates_ok cr" and dok: "db_ok cr d"
  shows "implements cr (json_total cr) (ideal (sq_put_object cr now b k ow at body) d) d (spec_put_object (md5_hex cr) now b k ow at body)"
proof -
  let ?i = "bk_bucket_id b"
  show "implements cr (json_total cr) (ideal (sq_put_object cr now b k ow at body) d) d (spec_put_object (md5_hex cr) now b k ow at body)"
  proof (cases "read_body body")
    case (Inl e)
    then show ?thesis
      using dok by (simp add: sq_put_object_def ideal_def implements_def spec_put_object_def internal_def)
  next
    case (Inr x)
    let ?info = "put_info cr now k ow at x"
    have len: "length x < 2 ^ 63" using fits Inr by (simp add: body_fits_def)
    have sz: "to_i64 (oi_size ?info) = Inr (of_nat (length x))" and ia: "oi_attrs ?info = at"
      using len by (simp_all add: put_info_def to_i64_def uint_of_nat_u64)
    show ?thesis
    proof (cases rule: to_json_cases [of cr "attrs_to_json at"])
      case (err e)
      with dok Inr sz ia show ?thesis by (simp add: sq_put_object_def ideal_def implements_def Let_def)
    next
      case (ok t)
      define row where "row = object_rec_of cr ?i ?info (of_nat (length x)) t x"
      have row: "object_rec_ok cr row" "row_object cr (ob_row row) = canon_object ?info"
        using stored_object_ok [OF cr at ok(2) utf8 len row_def] by auto
      have cols: "ob_bucket_id row = ?i" "ob_col_name row = ok_name k" "ob_data row = x"
        by (simp_all add: row_def object_rec_of_def put_info_def object_key_new_def)
      have run: "ideal (sq_put_object cr now b k ow at body) d =
          (if sql_bucket_exists ?i d then (Inr ?info, d\<lparr>db_objects :=
             filter (\<lambda>x. \<not> (ob_bucket_id x = ob_bucket_id row \<and> ob_col_name x = ob_col_name row)) (db_objects d) @ [row]\<rparr>)
           else (Inl NoSuchBucket, d))"
        using Inr sz ia ok(1) cols(1) with_tx_conn_of [OF sound_methods(6), of cr row d]
        by (simp add: sq_put_object_def ideal_def Let_def row_def [symmetric] try_a_apply sq_put_tx_def
            check_bucket_def guard_r_def sql_replace_object_def)
      show ?thesis
        unfolding run using dok replaced_object [OF dok row(1)] bucket_exists_view [OF dok, of ?i] Inr
        by (cases "sql_bucket_exists ?i d")
          (auto simp: implements_def spec_put_object_def Let_def put_info_new cols row(2) simp del: view_simps)
    qed
  qed
qed

lemma put_object_refines:
  assumes utf8: "from_utf8_ok (ok_name k)" and at: "bt_wf at" and fits: "body_fits body"
  shows "refines (sq_inv cr) (sq_view cr) (sq_put_object cr now b k ow at body) (spec_put_object (md5_hex cr) now b k ow at body)"
  using refines_atomic [OF atomic_writers(5) put_object_implements [OF assms]] by blast

lemma delete_object_implements:
  assumes "crates_ok cr" and dok: "db_ok cr d"
  shows "implements cr (json_total cr) (ideal (sq_delete_object cr b k) d) d (spec_delete_object b k)"
proof -
  let ?i = "bk_bucket_id b" let ?n = "ok_name k"
  let ?d = "d\<lparr>db_objects := filter (\<lambda>x. \<not> (ob_bucket_id x = ?i \<and> ob_col_name x = ?n)) (db_objects d)\<rparr>"
  have run: "ideal (sq_delete_object cr b k) d =
      (if \<not> sql_bucket_exists ?i d then (Inl NoSuchBucket, d)
       else if sql_object ?i ?n d = None then (Inl NoSuchKey, d) else (Inr (), ?d))"
    using ideal_with_tx [OF sound_delete_object_tx, of ?i cr ?n d]
    by (auto simp: sq_delete_object_def ideal_def try_a_apply check_bucket_def guard_r_def sql_delete_object_def
        sql_object_def find_None_iff filter_empty_conv)
  have "filter (\<lambda>x. \<not> (ob_bucket_id x = ?i \<and> ob_col_name x = ?n)) (db_objects d) =
      filter (\<lambda>x. object_rec_key x \<noteq> (?i, ?n)) (db_objects d)" by simp
  then have "view_db cr ?d = (view_db cr d)\<lparr>g_objects := bt_remove (?i, ?n) (g_objects (view_db cr d))\<rparr>"
    using bt_of_rows_delete [of object_rec_key "\<lambda>r. (row_object cr (ob_row r), ob_data r)" "(?i, ?n)" "db_objects d"]
    by (simp add: view_db_def)
  moreover have "db_ok cr ?d"
    using dok unfolding db_ok_def by (auto simp: distinct_map inj_on_def)
  ultimately show "implements cr (json_total cr) (ideal (sq_delete_object cr b k) d) d (spec_delete_object b k)"
    unfolding run using dok bucket_exists_view [OF dok, of ?i] sql_object_view [OF dok, of ?i ?n]
    by (cases "sql_object ?i ?n d")
      (auto simp: implements_def spec_delete_object_def g_find_object_def simp del: view_simps)
qed

lemma delete_object_refines:
  "refines (sq_inv cr) (sq_view cr) (sq_delete_object cr b k) (spec_delete_object b k)"
  by (rule refines_atomic [OF atomic_writers(6) delete_object_implements])

subsection \<open>The driver meets the contract\<close>

lemma sq_inv_gw: "sq_inv cr c \<Longrightarrow> gw_wf (sq_view cr c)"
  by (simp add: sq_inv_def sq_view_def gw_wf_view)

lemma sq_list_objects_reads:
  assumes "sq_inv cr c" and "sq_list_objects cr b p c = (r, c')"
  shows "sq_inv cr c' \<and> sq_view cr c' = sq_view cr c"
proof -
  have "cn_db c' = cn_db c" using reader_methods(8) assms(2) unfolding reader_def by (metis snd_conv)
  with assms(1) show ?thesis by (simp add: sq_inv_def sq_view_def)
qed

interpretation sq: sal_driver "sqlite_driver cr" "sq_inv cr" "sq_view cr" "md5_hex cr" for cr :: "'j crates"
  by unfold_locales
    (simp_all add: sqlite_driver_def load_user_refines load_key_refines load_email_refines store_user_refines
      remove_user_refines list_users_refines create_bucket_refines load_bucket_refines list_buckets_refines
      remove_bucket_refines stats_refines list_objects_refines head_object_refines get_object_refines
      put_object_refines delete_object_refines sq_inv_gw sq_list_objects_reads)

lemma sq_exact:
  "exact (sq_inv cr) (sq_calm cr) (sq_view cr) m sp" if "atomic m"
    and "\<And>d. crates_ok cr \<Longrightarrow> db_ok cr d \<Longrightarrow> implements cr (json_total cr) (ideal m d) d sp"
  using exact_atomic [OF that] by blast

lemma sq_exact_reader:
  "exact (sq_inv cr) (sq_calm cr) (sq_view cr) m sp" if "atomic m"
    and "\<And>d. crates_ok cr \<Longrightarrow> db_ok cr d \<Longrightarrow> implements cr True (ideal m d) d sp"
  using exact_atomic [OF that] by blast

interpretation sqr: reliable_driver "sqlite_driver cr" "sq_inv cr" "sq_view cr" "md5_hex cr" "sq_calm cr" for cr :: "'j crates"
  by unfold_locales
    (simp_all add: sqlite_driver_def
      sq_exact_reader [OF atomic_readers(1) load_user_implements]
      sq_exact_reader [OF atomic_readers(2) load_key_implements]
      sq_exact_reader [OF atomic_readers(3) load_email_implements]
      exact_atomic [OF atomic_readers(4) list_users_implements]
      sq_exact_reader [OF atomic_readers(5) load_bucket_implements]
      exact_atomic [OF atomic_readers(6) list_buckets_implements]
      sq_exact_reader [OF atomic_readers(8) list_objects_implements]
      sq_exact_reader [OF atomic_readers(9) head_object_implements]
      sq_exact_reader [OF atomic_readers(10) get_object_implements]
      sq_exact [OF atomic_writers(1) store_user_implements] sq_exact [OF atomic_writers(2) remove_user_implements]
      sq_exact [OF atomic_writers(3) create_bucket_implements] sq_exact [OF atomic_writers(4) remove_bucket_implements]
      sq_exact [OF atomic_writers(5) put_object_implements] sq_exact [OF atomic_writers(6) delete_object_implements])

end
