(* ===== verification/Demo.thy ===== *)
theory Demo
  imports Crates
begin

section \<open>A concrete instance of the third-party functions\<close>

text \<open>
  Witnesses run the model on \<open>demo_crates\<close>: JSON text is the JSON value itself, an instant is
  printed as its nanoseconds (\<open>x-amz-date\<close> with a fixed day before them), hex and percent encoding are the real ones, and the digests are
  the last bytes of their input. It meets \<open>json_ok\<close> and \<open>chrono_ok\<close>, so those hypotheses can hold.
\<close>

definition demo_time :: "time \<Rightarrow> string" where
  "demo_time t = (if t < 0 then CHR ''-'' else CHR ''+'') # show_nat (nat \<bar>t\<bar>)"

definition demo_parse_time :: "string \<Rightarrow> time option" where
  "demo_parse_time s = (case s of [] \<Rightarrow> None
     | c # r \<Rightarrow> map_option (\<lambda>n. if c = CHR ''-'' then - int n else int n) (digits_value 10 0 r))"

lemma demo_time_rt [simp]: "demo_parse_time (demo_time t) = Some t"
  by (simp add: demo_parse_time_def demo_time_def digits_value_show)

definition demo_hex :: "bytes \<Rightarrow> string" where
  "demo_hex b = concat (map (\<lambda>c. [digit_char (byte c div 16), digit_char (byte c mod 16)]) b)"

fun demo_unhex :: "string \<Rightarrow> bytes option" where
  "demo_unhex [] = Some []"
| "demo_unhex [_] = None"
| "demo_unhex (a # b # s) = do {
     x \<leftarrow> to_digit 16 a; y \<leftarrow> to_digit 16 b; r \<leftarrow> demo_unhex s; Some (char_of (16 * x + y) # r) }"

lemma demo_hex_rt [simp]: "demo_unhex (demo_hex b) = Some b"
proof (induction b)
  case (Cons c b)
  have "byte c < 256" by simp
  then have "to_digit 16 (digit_char (byte c div 16)) = Some (byte c div 16)"
    "to_digit 16 (digit_char (byte c mod 16)) = Some (byte c mod 16)"
    by (simp_all add: to_digit_digit_char less_mult_imp_div_less)
  with Cons show ?case by (simp add: demo_hex_def)
qed (simp add: demo_hex_def)

definition demo_sum :: "bytes \<Rightarrow> bytes" where
  "demo_sum b = take 32 (rev b @ replicate 32 CHR ''x'')"

definition demo_mac :: "bytes \<Rightarrow> bytes \<Rightarrow> bytes" where
  "demo_mac k m = take 16 (rev k @ replicate 16 CHR ''x'') @ take 16 (rev m @ replicate 16 CHR ''x'')"

definition demo_to_bytes :: "(string + bytes) list \<Rightarrow> nat \<Rightarrow> string option + bytes" where
  "demo_to_bytes body limit =
     try_r (map_err Some (try_map (\<lambda>c. c) body)) (\<lambda>cs. if length (concat cs) \<le> limit then Inr (concat cs) else Inl None)"

fun demo_pct_decode :: "string \<Rightarrow> bytes" where
  "demo_pct_decode [] = []"
| "demo_pct_decode (c # s) =
     (if c = CHR ''%'' then
        (case s of a # b # r \<Rightarrow>
           (case (to_digit 16 a, to_digit 16 b) of
              (Some x, Some y) \<Rightarrow> char_of (16 * x + y) # demo_pct_decode r
            | _ \<Rightarrow> c # demo_pct_decode s)
         | _ \<Rightarrow> c # demo_pct_decode s)
      else c # demo_pct_decode s)"

definition upper_hex :: "nat \<Rightarrow> char" where
  "upper_hex d = (if d < 10 then char_of (48 + d) else char_of (55 + d))"

definition demo_pct_encode :: "(char \<Rightarrow> bool) \<Rightarrow> string \<Rightarrow> string" where
  "demo_pct_encode S s = concat (map (\<lambda>c. if S c \<or> 128 \<le> byte c
     then [CHR ''%'', upper_hex (byte c div 16), upper_hex (byte c mod 16)] else [c]) s)"

fun demo_xml :: "xml \<Rightarrow> string" where
  "demo_xml (XText t) = t"
| "demo_xml (XElem n at cs) =
     ''<'' @ n @ concat (map (\<lambda>(a, v). '' '' @ a @ ''='' @ v ) at) @ ''>'' @ concat (map demo_xml cs) @ ''</'' @ n @ ''>''"

fun demo_json :: "json \<Rightarrow> string" where
  "demo_json JNull = ''null''"
| "demo_json (JBool b) = (if b then ''true'' else ''false'')"
| "demo_json (JNum n) = show_int n"
| "demo_json (JStr s) = CHR 0x22 # s @ [CHR 0x22]"
| "demo_json (JArr xs) = ''['' @ concat (map (\<lambda>x. demo_json x @ '','') xs) @ '']''"
| "demo_json (JObj fs) = ''{'' @ concat (map (\<lambda>(k, x). k @ '':'' @ demo_json x @ '','') fs) @ ''}''"

text \<open>A reader for texts of tags and character data only.\<close>

fun demo_tag :: "string \<Rightarrow> xml_event" where
  "demo_tag t = (case t of [] \<Rightarrow> XmlOther
     | c # r \<Rightarrow> if c = CHR ''/'' then XmlEnd
                else if last t = CHR ''/'' then XmlEmpty (butlast t) else XmlStart t)"

function demo_xml_events :: "string \<Rightarrow> xml_event list \<times> bool" where
  "demo_xml_events s = (case s of [] \<Rightarrow> ([], True)
     | c # r \<Rightarrow>
       if c = CHR ''<'' then
         (case split_once (CHR ''>'') r of None \<Rightarrow> ([], False)
          | Some (t, rest) \<Rightarrow> apfst ((#) (demo_tag t)) (demo_xml_events (drop (Suc (length t)) r)))
       else apfst ((#) (XmlText (takeWhile (\<lambda>x. x \<noteq> CHR ''<'') s)))
              (demo_xml_events (dropWhile (\<lambda>x. x \<noteq> CHR ''<'') r)))"
  by pat_completeness auto
termination
  by (relation "measure length") (auto simp: le_imp_less_Suc length_dropWhile_le)

declare demo_xml_events.simps [simp del]

definition demo_crates :: "json crates" where
  "demo_crates =
     \<lparr>json_to_string = Inr, json_from_str = Inr, serde_error = ''invalid type'',
      sqlite_error = ''constraint failed'',
      chrono_to_serde = demo_time, chrono_of_serde = demo_parse_time,
      to_rfc3339_nanos = demo_time,
      parse_from_rfc3339 = (\<lambda>s. case demo_parse_time s of None \<Rightarrow> Inl ''input contains invalid characters'' | Some t \<Rightarrow> Inr t),
      format_amz = (\<lambda>t. ''20130524'' @ show_nat (nat t)),
      parse_amz = (\<lambda>s. map_option int (digits_value 10 0 (drop 8 s))), parse_rfc2822 = demo_parse_time,
      format_http_date = demo_time, format_iso8601_millis = demo_time, format_iso8601_micros = demo_time,
      md5_digest = demo_sum, sha256_digest = demo_sum, hmac_sha256_mac = demo_mac,
      hex_encode = demo_hex, hex_decode = demo_unhex, base64_decode = demo_unhex,
      crc32_hash = (\<lambda>b. of_nat (\<Sum>c\<leftarrow>b. byte c)),
      percent_decode = demo_pct_decode, percent_encode_set = demo_pct_encode,
      body_to_bytes = demo_to_bytes,
      json_text = demo_json, json_pretty = (\<lambda>v. Inr (demo_json v)), xml_to_string = (\<lambda>d. Inr (demo_xml d)),
      xml_events = demo_xml_events, xml_char_ref = (\<lambda>_. Inr None), header_name = Some,
      header_error = ''failed to parse header value''\<rparr>"

lemma demo_hex_chars: "c \<in> set (demo_hex b) \<Longrightarrow> is_ascii_hexdigit c \<and> \<not> is_ascii_uppercase c"
proof -
  have "is_ascii_hexdigit (digit_char d) \<and> \<not> is_ascii_uppercase (digit_char d)" if "d < 16" for d
    using that by (auto simp: is_ascii_hexdigit_def is_ascii_digit_def is_ascii_uppercase_def byte_digit_char)
  moreover have "byte x div 16 < 16" for x :: char by (simp add: less_mult_imp_div_less)
  ultimately show "c \<in> set (demo_hex b) \<Longrightarrow> is_ascii_hexdigit c \<and> \<not> is_ascii_uppercase c"
    by (auto simp: demo_hex_def)
qed

lemma digit_char_to_digit: "to_digit 16 c = Some x \<Longrightarrow> x < 16 \<and> digit_char x = to_ascii_lowercase_c c"
  by (auto simp: to_digit_def digit_char_def to_ascii_lowercase_c_def Let_def is_ascii_digit_def
      is_ascii_lowercase_def is_ascii_uppercase_def split: if_splits)

lemma demo_unhex_hex: "demo_unhex s = Some b \<Longrightarrow> demo_hex b = to_ascii_lowercase s"
proof (induction s arbitrary: b rule: demo_unhex.induct)
  case (3 h l s)
  then obtain x y r where *: "to_digit 16 h = Some x" "to_digit 16 l = Some y" "demo_unhex s = Some r"
    "b = char_of (16 * x + y) # r" by (auto split: Option.bind_splits)
  have "x < 16" "y < 16" using * by (auto dest: digit_char_to_digit)
  then have "byte (char_of (16 * x + y)) = 16 * x + y" by (simp add: byte_char_of)
  with 3 * \<open>y < 16\<close> show ?case
    by (simp add: demo_hex_def to_ascii_lowercase_def digit_char_to_digit [THEN conjunct2])
qed (auto simp: demo_hex_def to_ascii_lowercase_def)

lemma to_digit_lowercase: "to_digit 16 (to_ascii_lowercase_c c) = to_digit 16 c"
  by (auto simp: to_digit_def to_ascii_lowercase_c_def is_ascii_digit_def is_ascii_lowercase_def
      is_ascii_uppercase_def byte_char_of)

lemma demo_unhex_lowercase: "demo_unhex (to_ascii_lowercase s) = demo_unhex s"
proof (induction s rule: demo_unhex.induct)
  case (3 a b s)
  then show ?case
    by (cases "to_digit 16 a"; cases "to_digit 16 b") (auto simp: to_ascii_lowercase_def to_digit_lowercase)
qed (auto simp: to_ascii_lowercase_def)

lemma demo_hex_length: "length (demo_hex b) = 2 * length b"
  by (induction b) (auto simp: demo_hex_def)

lemma demo_crates_more_ok [simp]: "hex_ok demo_crates" "mac_ok demo_crates" "pct_ok demo_crates"
  by (auto simp: hex_ok_def mac_ok_def pct_ok_def demo_crates_def demo_unhex_hex demo_unhex_lowercase demo_hex_length demo_sum_def demo_mac_def
      dest: demo_hex_chars)

lemma demo_to_bytes_ok [simp]: "to_bytes_ok demo_crates"
proof -
  have "(\<forall>c \<in> set body. \<exists>d. c = Inr d) \<and> cs = map projr body" if "try_map (\<lambda>c. c) body = Inr cs"
    for body :: "(string + bytes) list" and cs
    using that by (induction body arbitrary: cs) (auto simp: try_r_Inr_iff)
  then show ?thesis
    by (auto simp: to_bytes_ok_def demo_crates_def demo_to_bytes_def try_r_Inr_iff split: if_splits)
qed

lemma demo_crates_ok [simp]: "json_ok demo_crates" "chrono_ok demo_crates" "json_total demo_crates"
  by (simp_all add: json_ok_def chrono_ok_def json_total_def demo_crates_def)

end
