(* ===== verification/Sqlite_Props.thy ===== *)
theory Sqlite_Props
  imports Sqlite_Write Sal_History Demo
begin

section \<open>What the SQLite driver guarantees\<close>

text \<open>
  The properties of \<open>rgw-sal-sqlite\<close>, from the interpretation of the contract on it, and a small
  store of two objects on which they are run.
\<close>

lemma sqlite_driver_simps [simp]:
  "load_user (sqlite_driver cr) = sq_load_user cr"
  "load_user_by_access_key (sqlite_driver cr) = sq_load_user_by_access_key cr"
  "store_user (sqlite_driver cr) = sq_store_user cr"
  "remove_user (sqlite_driver cr) = sq_remove_user cr"
  "create_bucket (sqlite_driver cr) = sq_create_bucket cr"
  "remove_bucket (sqlite_driver cr) = sq_remove_bucket cr"
  "list_objects (sqlite_driver cr) = sq_list_objects cr"
  "head_object (sqlite_driver cr) = sq_head_object cr"
  "get_object (sqlite_driver cr) = sq_get_object cr"
  "put_object (sqlite_driver cr) = sq_put_object cr"
  "delete_object (sqlite_driver cr) = sq_delete_object cr"
  by (simp_all add: sqlite_driver_def)

lemma op_failsafe: "failsafe (exec_op (sqlite_driver cr) op)"
  by (cases op) (simp_all add: failsafe_try_ret failsafe_writers failsafe_remove_user)

subsection \<open>A store to run them on\<close>

definition demo_owner :: owner where
  "demo_owner = \<lparr>ow_id = user_id_new ''alice'', ow_display_name = ''Alice''\<rparr>"

definition demo_bucket_key :: bucket_key where
  "demo_bucket_key = bucket_key_new [] ''b'' ''i''"

definition demo_bucket :: bucket_info where
  "demo_bucket = \<lparr>bi_bucket = demo_bucket_key, bi_owner = user_id_new ''alice'', bi_creation_time = 3,
     bi_placement_rule = ''default'', bi_zonegroup = ''default'', bi_num_shards = 0\<rparr>"

definition demo_put :: "string \<Rightarrow> bytes \<Rightarrow> sal_op" where
  "demo_put name d = PutObject 5 demo_bucket_key (object_key_new name) demo_owner [] [Inr d]"

lemma exec_ops_history: "list_all op_ok ops \<Longrightarrow> history drv s0 s \<Longrightarrow> history drv s0 (exec_ops drv ops s)"
proof (induction ops arbitrary: s)
  case (Cons op ops)
  obtain r s' where run: "exec_op drv op s = (r, s')" by fastforce
  have "history drv s0 s'" using Cons.prems by (intro history.step [OF _ _ run]) auto
  with Cons run show ?case by simp
qed simp

definition demo_ops :: "sal_op list" where
  "demo_ops = [CreateBucket demo_bucket, demo_put ''a/1'' ''one'', demo_put ''b'' ''two'']"

definition demo_store :: "json conn" where
  "demo_store = exec_ops (sqlite_driver demo_crates) demo_ops (conn_of db_empty)"

lemma demo_crates_sq [simp]: "crates_ok demo_crates"
  by (simp add: crates_ok_def)

lemma demo_put_ok: "op_ok (demo_put name d)" if "from_utf8_ok name" "length d < 2 ^ 63"
  using that by (simp add: demo_put_def object_key_new_def body_fits_def)

lemma demo_names_ok: "from_utf8_ok ''a/1''" "from_utf8_ok ''b''" "from_utf8_ok ''c''"
  by code_simp+

lemma demo_ops_ok: "list_all op_ok demo_ops"
proof -
  have "op_ok (CreateBucket demo_bucket)" by code_simp
  then show ?thesis by (simp add: demo_ops_def demo_put_ok demo_names_ok)
qed

lemma demo_store_history: "history (sqlite_driver demo_crates) (conn_of db_empty) demo_store"
  unfolding demo_store_def by (rule exec_ops_history [OF demo_ops_ok history.start])

lemma empty_conn_inv: "crates_ok cr \<Longrightarrow> cn_db c = db_empty \<Longrightarrow> sq_inv cr c \<and> sq_view cr c = gw_empty"
  by (simp add: sq_inv_def sq_view_def)

definition demo_gw :: gw where
  "demo_gw = spec_ops (md5_hex demo_crates) demo_ops gw_empty"

lemma demo_store_inv: "sq_inv demo_crates demo_store" and demo_store_calm: "sq_calm demo_crates demo_store"
  and demo_store_view: "sq_view demo_crates demo_store = demo_gw"
  using sqr.ops_exact [OF demo_ops_ok, of demo_crates "conn_of db_empty"]
    empty_conn_inv [OF demo_crates_sq, of "conn_of db_empty"]
  by (simp_all add: demo_store_def demo_gw_def sq_calm_def)

abbreviation demo_object :: "string \<Rightarrow> bytes \<Rightarrow> object_info" where
  "demo_object name d \<equiv> new_object (md5_hex demo_crates) 5 (object_key_new name) demo_owner [] d"

lemma demo_gw_objects:
  "g_objects demo_gw = [((''i'', ''a/1''), (canon_object (demo_object ''a/1'' ''one''), ''one'')),
     ((''i'', ''b''), (canon_object (demo_object ''b'' ''two''), ''two''))]"
  and demo_gw_ids: "g_bucket_ids demo_gw = [''i'']"
  by (simp_all add: demo_gw_def demo_ops_def demo_put_def gw_empty_def try_a_apply spec_create_bucket_def
      spec_put_object_def g_bucket_ids_def demo_bucket_def demo_bucket_key_def bucket_key_new_def Let_def
      object_key_new_def)

lemma demo_key_simps [simp]: "bk_bucket_id demo_bucket_key = ''i''" "ok_name (object_key_new n) = n"
  by (simp_all add: demo_bucket_key_def bucket_key_new_def object_key_new_def)

lemma demo_exact:
  assumes "exact (sq_inv demo_crates) (sq_calm demo_crates) (sq_view demo_crates) m sp"
  obtains s' where "m demo_store = (fst (sp demo_gw), s')" and "sq_calm demo_crates s'"
    and "sq_view demo_crates s' = snd (sp demo_gw)"
proof -
  obtain r s' where run: "m demo_store = (r, s')" by fastforce
  from exactD [OF assms demo_store_inv demo_store_calm run] demo_store_view run that [of s'] show thesis
    by (metis fst_conv snd_conv)
qed

subsection \<open>Refinement, atomicity, histories\<close>

text \<open>
  C4 (refinement): every call that changes the store, under every schedule of SQLite failures,
  either does exactly what the contract of \<open>Driver\<close> says - same result, same change to the maps of
  users, keys, buckets and objects - or reports an internal error and changes nothing; the invariant
  of the tables is kept; and when no call into SQLite and no serialisation fails, it does exactly
  what the contract says.
\<close>

theorem sqlite_refines:
  assumes "sq_inv cr c" and "op_ok op" and "exec_op (sqlite_driver cr) op c = (r, c')"
  shows "sq_inv cr c' \<and>
    ((\<exists>m. r = Inl (InternalError m)) \<and> cn_db c' = cn_db c \<or>
     (r, sq_view cr c') = spec_op (md5_hex cr) op (sq_view cr c)) \<and>
    (sq_calm cr c \<longrightarrow> sq_calm cr c' \<and> (r, sq_view cr c') = spec_op (md5_hex cr) op (sq_view cr c))"
  using refinesD [OF sq.op_refines [OF assms(2)] assms(1,3)] failsafeD [OF op_failsafe, of cr op c _ c'] assms(3)
    exactD [OF sqr.op_exact [OF assms(2)] assms(1) _ assms(3)]
  by (auto simp: is_internal_def)

lemma sqlite_refines_witness:
  "\<exists>r c. exec_op (sqlite_driver demo_crates) (demo_put ''c'' ''three'') demo_store = (r, c) \<and>
     (r, sq_view demo_crates c) = spec_op (md5_hex demo_crates) (demo_put ''c'' ''three'') demo_gw"
proof -
  have ok: "op_ok (demo_put ''c'' ''three'')" by (simp add: demo_put_ok demo_names_ok)
  obtain r c where run: "exec_op (sqlite_driver demo_crates) (demo_put ''c'' ''three'') demo_store = (r, c)" by fastforce
  with sqlite_refines [OF demo_store_inv ok run] demo_store_calm demo_store_view show ?thesis by auto
qed

text \<open>
  C7 (error): a call that fails, whatever the error, leaves the database exactly as it was: a
  transaction is rolled back, and the one statement outside a transaction that can be refused
  changed no row. This needs no invariant and holds for every schedule of SQLite failures.
\<close>

theorem sqlite_failed_call_keeps_db:
  assumes "exec_op (sqlite_driver cr) op c = (Inl e, c')"
  shows "cn_db c' = cn_db c"
  using failsafeD [OF op_failsafe assms] .

definition demo_failing :: "json conn" where
  "demo_failing = \<lparr>cn_db = db_empty, cn_faults = [None, None, None, None, None, Some ''disk full'']\<rparr>"

definition demo_alice :: user_info where
  "demo_alice = add_access_key \<lparr>ak_id = ''AKID'', ak_key = ''secret'', ak_subuser = [], ak_active = True, ak_create_date = 0\<rparr>
     (user_info_new (user_id_new ''alice'') ''Alice'' 0)"

lemma sqlite_failed_call_keeps_db_witness:
  "fst (exec_op (sqlite_driver demo_crates) (StoreUser demo_alice True) demo_failing) = Inl (InternalError ''disk full'') \<and>
   cn_db (snd (exec_op (sqlite_driver demo_crates) (StoreUser demo_alice True) demo_failing)) = db_empty"
  (is "fst ?run = _ \<and> _")
proof
  show r: "fst ?run = Inl (InternalError ''disk full'')" by code_simp
  then have "?run = (Inl (InternalError ''disk full''), snd ?run)" by (metis prod.collapse)
  from sqlite_failed_call_keeps_db [OF this] show "cn_db (snd ?run) = db_empty" by (simp add: demo_failing_def)
qed

text \<open>
  C6 (invariant): whatever sequence of calls, failing ones included, runs from an empty database,
  the store it reaches is one the contract's own calls reach from the empty store, and the rows are
  consistent: an access key is indexed for a user exactly when that user's record holds it.
\<close>

theorem sqlite_history_consistent:
  assumes "crates_ok cr" and "history (sqlite_driver cr) \<lparr>cn_db = db_empty, cn_faults = fs\<rparr> c"
  shows "db_ok cr (cn_db c) \<and> spec_history (md5_hex cr) gw_empty (sq_view cr c) \<and>
    (\<forall>k uid. bt_get (g_keys (sq_view cr c)) k = Some uid \<longleftrightarrow>
       (\<exists>u. bt_get (g_users (sq_view cr c)) uid = Some u \<and> user_has_key u k))"
proof -
  from empty_conn_inv [OF assms(1), of "\<lparr>cn_db = db_empty, cn_faults = fs\<rparr>"] sq.history_refines [OF assms(2)]
  have "sq_inv cr c" "spec_history (md5_hex cr) gw_empty (sq_view cr c)" by auto
  moreover have "db_ok cr (cn_db c)" using \<open>sq_inv cr c\<close> by (simp add: sq_inv_def)
  ultimately show ?thesis using gw_wf_key [OF sq.sinv_wf [OF \<open>sq_inv cr c\<close>]] by blast
qed

lemma sqlite_history_consistent_witness: "db_ok demo_crates (cn_db demo_store)"
  using sqlite_history_consistent [OF demo_crates_sq demo_store_history [unfolded conn_of_def]] by simp

subsection \<open>What a client observes\<close>

text \<open>
  C11 (roundtrip): an object that was put is what a get of its name returns: the stored payload, as
  one whole body, with the record \<open>put_object\<close> answered (its owner's id in canonical form), its
  size the payload's length and its entity tag the hash of it; an internal error is possible only when
  a call into SQLite or a serialisation fails.
\<close>

theorem sqlite_get_after_put:
  assumes "sq_inv cr c" and "from_utf8_ok (ok_name k)" and "bt_wf at" and "body_fits body"
    and put: "put_object (sqlite_driver cr) now b k ow at body c = (Inr ob, c1)"
    and get: "get_object (sqlite_driver cr) b k None c1 = (r, c2)"
  shows "(\<exists>m. r = Inl (InternalError m)) \<and> \<not> sq_calm cr c \<or>
    (\<exists>d. read_body body = Inr d \<and> oi_etag ob = md5_hex cr d \<and> oi_size ob = of_nat (length d) \<and> oi_attrs ob = at \<and>
      r = Inr \<lparr>rd_info = canon_object ob, rd_range = None, rd_body = body_from_bytes d\<rparr>)"
proof (rule sq.put_run [OF assms(1-4) put])
  fix d
  assume "sq_inv cr c1"
  have no_internal: "\<not> (\<exists>m. r = Inl (InternalError m))" if "sq_calm cr c"
    using exactD [OF sqr.put_object_exact [OF assms(2-4)] assms(1) that put]
      sqr.get_not_internal [OF \<open>sq_inv cr c1\<close> _ get] by blast
  assume "read_body body = Inr d" "ob = new_object (md5_hex cr) now k ow at d"
    and "bk_bucket_id b \<in> set (g_bucket_ids (sq_view cr c))"
  with sq.get_put [OF assms(1-4) put get] no_internal show ?thesis
    by (auto simp: is_internal_def spec_get_object_def g_find_object_def g_bucket_ids_def bt_get_def new_object_def)
qed

lemma sqlite_get_after_put_witness:
  "\<exists>ob c1 rd c2. put_object (sqlite_driver demo_crates) 5 demo_bucket_key (object_key_new ''b'') demo_owner [] [Inr ''new''] demo_store = (Inr ob, c1) \<and>
     get_object (sqlite_driver demo_crates) demo_bucket_key (object_key_new ''b'') None c1 = (Inr rd, c2) \<and>
     read_body (rd_body rd) = Inr ''new''"
proof -
  let ?put = "put_object (sqlite_driver demo_crates) 5 demo_bucket_key (object_key_new ''b'') demo_owner [] [Inr ''new'']"
  let ?get = "get_object (sqlite_driver demo_crates) demo_bucket_key (object_key_new ''b'') None"
  have args: "from_utf8_ok (ok_name (object_key_new ''b''))" "bt_wf ([] :: attrs)" "body_fits [Inr ''new'']"
    by (simp_all add: demo_names_ok body_fits_def)
  obtain c1 where put: "?put demo_store = (Inr (demo_object ''b'' ''new''), c1)"
    by (rule demo_exact [OF sqr.put_object_exact [OF args, where now = 5 and bk = demo_bucket_key and ow = demo_owner]]) (simp add: spec_put_object_def demo_gw_ids Let_def)
  obtain r c2 where get: "?get c1 = (r, c2)" by fastforce
  from sqlite_get_after_put [OF demo_store_inv args put get] demo_store_calm put get show ?thesis by auto
qed

text \<open>
  After a successful delete the name is gone: a get of it, whole or by range,
  answers \<open>NoSuchKey\<close>, never data (or an internal error, when a call into SQLite fails).
\<close>

theorem sqlite_get_after_delete:
  assumes "sq_inv cr c" and "delete_object (sqlite_driver cr) b k c = (Inr (), c1)"
    and "get_object (sqlite_driver cr) b k rng c1 = (r, c2)"
  shows "(\<exists>m. r = Inl (InternalError m)) \<and> \<not> sq_calm cr c \<or> r = Inl NoSuchKey"
proof -
  from refinesD [OF sq.delete_object_ok assms(1,2)] have "sq_inv cr c1" by simp
  then have "\<not> (\<exists>m. r = Inl (InternalError m))" if "sq_calm cr c"
    using exactD [OF sqr.delete_object_exact assms(1) that assms(2)] sqr.get_not_internal [OF _ _ assms(3)] by blast
  with sq.get_deleted [OF assms] show ?thesis by (auto simp: is_internal_def)
qed

lemma sqlite_get_after_delete_witness:
  "\<exists>c1 c2. delete_object (sqlite_driver demo_crates) demo_bucket_key (object_key_new ''b'') demo_store = (Inr (), c1) \<and>
     get_object (sqlite_driver demo_crates) demo_bucket_key (object_key_new ''b'') None c1 = (Inl NoSuchKey, c2)"
proof -
  obtain c1 where del: "delete_object (sqlite_driver demo_crates) demo_bucket_key (object_key_new ''b'') demo_store = (Inr (), c1)"
    by (rule demo_exact [OF sqr.delete_object_exact [of demo_crates demo_bucket_key "object_key_new ''b''"]])
      (simp add: spec_delete_object_def g_find_object_def demo_gw_ids demo_gw_objects bt_get_def)
  obtain r c2 where get: "get_object (sqlite_driver demo_crates) demo_bucket_key (object_key_new ''b'') None c1 = (r, c2)"
    by fastforce
  from sqlite_get_after_delete [OF demo_store_inv del get] demo_store_calm del get show ?thesis by auto
qed

text \<open>
  C12 (bounds): a ranged get returns exactly the bytes it announces: the announced first and last
  positions lie inside the object, the body is the payload from the first to the last, both
  included, and a range that selects nothing is an error and never an empty success.
\<close>

theorem sqlite_get_range:
  assumes "sq_inv cr c" and "get_object (sqlite_driver cr) b k (Some rng) c = (Inr rd, c')"
  shows "\<exists>ob d lo hi. bt_get (g_objects (sq_view cr c)) (bk_bucket_id b, ok_name k) = Some (ob, d) \<and>
    rd_info rd = ob \<and> rd_range rd = Some (of_nat lo, of_nat hi) \<and> lo \<le> hi \<and> hi < length d \<and>
    (\<exists>x. read_body (rd_body rd) = Inr x \<and> length x = hi - lo + 1 \<and> (\<forall>i < length x. x ! i = d ! (lo + i)))"
proof (rule sq.get_slice [OF assms])
  fix ob d lo hi
  assume *: "bt_get (g_objects (sq_view cr c)) (bk_bucket_id b, ok_name k) = Some (ob, d)" "rd_info rd = ob"
    "spec_range rng (length d) = Some (lo, hi)" "rd_range rd = Some (of_nat lo, of_nat hi)"
    "rd_body rd = body_from_bytes (take (hi - lo + 1) (drop lo d))"
  have "lo \<le> hi" "hi < length d" using spec_range_bounds [OF *(3)] by auto
  with * show ?thesis by auto
qed

lemma sqlite_get_range_witness:
  "\<exists>rd c'. get_object (sqlite_driver demo_crates) demo_bucket_key (object_key_new ''b'') (Some (Absolute 1 None)) demo_store = (Inr rd, c') \<and>
     (\<exists>x. read_body (rd_body rd) = Inr x \<and> length x = 2 \<and> x ! 0 = CHR ''w'')"
proof -
  let ?get = "get_object (sqlite_driver demo_crates) demo_bucket_key (object_key_new ''b'') (Some (Absolute 1 None))"
  obtain rd c' where get: "?get demo_store = (Inr rd, c')" "rd_range rd = Some (1, 2)"
    by (rule demo_exact [OF sqr.get_object_exact [of demo_crates demo_bucket_key "object_key_new ''b''" "Some (Absolute 1 None)"]])
      (simp add: spec_get_object_def g_find_object_def demo_gw_ids demo_gw_objects bt_get_def spec_range_def Let_def)
  from sqlite_get_range [OF demo_store_inv get(1)] obtain ob lo hi where
    *: "lo \<le> hi" "hi < length ''two''" "rd_range rd = Some (of_nat lo, of_nat hi)"
      "\<exists>x. read_body (rd_body rd) = Inr x \<and> length x = hi - lo + 1 \<and> (\<forall>i < length x. x ! i = ''two'' ! (lo + i))"
    by (auto simp: demo_store_view demo_gw_objects bt_get_def)
  have "lo < 3" "hi < 3" using * by auto
  then have "lo = 1" "hi = 2" using * get(2) by (auto simp: less_Suc_eq numeral_eq_Suc)
  with * get(1) show ?thesis by auto
qed

text \<open>
  \<open>resolve_range\<close> succeeds exactly on the ranges that select a byte, with positions
  inside the object computed without overflow, and fails with \<open>InvalidRange\<close> on all others.
\<close>

lemma resolve_range_bounds:
  "case resolve_range r sz of
     Inr (s, e) \<Rightarrow> s \<le> e \<and> e < sz \<and> spec_range r (unat sz) = Some (unat s, unat e)
   | Inl err \<Rightarrow> err = InvalidRange \<and> spec_range r (unat sz) = None"
proof (cases "spec_range r (unat sz)")
  case (Some p)
  obtain lo hi where p: "p = (lo, hi)" by (cases p)
  have b: "lo \<le> hi" "hi < unat sz" using spec_range_bounds [of r "unat sz" lo hi] Some p by auto
  moreover have "unat sz < 2 ^ 64" using unsigned_less [of sz, where ?'a = nat] by simp
  ultimately have "unat (of_nat lo :: u64) = lo" "unat (of_nat hi :: u64) = hi"
    using unat_of_nat_u64 by auto
  with b Some p show ?thesis
    by (simp add: resolve_range_contract word_le_nat_alt word_less_nat_alt)
qed (simp add: resolve_range_contract)

text \<open>
  C8 (equivalence): \<open>list_page\<close>'s single scan computes the listing the contract defines: the
  distinct entries (keys, and common prefixes standing for the keys that share them) after the
  marker, in strictly ascending order, at most a page of them, truncated exactly when some are left.
\<close>

theorem sqlite_list_objects:
  assumes "sq_inv cr c" and "from_utf8_ok (lp_prefix p)" and "CHR 0x00 \<notin> set (lp_prefix p)"
    and "list_objects (sqlite_driver cr) b p c = (Inr res, c')"
  shows "let n = page_size (lp_max_keys p); es = entries_after p (g_objects_of (sq_view cr c) (bk_bucket_id b)) in
    res = page_of n es \<and> sorted_wrt (\<lambda>x y. entry_name x < entry_name y) es \<and>
    length (lr_objects res) + length (lr_common_prefixes res) \<le> n"
proof -
  let ?es = "entries_after p (g_objects_of (sq_view cr c) (bk_bucket_id b))"
  have "sorted_wrt (\<lambda>x y. entry_name x < entry_name y) ?es"
    using assms(1) by (auto simp: sq_view_def sq_inv_def intro: entries_after_strict obs_sorted_view)
  moreover have "length (entry_objects es) + length (entry_prefixes es) = length es" for es
    by (induction es) (auto simp: entry_objects_def entry_prefixes_def map_filter_simps split: entry.splits)
  moreover from this have "length (entry_objects (take n ?es)) + length (entry_prefixes (take n ?es)) \<le> n" for n
    by (simp add: min_def)
  ultimately show ?thesis using sq.list_page_run [OF assms] by (simp add: Let_def)
qed

definition demo_params :: list_params where
  "demo_params = \<lparr>lp_prefix = [], lp_delimiter = ''/'', lp_marker = [], lp_max_keys = 1\<rparr>"

lemma demo_params_ok: "from_utf8_ok (lp_prefix demo_params)" "CHR 0x00 \<notin> set (lp_prefix demo_params)"
proof -
  have "from_utf8_ok []" by code_simp
  then show "from_utf8_ok (lp_prefix demo_params)" "CHR 0x00 \<notin> set (lp_prefix demo_params)"
    by (simp_all add: demo_params_def)
qed

lemma demo_entries: "entries_after demo_params (g_objects_of demo_gw ''i'') =
    [EPrefix ''a/'', EObject (canon_object (demo_object ''b'' ''two''))]"
proof -
  have "common_prefix [] ''/'' ''a/1'' = Some ''a/''" "common_prefix [] ''/'' ''b'' = None" by code_simp+
  then show ?thesis
    by (simp add: g_objects_of_def demo_gw_objects entries_after_def list_entries_def demo_params_def entry_of_def
        new_object_def object_key_new_def)
qed

lemma demo_page:
  obtains c1 where "list_objects (sqlite_driver demo_crates) demo_bucket_key demo_params demo_store =
      (Inr (page_of 1 [EPrefix ''a/'', EObject (canon_object (demo_object ''b'' ''two''))]), c1)"
    and "sq_calm demo_crates c1" and "sq_view demo_crates c1 = demo_gw"
  by (rule demo_exact [OF sqr.list_objects_exact [OF demo_params_ok, of demo_crates demo_bucket_key]])
    (simp add: spec_list_objects_def demo_gw_ids demo_entries, simp add: demo_params_def page_size_def)

lemma sqlite_list_objects_witness:
  "\<exists>res c'. list_objects (sqlite_driver demo_crates) demo_bucket_key demo_params demo_store = (Inr res, c') \<and>
     lr_common_prefixes res = [''a/''] \<and> lr_objects res = [] \<and> lr_is_truncated res"
proof (rule demo_page)
  fix c1
  assume run: "list_objects (sqlite_driver demo_crates) demo_bucket_key demo_params demo_store =
      (Inr (page_of 1 [EPrefix ''a/'', EObject (canon_object (demo_object ''b'' ''two''))]), c1)"
  have mx: "page_size (lp_max_keys demo_params) = 1" by (simp add: demo_params_def page_size_def)
  from sqlite_list_objects [OF demo_store_inv demo_params_ok run] run show ?thesis
    by (simp add: demo_store_view demo_entries mx entry_objects_def entry_prefixes_def map_filter_simps Let_def)
qed

text \<open>
  C9 (liveness): paging makes progress and loses nothing: when a listing is truncated, its next
  marker lies after the request's, and the listing from that marker is the page of exactly the
  entries the first one left out.
\<close>

theorem sqlite_next_page:
  assumes inv: "sq_inv cr c" and pre: "from_utf8_ok (lp_prefix p)" "CHR 0x00 \<notin> set (lp_prefix p)"
    and first: "list_objects (sqlite_driver cr) b p c = (Inr res, c1)" and trunc: "lr_is_truncated res"
    and "next": "list_objects (sqlite_driver cr) b (p\<lparr>lp_marker := lr_next_marker res\<rparr>) c1 = (Inr res2, c2)"
  shows "let n = page_size (lp_max_keys p); es = entries_after p (g_objects_of (sq_view cr c) (bk_bucket_id b)) in
    res = page_of n es \<and> res2 = page_of n (drop n es) \<and> n < length es \<and> lp_marker p < lr_next_marker res"
proof -
  let ?obs = "g_objects_of (sq_view cr c) (bk_bucket_id b)"
  let ?n = "page_size (lp_max_keys p)" and ?es = "entries_after p ?obs"
  from sq.list_page_run [OF inv pre first]
  have 1: "sq_inv cr c1" "sq_view cr c1 = sq_view cr c" "res = page_of ?n ?es" by auto
  from sq.list_page_run [OF 1(1) _ _ "next"] pre 1(2)
  have 2: "res2 = page_of ?n (entries_after (p\<lparr>lp_marker := lr_next_marker res\<rparr>) ?obs)" by simp
  have n: "?n < length ?es" using trunc 1(3) by simp
  then have ne: "?es \<noteq> []" by auto
  have "obs_sorted ?obs" using inv by (simp add: sq_view_def sq_inv_def obs_sorted_view)
  from entries_resume [OF this page_size_pos(1) ne] 1(3) 2 have "res2 = page_of ?n (drop ?n ?es)" by simp
  moreover have "lp_marker p < lr_next_marker res"
  proof -
    have "last (take ?n ?es) \<in> set ?es" using ne by (metis in_set_takeD last_in_set page_size_pos(2) take_eq_Nil)
    then show ?thesis using 1(3) ne by (auto simp: page_of_def Let_def entries_after_def)
  qed
  ultimately show ?thesis using 1(3) n by (simp add: Let_def)
qed

lemma sqlite_next_page_witness:
  "\<exists>res c1 res2 c2. list_objects (sqlite_driver demo_crates) demo_bucket_key demo_params demo_store = (Inr res, c1) \<and>
     list_objects (sqlite_driver demo_crates) demo_bucket_key (demo_params\<lparr>lp_marker := lr_next_marker res\<rparr>) c1 = (Inr res2, c2) \<and>
     map (ok_name \<circ> oi_key) (lr_objects res2) = [''b''] \<and> \<not> lr_is_truncated res2"
proof (rule demo_page)
  fix c1
  let ?es = "[EPrefix ''a/'', EObject (canon_object (demo_object ''b'' ''two''))]"
  let ?p = "demo_params\<lparr>lp_marker := lr_next_marker (page_of 1 ?es)\<rparr>"
  assume run: "list_objects (sqlite_driver demo_crates) demo_bucket_key demo_params demo_store = (Inr (page_of 1 ?es), c1)"
    and c1: "sq_calm demo_crates c1" "sq_view demo_crates c1 = demo_gw"
  have inv: "sq_inv demo_crates c1" using sq.list_page_run [OF demo_store_inv demo_params_ok run] by simp
  have ok: "from_utf8_ok (lp_prefix ?p)" "CHR 0x00 \<notin> set (lp_prefix ?p)" using demo_params_ok by simp_all
  obtain r2 c2 where run2: "list_objects (sqlite_driver demo_crates) demo_bucket_key ?p c1 = (r2, c2)" by fastforce
  from exactD [OF sqr.list_objects_exact [OF ok] inv c1(1) run2] c1(2)
  have "(r2, sq_view demo_crates c2) = spec_list_objects demo_bucket_key ?p demo_gw" by simp
  then obtain res2 where r2: "r2 = Inr res2" by (simp add: spec_list_objects_def demo_gw_ids)
  have "lr_is_truncated (page_of 1 ?es)" by simp
  from sqlite_next_page [OF demo_store_inv demo_params_ok run this run2 [unfolded r2]]
  have "res2 = page_of 1 (drop 1 ?es)"
    by (simp add: Let_def demo_store_view demo_entries) (simp add: demo_params_def page_size_def)
  then have "map (ok_name \<circ> oi_key) (lr_objects res2) = [''b'']" "\<not> lr_is_truncated res2"
    by (simp_all add: entry_objects_def map_filter_simps new_object_def)
  with run run2 r2 show ?thesis by (intro exI [of _ "page_of 1 ?es"] exI [of _ c1] exI [of _ res2] exI [of _ c2]) simp
qed

text \<open>
  C13 (safety): in every store a history of calls reaches, an access key belongs to one user, and
  looking it up gives that user's current record or an internal error - the precondition of
  authentication.
\<close>

theorem sqlite_key_owner:
  assumes "crates_ok cr" and "history (sqlite_driver cr) \<lparr>cn_db = db_empty, cn_faults = fs\<rparr> c"
    and u: "bt_get (g_users (sq_view cr c)) uid = Some u" "user_has_key u k"
  shows "(\<forall>uid' u'. bt_get (g_users (sq_view cr c)) uid' = Some u' \<longrightarrow> user_has_key u' k \<longrightarrow> uid' = uid) \<and>
    (\<forall>r c'. load_user_by_access_key (sqlite_driver cr) k c = (r, c') \<longrightarrow> r = Inr u \<or> (\<exists>m. r = Inl (InternalError m)))"
proof -
  from empty_conn_inv [OF assms(1), of "\<lparr>cn_db = db_empty, cn_faults = fs\<rparr>"] sq.history_refines [OF assms(2)]
  have inv: "sq_inv cr c" by auto
  note key = gw_wf_key [OF sq.sinv_wf [OF inv], of k]
  have idx: "bt_get (g_keys (sq_view cr c)) k = Some uid" using key u by blast
  then have one: "bt_get (g_users (sq_view cr c)) uid' = Some u' \<Longrightarrow> user_has_key u' k \<Longrightarrow> uid' = uid" for uid' u'
    using key [of uid'] by auto
  have "r = Inr u \<or> (\<exists>m. r = Inl (InternalError m))"
    if "load_user_by_access_key (sqlite_driver cr) k c = (r, c')" for r c'
    using sq.reads_ok(2) [OF inv that] idx u(1) by (auto simp: spec_load_user_by_access_key_def is_internal_def)
  with one show ?thesis by blast
qed

lemma sqlite_key_owner_witness:
  "\<exists>c. history (sqlite_driver demo_crates) (conn_of db_empty) c \<and>
     (\<forall>r c'. load_user_by_access_key (sqlite_driver demo_crates) ''AKID'' c = (r, c') \<longrightarrow>
        r = Inr demo_alice \<or> (\<exists>m. r = Inl (InternalError m)))"
proof -
  let ?c = "exec_ops (sqlite_driver demo_crates) [StoreUser demo_alice True] (conn_of db_empty)"
  have ok: "list_all op_ok [StoreUser demo_alice True]" by code_simp
  have h: "history (sqlite_driver demo_crates) (conn_of db_empty) ?c"
    by (rule exec_ops_history [OF ok history.start])
  have "sq_view demo_crates ?c = spec_ops (md5_hex demo_crates) [StoreUser demo_alice True] gw_empty"
    using sqr.ops_exact [OF ok, of demo_crates "conn_of db_empty"] empty_conn_inv [of demo_crates "conn_of db_empty"]
    by (simp add: sq_calm_def)
  moreover have "bt_get (g_users (spec_ops etag [StoreUser demo_alice True] gw_empty)) ''alice'' = Some demo_alice" for etag
    by (simp add: try_a_apply spec_store_user_def gw_empty_def demo_alice_def add_access_key_def user_info_new_def
        user_id_new_def user_id_display_def g_key_clash_iff g_put_user_def bt_get_def Let_def canon_user_def
        canon_user_id_def user_id_parse_def)
  ultimately have u: "bt_get (g_users (sq_view demo_crates ?c)) ''alice'' = Some demo_alice" by (simp only:)
  have k: "user_has_key demo_alice ''AKID''" by (simp add: demo_alice_def user_has_key_add)
  from sqlite_key_owner [OF demo_crates_sq _ u k, of "[]"] h
  have "\<forall>r c'. load_user_by_access_key (sqlite_driver demo_crates) ''AKID'' ?c = (r, c') \<longrightarrow>
      r = Inr demo_alice \<or> (\<exists>m. r = Inl (InternalError m))" by (simp add: conn_of_def)
  with h show ?thesis by (intro exI [of _ ?c] conjI)
qed

end
