(* ===== verification/Http.thy ===== *)
theory Http
  imports Sal
begin

section \<open>Requests and headers\<close>

text \<open>
  A \<open>HeaderMap\<close> is the list of its \<open>(name, value)\<close> pairs, names in lower case; \<open>get\<close> is the
  first value of a name. A request is the parts of an \<open>http::Request\<close> the source reads: the URI the
  client sent (\<open>OriginalUri\<close>), the authority, the headers, the body and, once authenticated, its
  identity extension.
\<close>

type_synonym headers = "(string \<times> bytes) list"

definition hdr_get :: "headers \<Rightarrow> string \<Rightarrow> bytes option" where
  "hdr_get hs n = map_of hs n"

definition hdr_get_all :: "headers \<Rightarrow> string \<Rightarrow> bytes list" where
  "hdr_get_all hs n = map snd (filter (\<lambda>(k, _). k = n) hs)"

definition hdr_remove :: "string \<Rightarrow> headers \<Rightarrow> headers" where
  "hdr_remove n hs = filter (\<lambda>(k, _). k \<noteq> n) hs"

fun hdr_insert :: "string \<Rightarrow> bytes \<Rightarrow> headers \<Rightarrow> headers" where
  "hdr_insert n v [] = [(n, v)]"
| "hdr_insert n v ((k, w) # hs) = (if k = n then (n, v) # hdr_remove n hs else (k, w) # hdr_insert n v hs)"

text \<open>\<open>HeaderValue::to_str\<close> accepts visible ASCII, the space and the tab.\<close>

definition hdr_char_ok :: "char \<Rightarrow> bool" where
  "hdr_char_ok c \<longleftrightarrow> 32 \<le> byte c \<and> byte c < 127 \<or> byte c = 9"

definition hdr_to_str :: "bytes \<Rightarrow> string option" where
  "hdr_to_str v = (if list_all hdr_char_ok v then Some v else None)"

text \<open>\<open>HeaderValue::from_str\<close> accepts every byte from 32 on but DEL, and the tab.\<close>

definition hdr_from_str_ok :: "string \<Rightarrow> bool" where
  "hdr_from_str_ok s \<longleftrightarrow> list_all (\<lambda>c. 32 \<le> byte c \<and> byte c \<noteq> 127 \<or> byte c = 9) s"

definition header_str :: "headers \<Rightarrow> string \<Rightarrow> string option" where
  "header_str hs n = Option.bind (hdr_get hs n) hdr_to_str"

lemma hdr_get_remove: "hdr_get (hdr_remove n hs) m = (if m = n then None else hdr_get hs m)"
  by (induction hs) (auto simp: hdr_get_def hdr_remove_def)

lemma hdr_get_insert: "hdr_get (hdr_insert n v hs) m = (if m = n then Some v else hdr_get hs m)"
  by (induction n v hs rule: hdr_insert.induct)
    (auto simp: hdr_get_def hdr_get_remove [unfolded hdr_get_def])

lemma hdr_get_all_insert: "hdr_get_all (hdr_insert n v hs) n = [v]"
  by (induction n v hs rule: hdr_insert.induct) (auto simp: hdr_get_all_def hdr_remove_def filter_empty_conv)

end
