(* ===== verification/Sigv4.thy ===== *)
theory Sigv4
  imports Http
begin

section \<open>\<open>rgw-auth/src/sigv4.rs\<close>: AWS Signature Version 4\<close>

text \<open>
  Parsing the \<open>Authorization\<close> header, the canonical request, the string to sign and the signing
  key. The digests, MACs, percent decoding and time formats are those of the crates record.
\<close>

definition ALGORITHM :: string where "ALGORITHM = ''AWS4-HMAC-SHA256''"
definition CHUNK_ALGORITHM :: string where "CHUNK_ALGORITHM = ''AWS4-HMAC-SHA256-PAYLOAD''"
definition EMPTY_SHA256 :: string where
  "EMPTY_SHA256 = ''e3b0c44298fc1c149afbf4c8996fb92427ae41e4649b934ca495991b7852b855''"
definition UNSIGNED_PAYLOAD :: string where "UNSIGNED_PAYLOAD = ''UNSIGNED-PAYLOAD''"
definition STREAMING_SIGNED :: string where "STREAMING_SIGNED = ''STREAMING-AWS4-HMAC-SHA256-PAYLOAD''"
definition STREAMING_SIGNED_TRAILER :: string where
  "STREAMING_SIGNED_TRAILER = ''STREAMING-AWS4-HMAC-SHA256-PAYLOAD-TRAILER''"
definition STREAMING_UNSIGNED_TRAILER :: string where
  "STREAMING_UNSIGNED_TRAILER = ''STREAMING-UNSIGNED-PAYLOAD-TRAILER''"

abbreviation nl :: string where "nl \<equiv> [CHR 0x0A]"

record credential_scope =
  cs_date :: string
  cs_region :: string
  cs_service :: string

definition scope_display :: "credential_scope \<Rightarrow> string" where
  "scope_display s = cs_date s @ ''/'' @ cs_region s @ ''/'' @ cs_service s @ ''/aws4_request''"

record authorization_v4 =
  av_access_key_id :: string
  av_scope :: credential_scope
  av_signed_headers :: "string list"
  av_signature :: string

definition malformed :: "string \<Rightarrow> rgw_error" where
  "malformed why = AuthorizationHeaderMalformed why"

subsection \<open>\<open>parse_authorization\<close>\<close>

text \<open>The three slots of the field loop.\<close>

record auth_slots =
  sl_credential :: "string option"
  sl_signed_headers :: "string option"
  sl_signature :: "string option"

definition set_slot :: "string \<Rightarrow> auth_slots \<Rightarrow> auth_slots rgw_result" where
  "set_slot field sl = (case split_once (CHR ''='') field of
       None \<Rightarrow> Inl (malformed (''field without '' @ [CHR 0x27, CHR ''='', CHR 0x27]))
     | Some (name, val) \<Rightarrow>
         (let name = trim name; dup = Inl (malformed ''duplicate authorization field'') in
          if name = ''Credential'' then
            (if sl_credential sl = None then Inr (sl\<lparr>sl_credential := Some (trim val)\<rparr>) else dup)
          else if name = ''SignedHeaders'' then
            (if sl_signed_headers sl = None then Inr (sl\<lparr>sl_signed_headers := Some (trim val)\<rparr>) else dup)
          else if name = ''Signature'' then
            (if sl_signature sl = None then Inr (sl\<lparr>sl_signature := Some (trim val)\<rparr>) else dup)
          else Inl (malformed ''unknown authorization field'')))"

text \<open>\<open>rsplitn(5, '/')\<close>: at most five pieces from the right, the fifth the unsplit rest.\<close>

definition rsplitn :: "nat \<Rightarrow> char \<Rightarrow> string \<Rightarrow> string list" where
  "rsplitn n c s =
     (let ps = split_c c s; k = length ps - (n - 1) in
      if length ps \<le> n then rev ps else rev (drop k ps) @ [join [c] (take k ps)])"

definition parse_credential :: "string \<Rightarrow> (string \<times> credential_scope) rgw_result" where
  "parse_credential credential = (case rsplitn 5 (CHR ''/'') credential of
       [terminator, service, region, date, access_key_id] \<Rightarrow>
         if access_key_id = [] then Inl (malformed ''empty access key id'')
         else if terminator \<noteq> ''aws4_request'' then
           Inl (malformed ''credential scope must end in aws4_request'')
         else if length date \<noteq> 8 \<or> \<not> list_all is_ascii_digit date then
           Inl (malformed ''credential date must be yyyymmdd'')
         else if service \<noteq> ''s3'' then Inl (malformed ''credential service must be s3'')
         else Inr (access_key_id, \<lparr>cs_date = date, cs_region = region, cs_service = service\<rparr>)
     | _ \<Rightarrow> Inl (malformed ''short Credential''))"

definition parse_signed_headers :: "string \<Rightarrow> string list rgw_result" where
  "parse_signed_headers s =
     (let hs = split_c (CHR '';'') s in
      if list_ex (\<lambda>h. h = [] \<or> list_ex is_ascii_uppercase h) hs then
        Inl (malformed ''SignedHeaders must be non-empty lowercase names'')
      else if \<not> successively (<) hs then Inl (malformed ''SignedHeaders must be sorted'')
      else if ''host'' \<notin> set hs then Inl (malformed ''SignedHeaders must include host'')
      else Inr hs)"

definition collect_fields :: "string \<Rightarrow> auth_slots rgw_result" where
  "collect_fields rest =
     try_fold set_slot (filter (\<lambda>f. f \<noteq> []) (map trim (split_c (CHR '','') rest)))
       \<lparr>sl_credential = None, sl_signed_headers = None, sl_signature = None\<rparr>"

definition parse_authorization :: "string \<Rightarrow> authorization_v4 rgw_result" where
  "parse_authorization value =
     try_r (case strip_prefix ALGORITHM value of
         Some (c # r) \<Rightarrow> if c = CHR '' '' \<or> c = CHR 0x09 then Inr (c # r)
                         else Inl (malformed ''unsupported authorization algorithm'')
       | _ \<Rightarrow> Inl (malformed ''unsupported authorization algorithm'')) (\<lambda>rest.
     try_r (collect_fields rest) (\<lambda>sl.
     try_r (ok_or (malformed ''missing Credential'') (sl_credential sl)) (\<lambda>credential.
     try_r (ok_or (malformed ''missing SignedHeaders'') (sl_signed_headers sl)) (\<lambda>signed_headers.
     try_r (ok_or (malformed ''missing Signature'') (sl_signature sl)) (\<lambda>signature.
     try_r (parse_credential credential) (\<lambda>(access_key_id, scope).
     try_r (parse_signed_headers signed_headers) (\<lambda>hs.
     if length signature \<noteq> 64 \<or> \<not> list_all is_ascii_hexdigit signature then
       Inl (malformed ''Signature must be 64 hex characters'')
     else Inr \<lparr>av_access_key_id = access_key_id, av_scope = scope, av_signed_headers = hs,
               av_signature = to_ascii_lowercase signature\<rparr>)))))))"

subsection \<open>Times\<close>

definition parse_amz_date :: "'j crates \<Rightarrow> string \<Rightarrow> time option" where
  "parse_amz_date cr s = parse_amz cr s"

definition format_amz_date :: "'j crates \<Rightarrow> time \<Rightarrow> string" where
  "format_amz_date cr t = format_amz cr t"

definition parse_http_date :: "'j crates \<Rightarrow> string \<Rightarrow> time option" where
  "parse_http_date cr s = parse_rfc2822 cr s"

subsection \<open>The canonical request\<close>

definition is_unreserved :: "char \<Rightarrow> bool" where
  "is_unreserved c \<longleftrightarrow> is_ascii_alphanumeric c \<or> c \<in> {CHR ''-'', CHR ''_'', CHR ''.'', CHR ''~''}"

text \<open>\<open>{b:02X}\<close> of a byte.\<close>

definition hex_upper :: "nat \<Rightarrow> char" where
  "hex_upper d = (if d < 10 then char_of (48 + d) else char_of (55 + d))"

definition uri_encode :: "bytes \<Rightarrow> bool \<Rightarrow> string" where
  "uri_encode b encode_slash =
     concat (map (\<lambda>c. if is_unreserved c \<or> c = CHR ''/'' \<and> \<not> encode_slash then [c]
                      else [CHR ''%'', hex_upper (byte c div 16), hex_upper (byte c mod 16)]) b)"

definition uri_recode :: "'j crates \<Rightarrow> string \<Rightarrow> bool \<Rightarrow> string" where
  "uri_recode cr s encode_slash = uri_encode (percent_decode cr s) encode_slash"

definition canonical_uri :: "'j crates \<Rightarrow> string \<Rightarrow> string" where
  "canonical_uri cr path = (if path = [] then ''/'' else uri_recode cr path False)"

text \<open>\<open>query.replace('+', "%20")\<close>.\<close>

definition plus_to_space :: "string \<Rightarrow> string" where
  "plus_to_space q = concat (map (\<lambda>c. if c = CHR ''+'' then ''%20'' else [c]) q)"

definition query_pair :: "string \<Rightarrow> string \<times> string" where
  "query_pair s = (case split_once (CHR ''='') s of None \<Rightarrow> (s, []) | Some p \<Rightarrow> p)"

definition canonical_pairs :: "'j crates \<Rightarrow> string \<Rightarrow> (string \<times> string) list" where
  "canonical_pairs cr query =
     sort (map (\<lambda>s. case query_pair s of (n, v) \<Rightarrow> (uri_recode cr n True, uri_recode cr v True))
       (filter (\<lambda>s. s \<noteq> []) (split_c (CHR ''&'') (plus_to_space query))))"

definition canonical_query :: "'j crates \<Rightarrow> string \<Rightarrow> string" where
  "canonical_query cr query = join ''&'' (map (\<lambda>(n, v). n @ ''='' @ v) (canonical_pairs cr query))"

definition collapse_whitespace :: "string \<Rightarrow> string" where
  "collapse_whitespace s = join '' '' (split_ascii_whitespace s)"

definition canonical_header :: "headers \<Rightarrow> string option \<Rightarrow> string \<Rightarrow> string" where
  "canonical_header hs authority name =
     (let vs = map (\<lambda>v. collapse_whitespace (from_utf8_lossy v)) (hdr_get_all hs name);
          values = (if vs = [] \<and> name = ''host''
                    then (case authority of None \<Rightarrow> [] | Some a \<Rightarrow> [collapse_whitespace a]) else vs)
      in if values = [] then [] else name @ '':'' @ join '','' values @ nl)"

definition canonical_headers :: "headers \<Rightarrow> string option \<Rightarrow> string list \<Rightarrow> string" where
  "canonical_headers hs authority signed_headers = concat (map (canonical_header hs authority) signed_headers)"

definition canonical_request ::
    "'j crates \<Rightarrow> string \<Rightarrow> string \<Rightarrow> string \<Rightarrow> headers \<Rightarrow> string option \<Rightarrow> string list \<Rightarrow> string \<Rightarrow> string" where
  "canonical_request cr verb path query hs authority signed_headers payload_hash =
     verb @ nl @ canonical_uri cr path @ nl @ canonical_query cr query @ nl @
     canonical_headers hs authority signed_headers @ nl @ join '';'' signed_headers @ nl @ payload_hash"

subsection \<open>Signatures\<close>

definition sha256_hex :: "'j crates \<Rightarrow> bytes \<Rightarrow> string" where
  "sha256_hex cr b = hex_encode cr (sha256_digest cr b)"

definition string_to_sign :: "'j crates \<Rightarrow> string \<Rightarrow> credential_scope \<Rightarrow> string \<Rightarrow> string" where
  "string_to_sign cr amz_date scope creq =
     ALGORITHM @ nl @ amz_date @ nl @ scope_display scope @ nl @ sha256_hex cr creq"

definition chunk_string_to_sign :: "'j crates \<Rightarrow> string \<Rightarrow> credential_scope \<Rightarrow> string \<Rightarrow> bytes \<Rightarrow> string" where
  "chunk_string_to_sign cr amz_date scope prev chunk =
     CHUNK_ALGORITHM @ nl @ amz_date @ nl @ scope_display scope @ nl @ prev @ nl @ EMPTY_SHA256 @ nl @
     sha256_hex cr chunk"

text \<open>\<open>Hmac::new_from_slice\<close> takes a key of any length, so its error never arises.\<close>

definition hmac_sha256 :: "'j crates \<Rightarrow> bytes \<Rightarrow> bytes \<Rightarrow> bytes rgw_result" where
  "hmac_sha256 cr key data = Inr (hmac_sha256_mac cr key data)"

definition signing_key :: "'j crates \<Rightarrow> string \<Rightarrow> credential_scope \<Rightarrow> bytes rgw_result" where
  "signing_key cr secret scope =
     try_r (hmac_sha256 cr (''AWS4'' @ secret) (cs_date scope)) (\<lambda>k_date.
     try_r (hmac_sha256 cr k_date (cs_region scope)) (\<lambda>k_region.
     try_r (hmac_sha256 cr k_region (cs_service scope)) (\<lambda>k_service.
     hmac_sha256 cr k_service ''aws4_request'')))"

definition signature_bytes :: "'j crates \<Rightarrow> bytes \<Rightarrow> string \<Rightarrow> bytes rgw_result" where
  "signature_bytes cr key sts = hmac_sha256 cr key sts"

definition signature_hex :: "'j crates \<Rightarrow> bytes \<Rightarrow> string \<Rightarrow> string rgw_result" where
  "signature_hex cr key sts = try_r (signature_bytes cr key sts) (\<lambda>b. Inr (hex_encode cr b))"

text \<open>The comparison accumulates the XOR of all 32 bytes.\<close>

definition byte_word :: "char \<Rightarrow> 8 word" where
  "byte_word c = of_nat (byte c)"

definition signature_matches :: "'j crates \<Rightarrow> bytes \<Rightarrow> string \<Rightarrow> bool" where
  "signature_matches cr computed provided_hex = (case hex_decode cr provided_hex of
       None \<Rightarrow> False
     | Some provided \<Rightarrow>
         length provided = 32 \<and>
         fold (\<lambda>(a, b) acc. or acc (xor (byte_word a) (byte_word b))) (zip computed provided) 0 = 0)"

subsection \<open>What the comparison decides\<close>

lemma unat_byte_word: "unat (byte_word c) = byte c"
  by (simp add: byte_word_def unat_of_nat take_bit_nat_eq_self)

lemma byte_word_inj: "byte_word a = byte_word b \<longleftrightarrow> a = b"
  by (metis byte_inj unat_byte_word)

lemma xor_eq_zero: "xor a b = (0 :: 8 word) \<longleftrightarrow> a = b"
proof
  assume "xor a b = 0"
  then have "xor (xor a b) b = b" by simp
  then show "a = b" by (simp add: xor.assoc)
qed simp

lemma xor_fold_zero:
  "fold (\<lambda>(a, b) acc. or acc (xor (byte_word a) (byte_word b))) ps acc = 0 \<longleftrightarrow>
     acc = 0 \<and> (\<forall>(a, b) \<in> set ps. a = b)"
proof (induction ps arbitrary: acc)
  case (Cons p ps)
  have "or acc (xor (byte_word a) (byte_word b)) = 0 \<longleftrightarrow> acc = 0 \<and> a = b" for a b
    by (simp add: or_eq_0_iff xor_eq_zero byte_word_inj)
  with Cons show ?case by (cases p) auto
qed simp

lemma signature_matches_code [code]:
  "signature_matches cr computed p = (case hex_decode cr p of None \<Rightarrow> False
     | Some q \<Rightarrow> length q = 32 \<and> list_all (\<lambda>(a, b). a = b) (zip computed q))"
  by (simp add: signature_matches_def xor_fold_zero list_all_iff split: option.splits)

lemma zip_all_eq: "length xs = length ys \<Longrightarrow> (\<forall>(a, b) \<in> set (zip xs ys). a = b) \<longleftrightarrow> xs = ys"
  by (induction xs ys rule: list_induct2) auto

text \<open>The constant-time comparison accepts exactly the hexadecimal forms of the computed tag.\<close>

lemma signature_matches_iff:
  assumes hex: "hex_ok cr" and len: "length computed = 32"
  shows "signature_matches cr computed p \<longleftrightarrow> to_ascii_lowercase p = hex_encode cr computed"
proof
  assume "signature_matches cr computed p"
  then obtain q where q: "hex_decode cr p = Some q" "length q = 32"
    "\<forall>(a, b) \<in> set (zip computed q). a = b"
    by (auto simp: signature_matches_def xor_fold_zero split: option.splits)
  then have "computed = q" using len by (simp add: zip_all_eq)
  with q hex show "to_ascii_lowercase p = hex_encode cr computed" by (simp add: hex_ok_def)
next
  assume "to_ascii_lowercase p = hex_encode cr computed"
  then have "hex_decode cr p = Some computed" using hex by (metis hex_ok_def)
  with len show "signature_matches cr computed p"
    by (simp add: signature_matches_def xor_fold_zero zip_all_eq)
qed

subsection \<open>What a parsed header guarantees\<close>

definition auth_wf :: "authorization_v4 \<Rightarrow> bool" where
  "auth_wf a \<longleftrightarrow>
     av_access_key_id a \<noteq> [] \<and>
     length (cs_date (av_scope a)) = 8 \<and> list_all is_ascii_digit (cs_date (av_scope a)) \<and>
     CHR ''/'' \<notin> set (cs_region (av_scope a)) \<and> cs_service (av_scope a) = ''s3'' \<and>
     ''host'' \<in> set (av_signed_headers a) \<and> sorted_wrt (<) (av_signed_headers a) \<and>
     (\<forall>h \<in> set (av_signed_headers a). h \<noteq> [] \<and> CHR '';'' \<notin> set h \<and> (\<forall>c \<in> set h. \<not> is_ascii_uppercase c)) \<and>
     length (av_signature a) = 64 \<and>
     (\<forall>c \<in> set (av_signature a). is_ascii_hexdigit c \<and> \<not> is_ascii_uppercase c)"

lemma rsplitn_sep_free: "i < n - 1 \<Longrightarrow> rsplitn n c s = ps \<Longrightarrow> i < length ps \<Longrightarrow> c \<notin> set (ps ! i)"
proof -
  assume i: "i < n - 1" and ps: "rsplitn n c s = ps" and len: "i < length ps"
  have "ps ! i \<in> set (split_c c s)"
  proof (cases "length (split_c c s) \<le> n")
    case True
    with ps len show ?thesis by (auto simp: rsplitn_def rev_nth)
  next
    case False
    let ?k = "length (split_c c s) - (n - 1)"
    from False ps have eq: "ps = rev (drop ?k (split_c c s)) @ [join [c] (take ?k (split_c c s))]"
      by (simp add: rsplitn_def Let_def)
    from False i have "i < length (rev (drop ?k (split_c c s)))" by simp
    then have "ps ! i \<in> set (rev (drop ?k (split_c c s)))" unfolding eq by (metis nth_append nth_mem)
    then show ?thesis by (auto dest: in_set_dropD)
  qed
  then show "c \<notin> set (ps ! i)" by (rule split_c_sep_free)
qed

lemma parse_credential_ok:
  assumes "parse_credential cred = Inr (ak, sc)"
  shows "ak \<noteq> [] \<and> length (cs_date sc) = 8 \<and> list_all is_ascii_digit (cs_date sc) \<and>
    CHR ''/'' \<notin> set (cs_region sc) \<and> cs_service sc = ''s3''"
proof -
  from assms obtain t s r d where rs: "rsplitn 5 (CHR ''/'') cred = [t, s, r, d, ak]"
    and sc: "sc = \<lparr>cs_date = d, cs_region = r, cs_service = s\<rparr>" "ak \<noteq> []" "length d = 8"
      "list_all is_ascii_digit d" "s = ''s3''"
    by (auto simp: parse_credential_def split: list.splits if_splits)
  from rsplitn_sep_free [of 2 5 "CHR ''/''" cred, OF _ rs] have "CHR ''/'' \<notin> set r" by (simp add: eval_nat_numeral)
  with sc show ?thesis by simp
qed

lemma parse_signed_headers_ok:
  assumes "parse_signed_headers s = Inr hs"
  shows "''host'' \<in> set hs \<and> sorted_wrt (<) hs \<and>
    (\<forall>h \<in> set hs. h \<noteq> [] \<and> CHR '';'' \<notin> set h \<and> (\<forall>c \<in> set h. \<not> is_ascii_uppercase c))"
proof -
  from assms have hs: "hs = split_c (CHR '';'') s" "''host'' \<in> set hs" "successively (<) hs"
    "\<forall>h \<in> set hs. h \<noteq> [] \<and> (\<forall>c \<in> set h. \<not> is_ascii_uppercase c)"
    by (auto simp: parse_signed_headers_def Let_def list_ex_iff split: if_splits)
  moreover have "sorted_wrt (<) hs" using hs(3) by (simp add: successively_conv_sorted_wrt)
  ultimately show ?thesis using split_c_sep_free by blast
qed

lemma parse_authorization_wf:
  assumes "parse_authorization value = Inr a"
  shows "auth_wf a"
proof -
  from assms obtain cred hstr sig ak sc hs where
    c: "parse_credential cred = Inr (ak, sc)" and h: "parse_signed_headers hstr = Inr hs"
    and s: "length sig = 64" "list_all is_ascii_hexdigit sig"
    and a: "a = \<lparr>av_access_key_id = ak, av_scope = sc, av_signed_headers = hs, av_signature = to_ascii_lowercase sig\<rparr>"
    by (auto simp: parse_authorization_def try_r_Inr_iff split: if_splits)
  have "\<forall>c \<in> set (to_ascii_lowercase sig). is_ascii_hexdigit c \<and> \<not> is_ascii_uppercase c"
    using s(2) by (auto simp: to_ascii_lowercase_def list_all_iff)
  with parse_credential_ok [OF c] parse_signed_headers_ok [OF h] s(1) a show ?thesis
    by (simp add: auth_wf_def)
qed

subsection \<open>The header a client writes\<close>

text \<open>
  The header in the form of the AWS documentation, which a client sends. Reading it gives the
  fields back when they are printable and hold no comma.
\<close>

definition authorization_header :: "authorization_v4 \<Rightarrow> string" where
  "authorization_header a =
     ALGORITHM @ '' Credential='' @ av_access_key_id a @ ''/'' @ scope_display (av_scope a) @
     '', SignedHeaders='' @ join '';'' (av_signed_headers a) @ '', Signature='' @ av_signature a"

definition header_text :: "string \<Rightarrow> bool" where
  "header_text s \<longleftrightarrow> (\<forall>c \<in> set s. is_ascii_graphic c \<and> c \<noteq> CHR '','')"

lemma split_c_append_sep: "split_c c (a @ c # b) = split_c c a @ split_c c b"
proof (induction a)
  case (Cons x a)
  then show ?case by (cases "split_c c a") auto
qed simp

lemma rsplitn_4:
  assumes "CHR ''/'' \<notin> set d" "CHR ''/'' \<notin> set r" "CHR ''/'' \<notin> set s" "CHR ''/'' \<notin> set t"
  shows "rsplitn 5 (CHR ''/'') (a @ ''/'' @ d @ ''/'' @ r @ ''/'' @ s @ ''/'' @ t) = [t, s, r, d, a]"
proof -
  let ?q = "split_c (CHR ''/'') a"
  have ps: "split_c (CHR ''/'') (a @ ''/'' @ d @ ''/'' @ r @ ''/'' @ s @ ''/'' @ t) = ?q @ [d, r, s, t]"
    using assms by (simp add: split_c_append_sep split_c_no_sep)
  show ?thesis
  proof (cases "length ?q = 1")
    case True
    then have "?q = [a]" using join_split_c [of "CHR ''/''" a] by (auto simp: length_Suc_conv)
    then show ?thesis unfolding rsplitn_def ps by simp
  next
    case False
    then have "1 < length ?q" by (metis split_c_ne length_0_conv less_one linorder_neqE_nat)
    then show ?thesis unfolding rsplitn_def ps Let_def using join_split_c [of "CHR ''/''" a] by simp
  qed
qed

lemma digits_no_slash: "list_all is_ascii_digit d \<Longrightarrow> CHR ''/'' \<notin> set d"
  by (auto simp: list_all_iff is_ascii_digit_def)

lemma header_text_append: "header_text (x @ y) \<longleftrightarrow> header_text x \<and> header_text y"
  by (auto simp: header_text_def)

lemma set_join_subset: "set (join sep xs) \<subseteq> set sep \<union> (\<Union>x \<in> set xs. set x)"
  by (induction sep xs rule: join.induct) auto

lemma header_text_join: "(\<And>h. h \<in> set hs \<Longrightarrow> header_text h) \<Longrightarrow> header_text (join '';'' hs)"
proof -
  assume *: "\<And>h. h \<in> set hs \<Longrightarrow> header_text h"
  have "is_ascii_graphic CHR '';''" by (simp add: is_ascii_graphic_def)
  with * set_join_subset [of "'';''" hs] show ?thesis by (fastforce simp: header_text_def)
qed

lemma header_text_trim: "header_text s \<Longrightarrow> trim s = s"
  by (auto simp: header_text_def intro: trim_graphic)

lemma parse_credential_written:
  assumes "auth_wf a"
  shows "parse_credential (av_access_key_id a @ ''/'' @ scope_display (av_scope a)) = Inr (av_access_key_id a, av_scope a)"
proof -
  have "rsplitn 5 (CHR ''/'') (av_access_key_id a @ ''/'' @ cs_date (av_scope a) @ ''/'' @ cs_region (av_scope a) @
      ''/'' @ cs_service (av_scope a) @ ''/'' @ ''aws4_request'') =
      [''aws4_request'', cs_service (av_scope a), cs_region (av_scope a), cs_date (av_scope a), av_access_key_id a]"
    using assms by (intro rsplitn_4) (auto simp: auth_wf_def digits_no_slash)
  with assms show ?thesis by (simp add: parse_credential_def scope_display_def auth_wf_def)
qed

lemma parse_signed_headers_written:
  assumes "auth_wf a"
  shows "parse_signed_headers (join '';'' (av_signed_headers a)) = Inr (av_signed_headers a)"
proof -
  have "split_c (CHR '';'') (join '';'' (av_signed_headers a)) = av_signed_headers a"
    using assms by (intro split_c_join) (auto simp: auth_wf_def)
  with assms show ?thesis
    by (auto simp: parse_signed_headers_def auth_wf_def list_ex_iff successively_conv_sorted_wrt)
qed

lemma parse_authorization_written:
  assumes wf: "auth_wf a" and tx: "header_text (av_access_key_id a)" "header_text (cs_region (av_scope a))"
    "\<And>h. h \<in> set (av_signed_headers a) \<Longrightarrow> header_text h"
  shows "parse_authorization (authorization_header a) = Inr a"
proof -
  let ?cred = "av_access_key_id a @ ''/'' @ scope_display (av_scope a)"
  let ?hs = "join '';'' (av_signed_headers a)"
  have date: "header_text (cs_date (av_scope a))"
    using wf by (auto simp: auth_wf_def header_text_def list_all_iff is_ascii_digit_def is_ascii_graphic_def)
  have sig: "header_text (av_signature a)"
    using wf by (auto simp: auth_wf_def header_text_def is_ascii_hexdigit_def is_ascii_digit_def is_ascii_graphic_def)
  have cred: "header_text ?cred"
  proof -
    have "header_text ''/''" "header_text ''/aws4_request''" "header_text ''s3''" by code_simp+
    with tx(1,2) date wf show ?thesis
      unfolding scope_display_def header_text_append auth_wf_def by (simp only: simp_thms)
  qed
  have hs: "header_text ?hs" using tx(3) by (rule header_text_join)
  have f: "header_text (''Credential='' @ ?cred)" "header_text (''SignedHeaders='' @ ?hs)"
    "header_text (''Signature='' @ av_signature a)"
  proof -
    have "header_text ''Credential=''" "header_text ''SignedHeaders=''" "header_text ''Signature=''" by code_simp+
    with cred hs sig show "header_text (''Credential='' @ ?cred)" "header_text (''SignedHeaders='' @ ?hs)"
      "header_text (''Signature='' @ av_signature a)"
      unfolding header_text_append by blast+
  qed
  have nc: "CHR '','' \<notin> set (CHR '' '' # ''Credential='' @ ?cred)" "CHR '','' \<notin> set (CHR '' '' # ''SignedHeaders='' @ ?hs)"
    "CHR '','' \<notin> set (CHR '' '' # ''Signature='' @ av_signature a)"
    using f by (auto simp: header_text_def)
  have "split_c (CHR '','') ((CHR '' '' # ''Credential='' @ ?cred) @ CHR '','' # (CHR '' '' # ''SignedHeaders='' @ ?hs) @
      CHR '','' # (CHR '' '' # ''Signature='' @ av_signature a)) =
      [CHR '' '' # ''Credential='' @ ?cred, CHR '' '' # ''SignedHeaders='' @ ?hs, CHR '' '' # ''Signature='' @ av_signature a]"
    unfolding split_c_append [OF nc(1)] split_c_append [OF nc(2)] split_c_no_sep [OF nc(3)] by (rule refl)
  then have fields: "filter (\<lambda>f. f \<noteq> []) (map trim (split_c (CHR '','') ('' Credential='' @ ?cred @
      '', SignedHeaders='' @ ?hs @ '', Signature='' @ av_signature a))) =
      [''Credential='' @ ?cred, ''SignedHeaders='' @ ?hs, ''Signature='' @ av_signature a]"
    using header_text_trim [OF f(1)] header_text_trim [OF f(2)] header_text_trim [OF f(3)]
    by (simp add: trim_space_left)
  have names: "trim ''Credential'' = ''Credential''" "trim ''SignedHeaders'' = ''SignedHeaders''"
    "trim ''Signature'' = ''Signature''" by code_simp+
  have slot1: "set_slot (''Credential='' @ x) sl = Inr (sl\<lparr>sl_credential := Some x\<rparr>)"
    if "header_text x" "sl_credential sl = None" for x sl
    using that names by (simp add: set_slot_def Let_def header_text_trim)
  have slot2: "set_slot (''SignedHeaders='' @ x) sl = Inr (sl\<lparr>sl_signed_headers := Some x\<rparr>)"
    if "header_text x" "sl_signed_headers sl = None" for x sl
    using that names by (simp add: set_slot_def Let_def header_text_trim)
  have slot3: "set_slot (''Signature='' @ x) sl = Inr (sl\<lparr>sl_signature := Some x\<rparr>)"
    if "header_text x" "sl_signature sl = None" for x sl
    using that names by (simp add: set_slot_def Let_def header_text_trim)
  have fold: "try_fold set_slot [''Credential='' @ ?cred, ''SignedHeaders='' @ ?hs, ''Signature='' @ av_signature a]
      \<lparr>sl_credential = None, sl_signed_headers = None, sl_signature = None\<rparr> =
      Inr \<lparr>sl_credential = Some ?cred, sl_signed_headers = Some ?hs, sl_signature = Some (av_signature a)\<rparr>"
    by (simp only: try_fold.simps slot1 [OF cred] slot2 [OF hs] slot3 [OF sig] auth_slots.simps try_r_simps)
  have lower: "to_ascii_lowercase (av_signature a) = av_signature a"
    using wf by (intro to_ascii_lowercase_id) (simp add: auth_wf_def)
  obtain rest where rest: "rest = '' Credential='' @ ?cred @ '', SignedHeaders='' @ ?hs @ '', Signature='' @ av_signature a"
    by blast
  have coll: "collect_fields rest =
      Inr \<lparr>sl_credential = Some ?cred, sl_signed_headers = Some ?hs, sl_signature = Some (av_signature a)\<rparr>"
    unfolding collect_fields_def rest fields by (rule fold)
  have "strip_prefix ALGORITHM (authorization_header a) = Some rest"
    by (simp add: authorization_header_def rest)
  moreover have "\<exists>r. rest = CHR '' '' # r" by (simp add: rest)
  ultimately show ?thesis
    using wf lower coll
    by (auto simp: parse_authorization_def parse_credential_written [OF wf, simplified append.simps] parse_signed_headers_written [OF wf]
        auth_wf_def list_all_iff simp del: strip_prefix_Some_iff)
qed

end
