(* ===== verification/Sigv4_Canon.thy ===== *)
theory Sigv4_Canon
  imports Sigv4 "HOL-Library.Multiset"
begin

section \<open>The canonical query does not depend on how the client wrote it\<close>

lemma to_digit_hex_upper: "d < 16 \<Longrightarrow> to_digit 16 (hex_upper d) = Some d"
  by (simp add: to_digit_def hex_upper_def Let_def is_ascii_digit_def is_ascii_lowercase_def
      is_ascii_uppercase_def byte_char_of)

lemma unreserved_not_special:
  "is_unreserved c \<Longrightarrow> c \<noteq> CHR ''%'' \<and> c \<noteq> CHR ''='' \<and> c \<noteq> CHR ''&'' \<and> c \<noteq> CHR ''+''"
  by (auto simp: is_unreserved_def is_ascii_alphanumeric_def is_ascii_digit_def is_ascii_lowercase_def is_ascii_uppercase_def)

lemma hex_upper_unreserved: "d < 16 \<Longrightarrow> is_unreserved (hex_upper d)"
  by (auto simp: hex_upper_def is_unreserved_def is_ascii_alphanumeric_def is_ascii_digit_def
      is_ascii_uppercase_def byte_char_of)

lemma byte_nibbles: "byte c div 16 < 16" "char_of (16 * (byte c div 16) + byte c mod 16) = c"
  by (simp_all add: less_mult_imp_div_less)

text \<open>Decoding undoes the encoding; the encoded text holds only unreserved bytes and \<open>%\<close>.\<close>

lemma percent_decode_uri_encode:
  assumes "pct_ok cr"
  shows "percent_decode cr (uri_encode b encode_slash) = b"
proof (induction b)
  case Nil
  then show ?case using assms by (simp add: uri_encode_def pct_ok_def)
next
  case (Cons c b)
  show ?case
  proof (cases "is_unreserved c \<or> c = CHR ''/'' \<and> \<not> encode_slash")
    case True
    then have "c \<noteq> CHR ''%''" using unreserved_not_special by auto
    then have "percent_decode cr (c # uri_encode b encode_slash) = c # percent_decode cr (uri_encode b encode_slash)"
      using assms by (simp add: pct_ok_def)
    with True Cons show ?thesis by (simp add: uri_encode_def)
  next
    case False
    have "percent_decode cr (CHR ''%'' # hex_upper (byte c div 16) # hex_upper (byte c mod 16) # uri_encode b encode_slash) =
        char_of (16 * (byte c div 16) + byte c mod 16) # percent_decode cr (uri_encode b encode_slash)"
      using assms to_digit_hex_upper byte_nibbles(1) unfolding pct_ok_def by (metis mod_less_divisor zero_less_numeral)
    moreover have "uri_encode (c # b) encode_slash =
        CHR ''%'' # hex_upper (byte c div 16) # hex_upper (byte c mod 16) # uri_encode b encode_slash"
      using False by (auto simp: uri_encode_def)
    ultimately show ?thesis using Cons byte_nibbles(2) [of c] by (simp only:)
  qed
qed

lemma uri_encode_chars: "c \<in> set (uri_encode b True) \<Longrightarrow> is_unreserved c \<or> c = CHR ''%''"
  using hex_upper_unreserved byte_nibbles(1) by (auto simp: uri_encode_def split: if_splits)

lemma uri_recode_again: "pct_ok cr \<Longrightarrow> uri_recode cr (uri_recode cr s True) True = uri_recode cr s True"
  by (simp add: uri_recode_def percent_decode_uri_encode)

lemma uri_recode_clean:
  "CHR ''='' \<notin> set (uri_recode cr s True)" "CHR ''&'' \<notin> set (uri_recode cr s True)" "CHR ''+'' \<notin> set (uri_recode cr s True)"
  unfolding uri_recode_def using uri_encode_chars unreserved_not_special by fastforce+

lemma plus_to_space_id: "CHR ''+'' \<notin> set s \<Longrightarrow> plus_to_space s = s"
  by (induction s) (auto simp: plus_to_space_def)

lemma plus_to_space_append [simp]: "plus_to_space (a @ b) = plus_to_space a @ plus_to_space b"
  by (simp add: plus_to_space_def)

lemma plus_to_space_Cons:
  "plus_to_space (c # s) = (if c = CHR ''+'' then ''%20'' else [c]) @ plus_to_space s"
  by (simp add: plus_to_space_def)

lemma plus_to_space_amp: "CHR ''&'' \<notin> set s \<Longrightarrow> CHR ''&'' \<notin> set (plus_to_space s)"
  by (auto simp: plus_to_space_def split: if_splits)

lemma plus_to_space_join: "plus_to_space (join ''&'' ps) = join ''&'' (map plus_to_space ps)"
proof (induction "''&''" ps rule: join.induct)
  case (3 x y xs)
  then show ?case by (simp add: plus_to_space_Cons)
qed (simp_all add: plus_to_space_def)

definition recode_pair :: "'j crates \<Rightarrow> string \<Rightarrow> string \<times> string" where
  "recode_pair cr s = (case query_pair s of (n, v) \<Rightarrow> (uri_recode cr n True, uri_recode cr v True))"

lemma canonical_pairs_join:
  assumes "\<And>p. p \<in> set ps \<Longrightarrow> CHR ''&'' \<notin> set p"
  shows "canonical_pairs cr (join ''&'' ps) = sort (map (recode_pair cr) (filter (\<lambda>s. s \<noteq> []) (map plus_to_space ps)))"
proof (cases "ps = []")
  case True
  then show ?thesis by (simp add: canonical_pairs_def plus_to_space_def)
next
  case False
  have "split_c (CHR ''&'') (join ''&'' (map plus_to_space ps)) = map plus_to_space ps"
  proof (rule split_c_join)
    fix x assume "x \<in> set (map plus_to_space ps)"
    then obtain p where "p \<in> set ps" "x = plus_to_space p" by auto
    with plus_to_space_amp [OF assms] show "CHR ''&'' \<notin> set x" by simp
  qed (use False in simp)
  then show ?thesis
    by (simp add: canonical_pairs_def plus_to_space_join recode_pair_def [abs_def])
qed

lemma canonical_query_perm:
  assumes "\<And>p. p \<in> set ps \<Longrightarrow> CHR ''&'' \<notin> set p" and "mset qs = mset ps"
  shows "canonical_query cr (join ''&'' qs) = canonical_query cr (join ''&'' ps)"
proof -
  have "set qs = set ps" using assms(2) by (rule mset_eq_setD)
  then have amp: "CHR ''&'' \<notin> set p" if "p \<in> set qs" for p using assms(1) that by simp
  have "mset (map (recode_pair cr) (filter (\<lambda>s. s \<noteq> []) (map plus_to_space qs))) =
      mset (map (recode_pair cr) (filter (\<lambda>s. s \<noteq> []) (map plus_to_space ps)))"
    using assms(2) by (simp add: mset_filter [symmetric] mset_map)
  then have "sort (map (recode_pair cr) (filter (\<lambda>s. s \<noteq> []) (map plus_to_space qs))) =
      sort (map (recode_pair cr) (filter (\<lambda>s. s \<noteq> []) (map plus_to_space ps)))"
    by (intro properties_for_sort) simp_all
  with canonical_pairs_join [of qs cr] canonical_pairs_join [of ps cr] amp assms(1)
  have "canonical_pairs cr (join ''&'' qs) = canonical_pairs cr (join ''&'' ps)" by metis
  then show ?thesis by (simp add: canonical_query_def)
qed

lemma canonical_pairs_form:
  assumes "(n, v) \<in> set (canonical_pairs cr q)"
  shows "\<exists>n' v'. n = uri_recode cr n' True \<and> v = uri_recode cr v' True"
  using assms by (auto simp: canonical_pairs_def split: prod.splits)

lemma canonical_query_idem:
  assumes "pct_ok cr"
  shows "canonical_query cr (canonical_query cr q) = canonical_query cr q"
proof -
  let ?ps = "canonical_pairs cr q"
  let ?w = "\<lambda>(n, v). n @ ''='' @ v :: string"
  have clean: "CHR ''='' \<notin> set n" "CHR ''&'' \<notin> set n" "CHR ''+'' \<notin> set n" "CHR ''&'' \<notin> set v" "CHR ''+'' \<notin> set v"
    "recode_pair cr (n @ ''='' @ v) = (n, v)"
    if "(n, v) \<in> set ?ps" for n v
    using canonical_pairs_form [OF that]
    by (auto simp: recode_pair_def query_pair_def uri_recode_clean uri_recode_again [OF assms] split_once_append
        simp del: split_once.simps)
  have "canonical_pairs cr (canonical_query cr q) =
      sort (map (recode_pair cr) (filter (\<lambda>s. s \<noteq> []) (map plus_to_space (map ?w ?ps))))"
    unfolding canonical_query_def using clean(2,4) by (intro canonical_pairs_join) auto
  also have "map plus_to_space (map ?w ?ps) = map ?w ?ps"
    using clean(3,5) by (auto intro!: plus_to_space_id)
  also have "filter (\<lambda>s. s \<noteq> []) (map ?w ?ps) = map ?w ?ps" by (auto intro!: filter_True)
  also have "map (recode_pair cr) (map ?w ?ps) = ?ps"
    using clean(6) by (auto intro!: map_idI)
  also have "sort ?ps = ?ps" by (intro sorted_sort_id) (simp add: canonical_pairs_def)
  finally show ?thesis by (simp add: canonical_query_def [of cr "canonical_query cr q"]) (simp add: canonical_query_def)
qed

end
