(* ===== verification/Chunked.thy ===== *)
theory Chunked
  imports Sigv4
begin

section \<open>\<open>rgw-auth/src/chunked.rs\<close>: \<open>aws-chunked\<close> payloads\<close>

text \<open>
  The position in the body is the list of bytes from it on: \<open>rest\<close> is \<open>body[pos..]\<close>, so
  \<open>end <= body.len()\<close> reads \<open>size \<le> length rest\<close> (an overflow of \<open>checked_add\<close> is past the end
  as well).
\<close>

abbreviation crlf :: bytes where "crlf \<equiv> [CHR 0x0D, CHR 0x0A]"

record chunk_signer =
  sg_signing_key :: bytes
  sg_amz_date :: string
  sg_scope :: credential_scope
  sg_seed_signature :: string

record decoded_chunked =
  dc_payload :: bytes
  dc_trailers :: "(string \<times> string) list"

definition dc_trailer :: "decoded_chunked \<Rightarrow> string \<Rightarrow> string option" where
  "dc_trailer d name = map_option snd (find (\<lambda>(n, _). n = name) (dc_trailers d))"

definition bad_body :: "string \<Rightarrow> rgw_error" where
  "bad_body why = InvalidRequest (''malformed aws-chunked body: '' @ why)"

definition next_line :: "bytes \<Rightarrow> (bytes \<times> bytes) option" where
  "next_line rest = map_option (\<lambda>i. (take i rest, drop (i + 2) rest)) (str_find crlf rest)"

lemma next_line_Some: "next_line rest = Some (line, rest') \<Longrightarrow> rest = line @ crlf @ rest'"
proof -
  assume "next_line rest = Some (line, rest')"
  then obtain i where i: "str_find crlf rest = Some i" "line = take i rest" "rest' = drop (i + 2) rest"
    by (auto simp: next_line_def)
  from str_find_Some [OF i(1)] obtain b where b: "rest = take i rest @ crlf @ b" "i + 2 \<le> length rest" by auto
  then have "drop (i + 2) rest = b" by (metis (no_types) append.assoc append_eq_conv_conj length_append
        length_take length_Cons list.size(3) min.absorb2 add_leD1 numeral_2_eq_2)
  with b i show ?thesis by simp
qed

lemma next_line_length [simp]: "next_line rest = Some (line, rest') \<Longrightarrow> length rest' < length rest"
  by (drule next_line_Some) simp

lemma next_line_append:
  assumes "CHR 0x0D \<notin> set line"
  shows "next_line (line @ crlf @ rest) = Some (line, rest)"
proof -
  have "str_find crlf (line @ crlf @ rest) = Some (length line)"
    using assms
  proof (induction line)
    case (Cons c line)
    then show ?case by (simp add: str_find.simps [of crlf "c # line @ crlf @ rest", simplified] str_find.simps)
  qed (simp add: str_find.simps)
  then show ?thesis by (simp add: next_line_def)
qed

text \<open>The check of one chunk's signature: the new link of the chain.\<close>

definition check_chunk ::
    "'j crates \<Rightarrow> chunk_signer option \<Rightarrow> string option \<Rightarrow> string option \<Rightarrow> bytes \<Rightarrow> string option rgw_result" where
  "check_chunk cr signer prev ext data = (case (signer, prev) of
       (Some sg, Some p) \<Rightarrow>
         try_r (ok_or (bad_body ''missing chunk-signature'')
             (Option.bind ext (\<lambda>e. strip_prefix ''chunk-signature='' (trim e)))) (\<lambda>provided.
         try_r (signature_bytes cr (sg_signing_key sg)
             (chunk_string_to_sign cr (sg_amz_date sg) (sg_scope sg) p data)) (\<lambda>computed.
         if \<not> signature_matches cr computed provided then Inl SignatureDoesNotMatch
         else Inr (Some (to_ascii_lowercase provided))))
     | _ \<Rightarrow> Inr prev)"

definition chunk_head :: "string \<Rightarrow> string \<times> string option" where
  "chunk_head line = (case split_once (CHR '';'') line of
       Some (sz, ext) \<Rightarrow> (sz, Some ext)
     | None \<Rightarrow> (line, None))"

definition chunk_size :: "string \<Rightarrow> nat rgw_result" where
  "chunk_size s = ok_or (bad_body ''bad chunk size'') (parse_unsigned 16 (2 ^ 64) (trim s))"

function decode_chunks ::
    "'j crates \<Rightarrow> chunk_signer option \<Rightarrow> string option \<Rightarrow> bytes \<Rightarrow> bytes \<Rightarrow> (bytes \<times> bytes) rgw_result" where
  "decode_chunks cr signer prev rest payload =
     (case next_line rest of
        None \<Rightarrow> Inl (bad_body ''truncated chunk header'')
      | Some (line, rest1) \<Rightarrow>
          if \<not> from_utf8_ok line then Inl (bad_body ''chunk header is not UTF-8'')
          else
            try_r (chunk_size (fst (chunk_head line))) (\<lambda>sz.
            if length rest1 < sz then Inl (bad_body ''truncated chunk'')
            else
              try_r (check_chunk cr signer prev (snd (chunk_head line)) (take sz rest1)) (\<lambda>prev'.
              if sz = 0 then Inr (payload, rest1)
              else if take 2 (drop sz rest1) \<noteq> crlf then
                Inl (bad_body ''chunk data not followed by CRLF'')
              else decode_chunks cr signer prev' (drop (sz + 2) rest1) (payload @ take sz rest1))))"
  by pat_completeness auto
termination
  by (relation "measure (\<lambda>(_, _, _, rest, _). length rest)") (auto dest!: next_line_length)

declare decode_chunks.simps [simp del]

function read_trailers ::
    "bool \<Rightarrow> bytes \<Rightarrow> (string \<times> string) list \<Rightarrow> ((string \<times> string) list \<times> bytes) rgw_result" where
  "read_trailers with_trailers rest trailers =
     (case next_line rest of
        None \<Rightarrow> Inr (trailers, rest)
      | Some (line, rest1) \<Rightarrow>
          if line = [] then Inr (trailers, rest1)
          else if \<not> with_trailers then Inl (bad_body ''trailer in a payload that declared none'')
          else if \<not> from_utf8_ok line then Inl (bad_body ''trailer is not UTF-8'')
          else (case split_once (CHR '':'') line of
              None \<Rightarrow> Inl (bad_body (''trailer without '' @ [CHR 0x27, CHR '':'', CHR 0x27]))
            | Some (name, val) \<Rightarrow>
                read_trailers with_trailers rest1
                  (trailers @ [(to_ascii_lowercase (trim name), trim val)])))"
  by pat_completeness auto
termination
  by (relation "measure (\<lambda>(_, rest, _). length rest)") (auto dest!: next_line_length)

declare read_trailers.simps [simp del]

definition decode_aws_chunked ::
    "'j crates \<Rightarrow> bytes \<Rightarrow> chunk_signer option \<Rightarrow> bool \<Rightarrow> decoded_chunked rgw_result" where
  "decode_aws_chunked cr body signer with_trailers =
     try_r (decode_chunks cr signer (map_option sg_seed_signature signer) body []) (\<lambda>(payload, rest).
     try_r (read_trailers with_trailers rest []) (\<lambda>(trailers, rest).
     if rest \<noteq> [] \<and> rest \<noteq> crlf then Inl (bad_body ''data after the final chunk'')
     else Inr \<lparr>dc_payload = payload, dc_trailers = trailers\<rparr>))"

text \<open>\<open>u32::to_be_bytes\<close>.\<close>

definition to_be_bytes :: "u32 \<Rightarrow> bytes" where
  "to_be_bytes w = map (\<lambda>i. char_of (unat w div 256 ^ (3 - i) mod 256)) [0, 1, 2, 3]"

definition verify_trailer_checksum :: "'j crates \<Rightarrow> decoded_chunked \<Rightarrow> unit rgw_result" where
  "verify_trailer_checksum cr d = (case dc_trailer d ''x-amz-checksum-crc32'' of
       None \<Rightarrow> Inr ()
     | Some want \<Rightarrow>
         try_r (ok_or InvalidDigest (base64_decode cr want)) (\<lambda>want.
           if want \<noteq> to_be_bytes (crc32_hash cr (dc_payload d)) then Inl BadDigest else Inr ()))"

fun encode_chunks :: "'j crates \<Rightarrow> bytes list \<Rightarrow> bytes \<Rightarrow> string \<Rightarrow> credential_scope \<Rightarrow> string \<Rightarrow> bytes" where
  "encode_chunks cr [] key date scope prev = []"
| "encode_chunks cr (chunk # chunks) key date scope prev =
     (let sig = hex_encode cr (hmac_sha256_mac cr key (chunk_string_to_sign cr date scope prev chunk)) in
      show_radix 16 (length chunk) @ '';chunk-signature='' @ sig @ crlf @ chunk @ crlf @
        encode_chunks cr chunks key date scope sig)"

definition encode_signed :: "'j crates \<Rightarrow> bytes list \<Rightarrow> bytes \<Rightarrow> string \<Rightarrow> credential_scope \<Rightarrow> string \<Rightarrow> bytes" where
  "encode_signed cr chunks key date scope seed = encode_chunks cr (chunks @ [[]]) key date scope seed"

end
