(* ===== verification/Chunked_Facts.thy ===== *)
theory Chunked_Facts
  imports Chunked
begin

section \<open>Chunked payloads: framing, signatures and round trip\<close>

subsection \<open>The signature chain\<close>

definition chunk_signature :: "'j crates \<Rightarrow> chunk_signer \<Rightarrow> string \<Rightarrow> bytes \<Rightarrow> string" where
  "chunk_signature cr sg prev chunk = hex_encode cr (hmac_sha256_mac cr (sg_signing_key sg)
     (chunk_string_to_sign cr (sg_amz_date sg) (sg_scope sg) prev chunk))"

text \<open>A header line: the size in hexadecimal, then the \<open>chunk-signature\<close> extension.\<close>

definition signed_line :: "bytes \<Rightarrow> nat \<Rightarrow> string \<Rightarrow> bool" where
  "signed_line line n sig \<longleftrightarrow> (\<exists>s e. line = s @ CHR '';'' # e \<and> CHR '';'' \<notin> set s \<and>
     parse_unsigned 16 (2 ^ 64) (trim s) = Some n \<and> trim e = ''chunk-signature='' @ sig)"

text \<open>
  \<open>signed_body cr sg prev chunks body rest\<close>: the body is a frame per chunk and a last empty one,
  each signed over its data and the previous signature, followed by \<open>rest\<close>.
\<close>

fun signed_body :: "'j crates \<Rightarrow> chunk_signer \<Rightarrow> string \<Rightarrow> bytes list \<Rightarrow> bytes \<Rightarrow> bytes \<Rightarrow> bool" where
  "signed_body cr sg prev [] body rest \<longleftrightarrow>
     (\<exists>line sig. body = line @ crlf @ rest \<and> signed_line line 0 sig \<and>
        to_ascii_lowercase sig = chunk_signature cr sg prev [])"
| "signed_body cr sg prev (c # cs) body rest \<longleftrightarrow>
     (\<exists>line sig body'. body = line @ crlf @ c @ crlf @ body' \<and> c \<noteq> [] \<and> signed_line line (length c) sig \<and>
        to_ascii_lowercase sig = chunk_signature cr sg prev c \<and>
        signed_body cr sg (chunk_signature cr sg prev c) cs body' rest)"

lemma check_chunk_ok:
  assumes "hex_ok cr" "mac_ok cr" and "check_chunk cr (Some sg) (Some prev) ext data = Inr prev'"
  shows "\<exists>e sig. ext = Some e \<and> trim e = ''chunk-signature='' @ sig \<and>
    to_ascii_lowercase sig = chunk_signature cr sg prev data \<and> prev' = Some (chunk_signature cr sg prev data)"
proof -
  let ?m = "hmac_sha256_mac cr (sg_signing_key sg) (chunk_string_to_sign cr (sg_amz_date sg) (sg_scope sg) prev data)"
  from assms(3) obtain e sig where e: "ext = Some e" "trim e = ''chunk-signature='' @ sig"
    and m: "signature_matches cr ?m sig" and p: "prev' = Some (to_ascii_lowercase sig)"
    by (auto simp: check_chunk_def try_r_Inr_iff signature_bytes_def hmac_sha256_def bind_eq_Some_conv split: if_splits)
  have "to_ascii_lowercase sig = chunk_signature cr sg prev data"
    using m signature_matches_iff [OF assms(1), of ?m sig] assms(2) by (simp add: mac_ok_def chunk_signature_def)
  with e p show ?thesis by auto
qed

lemma decode_chunks_step:
  assumes "decode_chunks cr signer prev rest payload = Inr (out, rest')"
  obtains line rest1 n prev' where "rest = line @ crlf @ rest1"
    "chunk_size (fst (chunk_head line)) = Inr n" "n \<le> length rest1"
    "check_chunk cr signer prev (snd (chunk_head line)) (take n rest1) = Inr prev'"
    "n = 0 \<and> out = payload \<and> rest' = rest1 \<or>
     0 < n \<and> take 2 (drop n rest1) = crlf \<and>
       decode_chunks cr signer prev' (drop (n + 2) rest1) (payload @ take n rest1) = Inr (out, rest')"
  using assms(1) [unfolded decode_chunks.simps [of cr signer prev rest]]
  by (auto simp: try_r_Inr_iff dest!: next_line_Some split: option.splits prod.splits if_splits intro: that)

lemma chunk_head_signed:
  assumes "chunk_size (fst (chunk_head line)) = Inr n" and "snd (chunk_head line) = Some e"
    and "trim e = ''chunk-signature='' @ sig"
  shows "signed_line line n sig"
proof -
  from assms(2) obtain s where s: "split_once (CHR '';'') line = Some (s, e)"
    by (auto simp: chunk_head_def split: option.splits)
  with assms(1) have "parse_unsigned 16 (2 ^ 64) (trim s) = Some n" by (simp add: chunk_head_def chunk_size_def)
  with s assms(3) show ?thesis by (auto simp: signed_line_def split_once_Some_iff)
qed

lemma decode_chunks_sound:
  assumes ok: "hex_ok cr" "mac_ok cr"
  shows "decode_chunks cr (Some sg) (Some prev) rest payload = Inr (out, rest') \<Longrightarrow>
    \<exists>chunks. out = payload @ concat chunks \<and> signed_body cr sg prev chunks rest rest'"
proof (induction "length rest" arbitrary: prev rest payload rule: less_induct)
  case less
  from decode_chunks_step [OF less.prems] obtain line rest1 n prev' where
    l: "rest = line @ crlf @ rest1" "chunk_size (fst (chunk_head line)) = Inr n" "n \<le> length rest1"
    and c: "check_chunk cr (Some sg) (Some prev) (snd (chunk_head line)) (take n rest1) = Inr prev'"
    and d: "n = 0 \<and> out = payload \<and> rest' = rest1 \<or>
     0 < n \<and> take 2 (drop n rest1) = crlf \<and>
       decode_chunks cr (Some sg) prev' (drop (n + 2) rest1) (payload @ take n rest1) = Inr (out, rest')" .
  from check_chunk_ok [OF ok c] obtain e sig where
    e: "snd (chunk_head line) = Some e" "trim e = ''chunk-signature='' @ sig"
    and sig: "to_ascii_lowercase sig = chunk_signature cr sg prev (take n rest1)"
    and p: "prev' = Some (chunk_signature cr sg prev (take n rest1))" by blast
  have sl: "signed_line line n sig" using chunk_head_signed [OF l(2) e] .
  from d show ?case
  proof
    assume z: "n = 0 \<and> out = payload \<and> rest' = rest1"
    with l sl sig have "signed_body cr sg prev [] rest rest'" by auto
    with z show ?thesis by (intro exI [of _ "[]"]) simp
  next
    assume s: "0 < n \<and> take 2 (drop n rest1) = crlf \<and>
       decode_chunks cr (Some sg) prev' (drop (n + 2) rest1) (payload @ take n rest1) = Inr (out, rest')"
    have lt: "length (drop (n + 2) rest1) < length rest" using l(1) by simp
    from s p have "decode_chunks cr (Some sg) (Some (chunk_signature cr sg prev (take n rest1)))
        (drop (n + 2) rest1) (payload @ take n rest1) = Inr (out, rest')" by blast
    from less.hyps [OF lt this] obtain chunks where ch: "out = (payload @ take n rest1) @ concat chunks"
      "signed_body cr sg (chunk_signature cr sg prev (take n rest1)) chunks (drop (n + 2) rest1) rest'" by blast
    have "rest1 = take n rest1 @ crlf @ drop (n + 2) rest1"
      using s by (metis append_take_drop_id drop_drop add.commute)
    then have "rest = line @ crlf @ take n rest1 @ crlf @ drop (n + 2) rest1" using l(1) by simp
    moreover have "take n rest1 \<noteq> []" "length (take n rest1) = n" using s l(3) by auto
    ultimately have "signed_body cr sg prev (take n rest1 # chunks) rest rest'"
      unfolding signed_body.simps using sl sig ch(2) by metis
    with ch show ?thesis by (intro exI [of _ "take n rest1 # chunks"]) simp
  qed
qed

text \<open>Decoding never makes a body longer.\<close>

lemma decode_chunks_length:
  "decode_chunks cr signer prev rest payload = Inr (out, rest') \<Longrightarrow> length out + length rest' \<le> length payload + length rest"
proof (induction "length rest" arbitrary: prev rest payload rule: less_induct)
  case less
  from less.prems show ?case
  proof (cases rule: decode_chunks_step)
    case (1 line rest1 n prev')
    from 1(5) show ?thesis
    proof
      assume "n = 0 \<and> out = payload \<and> rest' = rest1"
      with 1(1) show ?thesis by simp
    next
      assume "0 < n \<and> take 2 (drop n rest1) = crlf \<and>
        decode_chunks cr signer prev' (drop (n + 2) rest1) (payload @ take n rest1) = Inr (out, rest')"
      with less.hyps [of "drop (n + 2) rest1" prev' "payload @ take n rest1"] 1(1,3)
      have "length out + length rest' \<le> length payload + n + (length rest1 - (n + 2))" by simp
      with 1(1,3) show ?thesis by (cases "n + 2 \<le> length rest1") simp_all
    qed
  qed
qed

lemma decode_aws_chunked_length: "decode_aws_chunked cr body signer t = Inr d \<Longrightarrow> length (dc_payload d) \<le> length body"
  by (auto simp: decode_aws_chunked_def try_r_Inr_iff dest!: decode_chunks_length split: if_splits)

subsection \<open>Round trip\<close>

lemma show_radix16_ascii: "c \<in> set (show_radix 16 n) \<Longrightarrow> is_ascii_alphanumeric c"
proof -
  assume "c \<in> set (show_radix 16 n)"
  then obtain d where "d < 16" "c = digit_char d" using show_radix_chars [of 16 c n] by auto
  then show ?thesis
    by (auto simp: is_ascii_alphanumeric_def is_ascii_digit_def is_ascii_lowercase_def byte_digit_char)
qed

lemma alnum_graphic: "is_ascii_alphanumeric c \<Longrightarrow> is_ascii_graphic c"
  by (auto simp: is_ascii_alphanumeric_def is_ascii_digit_def is_ascii_lowercase_def is_ascii_uppercase_def is_ascii_graphic_def)

lemma hexdigit_alnum: "is_ascii_hexdigit c \<Longrightarrow> is_ascii_alphanumeric c"
  by (auto simp: is_ascii_hexdigit_def is_ascii_alphanumeric_def is_ascii_lowercase_def is_ascii_uppercase_def)

lemma graphic_no_cr: "is_ascii_graphic c \<Longrightarrow> c \<noteq> CHR 0x0D \<and> byte c < 128"
  by (auto simp: is_ascii_graphic_def)

lemma encoded_frame:
  fixes prev :: string
  assumes ok: "hex_ok cr" "mac_ok cr" and len: "length chunk < 2 ^ 64"
    and sg: "sg = \<lparr>sg_signing_key = key, sg_amz_date = date, sg_scope = scope, sg_seed_signature = seed\<rparr>"
    and sig_def: "sig = chunk_signature cr sg prev chunk"
  shows "decode_chunks cr (Some sg) (Some prev)
      (show_radix 16 (length chunk) @ '';chunk-signature='' @ sig @ crlf @ chunk @ crlf @ tl_bytes) payload =
    (if chunk = [] then Inr (payload, crlf @ tl_bytes)
     else decode_chunks cr (Some sg) (Some sig) tl_bytes (payload @ chunk))"
proof -
  let ?line = "show_radix 16 (length chunk) @ '';chunk-signature='' @ sig"
  let ?m = "hmac_sha256_mac cr key (chunk_string_to_sign cr date scope prev chunk)"
  have sig: "sig = hex_encode cr ?m" by (simp add: sig_def chunk_signature_def sg)
  have hx: "is_ascii_hexdigit c \<and> \<not> is_ascii_uppercase c" if "c \<in> set sig" for c
    using ok(1) that by (simp add: hex_ok_def sig)
  have lit: "\<forall>c \<in> set '';chunk-signature=''. is_ascii_graphic c" by code_simp
  have g: "is_ascii_graphic c" if "c \<in> set ?line" for c
  proof -
    from that consider "c \<in> set (show_radix 16 (length chunk))" | "c \<in> set '';chunk-signature=''" | "c \<in> set sig"
      unfolding set_append by blast
    then show ?thesis
      using lit hx show_radix16_ascii alnum_graphic hexdigit_alnum by cases blast+
  qed
  have g2: "is_ascii_graphic c" if "c \<in> set (''chunk-signature='' @ sig)" for c
  proof -
    have "\<forall>c \<in> set ''chunk-signature=''. is_ascii_graphic c" by code_simp
    with that hx alnum_graphic hexdigit_alnum show ?thesis unfolding set_append by blast
  qed
  have nl: "next_line (?line @ crlf @ chunk @ crlf @ tl_bytes) = Some (?line, chunk @ crlf @ tl_bytes)"
    using g graphic_no_cr by (intro next_line_append) blast
  have utf: "from_utf8_ok ?line" using g graphic_no_cr by (intro from_utf8_ok_ascii) blast
  have "CHR '';'' \<notin> set (show_radix 16 (length chunk))"
    using show_radix16_ascii by (fastforce simp: is_ascii_alphanumeric_def is_ascii_digit_def is_ascii_lowercase_def is_ascii_uppercase_def)
  then have so: "split_once (CHR '';'') ?line = Some (show_radix 16 (length chunk), ''chunk-signature='' @ sig)"
    by (simp add: split_once_Some_iff)
  have t: "trim (show_radix 16 (length chunk)) = show_radix 16 (length chunk)"
    by (intro trim_graphic) (auto intro: alnum_graphic show_radix16_ascii)
  have sz: "chunk_size (fst (chunk_head ?line)) = Inr (length chunk)"
    unfolding chunk_size_def chunk_head_def so using len by (simp add: t parse_show_radix)
  have t2: "trim (''chunk-signature='' @ sig) = ''chunk-signature='' @ sig" using g2 by (intro trim_graphic)
  have low: "to_ascii_lowercase sig = sig" using hx by (intro to_ascii_lowercase_id) blast
  have "signature_matches cr ?m sig"
    using signature_matches_iff [OF ok(1), of ?m sig] ok(2) low by (simp add: mac_ok_def sig)
  then have ck: "check_chunk cr (Some sg) (Some prev) (snd (chunk_head ?line)) chunk = Inr (Some sig)"
    unfolding chunk_head_def so using t2 low
    by (simp add: check_chunk_def signature_bytes_def hmac_sha256_def sg)
  show ?thesis
    using nl utf sz ck by (subst decode_chunks.simps) simp
qed

lemma decode_encode_chunks:
  assumes ok: "hex_ok cr" "mac_ok cr"
    and sg: "sg = \<lparr>sg_signing_key = key, sg_amz_date = date, sg_scope = scope, sg_seed_signature = seed\<rparr>"
  shows "(\<And>c. c \<in> set chunks \<Longrightarrow> c \<noteq> [] \<and> length c < 2 ^ 64) \<Longrightarrow>
    decode_chunks cr (Some sg) (Some prev) (encode_chunks cr (chunks @ [[]]) key date scope prev) payload =
      Inr (payload @ concat chunks, crlf)"
proof (induction chunks arbitrary: prev payload)
  case Nil
  then show ?case
    using encoded_frame [OF ok _ sg refl, of "[]" prev "[]" payload] by (simp add: Let_def chunk_signature_def sg)
next
  case (Cons c chunks)
  let ?sig = "chunk_signature cr sg prev c"
  have "decode_chunks cr (Some sg) (Some prev) (encode_chunks cr ((c # chunks) @ [[]]) key date scope prev) payload =
      decode_chunks cr (Some sg) (Some ?sig) (encode_chunks cr (chunks @ [[]]) key date scope ?sig) (payload @ c)"
    using encoded_frame [OF ok _ sg refl, of c prev "encode_chunks cr (chunks @ [[]]) key date scope ?sig" payload] Cons.prems
    by (simp add: Let_def chunk_signature_def sg)
  also have "\<dots> = Inr ((payload @ c) @ concat chunks, crlf)" using Cons by simp
  finally show ?case by simp
qed

lemma decode_encode_signed:
  assumes ok: "hex_ok cr" "mac_ok cr" and chunks: "\<And>c. c \<in> set chunks \<Longrightarrow> c \<noteq> [] \<and> length c < 2 ^ 64"
  shows "decode_aws_chunked cr (encode_signed cr chunks key date scope seed)
      (Some \<lparr>sg_signing_key = key, sg_amz_date = date, sg_scope = scope, sg_seed_signature = seed\<rparr>) False =
    Inr \<lparr>dc_payload = concat chunks, dc_trailers = []\<rparr>"
proof -
  have "next_line crlf = Some ([], [])" using next_line_append [of "[]" "[]"] by simp
  then have "read_trailers False crlf [] = Inr ([], [])" by (subst read_trailers.simps) simp
  then show ?thesis
    using decode_encode_chunks [OF ok refl, of chunks key date scope seed seed "[]"] chunks
    by (simp add: decode_aws_chunked_def encode_signed_def)
qed

end
