(* ===== verification/Auth.thy ===== *)
theory Auth
  imports Chunked_Facts
begin

section \<open>\<open>rgw-auth/src/lib.rs\<close>: authenticating a request\<close>

subsection \<open>Identities and requests\<close>

record authed_user =
  au_info :: user_info
  au_access_key_id :: string

datatype identity = Anonymous | User authed_user

fun identity_user :: "identity \<Rightarrow> user_info option" where
  "identity_user Anonymous = None"
| "identity_user (User u) = Some (au_info u)"

definition identity_user_id :: "identity \<Rightarrow> user_id option" where
  "identity_user_id i = map_option ui_user_id (identity_user i)"

definition identity_check_cap :: "identity \<Rightarrow> string \<Rightarrow> cap_perm \<Rightarrow> bool" where
  "identity_check_cap i cap perm =
     (case identity_user i of None \<Rightarrow> False | Some u \<Rightarrow> ui_admin u \<or> caps_check_cap (ui_caps u) cap perm)"

text \<open>A span of time is its nanoseconds, as an instant is.\<close>

record auth_config =
  ac_max_skew :: int
  ac_max_body_bytes :: nat

definition DEFAULT_MAX_BODY_BYTES :: nat where
  "DEFAULT_MAX_BODY_BYTES = 256 * 1024 * 1024"

definition auth_config_default :: auth_config where
  "auth_config_default =
     \<lparr>ac_max_skew = 15 * 60 * 1000000000, ac_max_body_bytes = DEFAULT_MAX_BODY_BYTES\<rparr>"

text \<open>
  \<open>rq_path\<close> and \<open>rq_query\<close> are those of the original URI, \<open>rq_authority\<close> that of the request as
  routed; \<open>rq_identity\<close> is the \<open>Identity\<close> extension.
\<close>

record request =
  rq_method :: string
  rq_path :: string
  rq_query :: "string option"
  rq_authority :: "string option"
  rq_headers :: headers
  rq_body :: object_body
  rq_identity :: "identity option"

subsection \<open>Helpers\<close>

definition has_query_param :: "'j crates \<Rightarrow> string \<Rightarrow> string \<Rightarrow> bool" where
  "has_query_param cr query name =
     list_ex (\<lambda>p. let key = (case split_once (CHR ''='') p of None \<Rightarrow> p | Some (k, _) \<Rightarrow> k) in
                from_utf8_lossy (percent_decode cr key) = name)
       (split_c (CHR ''&'') query)"

definition request_time ::
    "'j crates \<Rightarrow> time \<Rightarrow> headers \<Rightarrow> credential_scope \<Rightarrow> int \<Rightarrow> string rgw_result" where
  "request_time cr now hs scope max_skew =
     try_r (case header_str hs ''x-amz-date'' of
         Some v \<Rightarrow> ok_or AccessDenied (parse_amz_date cr v)
       | None \<Rightarrow> ok_or AccessDenied (Option.bind (header_str hs ''date'') (parse_http_date cr))) (\<lambda>t.
     let amz_date = format_amz_date cr t in
     if \<not> prefix (cs_date scope) amz_date then
       Inl (AuthorizationHeaderMalformed ''credential date does not match the request date'')
     else if max_skew < \<bar>now - t\<bar> then Inl RequestTimeTooSkewed
     else Inr amz_date)"

definition read_request_body :: "'j crates \<Rightarrow> headers \<Rightarrow> object_body \<Rightarrow> nat \<Rightarrow> bytes rgw_result" where
  "read_request_body cr hs body limit =
     (let declared = Option.bind (header_str hs ''content-length'') (parse_unsigned 10 (2 ^ 64)) in
      if (case declared of None \<Rightarrow> False | Some len \<Rightarrow> limit < len) then Inl EntityTooLarge
      else map_err (\<lambda>e. case e of None \<Rightarrow> EntityTooLarge
                        | Some m \<Rightarrow> InvalidRequest (''reading the request body: '' @ m))
             (body_to_bytes cr body limit))"

definition strip_aws_chunked_encoding :: "headers \<Rightarrow> headers" where
  "strip_aws_chunked_encoding hs = (case header_str hs ''content-encoding'' of
       None \<Rightarrow> hs
     | Some v \<Rightarrow>
         (let rest = filter (\<lambda>t. t \<noteq> [] \<and> \<not> eq_ignore_ascii_case t ''aws-chunked'')
                       (map trim (split_c (CHR '','') v)) in
          if rest = [] then hdr_remove ''content-encoding'' hs
          else if hdr_from_str_ok (join '', '' rest) then
            hdr_insert ''content-encoding'' (join '', '' rest) hs
          else hs))"

definition verify_payload ::
    "'j crates \<Rightarrow> headers \<Rightarrow> bytes \<Rightarrow> string \<Rightarrow> authorization_v4 \<Rightarrow> string \<Rightarrow> bytes \<Rightarrow>
     (headers \<times> bytes) rgw_result" where
  "verify_payload cr hs raw payload_hash auth amz_date key =
     (let signer = \<lparr>sg_signing_key = key, sg_amz_date = amz_date, sg_scope = av_scope auth,
                    sg_seed_signature = av_signature auth\<rparr>;
          finish = (\<lambda>decoded.
            try_r (verify_trailer_checksum cr decoded) (\<lambda>_.
            try_r (case header_str hs ''x-amz-decoded-content-length'' of
                None \<Rightarrow> Inr hs
              | Some declared \<Rightarrow>
                  if parse_unsigned 10 (2 ^ 64) declared \<noteq> Some (length (dc_payload decoded)) then
                    Inl (InvalidRequest ''x-amz-decoded-content-length does not match the payload'')
                  else Inr (hdr_remove ''x-amz-decoded-content-length'' hs)) (\<lambda>hs'.
            Inr (strip_aws_chunked_encoding hs', dc_payload decoded))))
      in
      if payload_hash = UNSIGNED_PAYLOAD then Inr (hs, raw)
      else if payload_hash = STREAMING_SIGNED then
        try_r (decode_aws_chunked cr raw (Some signer) False) finish
      else if payload_hash = STREAMING_SIGNED_TRAILER then
        try_r (decode_aws_chunked cr raw (Some signer) True) finish
      else if payload_hash = STREAMING_UNSIGNED_TRAILER then
        try_r (decode_aws_chunked cr raw None True) finish
      else if length payload_hash = 64 \<and> list_all is_ascii_hexdigit payload_hash then
        (if \<not> eq_ignore_ascii_case (sha256_hex cr raw) payload_hash then Inl XAmzContentSha256Mismatch
         else Inr (hs, raw))
      else if prefix ''STREAMING-'' payload_hash then Inl NotImplemented
      else Inl (InvalidRequest ''invalid x-amz-content-sha256''))"

text \<open>The scheme is what stands before the first space or tab.\<close>

definition parse_scheme :: "string \<Rightarrow> authorization_v4 rgw_result" where
  "parse_scheme authorization =
     (let scheme = takeWhile (\<lambda>c. c \<noteq> CHR '' '' \<and> c \<noteq> CHR 0x09) authorization in
      if scheme = ALGORITHM then parse_authorization authorization
      else if scheme = ''AWS'' \<or> scheme = ''AWS4-ECDSA-P256-SHA256'' then Inl NotImplemented
      else Inl (AuthorizationHeaderMalformed ''unsupported authorization scheme''))"

subsection \<open>\<open>verify\<close>\<close>

definition check_signature ::
    "'j crates \<Rightarrow> request \<Rightarrow> authorization_v4 \<Rightarrow> string \<Rightarrow> string \<Rightarrow> string \<Rightarrow> bytes rgw_result" where
  "check_signature cr req auth amz_date secret payload_hash =
     (let query = (case rq_query req of None \<Rightarrow> [] | Some q \<Rightarrow> q);
          creq = canonical_request cr (rq_method req) (rq_path req) query (rq_headers req)
                   (rq_authority req) (av_signed_headers auth) payload_hash in
      try_r (signing_key cr secret (av_scope auth)) (\<lambda>key.
      try_r (signature_bytes cr key (string_to_sign cr amz_date (av_scope auth) creq)) (\<lambda>computed.
      if \<not> signature_matches cr computed (av_signature auth) then Inl SignatureDoesNotMatch else Inr key)))"

definition verify ::
    "'j crates \<Rightarrow> 's driver \<Rightarrow> auth_config \<Rightarrow> time \<Rightarrow> request \<Rightarrow> ('s, request) rgw_act" where
  "verify cr drv cfg now req =
     (let query = (case rq_query req of None \<Rightarrow> [] | Some q \<Rightarrow> q); hs = rq_headers req in
      if has_query_param cr query ''X-Amz-Algorithm'' then err_a NotImplemented
      else (case hdr_get hs ''authorization'' of
          None \<Rightarrow> ret_a (req\<lparr>rq_identity := Some Anonymous\<rparr>)
        | Some raw_auth \<Rightarrow>
            try_a (lift_a (ok_or (AuthorizationHeaderMalformed ''not ASCII'') (hdr_to_str raw_auth))) (\<lambda>authorization.
            try_a (lift_a (parse_scheme authorization)) (\<lambda>auth.
            try_a (lift_a (request_time cr now hs (av_scope auth) (ac_max_skew cfg))) (\<lambda>amz_date.
            try_a (match_a (load_user_by_access_key drv (av_access_key_id auth)) (\<lambda>r. case r of
                Inr info \<Rightarrow> ret_a info
              | Inl e \<Rightarrow> err_a (if e = NoSuchUser then InvalidAccessKeyId else e))) (\<lambda>info.
            try_a (lift_a (guard_r (\<not> ui_suspended info) UserSuspended)) (\<lambda>_.
            try_a (lift_a (case bt_get (ui_access_keys info) (av_access_key_id auth) of
                Some key \<Rightarrow> if ak_active key then Inr (ak_key key) else Inl InvalidAccessKeyId
              | None \<Rightarrow> Inl InvalidAccessKeyId)) (\<lambda>secret.
            try_a (lift_a (ok_or (InvalidRequest ''missing x-amz-content-sha256'')
                (header_str hs ''x-amz-content-sha256''))) (\<lambda>payload_hash.
            try_a (lift_a (check_signature cr req auth amz_date secret payload_hash)) (\<lambda>key.
            try_a (lift_a (read_request_body cr hs (rq_body req) (ac_max_body_bytes cfg))) (\<lambda>raw.
            try_a (lift_a (verify_payload cr hs raw payload_hash auth amz_date key)) (\<lambda>(hs', payload).
            ret_a (req\<lparr>rq_headers := hdr_insert ''content-length'' (show_nat (length payload))
                                        (hdr_remove ''transfer-encoding'' hs'),
                       rq_body := body_from_bytes payload,
                       rq_identity := Some (User \<lparr>au_info = info, au_access_key_id = av_access_key_id auth\<rparr>)\<rparr>)))))))))))))"

end
