(* ===== verification/Auth_Props.thy ===== *)
theory Auth_Props
  imports Sqlite_Props Sigv4_Canon Chunked_Facts Auth
begin

section \<open>What authentication guarantees\<close>

text \<open>
  \<open>authentic\<close>: the request carries a well-formed header for an active key of an unsuspended user,
  is within the clock skew, and its signature is the HMAC of its canonical request under that
  key's secret.
\<close>

definition request_query :: "request \<Rightarrow> string" where
  "request_query req = (case rq_query req of None \<Rightarrow> [] | Some q \<Rightarrow> q)"

definition request_creq :: "'j crates \<Rightarrow> request \<Rightarrow> authorization_v4 \<Rightarrow> string \<Rightarrow> string" where
  "request_creq cr req a h = canonical_request cr (rq_method req) (rq_path req) (request_query req)
     (rq_headers req) (rq_authority req) (av_signed_headers a) h"

definition request_key :: "'j crates \<Rightarrow> string \<Rightarrow> authorization_v4 \<Rightarrow> bytes" where
  "request_key cr secret a = projr (signing_key cr secret (av_scope a))"

definition authentic :: "'j crates \<Rightarrow> auth_config \<Rightarrow> time \<Rightarrow> request \<Rightarrow> authed_user \<Rightarrow> bool" where
  "authentic cr cfg now req u \<longleftrightarrow> (\<exists>authz a date h key.
     hdr_get (rq_headers req) ''authorization'' = Some authz \<and> parse_authorization authz = Inr a \<and>
     av_access_key_id a = au_access_key_id u \<and>
     request_time cr now (rq_headers req) (av_scope a) (ac_max_skew cfg) = Inr date \<and>
     \<not> ui_suspended (au_info u) \<and>
     bt_get (ui_access_keys (au_info u)) (au_access_key_id u) = Some key \<and> ak_active key \<and>
     header_str (rq_headers req) ''x-amz-content-sha256'' = Some h \<and>
     av_signature a = hex_encode cr (hmac_sha256_mac cr (request_key cr (ak_key key) a)
       (string_to_sign cr date (av_scope a) (request_creq cr req a h))))"

lemma check_signature_ok:
  assumes "hex_ok cr" "mac_ok cr" "check_signature cr req a date secret h = Inr key" "auth_wf a"
  shows "key = request_key cr secret a \<and> av_signature a = hex_encode cr (hmac_sha256_mac cr key
    (string_to_sign cr date (av_scope a) (request_creq cr req a h)))"
proof -
  have low: "to_ascii_lowercase (av_signature a) = av_signature a"
    using assms(4) by (intro to_ascii_lowercase_id) (auto simp: auth_wf_def)
  from assms(3) have k: "signing_key cr secret (av_scope a) = Inr key"
    and m: "signature_matches cr (hmac_sha256_mac cr key (string_to_sign cr date (av_scope a) (request_creq cr req a h))) (av_signature a)"
    by (auto simp: check_signature_def Let_def try_r_Inr_iff signature_bytes_def hmac_sha256_def request_creq_def
        request_query_def split: if_splits)
  have "length (hmac_sha256_mac cr key (string_to_sign cr date (av_scope a) (request_creq cr req a h))) = 32"
    using assms(2) by (simp add: mac_ok_def)
  from signature_matches_iff [OF assms(1) this] m k low show ?thesis
    by (simp add: request_key_def)
qed

lemma parse_scheme_ok: "parse_scheme s = Inr a \<Longrightarrow> parse_authorization s = Inr a"
  by (auto simp: parse_scheme_def Let_def split: if_splits)

text \<open>Every step of a successful run that ends with a user.\<close>

lemma verify_user_run:
  assumes run: "verify cr drv cfg now req s = (Inr req', s')" and "rq_identity req' = Some (User u)"
  obtains authz a date key h sk raw hs' payload where
    "hdr_get (rq_headers req) ''authorization'' = Some authz" "hdr_to_str authz = Some authz"
    "parse_authorization authz = Inr a"
    "request_time cr now (rq_headers req) (av_scope a) (ac_max_skew cfg) = Inr date"
    "load_user_by_access_key drv (av_access_key_id a) s = (Inr (au_info u), s')"
    "av_access_key_id a = au_access_key_id u" "\<not> ui_suspended (au_info u)"
    "bt_get (ui_access_keys (au_info u)) (av_access_key_id a) = Some key" "ak_active key"
    "header_str (rq_headers req) ''x-amz-content-sha256'' = Some h"
    "check_signature cr req a date (ak_key key) h = Inr sk"
    "read_request_body cr (rq_headers req) (rq_body req) (ac_max_body_bytes cfg) = Inr raw"
    "verify_payload cr (rq_headers req) raw h a date sk = Inr (hs', payload)"
    "rq_body req' = body_from_bytes payload"
proof (cases "hdr_get (rq_headers req) ''authorization''")
  case None
  with assms show ?thesis
    by (auto simp: verify_def Let_def split: if_splits)
next
  case (Some authz)
  show ?thesis
    using run assms(2) Some
    by (auto simp: verify_def Let_def hdr_to_str_def act_Inr_iff match_a_apply
        split: if_splits sum.splits prod.splits option.splits intro!: that dest!: parse_scheme_ok)
qed

text \<open>A request with a header is let through as a user or not at all.\<close>

lemma verify_header_user:
  assumes "verify cr drv cfg now req s = (Inr req', s')" and "hdr_get (rq_headers req) ''authorization'' \<noteq> None"
  shows "\<exists>u. rq_identity req' = Some (User u)"
  using assms by (auto simp: verify_def Let_def act_Inr_iff split: if_splits prod.splits sum.splits option.splits)

text \<open>All that authentication does to the driver is to look up one key.\<close>

lemma verify_state:
  assumes "verify cr drv cfg now req s = (r, s')"
  shows "s' = s \<or> (\<exists>k r0. load_user_by_access_key drv k s = (r0, s'))"
  using assms unfolding verify_def Let_def
  by (auto simp: try_a_apply match_a_apply split: if_splits option.splits sum.splits prod.splits)

text \<open>What the payload check establishes for each form of \<open>x-amz-content-sha256\<close>.\<close>

definition payload_verified ::
    "'j crates \<Rightarrow> bytes \<Rightarrow> string \<Rightarrow> authorization_v4 \<Rightarrow> string \<Rightarrow> bytes \<Rightarrow> bytes \<Rightarrow> bool" where
  "payload_verified cr raw h a date key p \<longleftrightarrow>
     (h = UNSIGNED_PAYLOAD \<longrightarrow> p = raw) \<and>
     (h = STREAMING_SIGNED \<or> h = STREAMING_SIGNED_TRAILER \<longrightarrow>
        (\<exists>chunks rest. p = concat chunks \<and>
           signed_body cr \<lparr>sg_signing_key = key, sg_amz_date = date, sg_scope = av_scope a,
             sg_seed_signature = av_signature a\<rparr> (av_signature a) chunks raw rest)) \<and>
     (length h = 64 \<longrightarrow> p = raw \<and> to_ascii_lowercase (sha256_hex cr raw) = to_ascii_lowercase h)"

lemma payload_hash_lengths:
  "length UNSIGNED_PAYLOAD \<noteq> 64" "length STREAMING_SIGNED \<noteq> 64" "length STREAMING_SIGNED_TRAILER \<noteq> 64"
  "length STREAMING_UNSIGNED_TRAILER \<noteq> 64" "UNSIGNED_PAYLOAD \<noteq> STREAMING_SIGNED" "UNSIGNED_PAYLOAD \<noteq> STREAMING_SIGNED_TRAILER"
  "STREAMING_SIGNED \<noteq> STREAMING_SIGNED_TRAILER"
  by code_simp+

lemma decode_signed_chain:
  assumes ok: "hex_ok cr" "mac_ok cr" and "decode_aws_chunked cr raw (Some sg) t = Inr d"
  shows "\<exists>chunks rest. dc_payload d = concat chunks \<and> signed_body cr sg (sg_seed_signature sg) chunks raw rest"
proof -
  from assms(3) obtain p rest where "decode_chunks cr (Some sg) (Some (sg_seed_signature sg)) raw [] = Inr (p, rest)"
    and "dc_payload d = p"
    by (auto simp: decode_aws_chunked_def try_r_Inr_iff split: if_splits)
  from decode_chunks_sound [OF ok this(1)] this(2) show ?thesis by auto
qed

lemma verify_payload_verified:
  assumes ok: "hex_ok cr" "mac_ok cr" and run: "verify_payload cr hs raw h a date key = Inr (hs', p)"
  shows "payload_verified cr raw h a date key p"
proof -
  let ?sg = "\<lparr>sg_signing_key = key, sg_amz_date = date, sg_scope = av_scope a, sg_seed_signature = av_signature a\<rparr>"
  have chain: "\<exists>chunks rest. p = concat chunks \<and> signed_body cr ?sg (av_signature a) chunks raw rest"
    if "h = STREAMING_SIGNED \<or> h = STREAMING_SIGNED_TRAILER"
  proof -
    from that run payload_hash_lengths obtain d t where
      "decode_aws_chunked cr raw (Some ?sg) t = Inr d" "p = dc_payload d"
      by (auto simp: verify_payload_def Let_def try_r_Inr_iff split: if_splits)
    from decode_signed_chain [OF ok this(1)] this(2) show ?thesis by simp
  qed
  have "p = raw" if "h = UNSIGNED_PAYLOAD" using run that by (simp add: verify_payload_def)
  moreover have "p = raw \<and> to_ascii_lowercase (sha256_hex cr raw) = to_ascii_lowercase h" if "length h = 64"
    using run that payload_hash_lengths
    by (auto simp: verify_payload_def Let_def eq_ignore_ascii_case_def split: if_splits)
  ultimately show ?thesis using chain by (simp add: payload_verified_def)
qed

subsection \<open>A signed request\<close>

definition demo_key :: access_key where
  "demo_key = \<lparr>ak_id = ''AKID'', ak_key = ''secret'', ak_subuser = [], ak_active = True, ak_create_date = 0\<rparr>"

definition demo_user :: user_info where
  "demo_user = add_access_key demo_key (user_info_new (user_id_new ''alice'') ''Alice'' 0)"

definition demo_conn :: "json conn" where
  "demo_conn = snd (sq_store_user demo_crates demo_user True (conn_of db_empty))"

definition demo_now :: time where
  "demo_now = 7"

definition demo_headers :: "string \<Rightarrow> headers" where
  "demo_headers h = [(''host'', ''localhost''), (''x-amz-date'', format_amz demo_crates demo_now), (''x-amz-content-sha256'', h)]"

definition demo_base_request :: "string \<Rightarrow> object_body \<Rightarrow> request" where
  "demo_base_request h body = \<lparr>rq_method = ''PUT'', rq_path = ''/b/k'', rq_query = None, rq_authority = None,
     rq_headers = demo_headers h, rq_body = body, rq_identity = None\<rparr>"

definition demo_auth :: "string \<Rightarrow> string \<Rightarrow> authorization_v4" where
  "demo_auth sig h = \<lparr>av_access_key_id = ''AKID'',
     av_scope = \<lparr>cs_date = ''20130524'', cs_region = ''r'', cs_service = ''s3''\<rparr>,
     av_signed_headers = [''host'', ''x-amz-date''], av_signature = sig\<rparr>"

definition demo_sign :: "request \<Rightarrow> string \<Rightarrow> request" where
  "demo_sign base h =
     (let a = demo_auth [] h;
          sig = hex_encode demo_crates (hmac_sha256_mac demo_crates (request_key demo_crates ''secret'' a)
            (string_to_sign demo_crates (format_amz demo_crates demo_now) (av_scope a)
              (request_creq demo_crates base a h)))
      in base\<lparr>rq_headers := (''authorization'', authorization_header (demo_auth sig h)) # rq_headers base\<rparr>)"

definition demo_request :: "string \<Rightarrow> object_body \<Rightarrow> request" where
  "demo_request h body = demo_sign (demo_base_request h body) h"

definition demo_config :: auth_config where
  "demo_config = \<lparr>ac_max_skew = 5, ac_max_body_bytes = 500\<rparr>"

definition demo_verify :: "string \<Rightarrow> object_body \<Rightarrow> request rgw_result \<times> json conn" where
  "demo_verify h body =
     verify demo_crates (sqlite_driver demo_crates) demo_config demo_now (demo_request h body) demo_conn"

lemma demo_run:
  "(case demo_verify ''UNSIGNED-PAYLOAD'' [Inr ''data''] of
      (Inr r, _) \<Rightarrow> (case rq_identity r of Some (User u) \<Rightarrow> au_access_key_id u = ''AKID'' | _ \<Rightarrow> False)
    | _ \<Rightarrow> False)"
  by code_simp

lemma demo_run_user:
  obtains r s u where "demo_verify ''UNSIGNED-PAYLOAD'' [Inr ''data''] = (Inr r, s)" "rq_identity r = Some (User u)"
    "au_access_key_id u = ''AKID''"
  using demo_run by (auto split: prod.splits sum.splits option.splits identity.splits)

lemma verified_authentic:
  assumes "hex_ok cr" and "mac_ok cr" and run: "verify cr drv cfg now req s = (Inr req', s')"
    and u: "rq_identity req' = Some (User u)"
  shows "authentic cr cfg now req u \<and>
    load_user_by_access_key drv (au_access_key_id u) s = (Inr (au_info u), s')"
proof (rule verify_user_run [OF run u])
  fix authz a date key h sk raw hs' payload
  assume *: "parse_authorization authz = Inr a" "check_signature cr req a date (ak_key key) h = Inr sk"
    and **: "hdr_get (rq_headers req) ''authorization'' = Some authz" "av_access_key_id a = au_access_key_id u"
    "request_time cr now (rq_headers req) (av_scope a) (ac_max_skew cfg) = Inr date" "\<not> ui_suspended (au_info u)"
    "bt_get (ui_access_keys (au_info u)) (av_access_key_id a) = Some key" "ak_active key"
    "header_str (rq_headers req) ''x-amz-content-sha256'' = Some h"
    and l: "load_user_by_access_key drv (av_access_key_id a) s = (Inr (au_info u), s')"
  from check_signature_ok [OF assms(1,2) *(2) parse_authorization_wf [OF *(1)]] * ** l show ?thesis
    unfolding authentic_def by metis
qed

subsection \<open>The properties\<close>





text \<open>
  A request is let through without an identity of its own exactly when it has no
  \<open>Authorization\<close> header (and no presigned query, which is not implemented); it then reaches the
  handlers unchanged, as anonymous, and the driver was not asked. Every other request that is let
  through has an authenticated user.
\<close>

theorem verify_identity:
  "case verify cr drv cfg now req s of
     (Inr req', s') \<Rightarrow>
       (if hdr_get (rq_headers req) ''authorization'' = None
        then req' = req\<lparr>rq_identity := Some Anonymous\<rparr> \<and> s' = s
        else \<exists>u. rq_identity req' = Some (User u))
   | (Inl e, s') \<Rightarrow>
       hdr_get (rq_headers req) ''authorization'' = None \<longrightarrow>
         e = NotImplemented \<and> has_query_param cr (request_query req) ''X-Amz-Algorithm'' \<and> s' = s"
proof (cases "hdr_get (rq_headers req) ''authorization''")
  case None
  then show ?thesis by (simp add: verify_def Let_def request_query_def)
next
  case (Some authz)
  with verify_header_user [of cr drv cfg now req s] show ?thesis by (auto split: prod.splits sum.splits)
qed

lemma verify_identity_witness:
  "case verify demo_crates (sqlite_driver demo_crates) demo_config demo_now (demo_base_request [] []) demo_conn of
     (Inr req', s') \<Rightarrow> rq_identity req' = Some Anonymous \<and> s' = demo_conn
   | (Inl _, _) \<Rightarrow> False"
proof -
  let ?req = "demo_base_request [] []"
  have no: "hdr_get (rq_headers ?req) ''authorization'' = None" "\<not> has_query_param demo_crates (request_query ?req) ''X-Amz-Algorithm''"
    by code_simp+
  show ?thesis
    using verify_identity [where cr = demo_crates and drv = "sqlite_driver demo_crates" and cfg = demo_config and now = demo_now and req = ?req and s = demo_conn] no
    by (auto split: prod.splits sum.splits)
qed

text \<open>
  C14 (safety): with the SQLite driver, a user that \<open>verify\<close> lets through is a stored one: the access
  key index maps the key of the request to the row whose record is the identity's, that record holds
  the key, is not suspended, and authentication did not change the store.
\<close>

theorem verify_stored_user:
  assumes "sq_inv cr s" and run: "verify cr (sqlite_driver cr) cfg now req s = (Inr req', s')"
    and u: "rq_identity req' = Some (User u)"
  shows "\<exists>uid. bt_get (g_keys (sq_view cr s)) (au_access_key_id u) = Some uid \<and>
    bt_get (g_users (sq_view cr s)) uid = Some (au_info u) \<and> user_has_key (au_info u) (au_access_key_id u) \<and>
    \<not> ui_suspended (au_info u) \<and> sq_inv cr s' \<and> sq_view cr s' = sq_view cr s"
proof (rule verify_user_run [OF run u])
  fix a
  assume "av_access_key_id a = au_access_key_id u" "\<not> ui_suspended (au_info u)"
    and "load_user_by_access_key (sqlite_driver cr) (av_access_key_id a) s = (Inr (au_info u), s')"
  with sq.load_key_found [OF assms(1), of "au_access_key_id u" "au_info u" s'] show ?thesis by simp
qed

lemma demo_conn_inv: "sq_inv demo_crates demo_conn"
proof -
  have "user_wf demo_user" "uid_stable (ui_user_id demo_user)" by code_simp+
  note ok = sq.store_user_ok [OF this, of demo_crates True]
  obtain r c where run: "store_user (sqlite_driver demo_crates) demo_user True (conn_of db_empty) = (r, c)" by fastforce
  have "sq_inv demo_crates (conn_of db_empty)" by (simp add: sq_inv_def)
  from refinesD [OF ok this run] run show ?thesis by (simp add: demo_conn_def sqlite_driver_def)
qed

lemma verify_stored_user_witness:
  "\<exists>r s (u :: authed_user) uid. demo_verify ''UNSIGNED-PAYLOAD'' [Inr ''data''] = (Inr r, s) \<and>
     bt_get (g_users (sq_view demo_crates demo_conn)) uid = Some (au_info u) \<and> au_access_key_id u = ''AKID''"
proof (rule demo_run_user)
  fix r s u
  assume *: "demo_verify ''UNSIGNED-PAYLOAD'' [Inr ''data''] = (Inr r, s)" "rq_identity r = Some (User u)"
    "au_access_key_id u = ''AKID''"
  from verify_stored_user [OF demo_conn_inv *(1) [unfolded demo_verify_def] *(2)]
  obtain uid where "bt_get (g_users (sq_view demo_crates demo_conn)) uid = Some (au_info u)" by blast
  with * show ?thesis by blast
qed

end
