(* ===== verification/Wire_Props.thy ===== *)
theory Wire_Props
  imports Sigv4_Canon Chunked_Facts Sqlite_Db Demo
begin

section \<open>What goes over the wire and into the tables\<close>

text \<open>
  The properties of the formats: signatures, the \<open>Authorization\<close> header, the canonical query,
  \<open>aws-chunked\<close> payloads, user ids and the JSON documents of the user and bucket tables.
\<close>

subsection \<open>Signatures\<close>

text \<open>
  C17 (equivalence): the constant-time comparison accepts a hex string exactly when it is the
  computed tag in hexadecimal, in either case: no other text, no truncated or longer one.
\<close>

theorem signature_comparison_decides:
  assumes "hex_ok cr" and "mac_ok cr"
  shows "signature_matches cr (hmac_sha256_mac cr k m) provided \<longleftrightarrow>
    to_ascii_lowercase provided = hex_encode cr (hmac_sha256_mac cr k m)"
  using assms by (intro signature_matches_iff) (auto simp: mac_ok_def)

lemma signature_comparison_decides_witness:
  "\<not> signature_matches demo_crates (hmac_sha256_mac demo_crates ''k'' ''m'') ''00''"
proof -
  let ?m = "hmac_sha256_mac demo_crates ''k'' ''m''"
  have "length (hex_encode demo_crates ?m) = 64"
    using demo_crates_more_ok(1,2) by (simp add: hex_ok_def mac_ok_def)
  moreover have "length (to_ascii_lowercase ''00'') = 2" by simp
  ultimately have "to_ascii_lowercase ''00'' \<noteq> hex_encode demo_crates ?m" by (intro notI) simp
  then show ?thesis using signature_comparison_decides [OF demo_crates_more_ok(1,2), of "''k''" "''m''" "''00''"] by blast
qed

text \<open>
  C18 (type): whatever text the \<open>Authorization\<close> header holds, a parsed one is well-formed: a
  non-empty access key, an eight-digit date, a region without slashes, service \<open>s3\<close>, signed headers
  in lowercase, sorted, without repetition and with \<open>host\<close> among them, and a signature of 64
  lowercase hexadecimal digits.
\<close>

theorem authorization_parsed_wf:
  assumes "parse_authorization value = Inr a"
  shows "auth_wf a"
  using parse_authorization_wf [OF assms] .

definition demo_auth_value :: string where
  "demo_auth_value = ''AWS4-HMAC-SHA256 Credential=AK/20130524/r/s3/aws4_request, SignedHeaders=host;x-amz-date, Signature='' @
     replicate 64 (CHR ''A'')"

definition demo_auth_parsed :: authorization_v4 where
  "demo_auth_parsed = \<lparr>av_access_key_id = ''AK'',
     av_scope = \<lparr>cs_date = ''20130524'', cs_region = ''r'', cs_service = ''s3''\<rparr>,
     av_signed_headers = [''host'', ''x-amz-date''], av_signature = replicate 64 (CHR ''a'')\<rparr>"

lemma demo_auth_parse: "parse_authorization demo_auth_value = Inr demo_auth_parsed"
  by code_simp

lemma authorization_parsed_wf_witness: "auth_wf demo_auth_parsed"
  by (rule authorization_parsed_wf [OF demo_auth_parse])

text \<open>
  The header a client writes for a well-formed authorization is parsed back to
  exactly that authorization, access keys with slashes in them included.
\<close>

theorem authorization_round_trip:
  assumes "auth_wf a" and "header_text (av_access_key_id a)" and "header_text (cs_region (av_scope a))"
    and "\<forall>h \<in> set (av_signed_headers a). header_text h"
  shows "parse_authorization (authorization_header a) = Inr a"
  using parse_authorization_written [OF assms(1-3)] assms(4) by blast

lemma authorization_round_trip_witness:
  "parse_authorization (authorization_header demo_auth_parsed) = Inr demo_auth_parsed"
proof (rule authorization_round_trip)
  show "auth_wf demo_auth_parsed" by (rule parse_authorization_wf [OF demo_auth_parse])
qed code_simp+

text \<open>
  The canonical query does not depend on the order in which a client or a proxy
  sends the parameters.
\<close>

theorem canonical_query_order:
  assumes "\<forall>p \<in> set ps. CHR ''&'' \<notin> set p" and "mset qs = mset ps"
  shows "canonical_query cr (join ''&'' qs) = canonical_query cr (join ''&'' ps)"
  using assms by (intro canonical_query_perm) auto

lemma canonical_query_order_witness:
  "canonical_query demo_crates (join ''&'' [''b=2'', ''a=1'', ''b=1'']) =
   canonical_query demo_crates (join ''&'' [''a=1'', ''b=1'', ''b=2''])"
  by (rule canonical_query_order) auto

subsection \<open>\<open>aws-chunked\<close> payloads\<close>

definition demo_signer :: chunk_signer where
  "demo_signer = \<lparr>sg_signing_key = ''k'', sg_amz_date = ''d'',
     sg_scope = \<lparr>cs_date = ''20130524'', cs_region = ''r'', cs_service = ''s3''\<rparr>, sg_seed_signature = ''seed''\<rparr>"

definition demo_chunked :: bytes where
  "demo_chunked = encode_signed demo_crates [''one'', ''two!''] ''k'' ''d'' (sg_scope demo_signer) ''seed''"

lemma demo_signer_unfold: "demo_signer = \<lparr>sg_signing_key = ''k'', sg_amz_date = ''d'',
     sg_scope = sg_scope demo_signer, sg_seed_signature = ''seed''\<rparr>"
  by (simp add: demo_signer_def)

text \<open>
  A signed \<open>aws-chunked\<close> body that decodes is an authentic chain: its payload is the
  concatenation of chunks each of which carries the signature computed over the one before it, the
  first over the seed of the request, the last chunk being the empty one.
\<close>

theorem chunked_payload_authentic:
  assumes "hex_ok cr" and "mac_ok cr" and "decode_aws_chunked cr body (Some sg) trailers = Inr d"
  shows "\<exists>chunks rest. dc_payload d = concat chunks \<and> signed_body cr sg (sg_seed_signature sg) chunks body rest"
proof -
  from assms(3) obtain out rest where "decode_chunks cr (Some sg) (Some (sg_seed_signature sg)) body [] = Inr (out, rest)"
    "dc_payload d = out"
    by (auto simp: decode_aws_chunked_def try_r_Inr_iff split: if_splits)
  with decode_chunks_sound [OF assms(1,2) this(1)] show ?thesis by auto
qed

text \<open>
  What a client encodes as signed chunks of any sizes, the decoder gives back whole,
  with no trailers.
\<close>

theorem chunked_round_trip:
  assumes "hex_ok cr" and "mac_ok cr" and "\<forall>c \<in> set chunks. c \<noteq> [] \<and> length c < 2 ^ 64"
  shows "decode_aws_chunked cr (encode_signed cr chunks key date scope seed)
      (Some \<lparr>sg_signing_key = key, sg_amz_date = date, sg_scope = scope, sg_seed_signature = seed\<rparr>) False =
    Inr \<lparr>dc_payload = concat chunks, dc_trailers = []\<rparr>"
  using assms by (intro decode_encode_signed) auto

lemma chunked_round_trip_witness:
  "decode_aws_chunked demo_crates demo_chunked (Some demo_signer) False =
     Inr \<lparr>dc_payload = ''onetwo!'', dc_trailers = []\<rparr>"
proof -
  have "\<forall>c \<in> set [''one'', ''two!'']. c \<noteq> [] \<and> length c < 2 ^ 64" by simp
  from chunked_round_trip [OF demo_crates_more_ok(1,2) this] show ?thesis
    by (subst demo_signer_unfold) (simp add: demo_chunked_def)
qed

lemma chunked_payload_authentic_witness:
  "\<exists>chunks rest. ''onetwo!'' = concat chunks \<and> signed_body demo_crates demo_signer ''seed'' chunks demo_chunked rest"
proof -
  have "decode_aws_chunked demo_crates demo_chunked (Some demo_signer) False =
      Inr \<lparr>dc_payload = ''onetwo!'', dc_trailers = []\<rparr>"
  proof -
    have "c \<noteq> [] \<and> length c < 2 ^ 64" if "c \<in> set [''one'', ''two!'']" for c using that by auto
    from decode_encode_signed [OF demo_crates_more_ok(1,2), where chunks = "[''one'', ''two!'']"] this show ?thesis
      by (subst demo_signer_unfold) (simp add: demo_chunked_def)
  qed
  from chunked_payload_authentic [OF demo_crates_more_ok(1,2) this] show ?thesis by (simp add: demo_signer_def)
qed

subsection \<open>User ids and records\<close>

text \<open>
  C22 (roundtrip): a user id reads back from its string form exactly when it is canonical (no \<open>$\<close> in
  the tenant, none in a tenantless id), and among canonical ids the string form, which keys every
  table, names one user.
\<close>

theorem user_id_round_trip:
  "(user_id_parse (user_id_display u) = u \<longleftrightarrow> canonical_uid u) \<and>
   (canonical_uid u \<and> canonical_uid v \<and> user_id_display u = user_id_display v \<longrightarrow> u = v)"
proof -
  have "canonical_uid u" if "user_id_parse (user_id_display u) = u"
  proof (rule ccontr)
    assume no: "\<not> canonical_uid u"
    then have "\<not> canonical_uid (user_id_parse (user_id_display u))" by (simp only: that not_False_eq_True)
    then obtain r where r: "user_id_display u = CHR ''$'' # r" unfolding canonical_parse_iff by blast
    have "user_id_display u = r" using user_id_display_parse [of "user_id_display u"] r that by simp
    with r show False by simp
  qed
  then show ?thesis using user_id_parse_display display_inj by blast
qed

lemma user_id_round_trip_witness:
  "user_id_parse (user_id_display (UserId ''acme'' ''bob'')) = UserId ''acme'' ''bob''"
proof -
  have "canonical_uid (UserId ''acme'' ''bob'')" by code_simp
  then show ?thesis using user_id_round_trip [of "UserId ''acme'' ''bob''" "UserId ''acme'' ''bob''"] by blast
qed

text \<open>The string form is ambiguous outside the canonical ids: two distinct users, one key.\<close>

lemma user_id_alias:
  "user_id_parse ''$acme$bob'' \<noteq> user_id_parse ''acme$bob'' \<and>
   user_id_display (user_id_parse ''$acme$bob'') = user_id_display (user_id_parse ''acme$bob'')"
  by code_simp

text \<open>
  C23 (roundtrip): a user record written to its JSON column and read back is the record, with its id in
  canonical form - all access keys, capabilities, flags and times - and a bucket record likewise.
\<close>

theorem record_round_trip:
  assumes "json_ok cr" and "chrono_ok cr"
  shows "(user_wf u \<and> to_json cr (user_to_json cr u) = Inr t \<longrightarrow>
            from_json cr (user_of_json cr) t = Inr (canon_user u)) \<and>
         (to_json cr (bucket_to_json cr b) = Inr t \<longrightarrow>
            from_json cr (bucket_of_json cr) t = Inr (canon_bucket b))"
  using assms user_json_rt [OF assms(2)] bucket_json_rt [OF assms(2)]
  by (auto simp: to_json_def from_json_def json_ok_def split: option.splits)

lemma record_round_trip_witness:
  "\<exists>t. to_json demo_crates (user_to_json demo_crates (user_info_new (UserId ''acme'' ''bob'') ''Bob'' 7)) = Inr t \<and>
     from_json demo_crates (user_of_json demo_crates) t = Inr (user_info_new (UserId ''acme'' ''bob'') ''Bob'' 7)"
proof -
  let ?u = "user_info_new (UserId ''acme'' ''bob'') ''Bob'' 7"
  obtain t where t: "to_json demo_crates (user_to_json demo_crates ?u) = Inr t"
    by (simp add: to_json_def demo_crates_def)
  have "canonical_uid (ui_user_id ?u)" by code_simp
  with t record_round_trip [OF demo_crates_ok(1,2), of ?u t] show ?thesis by simp
qed

end
