(* ===== verification/May_Diverge.thy ===== *)
theory May_Diverge
  imports Prelude
begin

section \<open>Actions that may not end\<close>

text \<open>
  A loop whose end depends on the answers of a driver may run forever. Its value is an option,
  \<open>None\<close> when it does not end; the operations around it compose such values. That they end for
  every driver that meets the contract is a theorem about each of them.
\<close>

type_synonym ('s, 'e, 'a) oact = "'s \<Rightarrow> (('e + 'a) \<times> 's) option"

definition run_o :: "('s, 'e, 'a) act \<Rightarrow> ('s, 'e, 'a) oact" where
  "run_o m = (\<lambda>s. Some (m s))"

definition match_o :: "('s, 'e, 'a) oact \<Rightarrow> ('e + 'a \<Rightarrow> ('s, 'f, 'b) oact) \<Rightarrow> ('s, 'f, 'b) oact" where
  "match_o m f = (\<lambda>s. case m s of None \<Rightarrow> None | Some (r, s') \<Rightarrow> f r s')"

definition try_o :: "('s, 'e, 'a) oact \<Rightarrow> ('a \<Rightarrow> ('s, 'e, 'b) oact) \<Rightarrow> ('s, 'e, 'b) oact" where
  "try_o m f = match_o m (\<lambda>r. case r of Inl e \<Rightarrow> run_o (err_a e) | Inr x \<Rightarrow> f x)"

lemma run_o_apply [simp]: "run_o m s = Some (m s)"
  by (simp add: run_o_def)

lemma match_o_apply: "match_o m f s = (case m s of None \<Rightarrow> None | Some (r, s') \<Rightarrow> f r s')"
  by (simp add: match_o_def)

lemma try_o_apply:
  "try_o m f s = (case m s of None \<Rightarrow> None | Some (Inl e, s') \<Rightarrow> Some (Inl e, s') | Some (Inr x, s') \<Rightarrow> f x s')"
  by (simp add: try_o_def match_o_def split: option.splits prod.splits sum.splits)

lemma try_o_Inr_iff:
  "try_o m f s = Some (Inr y, s') \<longleftrightarrow> (\<exists>x s1. m s = Some (Inr x, s1) \<and> f x s1 = Some (Inr y, s'))"
  by (auto simp: try_o_apply split: option.splits prod.splits sum.splits)

lemma try_oE:
  assumes "try_o m f s = Some (r, s')"
  obtains (err) e where "m s = Some (Inl e, s')" and "r = Inl e"
  | (ok) x s1 where "m s = Some (Inr x, s1)" and "f x s1 = Some (r, s')"
  using assms by (auto simp: try_o_apply split: option.splits prod.splits sum.splits)

lemma try_o_run [simp]: "try_o (run_o m) f s = (case m s of (Inl e, s') \<Rightarrow> Some (Inl e, s') | (Inr x, s') \<Rightarrow> f x s')"
  by (simp add: try_o_apply)

text \<open>\<open>ends P m\<close>: from every state that satisfies \<open>P\<close> the action ends in one that does.\<close>

definition ends :: "('s \<Rightarrow> bool) \<Rightarrow> ('s, 'e, 'a) oact \<Rightarrow> bool" where
  "ends P m \<longleftrightarrow> (\<forall>s. P s \<longrightarrow> (\<exists>r s'. m s = Some (r, s') \<and> P s'))"

named_theorems ends_intros \<open>compositional rules for ends\<close>

lemma endsI: "(\<And>s. P s \<Longrightarrow> \<exists>r s'. m s = Some (r, s') \<and> P s') \<Longrightarrow> ends P m"
  by (simp add: ends_def)

lemma endsD: "ends P m \<Longrightarrow> P s \<Longrightarrow> \<exists>r s'. m s = Some (r, s') \<and> P s'"
  by (simp add: ends_def)

lemma ends_run [ends_intros]: "keeps P m \<Longrightarrow> ends P (run_o m)"
  unfolding ends_def keeps_def run_o_apply by (metis prod.collapse)

lemma ends_match [ends_intros]: "ends P m \<Longrightarrow> (\<And>r. ends P (f r)) \<Longrightarrow> ends P (match_o m f)"
  unfolding ends_def match_o_apply by fastforce

lemma ends_try [ends_intros]:
  assumes "ends P m" and "\<And>x. ends P (f x)"
  shows "ends P (try_o m f)"
  unfolding try_o_def
  by (rule ends_match [OF assms(1)]) (auto intro!: assms(2) ends_run keeps_err split: sum.splits)

text \<open>A loop over a list whose body may not end.\<close>

fun try_for_o :: "('a \<Rightarrow> ('s, 'e, unit) oact) \<Rightarrow> 'a list \<Rightarrow> ('s, 'e, unit) oact" where
  "try_for_o f [] = run_o (ret_a ())"
| "try_for_o f (x # xs) = try_o (f x) (\<lambda>_. try_for_o f xs)"

lemma ends_try_for [ends_intros]: "(\<And>x. ends P (f x)) \<Longrightarrow> ends P (try_for_o f xs)"
  by (induction xs) (auto intro!: ends_intros keeps_intros)

end
