(* ===== verification/Sal_Client.thy ===== *)
theory Sal_Client
  imports Sal_History May_Diverge
begin

section \<open>Clients of the storage layer\<close>

text \<open>
  The operations of the gateway are written against a driver, so the abstract store is a driver
  too: running an operation on it is the operation's specification. \<open>sim\<close> says that an action on a
  driver does, seen through \<open>view\<close>, what another does on the abstract store; the rules compose it
  along the operation, and the locale gives it for every method of a driver that works.
\<close>

definition spec_driver :: "(bytes \<Rightarrow> string) \<Rightarrow> gw driver" where
  "spec_driver etag =
     \<lparr>drv_name = ''spec'', load_user = spec_load_user,
      load_user_by_access_key = spec_load_user_by_access_key,
      load_user_by_email = spec_load_user_by_email, store_user = spec_store_user,
      remove_user = spec_remove_user, list_users = spec_list_users, create_bucket = spec_create_bucket,
      load_bucket = spec_load_bucket, list_buckets = spec_list_buckets, remove_bucket = spec_remove_bucket,
      read_stats = spec_read_stats, list_objects = spec_list_objects, head_object = spec_head_object,
      get_object = spec_get_object, put_object = spec_put_object etag, delete_object = spec_delete_object\<rparr>"

lemma spec_driver_sel [simp]:
  "load_user (spec_driver etag) = spec_load_user"
  "load_user_by_access_key (spec_driver etag) = spec_load_user_by_access_key"
  "load_user_by_email (spec_driver etag) = spec_load_user_by_email"
  "store_user (spec_driver etag) = spec_store_user"
  "remove_user (spec_driver etag) = spec_remove_user"
  "list_users (spec_driver etag) = spec_list_users"
  "create_bucket (spec_driver etag) = spec_create_bucket"
  "load_bucket (spec_driver etag) = spec_load_bucket"
  "list_buckets (spec_driver etag) = spec_list_buckets"
  "remove_bucket (spec_driver etag) = spec_remove_bucket"
  "read_stats (spec_driver etag) = spec_read_stats"
  "list_objects (spec_driver etag) = spec_list_objects"
  "head_object (spec_driver etag) = spec_head_object"
  "get_object (spec_driver etag) = spec_get_object"
  "put_object (spec_driver etag) = spec_put_object etag"
  "delete_object (spec_driver etag) = spec_delete_object"
  by (simp_all add: spec_driver_def)

subsection \<open>Simulation\<close>

definition sim :: "('s \<Rightarrow> bool) \<Rightarrow> ('s \<Rightarrow> 't) \<Rightarrow> ('s, 'e, 'a) act \<Rightarrow> ('t, 'e, 'a) act \<Rightarrow> bool" where
  "sim I view m sp \<longleftrightarrow> (\<forall>s r s'. I s \<longrightarrow> m s = (r, s') \<longrightarrow> I s' \<and> sp (view s) = (r, view s'))"

definition sim_o :: "('s \<Rightarrow> bool) \<Rightarrow> ('s \<Rightarrow> 't) \<Rightarrow> ('s, 'e, 'a) oact \<Rightarrow> ('t, 'e, 'a) oact \<Rightarrow> bool" where
  "sim_o I view m sp \<longleftrightarrow> (\<forall>s r s'. I s \<longrightarrow> m s = Some (r, s') \<longrightarrow> I s' \<and> sp (view s) = Some (r, view s'))"

named_theorems sim_intros \<open>compositional rules for simulations\<close>

lemma simI: "(\<And>s r s'. I s \<Longrightarrow> m s = (r, s') \<Longrightarrow> I s' \<and> sp (view s) = (r, view s')) \<Longrightarrow> sim I view m sp"
  by (auto simp: sim_def)

lemma simD: "sim I view m sp \<Longrightarrow> I s \<Longrightarrow> m s = (r, s') \<Longrightarrow> I s' \<and> sp (view s) = (r, view s')"
  by (auto simp: sim_def)

lemma sim_oI: "(\<And>s r s'. I s \<Longrightarrow> m s = Some (r, s') \<Longrightarrow> I s' \<and> sp (view s) = Some (r, view s')) \<Longrightarrow> sim_o I view m sp"
  by (auto simp: sim_o_def)

lemma sim_oD: "sim_o I view m sp \<Longrightarrow> I s \<Longrightarrow> m s = Some (r, s') \<Longrightarrow> I s' \<and> sp (view s) = Some (r, view s')"
  by (auto simp: sim_o_def)

lemma sim_ret [sim_intros]: "sim I view (ret_a x) (ret_a x)"
  by (auto intro: simI)

lemma sim_err [sim_intros]: "sim I view (err_a x) (err_a x)"
  by (auto intro: simI)

lemma sim_lift [sim_intros]: "sim I view (lift_a x) (lift_a x)"
  by (auto intro: simI)

lemma sim_match [sim_intros]:
  assumes m: "sim I view m m'" and f: "\<And>r. sim I view (f r) (f' r)"
  shows "sim I view (match_a m f) (match_a m' f')"
proof (rule simI)
  fix s r s' assume I: "I s" and run: "match_a m f s = (r, s')"
  obtain r0 s0 where 0: "m s = (r0, s0)" by fastforce
  from simD [OF m I 0] simD [OF f, of s0 r0 r s'] run 0
  show "I s' \<and> match_a m' f' (view s) = (r, view s')" by (simp add: match_a_apply)
qed

lemma sim_try [sim_intros]:
  assumes "sim I view m m'" and "\<And>x. sim I view (f x) (f' x)"
  shows "sim I view (try_a m f) (try_a m' f')"
  unfolding try_a_def
  by (rule sim_match [OF assms(1)]) (auto intro: assms(2) sim_intros split: sum.splits)

lemma sim_if [sim_intros]:
  "(b \<Longrightarrow> sim I view m m') \<Longrightarrow> (\<not> b \<Longrightarrow> sim I view n n') \<Longrightarrow>
   sim I view (if b then m else n) (if b then m' else n')"
  by simp

lemma sim_let [sim_intros]: "sim I view (f x) (f' x) \<Longrightarrow> sim I view (let y = x in f y) (let y = x in f' y)"
  by simp

lemma sim_case_option [sim_intros]:
  "(x = None \<Longrightarrow> sim I view m m') \<Longrightarrow> (\<And>y. x = Some y \<Longrightarrow> sim I view (f y) (f' y)) \<Longrightarrow>
   sim I view (case x of None \<Rightarrow> m | Some y \<Rightarrow> f y) (case x of None \<Rightarrow> m' | Some y \<Rightarrow> f' y)"
  by (cases x) simp_all

lemma sim_case_sum [sim_intros]:
  "(\<And>y. x = Inl y \<Longrightarrow> sim I view (g y) (g' y)) \<Longrightarrow> (\<And>y. x = Inr y \<Longrightarrow> sim I view (f y) (f' y)) \<Longrightarrow>
   sim I view (case x of Inl y \<Rightarrow> g y | Inr y \<Rightarrow> f y) (case x of Inl y \<Rightarrow> g' y | Inr y \<Rightarrow> f' y)"
  by (cases x) simp_all

lemma sim_case_prod [sim_intros]:
  "(\<And>a b. x = (a, b) \<Longrightarrow> sim I view (f a b) (f' a b)) \<Longrightarrow>
   sim I view (case x of (a, b) \<Rightarrow> f a b) (case x of (a, b) \<Rightarrow> f' a b)"
  by (cases x) simp

lemma sim_o_run [sim_intros]: "sim I view m m' \<Longrightarrow> sim_o I view (run_o m) (run_o m')"
  by (auto intro!: sim_oI dest: simD)

lemma sim_o_match [sim_intros]:
  assumes m: "sim_o I view m m'" and f: "\<And>r. sim_o I view (f r) (f' r)"
  shows "sim_o I view (match_o m f) (match_o m' f')"
proof (rule sim_oI)
  fix s r s' assume I: "I s" and run: "match_o m f s = Some (r, s')"
  then obtain r0 s0 where 0: "m s = Some (r0, s0)" "f r0 s0 = Some (r, s')"
    by (auto simp: match_o_apply split: option.splits prod.splits)
  from sim_oD [OF m I 0(1)] sim_oD [OF f, of s0 r0 r s'] 0
  show "I s' \<and> match_o m' f' (view s) = Some (r, view s')" by (simp add: match_o_apply)
qed

lemma sim_o_try [sim_intros]:
  assumes "sim_o I view m m'" and "\<And>x. sim_o I view (f x) (f' x)"
  shows "sim_o I view (try_o m f) (try_o m' f')"
  unfolding try_o_def
  by (rule sim_o_match [OF assms(1)]) (auto intro: assms(2) sim_intros split: sum.splits)

lemma sim_o_if [sim_intros]:
  "(b \<Longrightarrow> sim_o I view m m') \<Longrightarrow> (\<not> b \<Longrightarrow> sim_o I view n n') \<Longrightarrow>
   sim_o I view (if b then m else n) (if b then m' else n')"
  by simp

lemma sim_o_let [sim_intros]: "sim_o I view (f x) (f' x) \<Longrightarrow> sim_o I view (let y = x in f y) (let y = x in f' y)"
  by simp

subsection \<open>The locale of clients\<close>

text \<open>
  What a component that calls a driver may rely on: the contract, and, for the answers themselves,
  that the driver works. \<open>cr\<close> are the third-party functions the component uses.
\<close>

locale driver_client = reliable_driver drv sinv view etag calm
  for drv :: "'s driver" and sinv :: "'s \<Rightarrow> bool" and view :: "'s \<Rightarrow> gw"
    and etag :: "bytes \<Rightarrow> string" and calm :: "'s \<Rightarrow> bool" +
  fixes cr :: "'j crates"
begin

definition works :: "'s \<Rightarrow> bool" where
  "works s \<longleftrightarrow> sinv s \<and> calm s"

lemma sim_exact:
  assumes m: "refines sinv view m sp" "exact sinv calm view m sp"
  shows "sim works view m sp"
proof (rule simI)
  fix s r s' assume s: "works s" and run: "m s = (r, s')"
  then have "sinv s" "calm s" by (simp_all add: works_def)
  with refinesD [OF m(1) _ run] exactD [OF m(2) _ _ run]
  show "works s' \<and> sp (view s) = (r, view s')" by (simp add: works_def)
qed

lemma sim_methods [sim_intros]:
  "sim works view (load_user drv uid) (load_user (spec_driver etag) uid)"
  "sim works view (load_user_by_access_key drv k) (load_user_by_access_key (spec_driver etag) k)"
  "sim works view (load_user_by_email drv email) (load_user_by_email (spec_driver etag) email)"
  "sim works view (remove_user drv uid) (remove_user (spec_driver etag) uid)"
  "sim works view (load_bucket drv tenant name) (load_bucket (spec_driver etag) tenant name)"
  "sim works view (remove_bucket drv tenant name) (remove_bucket (spec_driver etag) tenant name)"
  "sim works view (head_object drv bk key) (head_object (spec_driver etag) bk key)"
  "sim works view (get_object drv bk key rng) (get_object (spec_driver etag) bk key rng)"
  "sim works view (delete_object drv bk key) (delete_object (spec_driver etag) bk key)"
  unfolding spec_driver_sel
  by (rule sim_exact [OF load_user_ok load_user_exact] sim_exact [OF load_key_ok load_key_exact]
      sim_exact [OF load_email_ok load_email_exact] sim_exact [OF remove_user_ok remove_user_exact]
      sim_exact [OF load_bucket_ok load_bucket_exact] sim_exact [OF remove_bucket_ok remove_bucket_exact]
      sim_exact [OF head_object_ok head_object_exact] sim_exact [OF get_object_ok get_object_exact]
      sim_exact [OF delete_object_ok delete_object_exact])+

lemma sim_store_user [sim_intros]:
  "user_wf info \<Longrightarrow> uid_stable (ui_user_id info) \<Longrightarrow>
   sim works view (store_user drv info excl) (store_user (spec_driver etag) info excl)"
  unfolding spec_driver_sel by (rule sim_exact [OF store_user_ok store_user_exact]) simp_all

lemma sim_list_users [sim_intros]:
  "mx < 2 ^ 63 \<Longrightarrow> sim works view (list_users drv marker mx) (list_users (spec_driver etag) marker mx)"
  unfolding spec_driver_sel by (rule sim_exact [OF list_users_ok list_users_exact]) simp_all

lemma sim_create_bucket [sim_intros]:
  "uid_stable (bi_owner b) \<Longrightarrow> sim works view (create_bucket drv b) (create_bucket (spec_driver etag) b)"
  unfolding spec_driver_sel by (rule sim_exact [OF create_bucket_ok create_bucket_exact]) simp_all

lemma sim_list_buckets [sim_intros]:
  "mx < 2 ^ 63 - 1 \<Longrightarrow>
   sim works view (list_buckets drv ow marker mx) (list_buckets (spec_driver etag) ow marker mx)"
  unfolding spec_driver_sel by (rule sim_exact [OF list_buckets_ok list_buckets_exact]) simp_all

lemma sim_list_objects [sim_intros]:
  "from_utf8_ok (lp_prefix p) \<Longrightarrow> CHR 0x00 \<notin> set (lp_prefix p) \<Longrightarrow>
   sim works view (list_objects drv bk p) (list_objects (spec_driver etag) bk p)"
  unfolding spec_driver_sel by (rule sim_exact [OF list_objects_ok list_objects_exact]) simp_all

lemma sim_put_object [sim_intros]:
  "from_utf8_ok (ok_name key) \<Longrightarrow> bt_wf at \<Longrightarrow> body_fits body \<Longrightarrow>
   sim works view (put_object drv now bk key ow at body) (put_object (spec_driver etag) now bk key ow at body)"
  unfolding spec_driver_sel by (rule sim_exact [OF put_object_ok put_object_exact]) simp_all

end

end
