(* ===== verification/Bucket_Lists.thy ===== *)
theory Bucket_Lists
  imports Sal_Client
begin

section \<open>The abstract bucket list\<close>

text \<open>
  The buckets of a store are listed by name. The lemmas say what is left after a page of them, which
  is what makes every loop over such a listing end, and complete when no two tenants share a name.
\<close>

text \<open>Every bucket is in the default tenant and has a name, as every bucket the gateway creates.\<close>

definition default_tenant :: "gw \<Rightarrow> bool" where
  "default_tenant g \<longleftrightarrow> (\<forall>e \<in> set (g_buckets g). snd (fst e) = [] \<and> fst (fst e) \<noteq> [])"

lemma bucket_entry_key:
  assumes "gw_wf g" and "((n, t), b) \<in> set (g_buckets g)"
  shows "bk_name (bi_bucket b) = n" and "bk_tenant (bi_bucket b) = t"
proof -
  have "bt_get (g_buckets g) (n, t) = Some b"
    using assms gw_wf_maps [OF assms(1)] bt_in_get by metis
  then show "bk_name (bi_bucket b) = n" "bk_tenant (bi_bucket b) = t" using gw_wf_bucket [OF assms(1)] by auto
qed

lemma bucket_names_keys:
  assumes "gw_wf g"
  shows "map (bk_name \<circ> bi_bucket) (map snd (g_buckets g)) = map fst (bt_keys (g_buckets g))"
  unfolding map_map
  by (rule map_cong [OF refl]) (use bucket_entry_key(1) [OF assms] in \<open>auto simp: comp_def\<close>)

lemma bucket_names_sorted:
  assumes "gw_wf g"
  shows "sorted (map (bk_name \<circ> bi_bucket) (map snd (g_buckets g)))"
proof -
  have "sorted_wrt (<) (bt_keys (g_buckets g))" using gw_wf_maps [OF assms] by (simp add: bt_wf_def)
  then have "sorted (map fst (bt_keys (g_buckets g)))"
    by (simp add: sorted_wrt_map) (rule sorted_wrt_mono_rel, auto simp: less_prod_def)
  then show ?thesis unfolding bucket_names_keys [OF assms] .
qed

lemma bucket_names_distinct:
  assumes "gw_wf g" and "default_tenant g"
  shows "distinct (map (bk_name \<circ> bi_bucket) (map snd (g_buckets g)))"
proof -
  have keys: "distinct (bt_keys (g_buckets g))"
    using gw_wf_maps [OF assms(1)] by (auto simp: bt_wf_def strict_sorted_iff)
  moreover have "inj_on fst (set (bt_keys (g_buckets g)))"
  proof (rule inj_onI)
    fix k k' assume "k \<in> set (bt_keys (g_buckets g))" "k' \<in> set (bt_keys (g_buckets g))" "fst k = fst k'"
    with assms(2) have "snd k = []" "snd k' = []" by (auto simp: default_tenant_def)
    with \<open>fst k = fst k'\<close> show "k = k'" by (simp add: prod_eq_iff)
  qed
  ultimately show ?thesis unfolding bucket_names_keys [OF assms(1)] by (simp add: distinct_map del: map_map)
qed

lemma g_buckets_sorted: "gw_wf g \<Longrightarrow> sorted (map (bk_name \<circ> bi_bucket) (g_buckets_of g u m))"
  using bucket_names_sorted by (simp add: g_buckets_of_def sorted_filter)

lemma g_buckets_distinct: "gw_wf g \<Longrightarrow> default_tenant g \<Longrightarrow> distinct (map (bk_name \<circ> bi_bucket) (g_buckets_of g u m))"
  using bucket_names_distinct by (simp add: g_buckets_of_def distinct_map_filter)

lemma g_buckets_later:
  assumes "m \<le> m'"
  shows "g_buckets_of g u m' = filter (\<lambda>b. m' < bk_name (bi_bucket b)) (g_buckets_of g u m)"
  unfolding g_buckets_of_def filter_filter
  by (rule filter_cong [OF refl]) (use assms in auto)

text \<open>After a full page, what is left is shorter, and exactly the rest when names are distinct.\<close>

lemma buckets_rest:
  assumes "gw_wf g" and "n < length (g_buckets_of g u m)" and "n \<noteq> 0"
    and m': "m' = bk_name (bi_bucket (last (take n (g_buckets_of g u m))))"
  shows "m < m'" and "length (g_buckets_of g u m') < length (g_buckets_of g u m)"
    and "default_tenant g \<Longrightarrow> g_buckets_of g u m' = drop n (g_buckets_of g u m)"
proof -
  let ?bs = "g_buckets_of g u m" and ?nm = "\<lambda>b. bk_name (bi_bucket b)"
  have ne: "take n ?bs \<noteq> []" using assms(2,3) by auto
  then have "last (take n ?bs) \<in> set ?bs" by (meson in_set_takeD last_in_set)
  then show lt: "m < m'" unfolding m' by (auto simp: g_buckets_of_def)
  have later: "g_buckets_of g u m' = filter (\<lambda>b. m' < ?nm b) ?bs" using lt by (simp add: g_buckets_later)
  have lastb: "last (take n ?bs) = ?bs ! (n - 1)" using assms(2) ne by (simp add: last_conv_nth)
  have "\<not> m' < ?nm (?bs ! (n - 1))" using m' lastb by simp
  then have "filter (\<lambda>b. m' < ?nm b) ?bs \<noteq> ?bs"
    using assms(2,3) by (metis (no_types, lifting) filter_id_conv less_imp_diff_less nth_mem)
  then show "length (g_buckets_of g u m') < length ?bs"
    unfolding later by (metis (no_types, lifting) filter_True length_filter_less linorder_not_less filter_id_conv)
  assume dt: "default_tenant g"
  have strict: "sorted_wrt (<) (map ?nm ?bs)"
    using g_buckets_sorted [OF assms(1)] g_buckets_distinct [OF assms(1) dt] by (simp add: strict_sorted_iff comp_def)
  have "m' < ?nm (?bs ! i) \<longleftrightarrow> n \<le> i" if "i < length ?bs" for i
  proof -
    have mono: "?nm (?bs ! j) < ?nm (?bs ! k)" if "j < k" "k < length ?bs" for j k
      using strict that by (simp add: sorted_wrt_iff_nth_less)
    consider "n \<le> i" | "i = n - 1" | "i < n - 1" by linarith
    then show ?thesis
    proof cases
      case 1
      then show ?thesis using mono [of "n - 1" i] that assms(3) m' lastb by simp
    next
      case 2
      then show ?thesis using assms(3) m' lastb by simp
    next
      case 3
      then have "?nm (?bs ! i) < m'" using mono [of i "n - 1"] assms(2) m' lastb by simp
      then have "\<not> m' < ?nm (?bs ! i)" by (rule order_less_not_sym)
      with 3 show ?thesis by simp
    qed
  qed
  then have tk: "filter (\<lambda>b. m' < ?nm b) (take n ?bs) = []" and dp: "filter (\<lambda>b. m' < ?nm b) (drop n ?bs) = drop n ?bs"
    using assms(2) by (auto simp: filter_empty_conv filter_id_conv in_set_conv_nth)
  have "filter (\<lambda>b. m' < ?nm b) (take n ?bs @ drop n ?bs) = drop n ?bs" unfolding filter_append tk dp by simp
  then show "g_buckets_of g u m' = drop n ?bs" unfolding later by simp
qed

lemma spec_buckets_page:
  "fst (spec_list_buckets ow m 0 g) = Inr
     \<lparr>bl_buckets = take 1000 (g_buckets_of g ow m), bl_is_truncated = (1000 < length (g_buckets_of g ow m)),
      bl_next_marker = (let p = take 1000 (g_buckets_of g ow m) in if p = [] then [] else bk_name (bi_bucket (last p)))\<rparr>"
  by (simp add: spec_list_buckets_def page_size_def DEFAULT_MAX_ENTRIES_def Let_def)

context driver_client
begin

lemma list_buckets_run:
  assumes "sinv s" and "list_buckets drv ow m 0 s = (r, s1)"
  shows "sinv s1" and "view s1 = view s"
    and "(\<exists>e. r = Inl e \<and> is_internal e) \<or> r = fst (spec_list_buckets ow m 0 (view s))"
    and "calm s \<Longrightarrow> calm s1 \<and> r = fst (spec_list_buckets ow m 0 (view s))"
proof -
  have ex: "exact sinv calm view (list_buckets drv ow m 0) (spec_list_buckets ow m 0)"
    by (rule list_buckets_exact) simp
  have "refines sinv view (list_buckets drv ow m 0) (spec_list_buckets ow m 0)" by (rule list_buckets_ok) simp
  from refines_reads [OF this reads_specs(6) assms] show "sinv s1" "view s1 = view s"
    "(\<exists>e. r = Inl e \<and> is_internal e) \<or> r = fst (spec_list_buckets ow m 0 (view s))" by auto
  show "calm s \<Longrightarrow> calm s1 \<and> r = fst (spec_list_buckets ow m 0 (view s))"
    using exactD [OF ex assms(1) _ assms(2)] by (metis fst_conv)
qed

end

end
