(* ===== verification/Rest.thy ===== *)
theory Rest
  imports Auth May_Diverge
begin

section \<open>\<open>rgw-rest/src/lib.rs\<close>: responses, error documents, request ids\<close>

text \<open>
  A response is its status, its headers and its body. Text bodies are one chunk, as
  \<open>String::into_response\<close> makes them; the \<open>Content-Type\<close> given replaces the default one.
\<close>

record response =
  rs_status :: nat
  rs_headers :: headers
  rs_body :: object_body

definition HOST_ID :: string where
  "HOST_ID = ''rgw-rs-default-default''"

text \<open>\<open>StatusCode::from_u16\<close> takes 100 to 999.\<close>

definition status_code :: "rgw_error \<Rightarrow> nat" where
  "status_code err = (let n = http_status err in if 100 \<le> n \<and> n < 1000 then n else 500)"

lemma status_code [simp]: "status_code err = http_status err"
  by (cases err) (simp_all add: status_code_def)

definition respond :: "rgw_error \<Rightarrow> string \<Rightarrow> string \<Rightarrow> response" where
  "respond err ctype body =
     \<lparr>rs_status = status_code err, rs_headers = [(''content-type'', ctype)], rs_body = body_from_bytes body\<rparr>"

text \<open>A response of a status alone, and one with headers and no body.\<close>

definition status_response :: "nat \<Rightarrow> headers \<Rightarrow> response" where
  "status_response n hs = \<lparr>rs_status = n, rs_headers = hs, rs_body = []\<rparr>"

subsection \<open>The two error documents\<close>

definition text_elem :: "string \<Rightarrow> string \<Rightarrow> xml" where
  "text_elem n t = XElem n [] [XText t]"

definition s3_error_body :: "rgw_error \<Rightarrow> string \<Rightarrow> string \<Rightarrow> xml" where
  "s3_error_body err resource request_id = XElem ''Error'' []
     [text_elem ''Code'' (error_code err), text_elem ''Message'' (error_display err),
      text_elem ''Resource'' resource, text_elem ''RequestId'' request_id, text_elem ''HostId'' HOST_ID]"

definition quote :: string where
  "quote = [CHR 0x22]"

definition XML_DECL :: string where
  "XML_DECL = ''<?xml version='' @ quote @ ''1.0'' @ quote @ '' encoding='' @ quote @ ''UTF-8'' @ quote @ ''?>''"

definition s3_error_response :: "'j crates \<Rightarrow> rgw_error \<Rightarrow> string \<Rightarrow> string \<Rightarrow> response" where
  "s3_error_response cr err resource request_id =
     (let xml = (case xml_to_string cr (s3_error_body err resource request_id) of Inl _ \<Rightarrow> [] | Inr t \<Rightarrow> t)
      in respond err ''application/xml'' (XML_DECL @ xml))"

definition admin_error_response :: "'j crates \<Rightarrow> rgw_error \<Rightarrow> string \<Rightarrow> response" where
  "admin_error_response cr err request_id =
     respond err ''application/json''
       (json_text cr (JObj [(''Code'', JStr (error_code err)), (''RequestId'', JStr request_id), (''HostId'', JStr HOST_ID)]))"

subsection \<open>Request ids and dates\<close>

text \<open>
  The id is made of the first 16 hexadecimal digits of a random UUID and of the clock in seconds,
  cut to 32 bits, both arguments here; the layer puts the id on every response.
\<close>

definition pad_left :: "nat \<Rightarrow> string \<Rightarrow> string" where
  "pad_left n s = replicate (n - length s) (CHR ''0'') @ s"

definition new_request_id :: "string \<Rightarrow> int \<Rightarrow> string" where
  "new_request_id uuid timestamp =
     ''tx'' @ take 16 uuid @ ''-'' @ pad_left 8 (show_radix 16 (unat (word_of_int timestamp :: u32))) @ ''-rgw-rs''"

definition stamp_response :: "string \<Rightarrow> response \<Rightarrow> response" where
  "stamp_response rid resp =
     (let hs = (if hdr_from_str_ok rid then hdr_insert ''x-amz-request-id'' rid (rs_headers resp) else rs_headers resp)
      in resp\<lparr>rs_headers := hdr_insert ''server'' ''rgw-rs'' hs\<rparr>)"

definition request_id_layer :: "string \<Rightarrow> (string \<Rightarrow> ('s, 'e, response) oact) \<Rightarrow> ('s, 'e, response) oact" where
  "request_id_layer rid handler = try_o (handler rid) (\<lambda>resp. run_o (ret_a (stamp_response rid resp)))"

definition http_date :: "'j crates \<Rightarrow> time \<Rightarrow> string" where
  "http_date cr t = format_http_date cr t"

definition iso8601_millis :: "'j crates \<Rightarrow> time \<Rightarrow> string" where
  "iso8601_millis cr t = format_iso8601_millis cr t"

definition iso8601_micros :: "'j crates \<Rightarrow> time \<Rightarrow> string" where
  "iso8601_micros cr t = format_iso8601_micros cr t"

text \<open>\<open>Extend\<close> for a \<open>HeaderMap\<close>: the names of the second map replace those of the first.\<close>

definition hdr_extend :: "headers \<Rightarrow> headers \<Rightarrow> headers" where
  "hdr_extend hs ext = filter (\<lambda>(k, _). k \<notin> fst ` set ext) hs @ ext"

definition hdr_append :: "string \<Rightarrow> bytes \<Rightarrow> headers \<Rightarrow> headers" where
  "hdr_append n v hs = hs @ [(n, v)]"

lemma hdr_get_append: "hdr_get (hdr_append n v hs) m = (case hdr_get hs m of Some w \<Rightarrow> Some w | None \<Rightarrow> if m = n then Some v else None)"
  by (auto simp: hdr_get_def hdr_append_def map_add_def split: option.splits)

lemma hdr_get_append_other: "m \<noteq> n \<Longrightarrow> hdr_get (hdr_append n v hs) m = hdr_get hs m"
  by (simp add: hdr_get_append split: option.splits)

end
