(* ===== verification/S3_Base.thy ===== *)
theory S3_Base
  imports Rest
begin

section \<open>\<open>rgw-rest-s3\<close>: ranges, query arguments, access checks, errors\<close>

text \<open>
  The parts every S3 operation uses: \<open>range.rs\<close>, \<open>args.rs\<close>, \<open>perm.rs\<close> and \<open>error.rs\<close>. The lemmas
  relate the range arithmetic to the contract of the storage layer and say what the access check
  lets through.
\<close>

subsection \<open>\<open>range.rs\<close>\<close>

definition range_num :: "string \<Rightarrow> u64 option" where
  "range_num s =
     (if s = [] \<or> \<not> list_all is_ascii_digit s then None
      else map_option of_nat (parse_unsigned 10 (2 ^ 64) s))"

definition parse_range :: "string \<Rightarrow> byte_range option" where
  "parse_range header = do {
     spec \<leftarrow> map_option trim (strip_prefix ''bytes='' (trim header));
     if CHR '','' \<in> set spec then None else do {
       (s, e) \<leftarrow> split_once (CHR ''-'') spec;
       let s = trim s; e = trim e in
       if s = [] then map_option Suffix (range_num e)
       else do {
         start \<leftarrow> range_num s;
         if e = [] then Some (Absolute start None)
         else do {
           end' \<leftarrow> range_num e;
           if start \<le> end' then Some (Absolute start (Some end')) else None } } } }"

definition s3_resolve_range :: "byte_range \<Rightarrow> u64 \<Rightarrow> (u64 \<times> u64) option" where
  "s3_resolve_range r sz =
     (if sz = 0 then None
      else (let last = sz - 1 in
        case r of
          Absolute s e \<Rightarrow>
            if s \<le> last then Some (s, case e of None \<Rightarrow> last | Some e \<Rightarrow> min e last) else None
        | Suffix n \<Rightarrow> if n = 0 then None else Some (if n \<le> sz then sz - n else 0, last)))"

text \<open>A range that was parsed never ends before it starts.\<close>

definition range_wf :: "byte_range \<Rightarrow> bool" where
  "range_wf r \<longleftrightarrow> (case r of Absolute s (Some e) \<Rightarrow> s \<le> e | _ \<Rightarrow> True)"

lemma parse_range_wf: "parse_range h = Some r \<Longrightarrow> range_wf r"
  by (auto simp: parse_range_def range_wf_def Let_def bind_eq_Some_conv split: if_splits prod.splits)

lemma s3_resolve_range_spec:
  assumes "range_wf r"
  shows "map_option (map_prod unat unat) (s3_resolve_range r sz) = spec_range r (unat sz)"
proof (cases "sz = 0")
  case True
  then show ?thesis by (simp add: s3_resolve_range_def spec_range_def split: byte_range.splits)
next
  case False
  then have pos: "0 < unat sz" by (simp add: unat_gt_0)
  show ?thesis
  proof (cases r)
    case (Absolute s e)
    have "s \<le> sz - 1 \<longleftrightarrow> unat s < unat sz"
      using pos by (auto simp: word_le_nat_alt unat_pred [OF False])
    moreover have "unat (min e' (sz - 1)) = min (unat e') (unat sz - 1)" for e'
      by (simp add: min_def word_le_nat_alt unat_pred [OF False])
    ultimately show ?thesis using False assms pos Absolute
      by (auto simp: s3_resolve_range_def spec_range_def range_wf_def unat_pred word_le_nat_alt split: option.splits)
  next
    case (Suffix n)
    have "unat (if n \<le> sz then sz - n else 0) = unat sz - unat n"
      by (simp add: unat_sub word_le_nat_alt)
    then show ?thesis using False Suffix pos
      by (simp add: s3_resolve_range_def spec_range_def unat_pred unat_eq_0 [symmetric] del: unat_eq_0)
  qed
qed

lemma s3_resolve_range_some:
  assumes "range_wf r" and "spec_range r (unat sz) = Some (lo, hi)"
  shows "s3_resolve_range r sz = Some (of_nat lo, of_nat hi)"
  using s3_resolve_range_spec [OF assms(1), of sz] assms(2) by (auto simp: map_prod_def)

lemma s3_resolve_range_none:
  assumes "range_wf r" and "spec_range r (unat sz) = None"
  shows "s3_resolve_range r sz = None"
  using s3_resolve_range_spec [OF assms(1), of sz] assms(2) by auto

subsection \<open>\<open>args.rs\<close>\<close>

definition BUCKET_UNSUPPORTED :: "string list" where
  "BUCKET_UNSUPPORTED =
     [''acl'', ''policy'', ''lifecycle'', ''cors'', ''tagging'', ''uploads'', ''versions'', ''website'',
      ''logging'', ''notification'', ''encryption'', ''object-lock'', ''replication'', ''requestPayment'',
      ''publicAccessBlock'', ''ownershipControls'', ''intelligent-tiering'', ''inventory'', ''metrics'',
      ''analytics'', ''accelerate'', ''policyStatus'']"

definition OBJECT_UNSUPPORTED :: "string list" where
  "OBJECT_UNSUPPORTED =
     [''acl'', ''tagging'', ''uploads'', ''uploadId'', ''partNumber'', ''legal-hold'', ''retention'',
      ''torrent'', ''attributes'', ''select'', ''restore'']"

type_synonym args = "(string \<times> string) list"

definition args_decode :: "'j crates \<Rightarrow> string \<Rightarrow> string" where
  "args_decode cr s = from_utf8_lossy (percent_decode cr (map (\<lambda>c. if c = CHR ''+'' then CHR '' '' else c) s))"

definition args_parse :: "'j crates \<Rightarrow> string option \<Rightarrow> args" where
  "args_parse cr query = (case query of
       None \<Rightarrow> []
     | Some q \<Rightarrow>
         map (\<lambda>p. case (case split_once (CHR ''='') p of None \<Rightarrow> (p, []) | Some kv \<Rightarrow> kv) of
                    (k, v) \<Rightarrow> (args_decode cr k, args_decode cr v))
           (filter (\<lambda>p. p \<noteq> []) (split_c (CHR ''&'') q)))"

definition args_get :: "args \<Rightarrow> string \<Rightarrow> string option" where
  "args_get a name = map_option snd (find (\<lambda>(k, _). k = name) a)"

definition args_exists :: "args \<Rightarrow> string \<Rightarrow> bool" where
  "args_exists a name = list_ex (\<lambda>(k, _). k = name) a"

definition args_any_of :: "args \<Rightarrow> string list \<Rightarrow> string option" where
  "args_any_of a names = find (args_exists a) names"

lemma args_exists_iff: "args_exists a n \<longleftrightarrow> args_get a n \<noteq> None"
  by (induction a) (auto simp: args_exists_def args_get_def)

lemma args_any_of_None: "args_any_of a names = None \<longleftrightarrow> (\<forall>n \<in> set names. \<not> args_exists a n)"
  by (auto simp: args_any_of_def find_None_iff)

subsection \<open>\<open>error.rs\<close>\<close>

record op_error =
  oe_err :: rgw_error
  oe_headers :: headers

definition op_error_from :: "rgw_error \<Rightarrow> op_error" where
  "op_error_from err = \<lparr>oe_err = err, oe_headers = []\<rparr>"

lemma op_error_from_err [simp]: "oe_err (op_error_from e) = e"
  by (simp add: op_error_from_def)

type_synonym 'a op_result = "op_error + 'a"
type_synonym ('s, 'a) op_act = "('s, op_error, 'a) act"

text \<open>The \<open>?\<close> of an \<open>RgwResult\<close> in a function that returns an \<open>OpResult\<close>.\<close>

definition op_a :: "('s, 'a) rgw_act \<Rightarrow> ('s, 'a) op_act" where
  "op_a m = match_a m (\<lambda>r. lift_a (map_err op_error_from r))"

definition op_r :: "'a rgw_result \<Rightarrow> ('s, 'a) op_act" where
  "op_r r = lift_a (map_err op_error_from r)"

lemma op_a_apply: "op_a m s = (case m s of (r, s') \<Rightarrow> (map_err op_error_from r, s'))"
  by (simp add: op_a_def match_a_apply)

lemma op_r_apply [simp]: "op_r r s = (map_err op_error_from r, s)"
  by (simp add: op_r_def)

record req_ctx =
  rc_resource :: string
  rc_request_id :: string
  rc_head :: bool

definition req_ctx_new :: "string \<Rightarrow> string \<Rightarrow> string \<Rightarrow> req_ctx" where
  "req_ctx_new verb path request_id =
     \<lparr>rc_resource = path, rc_request_id = request_id, rc_head = (verb = ''HEAD'')\<rparr>"

record s3_error =
  se_err :: rgw_error
  se_headers :: headers
  se_resource :: string
  se_request_id :: string
  se_head :: bool

definition req_finish :: "req_ctx \<Rightarrow> response op_result \<Rightarrow> s3_error + response" where
  "req_finish ctx result = map_err (\<lambda>op.
     \<lparr>se_err = oe_err op, se_headers = oe_headers op, se_resource = rc_resource ctx,
      se_request_id = rc_request_id ctx, se_head = rc_head ctx\<rparr>) result"

definition s3_error_into_response :: "'j crates \<Rightarrow> s3_error \<Rightarrow> response" where
  "s3_error_into_response cr e =
     (let resp = (if se_head e then status_response (status_code (se_err e)) []
                  else s3_error_response cr (se_err e) (se_resource e) (se_request_id e))
      in resp\<lparr>rs_headers := hdr_extend (rs_headers resp) (se_headers e)\<rparr>)"

definition header_value :: "'j crates \<Rightarrow> string \<Rightarrow> bytes rgw_result" where
  "header_value cr s = (if hdr_from_str_ok s then Inr s else Inl (internal (header_error cr)))"

lemma header_value_ok: "hdr_from_str_ok s \<Longrightarrow> header_value cr s = Inr s"
  by (simp add: header_value_def)

lemma s3_error_status: "rs_status (s3_error_into_response cr e) = http_status (se_err e)"
  by (simp add: s3_error_into_response_def s3_error_response_def respond_def status_response_def Let_def)

subsection \<open>\<open>perm.rs\<close>\<close>

definition require_user :: "identity \<Rightarrow> user_info rgw_result" where
  "require_user i = ok_or AccessDenied (identity_user i)"

definition verify_bucket_access :: "identity \<Rightarrow> bucket_info \<Rightarrow> unit rgw_result" where
  "verify_bucket_access i b = (case identity_user i of
       Some u \<Rightarrow> if ui_system u \<or> ui_admin u \<or> ui_user_id u = bi_owner b then Inr () else Inl AccessDenied
     | None \<Rightarrow> Inl AccessDenied)"

definition load_bucket_for :: "'s driver \<Rightarrow> identity \<Rightarrow> string \<Rightarrow> ('s, bucket_info) rgw_act" where
  "load_bucket_for drv i name =
     (if CHR ''/'' \<in> set name then err_a NoSuchBucket
      else try_a (load_bucket drv [] name) (\<lambda>bucket.
           try_a (lift_a (verify_bucket_access i bucket)) (\<lambda>_. ret_a bucket)))"

text \<open>Who may use a bucket: its owner, and \<open>system\<close> or \<open>admin\<close> users.\<close>

definition may_access :: "identity \<Rightarrow> bucket_info \<Rightarrow> bool" where
  "may_access i b \<longleftrightarrow>
     (\<exists>u. identity_user i = Some u \<and> (ui_system u \<or> ui_admin u \<or> ui_user_id u = bi_owner b))"

lemmas may_access_iff = may_access_def

lemma verify_bucket_access_cases:
  "verify_bucket_access i b = (if may_access i b then Inr () else Inl AccessDenied)"
  by (auto simp: may_access_def verify_bucket_access_def split: option.splits)

end
