(* ===== verification/S3_Xml.thy ===== *)
theory S3_Xml
  imports S3_Base
begin

section \<open>\<open>rgw-rest-s3/src/xml.rs\<close>: the documents and the \<open><Delete>\<close> parser\<close>

text \<open>
  Each document is a record of the source's struct and a function to the element tree its derived
  \<open>Serialize\<close> gives the serializer: fields in order, a \<open>Vec\<close> one element per entry, a skipped
  \<open>None\<close> no element. The \<open><Delete>\<close> parser is a step function over reader events. The lemmas show
  what the parser accepts and that a written request reads back.
\<close>

definition XMLNS :: string where
  "XMLNS = ''http://s3.amazonaws.com/doc/2006-03-01/''"

definition xmlns_attr :: "(string \<times> string) list" where
  "xmlns_attr = [(''xmlns'', XMLNS)]"

definition to_xml :: "'j crates \<Rightarrow> xml \<Rightarrow> string rgw_result" where
  "to_xml cr doc = try_r (map_err internal (xml_to_string cr doc)) (\<lambda>body. Inr (XML_DECL @ body))"

definition xml_response :: "'j crates \<Rightarrow> xml \<Rightarrow> response rgw_result" where
  "xml_response cr doc = try_r (to_xml cr doc) (\<lambda>body.
     Inr \<lparr>rs_status = 200, rs_headers = [(''content-type'', ''application/xml'')], rs_body = body_from_bytes body\<rparr>)"

subsection \<open>Listing documents\<close>

definition opt_elem :: "string \<Rightarrow> string option \<Rightarrow> xml list" where
  "opt_elem n v = (case v of None \<Rightarrow> [] | Some t \<Rightarrow> [text_elem n t])"

definition bool_text :: "bool \<Rightarrow> string" where
  "bool_text b = (if b then ''true'' else ''false'')"

record owner_xml =
  ox_id :: string
  ox_display_name :: string

definition owner_elem :: "owner_xml \<Rightarrow> xml" where
  "owner_elem o' = XElem ''Owner'' [] [text_elem ''ID'' (ox_id o'), text_elem ''DisplayName'' (ox_display_name o')]"

record bucket_xml =
  bx_name :: string
  bx_creation_date :: string

definition bucket_elem :: "bucket_xml \<Rightarrow> xml" where
  "bucket_elem b = XElem ''Bucket'' [] [text_elem ''Name'' (bx_name b), text_elem ''CreationDate'' (bx_creation_date b)]"

definition list_all_my_buckets_result :: "owner_xml \<Rightarrow> bucket_xml list \<Rightarrow> xml" where
  "list_all_my_buckets_result ow bs =
     XElem ''ListAllMyBucketsResult'' xmlns_attr [owner_elem ow, XElem ''Buckets'' [] (map bucket_elem bs)]"

record contents_xml =
  cx_key :: string
  cx_last_modified :: string
  cx_etag :: string
  cx_size :: u64
  cx_storage_class :: string
  cx_owner :: "owner_xml option"

definition contents_elem :: "contents_xml \<Rightarrow> xml" where
  "contents_elem c = XElem ''Contents'' []
     ([text_elem ''Key'' (cx_key c), text_elem ''LastModified'' (cx_last_modified c),
       text_elem ''ETag'' (cx_etag c), text_elem ''Size'' (show_nat (unat (cx_size c))),
       text_elem ''StorageClass'' (cx_storage_class c)]
      @ (case cx_owner c of None \<Rightarrow> [] | Some ow \<Rightarrow> [owner_elem ow]))"

definition common_prefix_elem :: "string \<Rightarrow> xml" where
  "common_prefix_elem p = XElem ''CommonPrefixes'' [] [text_elem ''Prefix'' p]"

record list_result_v1 =
  v1_name :: string
  v1_prefix :: string
  v1_marker :: string
  v1_max_keys :: nat
  v1_delimiter :: "string option"
  v1_encoding_type :: "string option"
  v1_is_truncated :: bool
  v1_next_marker :: "string option"
  v1_contents :: "contents_xml list"
  v1_common_prefixes :: "string list"

definition list_result_v1_elem :: "list_result_v1 \<Rightarrow> xml" where
  "list_result_v1_elem d = XElem ''ListBucketResult'' xmlns_attr
     ([text_elem ''Name'' (v1_name d), text_elem ''Prefix'' (v1_prefix d), text_elem ''Marker'' (v1_marker d),
       text_elem ''MaxKeys'' (show_nat (v1_max_keys d))]
      @ opt_elem ''Delimiter'' (v1_delimiter d) @ opt_elem ''EncodingType'' (v1_encoding_type d)
      @ [text_elem ''IsTruncated'' (bool_text (v1_is_truncated d))]
      @ opt_elem ''NextMarker'' (v1_next_marker d)
      @ map contents_elem (v1_contents d) @ map common_prefix_elem (v1_common_prefixes d))"

record list_result_v2 =
  v2_name :: string
  v2_prefix :: string
  v2_start_after :: "string option"
  v2_continuation_token :: "string option"
  v2_next_continuation_token :: "string option"
  v2_key_count :: nat
  v2_max_keys :: nat
  v2_delimiter :: "string option"
  v2_encoding_type :: "string option"
  v2_is_truncated :: bool
  v2_contents :: "contents_xml list"
  v2_common_prefixes :: "string list"

definition list_result_v2_elem :: "list_result_v2 \<Rightarrow> xml" where
  "list_result_v2_elem d = XElem ''ListBucketResult'' xmlns_attr
     ([text_elem ''Name'' (v2_name d), text_elem ''Prefix'' (v2_prefix d)]
      @ opt_elem ''StartAfter'' (v2_start_after d) @ opt_elem ''ContinuationToken'' (v2_continuation_token d)
      @ opt_elem ''NextContinuationToken'' (v2_next_continuation_token d)
      @ [text_elem ''KeyCount'' (show_nat (v2_key_count d)), text_elem ''MaxKeys'' (show_nat (v2_max_keys d))]
      @ opt_elem ''Delimiter'' (v2_delimiter d) @ opt_elem ''EncodingType'' (v2_encoding_type d)
      @ [text_elem ''IsTruncated'' (bool_text (v2_is_truncated d))]
      @ map contents_elem (v2_contents d) @ map common_prefix_elem (v2_common_prefixes d))"

definition location_constraint :: "string \<Rightarrow> xml" where
  "location_constraint location = XElem ''LocationConstraint'' xmlns_attr [XText location]"

definition versioning_configuration :: xml where
  "versioning_configuration = XElem ''VersioningConfiguration'' xmlns_attr []"

record delete_error_xml =
  dx_key :: string
  dx_code :: string
  dx_message :: string

definition delete_result_elem :: "string list \<Rightarrow> delete_error_xml list \<Rightarrow> xml" where
  "delete_result_elem deleted errors = XElem ''DeleteResult'' xmlns_attr
     (map (\<lambda>k. XElem ''Deleted'' [] [text_elem ''Key'' k]) deleted
      @ map (\<lambda>e. XElem ''Error'' [] [text_elem ''Key'' (dx_key e), text_elem ''Code'' (dx_code e),
                                     text_elem ''Message'' (dx_message e)]) errors)"

subsection \<open>Parsing a \<open>DeleteObjects\<close> body\<close>

record delete_entry =
  do_key :: string
  do_version_id :: "string option"

record delete_request =
  dr_objects :: "delete_entry list"
  dr_quiet :: bool

definition delete_request_default :: delete_request where
  "delete_request_default = \<lparr>dr_objects = [], dr_quiet = False\<rparr>"

definition MAX_MULTI_DELETE :: nat where
  "MAX_MULTI_DELETE = 1000"

text \<open>The loop's variables; \<open>ps_path\<close> is the stack of open elements, the innermost last.\<close>

record delete_parse =
  ps_req :: delete_request
  ps_path :: "string list"
  ps_content :: string
  ps_key :: "string option"
  ps_version_id :: "string option"
  ps_saw_root :: bool

definition parse_start :: delete_parse where
  "parse_start = \<lparr>ps_req = delete_request_default, ps_path = [], ps_content = [], ps_key = None,
     ps_version_id = None, ps_saw_root = False\<rparr>"

definition open_elem :: "string \<Rightarrow> delete_parse \<Rightarrow> delete_parse rgw_result" where
  "open_elem name st =
     (if ps_path st = [] \<and> (name \<noteq> ''Delete'' \<or> ps_saw_root st) then Inl MalformedXml
      else (let st1 = (if ps_path st = [] then st\<lparr>ps_saw_root := True\<rparr> else st);
                st2 = (if length (ps_path st) = 1 \<and> name = ''Object''
                       then st1\<lparr>ps_key := None, ps_version_id := None\<rparr> else st1)
            in Inr (st2\<lparr>ps_path := ps_path st @ [name], ps_content := []\<rparr>)))"

definition close_elem :: "delete_parse \<Rightarrow> delete_parse rgw_result" where
  "close_elem st =
     (let taken = ps_content st; st0 = st\<lparr>ps_content := []\<rparr>; path = ps_path st in
      try_r (if path = [''Delete'', ''Object'', ''Key''] then Inr (st0\<lparr>ps_key := Some taken\<rparr>)
             else if path = [''Delete'', ''Object'', ''VersionId''] then Inr (st0\<lparr>ps_version_id := Some taken\<rparr>)
             else if path = [''Delete'', ''Object''] then
               (case ps_key st of None \<Rightarrow> Inl MalformedXml
                | Some key \<Rightarrow> Inr (st0\<lparr>ps_key := None, ps_version_id := None,
                    ps_req := (ps_req st)\<lparr>dr_objects := dr_objects (ps_req st)
                      @ [\<lparr>do_key = key, do_version_id = ps_version_id st\<rparr>]\<rparr>\<rparr>))
             else if path = [''Delete'', ''Quiet''] then
               Inr (st0\<lparr>ps_req := (ps_req st)\<lparr>dr_quiet := eq_ignore_ascii_case (trim taken) ''true''\<rparr>\<rparr>)
             else Inr st0)
        (\<lambda>st1. Inr (st1\<lparr>ps_path := butlast path\<rparr>)))"

definition entity_text :: "string \<Rightarrow> string option" where
  "entity_text n =
     (if n = ''amp'' then Some ''&'' else if n = ''lt'' then Some ''<'' else if n = ''gt'' then Some ''>''
      else if n = ''quot'' then Some quote else if n = ''apos'' then Some [CHR 0x27] else None)"

definition push_content :: "string \<Rightarrow> delete_parse \<Rightarrow> delete_parse" where
  "push_content t st = st\<lparr>ps_content := ps_content st @ t\<rparr>"

fun parse_event :: "'j crates \<Rightarrow> xml_event \<Rightarrow> delete_parse \<Rightarrow> delete_parse rgw_result" where
  "parse_event cr (XmlStart n) st = open_elem n st"
| "parse_event cr (XmlEmpty n) st = try_r (open_elem n st) close_elem"
| "parse_event cr XmlEnd st = close_elem st"
| "parse_event cr (XmlText t) st = Inr (push_content t st)"
| "parse_event cr (XmlCData t) st = Inr (push_content t st)"
| "parse_event cr (XmlRef r) st =
     (case xml_char_ref cr r of
        Inl _ \<Rightarrow> Inl MalformedXml
      | Inr (Some ch) \<Rightarrow> Inr (push_content ch st)
      | Inr None \<Rightarrow> (case entity_text r of None \<Rightarrow> Inl MalformedXml | Some t \<Rightarrow> Inr (push_content t st)))"
| "parse_event cr XmlOther st = Inr st"

definition parse_delete_request :: "'j crates \<Rightarrow> bytes \<Rightarrow> delete_request rgw_result" where
  "parse_delete_request cr body =
     try_r (ok_or MalformedXml (from_utf8 body)) (\<lambda>t.
     let (events, eof) = xml_events cr t in
     try_r (try_fold (parse_event cr) events parse_start) (\<lambda>st.
     if \<not> eof then Inl MalformedXml
     else (let n = length (dr_objects (ps_req st)) in
           if \<not> ps_saw_root st \<or> n = 0 \<or> MAX_MULTI_DELETE < n then Inl MalformedXml else Inr (ps_req st))))"

subsection \<open>What the parser accepts\<close>

lemma parse_delete_request_bounds:
  "parse_delete_request cr body = Inr req \<Longrightarrow> dr_objects req \<noteq> [] \<and> length (dr_objects req) \<le> MAX_MULTI_DELETE"
  by (auto simp: parse_delete_request_def try_r_Inr_iff Let_def case_prod_beta split: if_split_asm)

lemma open_elem_err: "open_elem n st = Inl e \<Longrightarrow> e = MalformedXml"
  by (auto simp: open_elem_def Let_def split: if_splits)

lemma close_elem_err: "close_elem st = Inl e \<Longrightarrow> e = MalformedXml"
  by (auto simp: close_elem_def Let_def try_r_Inl_iff split: if_splits option.splits)

lemma parse_event_err: "parse_event cr ev st = Inl e \<Longrightarrow> e = MalformedXml"
  by (cases ev)
    (auto simp: try_r_Inl_iff dest: open_elem_err close_elem_err split: sum.splits option.splits)

lemma try_fold_err:
  assumes "\<And>x s e. f x s = Inl e \<Longrightarrow> e = err" and "try_fold f xs s = Inl e"
  shows "e = err"
  using assms(2) by (induction xs arbitrary: s) (auto simp: try_r_Inl_iff dest: assms(1))

lemma parse_events_err: "try_fold (parse_event cr) evs st = Inl e \<Longrightarrow> e = MalformedXml"
  by (erule try_fold_err [rotated]) (rule parse_event_err)

text \<open>Every refusal is the same error, so the order in which faults are met cannot be seen.\<close>

lemma parse_delete_request_err: "parse_delete_request cr body = Inl e \<Longrightarrow> e = MalformedXml"
  by (auto simp: parse_delete_request_def try_r_Inl_iff ok_or_Inl_iff Let_def case_prod_beta
      dest: parse_events_err split: if_split_asm)

text \<open>The events of a written request: one \<open>Quiet\<close> element, then one \<open>Object\<close> per entry.\<close>

definition leaf_events :: "string \<Rightarrow> string \<Rightarrow> xml_event list" where
  "leaf_events n t = [XmlStart n] @ (if t = [] then [] else [XmlText t]) @ [XmlEnd]"

definition entry_events :: "delete_entry \<Rightarrow> xml_event list" where
  "entry_events d = [XmlStart ''Object''] @ leaf_events ''Key'' (do_key d)
     @ (case do_version_id d of None \<Rightarrow> [] | Some v \<Rightarrow> leaf_events ''VersionId'' v) @ [XmlEnd]"

definition request_events :: "delete_request \<Rightarrow> xml_event list" where
  "request_events r = [XmlStart ''Delete''] @ leaf_events ''Quiet'' (bool_text (dr_quiet r))
     @ concat (map entry_events (dr_objects r)) @ [XmlEnd]"

definition in_delete :: "delete_request \<Rightarrow> delete_parse \<Rightarrow> bool" where
  "in_delete r st \<longleftrightarrow> ps_path st = [''Delete''] \<and> ps_saw_root st \<and> ps_req st = r"

lemma entry_events_run:
  assumes "in_delete r st"
  shows "\<exists>st'. try_fold (parse_event cr) (entry_events d) st = Inr st' \<and>
    in_delete (r\<lparr>dr_objects := dr_objects r @ [d]\<rparr>) st'"
  using assms
  by (cases "do_version_id d")
    (auto simp: entry_events_def leaf_events_def in_delete_def open_elem_def close_elem_def push_content_def Let_def)

lemma entries_run:
  "in_delete r st \<Longrightarrow> \<exists>st'. try_fold (parse_event cr) (concat (map entry_events ds)) st = Inr st' \<and>
    in_delete (r\<lparr>dr_objects := dr_objects r @ ds\<rparr>) st'"
proof (induction ds arbitrary: r st)
  case (Cons d ds)
  obtain st1 where 1: "try_fold (parse_event cr) (entry_events d) st = Inr st1"
      "in_delete (r\<lparr>dr_objects := dr_objects r @ [d]\<rparr>) st1"
    using entry_events_run [OF Cons.prems] by blast
  from Cons.IH [OF 1(2)] 1(1) show ?case by (simp add: try_fold_append)
qed simp

lemma bool_text_true: "eq_ignore_ascii_case (trim (bool_text b)) ''true'' \<longleftrightarrow> b"
proof -
  have "trim (bool_text b) = bool_text b"
    by (rule trim_graphic) (auto simp: bool_text_def is_ascii_graphic_def split: if_splits)
  then show ?thesis
    by (simp add: bool_text_def eq_ignore_ascii_case_def to_ascii_lowercase_def to_ascii_lowercase_c_def is_ascii_uppercase_def)
qed

lemma bool_text_ne [simp]: "bool_text b \<noteq> []"
  by (simp add: bool_text_def)

lemma request_events_run:
  "\<exists>st. try_fold (parse_event cr) (request_events r) parse_start = Inr st \<and> ps_saw_root st \<and> ps_req st = r"
proof -
  let ?q = "[XmlStart ''Delete''] @ leaf_events ''Quiet'' (bool_text (dr_quiet r))"
  have "\<exists>st. try_fold (parse_event cr) ?q parse_start = Inr st \<and> in_delete \<lparr>dr_objects = [], dr_quiet = dr_quiet r\<rparr> st"
    by (auto simp: leaf_events_def open_elem_def close_elem_def push_content_def parse_start_def in_delete_def
        delete_request_default_def Let_def bool_text_true)
  then obtain st where q: "try_fold (parse_event cr) ?q parse_start = Inr st"
      "in_delete \<lparr>dr_objects = [], dr_quiet = dr_quiet r\<rparr> st" by blast
  have r: "\<lparr>dr_objects = dr_objects r, dr_quiet = dr_quiet r\<rparr> = r" by simp
  obtain st' where e: "try_fold (parse_event cr) (concat (map entry_events (dr_objects r))) st = Inr st'"
      "in_delete r st'"
    using entries_run [OF q(2), of cr "dr_objects r"] r by auto
  have "\<exists>st2. close_elem st' = Inr st2 \<and> ps_saw_root st2 \<and> ps_req st2 = r"
    using e(2) by (auto simp: in_delete_def close_elem_def Let_def)
  with q(1) e(1) show ?thesis
    unfolding request_events_def append_assoc [symmetric] try_fold_append [of _ "?q @ _"]
      try_fold_append [of _ ?q] by auto
qed

lemma parse_written_request:
  assumes "from_utf8 body = Some t" and "xml_events cr t = (request_events r, True)"
    and "dr_objects r \<noteq> []" and "length (dr_objects r) \<le> MAX_MULTI_DELETE"
  shows "parse_delete_request cr body = Inr r"
proof -
  obtain st where "try_fold (parse_event cr) (request_events r) parse_start = Inr st" "ps_saw_root st" "ps_req st = r"
    using request_events_run by blast
  with assms show ?thesis by (simp add: parse_delete_request_def Let_def)
qed

end
