(* ===== verification/S3_Bucket.thy ===== *)
theory S3_Bucket
  imports S3_Xml May_Diverge
begin

section \<open>\<open>rgw-rest-s3/src/service.rs\<close> and \<open>bucket.rs\<close>: listing and managing buckets\<close>

text \<open>
  \<open>list_owned_buckets\<close> pages through the driver until it has enough; whether it ends depends on the
  driver's answers, so it and its callers are \<open>oact\<close>s. The UUID and the clock reading of a new
  bucket are arguments. The lemmas characterise the bucket names that are accepted.
\<close>

subsection \<open>\<open>service.rs\<close>\<close>

partial_function (option) list_owned_loop ::
    "'s driver \<Rightarrow> user_id \<Rightarrow> nat option \<Rightarrow> bucket_info list \<Rightarrow> string \<Rightarrow> ('s, rgw_error, bucket_info list) oact" where
  [code]: "list_owned_loop drv ow limit out marker s =
     (case list_buckets drv (Some ow) marker 0 s of
        (Inl e, s1) \<Rightarrow> Some (Inl e, s1)
      | (Inr page, s1) \<Rightarrow>
          (let out' = out @ bl_buckets page in
           if (case limit of None \<Rightarrow> False | Some l \<Rightarrow> l \<le> length out') then Some (Inr out', s1)
           else if bl_buckets page \<noteq> [] \<and> bl_is_truncated page then
             list_owned_loop drv ow limit out'
               (if bl_next_marker page = [] then bk_name (bi_bucket (last (bl_buckets page)))
                else bl_next_marker page) s1
           else Some (Inr out', s1)))"

definition list_owned_buckets :: "'s driver \<Rightarrow> user_id \<Rightarrow> nat option \<Rightarrow> ('s, rgw_error, bucket_info list) oact" where
  "list_owned_buckets drv ow limit = list_owned_loop drv ow limit [] []"

definition op_o :: "('s, rgw_error, 'a) oact \<Rightarrow> ('s, op_error, 'a) oact" where
  "op_o m = match_o m (\<lambda>r. run_o (op_r r))"

lemma op_o_apply: "op_o m s = map_option (apfst (map_err op_error_from)) (m s)"
  by (auto simp: op_o_def match_o_apply split: option.splits)

definition s3_list_buckets :: "'j crates \<Rightarrow> 's driver \<Rightarrow> identity \<Rightarrow> ('s, op_error, response) oact" where
  "s3_list_buckets cr drv i =
     try_o (run_o (op_r (require_user i))) (\<lambda>user.
     try_o (op_o (list_owned_buckets drv (ui_user_id user) None)) (\<lambda>buckets.
     run_o (op_r (xml_response cr (list_all_my_buckets_result
       \<lparr>ox_id = user_id_display (ui_user_id user), ox_display_name = ui_display_name user\<rparr>
       (map (\<lambda>b. \<lparr>bx_name = bk_name (bi_bucket b), bx_creation_date = iso8601_millis cr (bi_creation_time b)\<rparr>)
          buckets))))))"

subsection \<open>Bucket names\<close>

definition DEFAULT_PLACEMENT :: string where
  "DEFAULT_PLACEMENT = ''default-placement''"

definition DEFAULT_ZONEGROUP :: string where
  "DEFAULT_ZONEGROUP = ''default''"

definition looks_like_ipv4 :: "string \<Rightarrow> bool" where
  "looks_like_ipv4 name =
     (let parts = split_c (CHR ''.'') name in
      length parts = 4 \<and> list_all (\<lambda>p. p \<noteq> [] \<and> list_all is_ascii_digit p) parts)"

definition name_alnum :: "char \<Rightarrow> bool" where
  "name_alnum c \<longleftrightarrow> is_ascii_lowercase c \<or> is_ascii_digit c"

text \<open>The first and the last byte are alphanumeric, so a dot has both neighbours.\<close>

definition name_char_ok :: "string \<Rightarrow> nat \<Rightarrow> bool" where
  "name_char_ok b i =
     (let c = b ! i in
      name_alnum c \<or> c = CHR ''-'' \<or>
      c = CHR ''.'' \<and> b ! (i - 1) \<noteq> CHR ''-'' \<and> b ! (i + 1) \<noteq> CHR ''.'' \<and> b ! (i + 1) \<noteq> CHR ''-'')"

definition validate_bucket_name :: "string \<Rightarrow> unit rgw_result" where
  "validate_bucket_name name =
     (if length name < 3 \<or> 63 < length name then Inl InvalidBucketName
      else if \<not> name_alnum (name ! 0) \<or> \<not> name_alnum (name ! (length name - 1)) then Inl InvalidBucketName
      else if \<not> list_all (name_char_ok name) [0..<length name] then Inl InvalidBucketName
      else if looks_like_ipv4 name then Inl InvalidBucketName
      else Inr ())"

subsection \<open>Bucket operations\<close>

definition new_bucket :: "user_info \<Rightarrow> string \<Rightarrow> string \<Rightarrow> time \<Rightarrow> bucket_info" where
  "new_bucket user name uuid now =
     \<lparr>bi_bucket = bucket_key_new [] name uuid, bi_owner = ui_user_id user, bi_creation_time = now,
      bi_placement_rule = DEFAULT_PLACEMENT, bi_zonegroup = DEFAULT_ZONEGROUP, bi_num_shards = 0\<rparr>"

text \<open>\<open>check_owner_max_buckets\<close>: a negative quota refuses, zero is no limit.\<close>

definition check_quota :: "'s driver \<Rightarrow> user_info \<Rightarrow> ('s, op_error, unit) oact" where
  "check_quota drv user =
     (let mx = sint (ui_max_buckets user) in
      if mx < 0 then run_o (err_a (op_error_from AccessDenied))
      else if mx > 0 then
        try_o (op_o (list_owned_buckets drv (ui_user_id user) (Some (nat mx)))) (\<lambda>owned.
        run_o (lift_a (guard_r (length owned < nat mx) (op_error_from TooManyBuckets))))
      else run_o (ret_a ()))"

definition store_new_bucket ::
    "'j crates \<Rightarrow> 's driver \<Rightarrow> user_info \<Rightarrow> string \<Rightarrow> string \<Rightarrow> time \<Rightarrow> ('s, response) op_act" where
  "store_new_bucket cr drv user name uuid now =
     match_a (create_bucket drv (new_bucket user name uuid now)) (\<lambda>r. case r of
       Inr _ \<Rightarrow>
         try_a (op_r (header_value cr (CHR ''/'' # name))) (\<lambda>location.
         ret_a (status_response 200 [(''location'', location)]))
     | Inl e \<Rightarrow>
         if e = BucketAlreadyExists then
           match_a (load_bucket drv [] name) (\<lambda>r'.
             let owned_by_you = (case r' of Inr existing \<Rightarrow> bi_owner existing = ui_user_id user | Inl _ \<Rightarrow> False)
             in err_a (op_error_from (if owned_by_you then BucketAlreadyOwnedByYou else BucketAlreadyExists)))
         else err_a (op_error_from e))"

definition s3_create_bucket ::
    "'j crates \<Rightarrow> 's driver \<Rightarrow> identity \<Rightarrow> string \<Rightarrow> string \<Rightarrow> time \<Rightarrow> ('s, op_error, response) oact" where
  "s3_create_bucket cr drv i name uuid now =
     try_o (run_o (op_r (require_user i))) (\<lambda>user.
     try_o (run_o (op_r (validate_bucket_name name))) (\<lambda>_.
     try_o (check_quota drv user) (\<lambda>_.
     run_o (store_new_bucket cr drv user name uuid now))))"

definition s3_delete_bucket :: "'s driver \<Rightarrow> identity \<Rightarrow> string \<Rightarrow> ('s, response) op_act" where
  "s3_delete_bucket drv i name =
     try_a (op_a (load_bucket_for drv i name)) (\<lambda>bucket.
     try_a (op_a (remove_bucket drv (bk_tenant (bi_bucket bucket)) (bk_name (bi_bucket bucket)))) (\<lambda>_.
     ret_a (status_response 204 [])))"

definition s3_stat_bucket :: "'j crates \<Rightarrow> 's driver \<Rightarrow> identity \<Rightarrow> string \<Rightarrow> ('s, response) op_act" where
  "s3_stat_bucket cr drv i name =
     try_a (op_a (load_bucket_for drv i name)) (\<lambda>bucket.
     try_a (op_a (read_stats drv (bi_bucket bucket))) (\<lambda>stats.
     try_a (op_r (header_value cr (show_nat (unat (bs_num_objects stats))))) (\<lambda>n.
     try_a (op_r (header_value cr (show_nat (unat (bs_size stats))))) (\<lambda>used.
     ret_a (status_response 200 [(''x-rgw-object-count'', n), (''x-rgw-bytes-used'', used)])))))"

definition s3_get_location :: "'j crates \<Rightarrow> 's driver \<Rightarrow> identity \<Rightarrow> string \<Rightarrow> ('s, response) op_act" where
  "s3_get_location cr drv i name =
     try_a (op_a (load_bucket_for drv i name)) (\<lambda>bucket.
     let location = (if bi_zonegroup bucket = [] then DEFAULT_ZONEGROUP else bi_zonegroup bucket)
     in op_r (xml_response cr (location_constraint location)))"

definition s3_get_versioning :: "'j crates \<Rightarrow> 's driver \<Rightarrow> identity \<Rightarrow> string \<Rightarrow> ('s, response) op_act" where
  "s3_get_versioning cr drv i name =
     try_a (op_a (load_bucket_for drv i name)) (\<lambda>_.
     op_r (xml_response cr versioning_configuration))"

subsection \<open>Which names are valid\<close>

text \<open>
  A name is valid when it has 3 to 63 bytes and is made of dot-separated labels, each a non-empty
  run of lowercase letters, digits and inner hyphens, that do not spell an IPv4 address.
\<close>

definition label_ok :: "string \<Rightarrow> bool" where
  "label_ok l \<longleftrightarrow> l \<noteq> [] \<and> name_alnum (hd l) \<and> name_alnum (last l) \<and>
     (\<forall>c \<in> set l. name_alnum c \<or> c = CHR ''-'')"

definition dot_rule :: "char \<Rightarrow> char \<Rightarrow> bool" where
  "dot_rule x y \<longleftrightarrow>
     (y = CHR ''.'' \<longrightarrow> x \<noteq> CHR ''-'') \<and> (x = CHR ''.'' \<longrightarrow> y \<noteq> CHR ''.'' \<and> y \<noteq> CHR ''-'')"

definition name_shape :: "string \<Rightarrow> bool" where
  "name_shape b \<longleftrightarrow> b \<noteq> [] \<and> name_alnum (hd b) \<and> name_alnum (last b) \<and> successively dot_rule b \<and>
     (\<forall>c \<in> set b. name_alnum c \<or> c = CHR ''-'' \<or> c = CHR ''.'')"

lemma dot_rule_dot [simp]:
  "dot_rule x (CHR ''.'') \<longleftrightarrow> x \<noteq> CHR ''-'' \<and> x \<noteq> CHR ''.''"
  "dot_rule (CHR ''.'') y \<longleftrightarrow> y \<noteq> CHR ''-'' \<and> y \<noteq> CHR ''.''"
  by (auto simp: dot_rule_def)

lemma alnum_not_punct [simp]:
  "\<not> name_alnum (CHR ''.'')" "\<not> name_alnum (CHR ''-'')"
  by (simp_all add: name_alnum_def is_ascii_lowercase_def is_ascii_digit_def)

lemma successively_nth: "successively P xs \<longleftrightarrow> (\<forall>i. Suc i < length xs \<longrightarrow> P (xs ! i) (xs ! Suc i))"
  by (simp add: successively_conv_nth)

lemma name_char_ok_shape:
  assumes ne: "b \<noteq> []" and h: "name_alnum (b ! 0)" and l: "name_alnum (b ! (length b - 1))"
  shows "list_all (name_char_ok b) [0..<length b] \<longleftrightarrow> name_shape b"
proof
  assume all: "list_all (name_char_ok b) [0..<length b]"
  have ok: "name_char_ok b i" if "i < length b" for i using all that by (simp add: list_all_iff)
  have "dot_rule (b ! i) (b ! Suc i)" if "Suc i < length b" for i
    using ok [of i] ok [of "Suc i"] that by (auto simp: name_char_ok_def dot_rule_def Let_def)
  moreover have "\<forall>c \<in> set b. name_alnum c \<or> c = CHR ''-'' \<or> c = CHR ''.''"
    using ok by (fastforce simp: in_set_conv_nth name_char_ok_def Let_def)
  ultimately show "name_shape b"
    using ne h l by (simp add: name_shape_def successively_nth hd_conv_nth last_conv_nth)
next
  assume shape: "name_shape b"
  have "name_char_ok b i" if i: "i < length b" for i
  proof (cases "b ! i = CHR ''.''")
    case True
    with h l have "i \<noteq> 0" "i \<noteq> length b - 1" by (metis alnum_not_punct(1))+
    with i have b: "Suc (i - 1) = i" "Suc i < length b" by auto
    with shape i have "dot_rule (b ! (i - 1)) (b ! i)" "dot_rule (b ! i) (b ! Suc i)"
      by (metis name_shape_def successively_nth)+
    with True show ?thesis by (simp add: name_char_ok_def dot_rule_def)
  next
    case False
    with shape i show ?thesis by (auto simp: name_shape_def name_char_ok_def Let_def)
  qed
  then show "list_all (name_char_ok b) [0..<length b]" by (simp add: list_all_iff)
qed

lemma successively_no_dot: "CHR ''.'' \<notin> set l \<Longrightarrow> successively dot_rule l"
  by (induction l rule: induct_list012) (auto simp: dot_rule_def)

lemma name_shape_label: "CHR ''.'' \<notin> set l \<Longrightarrow> name_shape l \<longleftrightarrow> label_ok l"
  by (auto simp: name_shape_def label_ok_def successively_no_dot)

lemma name_shape_cons:
  assumes "CHR ''.'' \<notin> set l"
  shows "name_shape (l @ CHR ''.'' # r) \<longleftrightarrow> label_ok l \<and> name_shape r"
proof -
  have hd_r: "r \<noteq> [] \<Longrightarrow> name_alnum (hd r) \<longleftrightarrow> hd r \<noteq> CHR ''.'' \<and> hd r \<noteq> CHR ''-''"
    if "\<forall>c \<in> set r. name_alnum c \<or> c = CHR ''-'' \<or> c = CHR ''.''"
    using that by (metis alnum_not_punct hd_in_set)
  have last_l: "l \<noteq> [] \<Longrightarrow> name_alnum (last l) \<longleftrightarrow> last l \<noteq> CHR ''-''"
    if "\<forall>c \<in> set l. name_alnum c \<or> c = CHR ''-''"
    using that by (metis alnum_not_punct(2) last_in_set)
  have chars: "(\<forall>c \<in> set l. name_alnum c \<or> c = CHR ''-'' \<or> c = CHR ''.'') \<longleftrightarrow> (\<forall>c \<in> set l. name_alnum c \<or> c = CHR ''-'')"
    using assms by auto
  show ?thesis
    using assms hd_r last_l
    by (cases "l = []"; cases "r = []")
      (auto simp: name_shape_def label_ok_def successively_append_iff successively_Cons successively_no_dot
        chars ball_Un)
qed

lemma name_shape_labels: "name_shape b \<longleftrightarrow> (\<forall>l \<in> set (split_c (CHR ''.'') b). label_ok l)"
proof (induction "length b" arbitrary: b rule: less_induct)
  case less
  show ?case
  proof (cases "CHR ''.'' \<in> set b")
    case False
    then have "split_c (CHR ''.'') b = [b]" by (rule split_c_no_sep)
    with False show ?thesis by (simp add: name_shape_label)
  next
    case True
    then obtain l r where b: "b = l @ CHR ''.'' # r" and l: "CHR ''.'' \<notin> set l" by (meson split_list_first)
    have "split_c (CHR ''.'') b = l # split_c (CHR ''.'') r" using b l by (simp add: split_c_append)
    with less [of r] b l show ?thesis by (simp add: name_shape_cons)
  qed
qed

lemma validate_bucket_name_iff:
  "validate_bucket_name name = Inr () \<longleftrightarrow>
     3 \<le> length name \<and> length name \<le> 63 \<and> (\<forall>l \<in> set (split_c (CHR ''.'') name). label_ok l) \<and>
     \<not> looks_like_ipv4 name"
proof (cases "3 \<le> length name \<and> length name \<le> 63")
  case True
  then have ne: "name \<noteq> []" by auto
  have ends: "name_alnum (name ! 0) \<and> name_alnum (name ! (length name - 1))"
    if "\<forall>l \<in> set (split_c (CHR ''.'') name). label_ok l"
    using that ne by (auto simp: name_shape_labels [symmetric] name_shape_def hd_conv_nth last_conv_nth)
  show ?thesis
    using True ends name_char_ok_shape [OF ne] by (auto simp: validate_bucket_name_def name_shape_labels)
qed (auto simp: validate_bucket_name_def)

lemma validate_bucket_name_err: "validate_bucket_name name = Inl e \<Longrightarrow> e = InvalidBucketName"
  by (auto simp: validate_bucket_name_def split: if_splits)

lemma valid_name_chars:
  assumes "validate_bucket_name name = Inr ()" and "c \<in> set name"
  shows "name_alnum c \<or> c = CHR ''-'' \<or> c = CHR ''.''"
  using assms name_shape_labels [of name] by (auto simp: validate_bucket_name_iff name_shape_def)

end
