(* ===== verification/S3_List.thy ===== *)
theory S3_List
  imports S3_Xml
begin

section \<open>\<open>rgw-rest-s3/src/list.rs\<close>: \<open>ListObjects\<close> version 1 and 2\<close>

text \<open>
  The query parameters, the call of the driver and the two documents. The lemmas bound the page
  size and show that the marker handed out is the driver's, or the greatest entry of the page.
\<close>

definition MAX_KEYS :: nat where
  "MAX_KEYS = 1000"

definition RGW_ATTR_STORAGE_CLASS :: string where
  "RGW_ATTR_STORAGE_CLASS = ''user.rgw.storage_class''"

definition storage_class :: "object_info \<Rightarrow> string" where
  "storage_class info =
     (if oi_storage_class info \<noteq> [] then oi_storage_class info
      else (case Option.bind (bt_get (oi_attrs info) RGW_ATTR_STORAGE_CLASS) from_utf8 of
              Some s \<Rightarrow> if s \<noteq> [] then s else ''STANDARD''
            | None \<Rightarrow> ''STANDARD''))"

text \<open>\<open>CONTROLS\<close> is the bytes below 32 and DEL; \<open>utf8_percent_encode\<close> also encodes all non-ASCII.\<close>

definition URL_ENCODE :: "char \<Rightarrow> bool" where
  "URL_ENCODE c \<longleftrightarrow> byte c < 32 \<or> byte c = 127 \<or>
     c \<in> set ('' '' @ quote @ ''#%&+,:;<>=?@[]'' @ [CHR 0x5C] @ ''^'' @ [CHR 0x60] @ ''{}'')"

definition URL_ENCODE_SLASH :: "char \<Rightarrow> bool" where
  "URL_ENCODE_SLASH c \<longleftrightarrow> URL_ENCODE c \<or> c = CHR ''/''"

definition url_encode :: "'j crates \<Rightarrow> string \<Rightarrow> bool \<Rightarrow> string" where
  "url_encode cr s encode_slash =
     (if encode_slash then percent_encode_set cr URL_ENCODE_SLASH s else percent_encode_set cr URL_ENCODE s)"

subsection \<open>Parameters\<close>

definition parse_max_keys :: "string option \<Rightarrow> nat rgw_result" where
  "parse_max_keys v = (case v of
       None \<Rightarrow> Inr MAX_KEYS
     | Some v \<Rightarrow>
         try_r (ok_or (InvalidArgument (''invalid max-keys: '' @ v)) (parse_signed 10 (2 ^ 63) (trim v))) (\<lambda>n.
         if n < 0 then Inl (InvalidArgument (''invalid max-keys: '' @ v))
         else Inr (min (nat n) MAX_KEYS)))"

record common =
  co_prefix :: string
  co_delimiter :: string
  co_max_keys :: nat
  co_encode :: bool

definition or_default :: "string option \<Rightarrow> string" where
  "or_default v = (case v of None \<Rightarrow> [] | Some s \<Rightarrow> s)"

definition common_parse :: "args \<Rightarrow> common rgw_result" where
  "common_parse a =
     try_r (parse_max_keys (args_get a ''max-keys'')) (\<lambda>mx.
     Inr \<lparr>co_prefix = or_default (args_get a ''prefix''), co_delimiter = or_default (args_get a ''delimiter''),
          co_max_keys = mx,
          co_encode = (case args_get a ''encoding-type'' of None \<Rightarrow> False | Some e \<Rightarrow> eq_ignore_ascii_case e ''url'')\<rparr>)"

definition co_out :: "'j crates \<Rightarrow> common \<Rightarrow> string \<Rightarrow> bool \<Rightarrow> string" where
  "co_out cr c s encode_slash = (if co_encode c then url_encode cr s encode_slash else s)"

definition delimiter_out :: "'j crates \<Rightarrow> common \<Rightarrow> string option" where
  "delimiter_out cr c = (if co_delimiter c \<noteq> [] then Some (co_out cr c (co_delimiter c) False) else None)"

definition encoding_type :: "common \<Rightarrow> string option" where
  "encoding_type c = (if co_encode c then Some ''url'' else None)"

definition co_params :: "common \<Rightarrow> string \<Rightarrow> list_params" where
  "co_params c marker = \<lparr>lp_prefix = co_prefix c, lp_delimiter = co_delimiter c, lp_marker = marker,
     lp_max_keys = co_max_keys c\<rparr>"

definition common_list :: "'s driver \<Rightarrow> common \<Rightarrow> bucket_key \<Rightarrow> string \<Rightarrow> ('s, list_result) rgw_act" where
  "common_list drv c bucket marker =
     (if co_max_keys c = 0 then ret_a list_result_default
      else list_objects drv bucket (co_params c marker))"

definition co_contents :: "'j crates \<Rightarrow> common \<Rightarrow> object_info list \<Rightarrow> bool \<Rightarrow> contents_xml list" where
  "co_contents cr c objects with_owner = map (\<lambda>ob.
     \<lparr>cx_key = co_out cr c (ok_name (oi_key ob)) True,
      cx_last_modified = iso8601_millis cr (oi_mtime ob),
      cx_etag = quote @ oi_etag ob @ quote,
      cx_size = oi_size ob,
      cx_storage_class = storage_class ob,
      cx_owner = (if with_owner
                  then Some \<lparr>ox_id = user_id_display (ow_id (oi_owner ob)), ox_display_name = ow_display_name (oi_owner ob)\<rparr>
                  else None)\<rparr>) objects"

definition co_common_prefixes :: "'j crates \<Rightarrow> common \<Rightarrow> string list \<Rightarrow> string list" where
  "co_common_prefixes cr c ps = map (\<lambda>p. co_out cr c p False) ps"

text \<open>\<open>Option::max\<close>: \<open>None\<close> is the least.\<close>

fun opt_max :: "string option \<Rightarrow> string option \<Rightarrow> string option" where
  "opt_max None b = b"
| "opt_max (Some a) None = Some a"
| "opt_max (Some a) (Some b) = Some (if b < a then a else b)"

definition last_opt :: "'a list \<Rightarrow> 'a option" where
  "last_opt xs = (if xs = [] then None else Some (last xs))"

definition next_marker :: "list_result \<Rightarrow> string option" where
  "next_marker res =
     (if \<not> lr_is_truncated res then None
      else if lr_next_marker res \<noteq> [] then Some (lr_next_marker res)
      else opt_max (map_option (\<lambda>ob. ok_name (oi_key ob)) (last_opt (lr_objects res)))
             (last_opt (lr_common_prefixes res)))"

subsection \<open>The operations\<close>

definition v1_doc :: "'j crates \<Rightarrow> common \<Rightarrow> bucket_info \<Rightarrow> string \<Rightarrow> list_result \<Rightarrow> list_result_v1" where
  "v1_doc cr c bucket marker res =
     \<lparr>v1_name = bk_name (bi_bucket bucket),
      v1_prefix = co_out cr c (co_prefix c) False,
      v1_marker = co_out cr c marker True,
      v1_max_keys = co_max_keys c,
      v1_delimiter = delimiter_out cr c,
      v1_encoding_type = encoding_type c,
      v1_is_truncated = lr_is_truncated res,
      v1_next_marker = map_option (\<lambda>m. co_out cr c m True) (next_marker res),
      v1_contents = co_contents cr c (lr_objects res) True,
      v1_common_prefixes = co_common_prefixes cr c (lr_common_prefixes res)\<rparr>"

definition s3_list_objects_v1 :: "'j crates \<Rightarrow> 's driver \<Rightarrow> identity \<Rightarrow> string \<Rightarrow> args \<Rightarrow> ('s, response) op_act" where
  "s3_list_objects_v1 cr drv i name a =
     try_a (op_r (common_parse a)) (\<lambda>c.
     let marker = or_default (args_get a ''marker'') in
     try_a (op_a (load_bucket_for drv i name)) (\<lambda>bucket.
     try_a (op_a (common_list drv c (bi_bucket bucket) marker)) (\<lambda>res.
     op_r (xml_response cr (list_result_v1_elem (v1_doc cr c bucket marker res))))))"

definition v2_marker :: "args \<Rightarrow> string" where
  "v2_marker a = (case args_get a ''continuation-token'' of
       Some t \<Rightarrow> t
     | None \<Rightarrow> or_default (args_get a ''start-after''))"

definition v2_doc :: "'j crates \<Rightarrow> common \<Rightarrow> args \<Rightarrow> bucket_info \<Rightarrow> list_result \<Rightarrow> list_result_v2" where
  "v2_doc cr c a bucket res =
     (let fetch_owner = (case args_get a ''fetch-owner'' of None \<Rightarrow> False | Some v \<Rightarrow> eq_ignore_ascii_case v ''true'') in
     \<lparr>v2_name = bk_name (bi_bucket bucket),
      v2_prefix = co_out cr c (co_prefix c) False,
      v2_start_after = map_option (\<lambda>s. co_out cr c s True) (args_get a ''start-after''),
      v2_continuation_token = args_get a ''continuation-token'',
      v2_next_continuation_token = next_marker res,
      v2_key_count = length (lr_objects res) + length (lr_common_prefixes res),
      v2_max_keys = co_max_keys c,
      v2_delimiter = delimiter_out cr c,
      v2_encoding_type = encoding_type c,
      v2_is_truncated = lr_is_truncated res,
      v2_contents = co_contents cr c (lr_objects res) fetch_owner,
      v2_common_prefixes = co_common_prefixes cr c (lr_common_prefixes res)\<rparr>)"

definition s3_list_objects_v2 :: "'j crates \<Rightarrow> 's driver \<Rightarrow> identity \<Rightarrow> string \<Rightarrow> args \<Rightarrow> ('s, response) op_act" where
  "s3_list_objects_v2 cr drv i name a =
     try_a (op_r (common_parse a)) (\<lambda>c.
     try_a (op_a (load_bucket_for drv i name)) (\<lambda>bucket.
     try_a (op_a (common_list drv c (bi_bucket bucket) (v2_marker a))) (\<lambda>res.
     op_r (xml_response cr (list_result_v2_elem (v2_doc cr c a bucket res))))))"

subsection \<open>Bounds and markers\<close>

lemma parse_max_keys_bounds: "parse_max_keys v = Inr n \<Longrightarrow> n \<le> MAX_KEYS"
  by (auto simp: parse_max_keys_def try_r_Inr_iff split: option.splits if_splits)

lemma parse_max_keys_err: "parse_max_keys v = Inl e \<Longrightarrow> \<exists>m. e = InvalidArgument m"
  by (auto simp: parse_max_keys_def try_r_Inl_iff ok_or_Inl_iff split: option.splits if_splits)

lemma common_parse_max_keys: "common_parse a = Inr c \<Longrightarrow> co_max_keys c \<le> MAX_KEYS"
  by (auto simp: common_parse_def try_r_Inr_iff dest: parse_max_keys_bounds)

lemma entry_parts_length: "length (entry_objects es) + length (entry_prefixes es) = length es"
  by (induction es) (auto simp: entry_objects_def entry_prefixes_def map_filter_simps split: entry.splits)

lemma page_of_length: "length (lr_objects (page_of mx es)) + length (lr_common_prefixes (page_of mx es)) \<le> mx"
  by (simp add: page_of_def Let_def entry_parts_length)

lemma next_marker_page:
  assumes "mx \<noteq> 0" and "\<forall>e \<in> set es. entry_name e \<noteq> []"
  shows "next_marker (page_of mx es) = (if mx < length es then Some (entry_name (last (take mx es))) else None)"
proof (cases "mx < length es")
  case True
  with assms(1) have "take mx es \<noteq> []" by auto
  then have "entry_name (last (take mx es)) \<noteq> []" using assms(2) by (meson in_set_takeD last_in_set)
  with True \<open>take mx es \<noteq> []\<close> show ?thesis by (simp add: next_marker_def page_of_def Let_def)
qed (simp add: next_marker_def page_of_def Let_def)

end
