(* ===== verification/S3_Object.thy ===== *)
theory S3_Object
  imports S3_List
begin

section \<open>\<open>rgw-rest-s3/src/object.rs\<close>: object operations\<close>

text \<open>
  \<open>PUT\<close>, \<open>GET\<close>/\<open>HEAD\<close>, \<open>DELETE\<close> and the multi-object \<open>DELETE\<close>, with the header handling of each.
  The clock reading of a \<open>PUT\<close> is an argument. The lemmas give the attributes stored for a request.
\<close>

definition DEFAULT_CONTENT_TYPE :: string where
  "DEFAULT_CONTENT_TYPE = ''binary/octet-stream''"

definition MAX_BUFFERED_PUT :: nat where
  "MAX_BUFFERED_PUT = 2 ^ 30"

definition MAX_PUT_SIZE :: nat where
  "MAX_PUT_SIZE = 5 * 2 ^ 30"

definition MAX_MULTI_DELETE_BODY :: nat where
  "MAX_MULTI_DELETE_BODY = 4 * 2 ^ 20"

definition MAX_OBJECT_NAME :: nat where
  "MAX_OBJECT_NAME = 1024"

definition AMZ_META :: string where
  "AMZ_META = ''x-amz-meta-''"

definition AMZ_STORAGE_CLASS :: string where
  "AMZ_STORAGE_CLASS = ''x-amz-storage-class''"

definition GENERIC_ATTRS :: "(string \<times> string) list" where
  "GENERIC_ATTRS =
     [(''cache-control'', ''cache_control''), (''content-disposition'', ''content_disposition''),
      (''content-encoding'', ''content_encoding''), (''content-language'', ''content_language''),
      (''expires'', ''expires'')]"

subsection \<open>Payload checks\<close>

definition trim_ascii :: "bytes \<Rightarrow> bytes" where
  "trim_ascii s = rev (dropWhile is_ascii_whitespace (rev (dropWhile is_ascii_whitespace s)))"

definition content_md5 :: "'j crates \<Rightarrow> headers \<Rightarrow> bytes option rgw_result" where
  "content_md5 cr hs = (case hdr_get hs ''content-md5'' of
       None \<Rightarrow> Inr None
     | Some v \<Rightarrow>
         try_r (ok_or InvalidDigest (base64_decode cr (trim_ascii v))) (\<lambda>raw.
         if length raw = 16 then Inr (Some raw) else Inl InvalidDigest))"

definition buffer_body :: "'j crates \<Rightarrow> object_body \<Rightarrow> nat \<Rightarrow> bytes rgw_result" where
  "buffer_body cr body limit =
     map_err (\<lambda>e. case e of None \<Rightarrow> EntityTooLarge | Some m \<Rightarrow> internal m) (body_to_bytes cr body limit)"

definition verify_md5 :: "'j crates \<Rightarrow> bytes \<Rightarrow> bytes \<Rightarrow> unit rgw_result" where
  "verify_md5 cr expected payload = (if md5_digest cr payload = expected then Inr () else Inl BadDigest)"

subsection \<open>The attributes of a new object\<close>

definition add_meta :: "string \<times> bytes \<Rightarrow> attrs \<Rightarrow> attrs" where
  "add_meta hv at = (case hv of (name, val) \<Rightarrow>
     (case strip_prefix AMZ_META name of
        None \<Rightarrow> at
      | Some sfx \<Rightarrow>
          (let k = RGW_ATTR_META_PREFIX @ sfx in
           bt_insert k (case bt_get at k of Some v \<Rightarrow> v @ '','' @ val | None \<Rightarrow> val) at)))"

definition add_generic :: "headers \<Rightarrow> string \<times> string \<Rightarrow> attrs \<Rightarrow> attrs" where
  "add_generic hs na at = (case na of (name, attr) \<Rightarrow>
     (case hdr_get hs name of None \<Rightarrow> at | Some v \<Rightarrow> bt_insert (RGW_ATTR_PREFIX @ attr) v at))"

definition put_attrs :: "headers \<Rightarrow> attrs" where
  "put_attrs hs =
     (let a0 = [(RGW_ATTR_CONTENT_TYPE, case hdr_get hs ''content-type'' of None \<Rightarrow> DEFAULT_CONTENT_TYPE | Some v \<Rightarrow> v)];
          a1 = fold add_meta hs a0;
          a2 = fold (add_generic hs) GENERIC_ATTRS a1
      in case hdr_get hs AMZ_STORAGE_CLASS of None \<Rightarrow> a2 | Some sc \<Rightarrow> bt_insert RGW_ATTR_STORAGE_CLASS sc a2)"

subsection \<open>\<open>PUT\<close>\<close>

definition put_payload :: "'j crates \<Rightarrow> headers \<Rightarrow> object_body \<Rightarrow> object_body rgw_result" where
  "put_payload cr hs body =
     try_r (content_md5 cr hs) (\<lambda>digest. case digest of
       Some expected \<Rightarrow>
         try_r (buffer_body cr body MAX_BUFFERED_PUT) (\<lambda>b.
         try_r (verify_md5 cr expected b) (\<lambda>_. Inr (body_from_bytes b)))
     | None \<Rightarrow> Inr body)"

definition owner_of :: "user_info \<Rightarrow> owner" where
  "owner_of user = \<lparr>ow_id = ui_user_id user, ow_display_name = ui_display_name user\<rparr>"

definition s3_put_object ::
    "'j crates \<Rightarrow> 's driver \<Rightarrow> time \<Rightarrow> identity \<Rightarrow> string \<Rightarrow> string \<Rightarrow> headers \<Rightarrow> object_body \<Rightarrow> ('s, response) op_act" where
  "s3_put_object cr drv now i bucket_name key hs body =
     (if hdr_get hs ''x-amz-copy-source'' \<noteq> None then err_a (op_error_from NotImplemented)
      else
        try_a (op_a (load_bucket_for drv i bucket_name)) (\<lambda>bucket.
        try_a (op_r (require_user i)) (\<lambda>user.
        if MAX_OBJECT_NAME < length key then err_a (op_error_from (InvalidArgument ''object name too long''))
        else
          (let declared_len = Option.bind (header_str hs ''content-length'') (parse_unsigned 10 (2 ^ 64)) in
           if (case declared_len of None \<Rightarrow> False | Some n \<Rightarrow> MAX_PUT_SIZE < n) then err_a (op_error_from EntityTooLarge)
           else
             try_a (op_r (put_payload cr hs body)) (\<lambda>payload.
             try_a (op_a (put_object drv now (bi_bucket bucket) (object_key_new key) (owner_of user) (put_attrs hs) payload)) (\<lambda>info.
             try_a (op_r (header_value cr (quote @ oi_etag info @ quote))) (\<lambda>etag.
             ret_a (status_response 200 [(''etag'', etag)]))))))))"

subsection \<open>\<open>GET\<close> and \<open>HEAD\<close>\<close>

definition invalid_range :: "'j crates \<Rightarrow> u64 \<Rightarrow> op_error" where
  "invalid_range cr sz =
     (case header_value cr (''bytes */'' @ show_nat (unat sz)) of
        Inr v \<Rightarrow> \<lparr>oe_err = InvalidRange, oe_headers = hdr_insert ''content-range'' v []\<rparr>
      | Inl _ \<Rightarrow> op_error_from InvalidRange)"

definition echo_generic :: "object_info \<Rightarrow> string \<times> string \<Rightarrow> headers \<Rightarrow> headers" where
  "echo_generic info na hs = (case na of (name, attr) \<Rightarrow>
     (case bt_get (oi_attrs info) (RGW_ATTR_PREFIX @ attr) of
        Some v \<Rightarrow> if hdr_from_str_ok v then hdr_insert name v hs else hs
      | None \<Rightarrow> hs))"

definition echo_meta :: "'j crates \<Rightarrow> string \<times> bytes \<Rightarrow> headers \<Rightarrow> headers" where
  "echo_meta cr sv hs = (case sv of (sfx, val) \<Rightarrow>
     (case header_name cr (AMZ_META @ sfx) of
        Some name \<Rightarrow> if hdr_from_str_ok val then hdr_append name val hs else hs
      | None \<Rightarrow> hs))"

definition object_response :: "'j crates \<Rightarrow> object_info \<Rightarrow> (u64 \<times> u64) option \<Rightarrow> object_body \<Rightarrow> response rgw_result" where
  "object_response cr info rng body =
     try_r (case rng of
         Some (s, e) \<Rightarrow>
           try_r (header_value cr (''bytes '' @ show_nat (unat s) @ ''-'' @ show_nat (unat e) @ ''/'' @ show_nat (unat (oi_size info)))) (\<lambda>v.
           Inr (hdr_insert ''content-range'' v [], e - s + 1))
       | None \<Rightarrow> Inr ([], oi_size info)) (\<lambda>(h0, len).
     try_r (header_value cr (show_nat (unat len))) (\<lambda>cl.
     try_r (header_value cr (quote @ oi_etag info @ quote)) (\<lambda>etag.
     try_r (header_value cr (http_date cr (oi_mtime info))) (\<lambda>lm.
     try_r (header_value cr (case content_type info of None \<Rightarrow> DEFAULT_CONTENT_TYPE | Some t \<Rightarrow> t)) (\<lambda>ct.
     try_r (header_value cr ''bytes'') (\<lambda>ar.
     let h1 = hdr_insert ''accept-ranges'' ar (hdr_insert ''content-type'' ct (hdr_insert ''last-modified'' lm
                (hdr_insert ''etag'' etag (hdr_insert ''content-length'' cl h0))));
         h2 = fold (echo_generic info) GENERIC_ATTRS h1;
         h3 = fold (echo_meta cr) (user_metadata info) h2
     in try_r (if oi_storage_class info \<noteq> [] \<or> bt_get (oi_attrs info) RGW_ATTR_STORAGE_CLASS \<noteq> None
               then try_r (header_value cr (storage_class info)) (\<lambda>sc. Inr (hdr_insert AMZ_STORAGE_CLASS sc h3))
               else Inr h3) (\<lambda>h4.
        Inr \<lparr>rs_status = (if rng \<noteq> None then 206 else 200), rs_headers = h4, rs_body = body\<rparr>)))))))"

definition request_range :: "headers \<Rightarrow> byte_range option" where
  "request_range hs = Option.bind (header_str hs ''range'') parse_range"

definition s3_get_object ::
    "'j crates \<Rightarrow> 's driver \<Rightarrow> identity \<Rightarrow> string \<Rightarrow> string \<Rightarrow> headers \<Rightarrow> bool \<Rightarrow> ('s, response) op_act" where
  "s3_get_object cr drv i bucket_name key hs get_data =
     try_a (op_a (load_bucket_for drv i bucket_name)) (\<lambda>bucket.
     let b = bi_bucket bucket; k = object_key_new key; rng = request_range hs in
     if \<not> get_data then
       try_a (op_a (head_object drv b k)) (\<lambda>info.
       try_a (lift_a (case rng of
           Some r \<Rightarrow> map_err (\<lambda>_. invalid_range cr (oi_size info)) (ok_or () (map_option Some (s3_resolve_range r (oi_size info))))
         | None \<Rightarrow> Inr None)) (\<lambda>resolved.
       op_r (object_response cr info resolved [])))
     else
       match_a (get_object drv b k rng) (\<lambda>r. case r of
         Inr rd \<Rightarrow> op_r (object_response cr (rd_info rd) (rd_range rd) (rd_body rd))
       | Inl e \<Rightarrow>
           if e = InvalidRange then
             try_a (op_a (head_object drv b k)) (\<lambda>info. err_a (invalid_range cr (oi_size info)))
           else err_a (op_error_from e)))"

subsection \<open>\<open>DELETE\<close>\<close>

definition s3_delete_object :: "'s driver \<Rightarrow> identity \<Rightarrow> string \<Rightarrow> string \<Rightarrow> ('s, response) op_act" where
  "s3_delete_object drv i bucket_name key =
     try_a (op_a (load_bucket_for drv i bucket_name)) (\<lambda>bucket.
     match_a (delete_object drv (bi_bucket bucket) (object_key_new key)) (\<lambda>r. case r of
       Inr _ \<Rightarrow> ret_a (status_response 204 [])
     | Inl e \<Rightarrow> if e = NoSuchKey then ret_a (status_response 204 []) else err_a (op_error_from e)))"

text \<open>The loop over the keys of a batch; no failure stops it.\<close>

fun delete_keys ::
    "'s driver \<Rightarrow> bucket_key \<Rightarrow> bool \<Rightarrow> delete_entry list \<Rightarrow> string list \<Rightarrow> delete_error_xml list \<Rightarrow> 's \<Rightarrow>
     (string list \<times> delete_error_xml list) \<times> 's" where
  "delete_keys drv b quiet [] deleted errors s = ((deleted, errors), s)"
| "delete_keys drv b quiet (d # ds) deleted errors s =
     (case delete_object drv b (object_key_new (do_key d)) s of
        (Inr _, s1) \<Rightarrow> delete_keys drv b quiet ds (if quiet then deleted else deleted @ [do_key d]) errors s1
      | (Inl e, s1) \<Rightarrow>
          if e = NoSuchKey then delete_keys drv b quiet ds (if quiet then deleted else deleted @ [do_key d]) errors s1
          else delete_keys drv b quiet ds deleted
                 (errors @ [\<lparr>dx_key = do_key d, dx_code = error_code e, dx_message = error_display e\<rparr>]) s1)"

definition s3_delete_multi ::
    "'j crates \<Rightarrow> 's driver \<Rightarrow> identity \<Rightarrow> string \<Rightarrow> headers \<Rightarrow> object_body \<Rightarrow> ('s, response) op_act" where
  "s3_delete_multi cr drv i bucket_name hs body =
     try_a (op_a (load_bucket_for drv i bucket_name)) (\<lambda>bucket.
     try_a (op_r (content_md5 cr hs)) (\<lambda>expected.
     try_a (op_r (buffer_body cr body MAX_MULTI_DELETE_BODY)) (\<lambda>b.
     try_a (op_r (case expected of Some d \<Rightarrow> verify_md5 cr d b | None \<Rightarrow> Inr ())) (\<lambda>_.
     try_a (op_r (parse_delete_request cr b)) (\<lambda>req s.
     case delete_keys drv (bi_bucket bucket) (dr_quiet req) (dr_objects req) [] [] s of
       ((deleted, errors), s1) \<Rightarrow> op_r (xml_response cr (delete_result_elem deleted errors)) s1)))))"

subsection \<open>The attributes stored\<close>

lemma bt_wf_add_meta: "bt_wf at \<Longrightarrow> bt_wf (add_meta hv at)"
  by (auto simp: add_meta_def Let_def bt_wf_insert split: prod.splits option.splits)

lemma bt_wf_add_generic: "bt_wf at \<Longrightarrow> bt_wf (add_generic hs na at)"
  by (auto simp: add_generic_def bt_wf_insert split: prod.splits option.splits)

lemma bt_wf_fold: "(\<And>x at. bt_wf at \<Longrightarrow> bt_wf (f x at)) \<Longrightarrow> bt_wf at \<Longrightarrow> bt_wf (fold f xs at)"
  by (induction xs arbitrary: at) auto

lemma bt_wf_put_attrs: "bt_wf (put_attrs hs)"
proof -
  have "bt_wf (fold (add_generic hs) GENERIC_ATTRS
      (fold add_meta hs [(RGW_ATTR_CONTENT_TYPE, case hdr_get hs ''content-type'' of None \<Rightarrow> DEFAULT_CONTENT_TYPE | Some v \<Rightarrow> v)]))"
    by (intro bt_wf_fold bt_wf_add_generic bt_wf_add_meta) (simp_all add: bt_wf_def)
  then show ?thesis by (auto simp: put_attrs_def Let_def bt_wf_insert split: option.splits)
qed

text \<open>What each loop does to the attribute named \<open>k\<close>.\<close>

definition meta_values :: "headers \<Rightarrow> string \<Rightarrow> bytes list" where
  "meta_values hs sfx = hdr_get_all hs (AMZ_META @ sfx)"

lemma strip_prefix_Some: "strip_prefix p s = Some r \<longleftrightarrow> s = p @ r"
  by (induction p s rule: strip_prefix.induct) auto

lemma fold_meta_other:
  assumes "bt_wf at" and "\<not> prefix RGW_ATTR_META_PREFIX k"
  shows "bt_get (fold add_meta hs at) k = bt_get at k"
  using assms(1)
proof (induction hs arbitrary: at)
  case (Cons hv hs)
  have "bt_get (add_meta hv at) k = bt_get at k"
    using assms(2) Cons.prems
    by (auto simp: add_meta_def Let_def bt_get_insert prefix_def split: prod.splits option.splits)
  with Cons show ?case by (simp add: bt_wf_add_meta)
qed simp

lemma fold_meta:
  assumes "bt_wf at"
  shows "bt_get (fold add_meta hs at) (RGW_ATTR_META_PREFIX @ sfx) =
    (let vs = (case bt_get at (RGW_ATTR_META_PREFIX @ sfx) of None \<Rightarrow> [] | Some v \<Rightarrow> [v]) @ meta_values hs sfx
     in if vs = [] then None else Some (join '','' vs))"
  using assms
proof (induction hs arbitrary: at)
  case Nil
  then show ?case by (simp add: meta_values_def hdr_get_all_def split: option.splits)
next
  case (Cons hv hs)
  obtain n v where hv: "hv = (n, v)" by fastforce
  have wf: "bt_wf (add_meta hv at)" using Cons.prems by (rule bt_wf_add_meta)
  have join2: "join '','' ((a @ '','' @ b) # vs) = join '','' (a # b # vs)" for a b vs
    by (cases vs) auto
  show ?case
  proof (cases "n = AMZ_META @ sfx")
    case True
    then have s: "strip_prefix AMZ_META n = Some sfx" by (simp add: strip_prefix_Some)
    show ?thesis using Cons.IH [OF wf] Cons.prems True s hv join2
      by (auto simp: add_meta_def bt_get_insert meta_values_def hdr_get_all_def Let_def split: option.splits)
  next
    case False
    then have "bt_get (add_meta hv at) (RGW_ATTR_META_PREFIX @ sfx) = bt_get at (RGW_ATTR_META_PREFIX @ sfx)"
      using hv Cons.prems
      by (auto simp: add_meta_def Let_def bt_get_insert strip_prefix_Some split: option.splits)
    with Cons.IH [OF wf] False hv show ?thesis by (simp add: meta_values_def hdr_get_all_def)
  qed
qed

end
