(* ===== verification/S3_Handler.thy ===== *)
theory S3_Handler
  imports S3_Bucket S3_Object
begin

section \<open>\<open>rgw-rest-s3/src/handler.rs\<close> and \<open>lib.rs\<close>: dispatch\<close>

text \<open>
  What axum's path matching hands to a handler is its argument: the bucket name, the key, the
  method, the parts of the URI, the headers, the body, the \<open>Identity\<close> and \<open>RequestId\<close> extensions.
  The UUID and the clock reading an operation may take are \<open>fx\<close>. \<open>s3_route\<close> is the route table,
  \<open>s3_serve\<close> runs the handler it picks.
\<close>

record effects =
  fx_uuid :: string
  fx_now :: time

record s3_call =
  sc_identity :: identity
  sc_request_id :: string
  sc_method :: string
  sc_path :: string
  sc_query :: "string option"
  sc_headers :: headers
  sc_body :: object_body

definition call_ctx :: "s3_call \<Rightarrow> req_ctx" where
  "call_ctx c = req_ctx_new (sc_method c) (sc_path c) (sc_request_id c)"

definition finish_a :: "s3_call \<Rightarrow> ('s, response) op_act \<Rightarrow> ('s, s3_error, response) act" where
  "finish_a c m = match_a m (\<lambda>r. lift_a (req_finish (call_ctx c) r))"

definition finish_o :: "s3_call \<Rightarrow> ('s, op_error, response) oact \<Rightarrow> ('s, s3_error, response) oact" where
  "finish_o c m = match_o m (\<lambda>r. run_o (lift_a (req_finish (call_ctx c) r)))"

definition reject_unsupported :: "args \<Rightarrow> string list \<Rightarrow> unit op_result" where
  "reject_unsupported a table = (case args_any_of a table of
       Some _ \<Rightarrow> Inl (op_error_from NotImplemented)
     | None \<Rightarrow> Inr ())"

definition service_get :: "'j crates \<Rightarrow> 's driver \<Rightarrow> s3_call \<Rightarrow> ('s, s3_error, response) oact" where
  "service_get cr drv c = finish_o c (s3_list_buckets cr drv (sc_identity c))"

definition bucket_get :: "'j crates \<Rightarrow> 's driver \<Rightarrow> s3_call \<Rightarrow> string \<Rightarrow> ('s, s3_error, response) act" where
  "bucket_get cr drv c name = finish_a c
     (let a = args_parse cr (sc_query c); i = sc_identity c in
      if args_exists a ''location'' then s3_get_location cr drv i name
      else if args_exists a ''versioning'' then s3_get_versioning cr drv i name
      else try_a (lift_a (reject_unsupported a BUCKET_UNSUPPORTED)) (\<lambda>_.
        if args_get a ''list-type'' = Some ''2'' then s3_list_objects_v2 cr drv i name a
        else s3_list_objects_v1 cr drv i name a))"

definition bucket_head :: "'j crates \<Rightarrow> 's driver \<Rightarrow> s3_call \<Rightarrow> string \<Rightarrow> ('s, s3_error, response) act" where
  "bucket_head cr drv c name = finish_a c (s3_stat_bucket cr drv (sc_identity c) name)"

definition bucket_put :: "'j crates \<Rightarrow> 's driver \<Rightarrow> effects \<Rightarrow> s3_call \<Rightarrow> string \<Rightarrow> ('s, s3_error, response) oact" where
  "bucket_put cr drv fx c name = finish_o c
     (let a = args_parse cr (sc_query c) in
      try_o (run_o (lift_a (reject_unsupported a BUCKET_UNSUPPORTED))) (\<lambda>_.
      if args_exists a ''versioning'' then run_o (err_a (op_error_from NotImplemented))
      else s3_create_bucket cr drv (sc_identity c) name (fx_uuid fx) (fx_now fx)))"

definition bucket_delete :: "'j crates \<Rightarrow> 's driver \<Rightarrow> s3_call \<Rightarrow> string \<Rightarrow> ('s, s3_error, response) act" where
  "bucket_delete cr drv c name = finish_a c
     (try_a (lift_a (reject_unsupported (args_parse cr (sc_query c)) BUCKET_UNSUPPORTED)) (\<lambda>_.
      s3_delete_bucket drv (sc_identity c) name))"

definition bucket_post :: "'j crates \<Rightarrow> 's driver \<Rightarrow> s3_call \<Rightarrow> string \<Rightarrow> ('s, s3_error, response) act" where
  "bucket_post cr drv c name = finish_a c
     (if args_exists (args_parse cr (sc_query c)) ''delete''
      then s3_delete_multi cr drv (sc_identity c) name (sc_headers c) (sc_body c)
      else err_a (op_error_from NotImplemented))"

definition object_put ::
    "'j crates \<Rightarrow> 's driver \<Rightarrow> effects \<Rightarrow> s3_call \<Rightarrow> string \<Rightarrow> string \<Rightarrow> ('s, s3_error, response) act" where
  "object_put cr drv fx c name key = finish_a c
     (try_a (lift_a (reject_unsupported (args_parse cr (sc_query c)) OBJECT_UNSUPPORTED)) (\<lambda>_.
      s3_put_object cr drv (fx_now fx) (sc_identity c) name key (sc_headers c) (sc_body c)))"

definition get_or_head ::
    "'j crates \<Rightarrow> 's driver \<Rightarrow> s3_call \<Rightarrow> string \<Rightarrow> string \<Rightarrow> bool \<Rightarrow> ('s, s3_error, response) act" where
  "get_or_head cr drv c name key get_data = finish_a c
     (try_a (lift_a (reject_unsupported (args_parse cr (sc_query c)) OBJECT_UNSUPPORTED)) (\<lambda>_.
      s3_get_object cr drv (sc_identity c) name key (sc_headers c) get_data))"

definition object_get :: "'j crates \<Rightarrow> 's driver \<Rightarrow> s3_call \<Rightarrow> string \<Rightarrow> string \<Rightarrow> ('s, s3_error, response) act" where
  "object_get cr drv c name key = get_or_head cr drv c name key True"

definition object_head :: "'j crates \<Rightarrow> 's driver \<Rightarrow> s3_call \<Rightarrow> string \<Rightarrow> string \<Rightarrow> ('s, s3_error, response) act" where
  "object_head cr drv c name key = get_or_head cr drv c name key False"

definition object_delete :: "'j crates \<Rightarrow> 's driver \<Rightarrow> s3_call \<Rightarrow> string \<Rightarrow> string \<Rightarrow> ('s, s3_error, response) act" where
  "object_delete cr drv c name key = finish_a c
     (try_a (lift_a (reject_unsupported (args_parse cr (sc_query c)) OBJECT_UNSUPPORTED)) (\<lambda>_.
      s3_delete_object drv (sc_identity c) name key))"

definition object_post :: "s3_call \<Rightarrow> ('s, s3_error, response) act" where
  "object_post c = lift_a (req_finish (call_ctx c) (Inl (op_error_from NotImplemented)))"

subsection \<open>The route table\<close>

text \<open>
  The paths of the table: \<open>/\<close>, \<open>/{bucket}\<close> with or without a final slash, \<open>/{bucket}/{*key}\<close>. A
  \<open>GET\<close> route also takes \<open>HEAD\<close> where no \<open>HEAD\<close> handler is given. \<open>None\<close> is axum's own 405.
\<close>

datatype s3_target = ServiceRoot | BucketPath string | ObjectPath string string

datatype s3_handler =
    ServiceGet
  | BucketGet string
  | BucketHead string
  | BucketPut string
  | BucketDelete string
  | BucketPost string
  | ObjectPut string string
  | ObjectGet string string
  | ObjectHead string string
  | ObjectDelete string string
  | ObjectPost string string

fun s3_route :: "string \<Rightarrow> s3_target \<Rightarrow> s3_handler option" where
  "s3_route verb ServiceRoot = (if verb = ''GET'' \<or> verb = ''HEAD'' then Some ServiceGet else None)"
| "s3_route verb (BucketPath b) =
     (if verb = ''GET'' then Some (BucketGet b) else if verb = ''HEAD'' then Some (BucketHead b)
      else if verb = ''PUT'' then Some (BucketPut b) else if verb = ''DELETE'' then Some (BucketDelete b)
      else if verb = ''POST'' then Some (BucketPost b) else None)"
| "s3_route verb (ObjectPath b k) =
     (if verb = ''GET'' then Some (ObjectGet b k) else if verb = ''HEAD'' then Some (ObjectHead b k)
      else if verb = ''PUT'' then Some (ObjectPut b k) else if verb = ''DELETE'' then Some (ObjectDelete b k)
      else if verb = ''POST'' then Some (ObjectPost b k) else None)"

fun s3_serve :: "'j crates \<Rightarrow> 's driver \<Rightarrow> effects \<Rightarrow> s3_call \<Rightarrow> s3_handler \<Rightarrow> ('s, s3_error, response) oact" where
  "s3_serve cr drv fx c ServiceGet = service_get cr drv c"
| "s3_serve cr drv fx c (BucketGet b) = run_o (bucket_get cr drv c b)"
| "s3_serve cr drv fx c (BucketHead b) = run_o (bucket_head cr drv c b)"
| "s3_serve cr drv fx c (BucketPut b) = bucket_put cr drv fx c b"
| "s3_serve cr drv fx c (BucketDelete b) = run_o (bucket_delete cr drv c b)"
| "s3_serve cr drv fx c (BucketPost b) = run_o (bucket_post cr drv c b)"
| "s3_serve cr drv fx c (ObjectPut b k) = run_o (object_put cr drv fx c b k)"
| "s3_serve cr drv fx c (ObjectGet b k) = run_o (object_get cr drv c b k)"
| "s3_serve cr drv fx c (ObjectHead b k) = run_o (object_head cr drv c b k)"
| "s3_serve cr drv fx c (ObjectDelete b k) = run_o (object_delete cr drv c b k)"
| "s3_serve cr drv fx c (ObjectPost b k) = run_o (object_post c)"

text \<open>The response of a request: \<open>IntoResponse\<close> of the handler's result.\<close>

definition s3_response :: "'j crates \<Rightarrow> s3_error + response \<Rightarrow> response" where
  "s3_response cr r = (case r of Inl e \<Rightarrow> s3_error_into_response cr e | Inr resp \<Rightarrow> resp)"

end
