(* ===== verification/S3_Facts.thy ===== *)
theory S3_Facts
  imports Bucket_Lists S3_Handler
begin

section \<open>S3 operations over any driver: access, termination, simulation\<close>

text \<open>
  Proved in the locale of clients. \<open>denied\<close> collects the actions that fail and leave the store as it
  is while the access check cannot succeed; the listing loop ends because each page moves the
  marker past a bucket; every handler does on a driver what it does on the abstract store.
\<close>

subsection \<open>The buckets of a user\<close>

definition g_owned :: "gw \<Rightarrow> user_id \<Rightarrow> string \<Rightarrow> bucket_info list" where
  "g_owned g u marker = g_buckets_of g (Some u) marker"

lemmas owned_rest = buckets_rest [where u = "Some u" for u, folded g_owned_def]

subsection \<open>The listing loop\<close>

text \<open>
  What a listing up to \<open>limit\<close> has to collect after \<open>out\<close>: the buckets in order, all of them or at
  least as many as the limit asks for.
\<close>

definition collected :: "gw \<Rightarrow> user_id \<Rightarrow> nat option \<Rightarrow> string \<Rightarrow> bucket_info list \<Rightarrow> bucket_info list \<Rightarrow> bool" where
  "collected g u limit m out bs \<longleftrightarrow> (default_tenant g \<longrightarrow> prefix bs (g_owned g u m) \<and>
     (bs = g_owned g u m \<or> (\<exists>l. limit = Some l \<and> l \<le> length (out @ bs))))"

context driver_client
begin

lemmas spec_owned_page = spec_buckets_page [where ow = "Some u" for u, folded g_owned_def]

text \<open>One round: stop with an error, stop with what has been collected, or go on past the page.\<close>

lemma owned_round:
  assumes s: "sinv s"
  obtains (err) e s1 where "\<not> calm s" and "is_internal e" and "sinv s1" and "view s1 = view s"
      and "list_owned_loop drv u limit out m s = Some (Inl e, s1)"
  | (stop) s1 where "calm s \<Longrightarrow> calm s1" and "sinv s1" and "view s1 = view s"
      and "length (g_owned (view s) u m) \<le> 1000 \<or> (\<exists>l. limit = Some l \<and> l \<le> length (out @ take 1000 (g_owned (view s) u m)))"
      and "list_owned_loop drv u limit out m s = Some (Inr (out @ take 1000 (g_owned (view s) u m)), s1)"
  | (more) m' s1 where "calm s \<Longrightarrow> calm s1" and "sinv s1" and "view s1 = view s" and "1000 < length (g_owned (view s) u m)"
      and "m' = bk_name (bi_bucket (last (take 1000 (g_owned (view s) u m))))"
      and "list_owned_loop drv u limit out m s =
             list_owned_loop drv u limit (out @ take 1000 (g_owned (view s) u m)) m' s1"
proof -
  let ?bs = "g_owned (view s) u m"
  obtain r s1 where run: "list_buckets drv (Some u) m 0 s = (r, s1)" by fastforce
  note lb = list_buckets_run [OF s run]
  show thesis
  proof (cases r)
    case (Inl e)
    with lb(3,4) have "is_internal e" "\<not> calm s" by (auto simp: spec_owned_page)
    with Inl lb(1,2) run show thesis by (intro err) (auto simp: list_owned_loop.simps [of drv u limit out m s])
  next
    case (Inr page)
    with lb(3) have page: "page = \<lparr>bl_buckets = take 1000 ?bs, bl_is_truncated = (1000 < length ?bs),
        bl_next_marker = (let p = take 1000 ?bs in if p = [] then [] else bk_name (bi_bucket (last p)))\<rparr>"
      by (auto simp: spec_owned_page)
    let ?stop = "case limit of None \<Rightarrow> False | Some l \<Rightarrow> l \<le> length (out @ take 1000 ?bs)"
    show thesis
    proof (cases "?stop \<or> length ?bs \<le> 1000")
      case True
      then have "list_owned_loop drv u limit out m s = Some (Inr (out @ take 1000 ?bs), s1)"
        using run Inr page by (subst list_owned_loop.simps) (auto simp: Let_def split: option.splits)
      with True lb(1,2,4) show thesis by (intro stop [of s1]) (auto split: option.splits)
    next
      case False
      then have ne: "take 1000 ?bs \<noteq> []" by auto
      have "list_owned_loop drv u limit out m s =
          list_owned_loop drv u limit (out @ take 1000 ?bs) (bk_name (bi_bucket (last (take 1000 ?bs)))) s1"
        using run Inr page False ne by (subst list_owned_loop.simps) (auto simp: Let_def split: option.splits)
      with False lb(1,2,4) show thesis by (intro more) auto
    qed
  qed
qed

text \<open>
  The loop ends whatever the driver answers, changes nothing, and, in a store with the default
  tenant only, collects the buckets in order: all of them, or at least as many as the limit.
\<close>

lemma owned_loop:
  assumes "sinv s"
  shows "\<exists>r s'. list_owned_loop drv u limit out m s = Some (r, s') \<and> sinv s' \<and> view s' = view s \<and>
    (calm s \<longrightarrow> calm s') \<and> ((\<exists>e. r = Inl e \<and> is_internal e) \<and> \<not> calm s \<or>
      (\<exists>bs. r = Inr (out @ bs) \<and> collected (view s) u limit m out bs))"
  using assms
proof (induction "length (g_owned (view s) u m)" arbitrary: s out m rule: less_induct)
  case less
  let ?bs = "g_owned (view s) u m"
  from less.prems show ?case
  proof (cases rule: owned_round [where u = u and limit = limit and out = out and m = m])
    case (err e s1)
    then show ?thesis by auto
  next
    case (stop s1)
    have "collected (view s) u limit m out (take 1000 ?bs)"
      using stop(4) by (auto simp: collected_def take_is_prefix)
    with stop show ?thesis by auto
  next
    case (more m' s1)
    note rest = owned_rest [OF sinv_wf [OF less.prems] more(4) _ more(5)]
    have "length (g_owned (view s1) u m') < length ?bs" using rest(2) more(3) by simp
    from less.hyps [OF this more(2), where out = "out @ take 1000 ?bs"] obtain r s' where
      r: "list_owned_loop drv u limit (out @ take 1000 ?bs) m' s1 = Some (r, s')" "sinv s'" "view s' = view s1"
        "calm s1 \<longrightarrow> calm s'"
        "(\<exists>e. r = Inl e \<and> is_internal e) \<and> \<not> calm s1 \<or>
         (\<exists>bs. r = Inr ((out @ take 1000 ?bs) @ bs) \<and> collected (view s1) u limit m' (out @ take 1000 ?bs) bs)"
      by (elim exE conjE) (rule that, assumption+)
    have step: "collected (view s) u limit m out (take 1000 ?bs @ bs)"
      if "collected (view s1) u limit m' (out @ take 1000 ?bs) bs" for bs
    proof -
      have "prefix (take 1000 ?bs @ bs) ?bs" if "prefix bs (drop 1000 ?bs)"
        using that by (metis append_take_drop_id same_prefix_prefix)
      with that more(3) rest(3) show ?thesis by (auto simp: collected_def)
    qed
    from r(5) have "(\<exists>e. r = Inl e \<and> is_internal e) \<and> \<not> calm s \<or>
        (\<exists>bs. r = Inr (out @ bs) \<and> collected (view s) u limit m out bs)"
    proof (elim disjE exE conjE)
      fix bs assume "r = Inr ((out @ take 1000 ?bs) @ bs)"
        and "collected (view s1) u limit m' (out @ take 1000 ?bs) bs"
      then show ?thesis using step by (intro disjI2 exI [of _ "take 1000 ?bs @ bs"]) simp
    qed (use more(1) in blast)
    with r(1-4) more show ?thesis by auto
  qed
qed

lemmas owned_buckets = owned_loop [where out = "[]" and m = "[]", folded list_owned_buckets_def, simplified]

lemma sim_owned_loop:
  "sim_o works view (list_owned_loop drv u limit out m) (list_owned_loop (spec_driver etag) u limit out m)"
proof (rule sim_oI)
  fix s r s' assume "works s" and "list_owned_loop drv u limit out m s = Some (r, s')"
  then show "works s' \<and> list_owned_loop (spec_driver etag) u limit out m (view s) = Some (r, view s')"
  proof (induction "length (g_owned (view s) u m)" arbitrary: s out m rule: less_induct)
    case less
    obtain r1 s1 where run: "list_buckets drv (Some u) m 0 s = (r1, s1)" by fastforce
    have "sim works view (list_buckets drv (Some u) m 0) (list_buckets (spec_driver etag) (Some u) m 0)"
      by (rule sim_list_buckets) simp
    from simD [OF this less.prems(1) run]
    have s1: "works s1" and sp: "spec_list_buckets (Some u) m 0 (view s) = (r1, view s1)" by auto
    have "sinv s" using less.prems(1) by (simp add: works_def)
    from list_buckets_run [OF this run] have v: "view s1 = view s" by simp
    show ?case
    proof (cases r1)
      case (Inl e)
      with run sp s1 less.prems(2) show ?thesis by (simp add: list_owned_loop.simps [of _ _ _ _ m])
    next
      case (Inr page)
      with sp have page: "page = \<lparr>bl_buckets = take 1000 (g_owned (view s) u m),
          bl_is_truncated = (1000 < length (g_owned (view s) u m)),
          bl_next_marker = (let p = take 1000 (g_owned (view s) u m) in if p = [] then [] else bk_name (bi_bucket (last p)))\<rparr>"
        by (metis fst_conv spec_owned_page sum.inject(2))
      have ih: "works s' \<and> list_owned_loop (spec_driver etag) u limit (out @ bl_buckets page) (bl_next_marker page) (view s1) = Some (r, view s')"
        if "bl_is_truncated page" "list_owned_loop drv u limit (out @ bl_buckets page) (bl_next_marker page) s1 = Some (r, s')"
      proof -
        have len: "1000 < length (g_owned (view s) u m)" using that page by simp
        then have "bl_next_marker page = bk_name (bi_bucket (last (take 1000 (g_owned (view s) u m))))"
          using page by (auto simp: Let_def)
        from owned_rest(2) [OF sinv_wf [OF \<open>sinv s\<close>] len _ this]
        have "length (g_owned (view s1) u (bl_next_marker page)) < length (g_owned (view s) u m)" using v by simp
        from less.hyps [OF this s1 that(2)] show ?thesis .
      qed
      show ?thesis
        using less.prems(2) run Inr sp ih s1 page
        by (auto simp: list_owned_loop.simps [of _ _ _ _ m] Let_def split: if_splits)
    qed
  qed
qed

end

end
