(* ===== verification/S3_Access.thy ===== *)
theory S3_Access
  imports S3_Facts
begin

section \<open>Who may do what: access control and termination of the S3 handlers\<close>

text \<open>
  For any driver that meets the contract, failing or not: a handler that names a bucket succeeds, or
  changes the store, only for a caller who may access that bucket, and every handler returns.
\<close>

text \<open>The bucket a handler works on; \<open>None\<close> for the two that take none or create one.\<close>

fun handler_bucket :: "s3_handler \<Rightarrow> string option" where
  "handler_bucket ServiceGet = None"
| "handler_bucket (BucketPut _) = None"
| "handler_bucket (BucketGet b) = Some b"
| "handler_bucket (BucketHead b) = Some b"
| "handler_bucket (BucketDelete b) = Some b"
| "handler_bucket (BucketPost b) = Some b"
| "handler_bucket (ObjectPut b _) = Some b"
| "handler_bucket (ObjectGet b _) = Some b"
| "handler_bucket (ObjectHead b _) = Some b"
| "handler_bucket (ObjectDelete b _) = Some b"
| "handler_bucket (ObjectPost b _) = Some b"

text \<open>The bucket exists and the caller may access it.\<close>

definition granted_on :: "gw \<Rightarrow> identity \<Rightarrow> string \<Rightarrow> bool" where
  "granted_on g i name \<longleftrightarrow> (\<exists>b. bt_get (g_buckets g) (name, []) = Some b \<and> may_access i b)"

definition g_add_bucket :: "bucket_info \<Rightarrow> gw \<Rightarrow> gw" where
  "g_add_bucket b g = g\<lparr>g_buckets :=
     bt_insert (bk_name (bi_bucket b), bk_tenant (bi_bucket b)) (canon_bucket b) (g_buckets g)\<rparr>"

lemma op_a_try: "op_a m s = (r, s') \<Longrightarrow> \<exists>r0. m s = (r0, s') \<and> r = map_err op_error_from r0"
  by (auto simp: op_a_apply split: prod.splits)

context driver_client
begin

lemma load_bucket_for_run:
  assumes "sinv s" and "load_bucket_for drv i name s = (r, s')"
  shows "sinv s'" and "view s' = view s"
    and "r = Inr b \<Longrightarrow> bt_get (g_buckets (view s)) (name, []) = Some b \<and> may_access i b"
proof -
  obtain r0 s0 where run: "load_bucket drv [] name s = (r0, s0)" by fastforce
  from refines_reads [OF load_bucket_ok reads_specs(5) assms(1) run]
  have 0: "sinv s0" "view s0 = view s" "(\<exists>e. r0 = Inl e \<and> is_internal e) \<or> r0 = fst (spec_load_bucket [] name (view s))" by auto
  show "sinv s'" "view s' = view s" "r = Inr b \<Longrightarrow> bt_get (g_buckets (view s)) (name, []) = Some b \<and> may_access i b"
    using assms(2) run 0 assms(1)
    by (auto simp: load_bucket_for_def try_a_apply verify_bucket_access_cases spec_load_bucket_def split: if_splits sum.splits)
qed

text \<open>An action that, started on a store that looks like \<open>g\<close>, fails and leaves it alone.\<close>

definition denied :: "gw \<Rightarrow> ('s, 'e, 'a) act \<Rightarrow> bool" where
  "denied g m \<longleftrightarrow> (\<forall>s r s'. sinv s \<longrightarrow> view s = g \<longrightarrow> m s = (r, s') \<longrightarrow>
     sinv s' \<and> view s' = g \<and> (\<exists>e. r = Inl e))"

lemma deniedI:
  "(\<And>s r s'. sinv s \<Longrightarrow> view s = g \<Longrightarrow> m s = (r, s') \<Longrightarrow> sinv s' \<and> view s' = g \<and> (\<exists>e. r = Inl e)) \<Longrightarrow> denied g m"
  unfolding denied_def by blast

lemma deniedD:
  "denied g m \<Longrightarrow> sinv s \<Longrightarrow> view s = g \<Longrightarrow> m s = (r, s') \<Longrightarrow> sinv s' \<and> view s' = g \<and> (\<exists>e. r = Inl e)"
  unfolding denied_def by blast

named_theorems denied_intros \<open>compositional rules for denied\<close>

lemma denied_err [denied_intros]: "denied g (err_a e)"
  by (simp add: denied_def)

lemma denied_if [denied_intros]: "(b \<Longrightarrow> denied g m) \<Longrightarrow> (\<not> b \<Longrightarrow> denied g n) \<Longrightarrow> denied g (if b then m else n)"
  by simp

lemma denied_let [denied_intros]: "denied g (f x) \<Longrightarrow> denied g (let y = x in f y)"
  by simp

lemma denied_try_lift [denied_intros]: "(\<And>x. denied g (f x)) \<Longrightarrow> denied g (try_a (lift_a r) f)"
proof (rule deniedI)
  fix s r0 s' assume f: "\<And>x. denied g (f x)" and s: "sinv s" "view s = g" and run: "try_a (lift_a r) f s = (r0, s')"
  show "sinv s' \<and> view s' = g \<and> (\<exists>e. r0 = Inl e)"
  proof (cases r)
    case (Inl e)
    with s run show ?thesis by auto
  next
    case (Inr x)
    with run have "f x s = (r0, s')" by simp
    from deniedD [OF f s this] show ?thesis .
  qed
qed

lemma denied_try_op_r [denied_intros]: "(\<And>x. denied g (f x)) \<Longrightarrow> denied g (try_a (op_r r) f)"
  unfolding op_r_def by (rule denied_try_lift)

lemma denied_try:
  assumes m: "denied g m"
  shows "denied g (try_a m f)"
proof (rule deniedI)
  fix s r s' assume s: "sinv s" "view s = g" and run: "try_a m f s = (r, s')"
  obtain r0 s0 where 0: "m s = (r0, s0)" by fastforce
  from deniedD [OF m s 0] obtain e where e: "r0 = Inl e" "sinv s0" "view s0 = g" by blast
  with 0 run have "r = Inl e" "s' = s0" by (simp_all add: try_a_apply)
  with e show "sinv s' \<and> view s' = g \<and> (\<exists>e. r = Inl e)" by blast
qed

lemma denied_load [denied_intros]:
  assumes "\<not> granted_on g i name"
  shows "denied g (try_a (op_a (load_bucket_for drv i name)) f)"
proof (rule denied_try, rule deniedI)
  fix s r s' assume "sinv s" and g: "view s = g" and "op_a (load_bucket_for drv i name) s = (r, s')"
  from op_a_try [OF this(3)] obtain r0
    where "load_bucket_for drv i name s = (r0, s')" and r: "r = map_err op_error_from r0" by blast
  note run = load_bucket_for_run [OF \<open>sinv s\<close> this(1)]
  have "\<nexists>b. r0 = Inr b" using run(3) assms g unfolding granted_on_def by blast
  with r have "\<exists>e. r = Inl e" by (cases r0) auto
  with run(1,2) g show "sinv s' \<and> view s' = g \<and> (\<exists>e. r = Inl e)" by blast
qed

lemma denied_finish [denied_intros]:
  assumes m: "denied g m"
  shows "denied g (finish_a c m)"
proof (rule deniedI)
  fix s r s' assume s: "sinv s" "view s = g" and run: "finish_a c m s = (r, s')"
  obtain r0 s0 where 0: "m s = (r0, s0)" by fastforce
  from deniedD [OF m s 0] obtain e where e: "r0 = Inl e" "sinv s0" "view s0 = g" by blast
  with 0 run have "isl r" "s' = s0" by (auto simp: finish_a_def match_a_apply req_finish_def)
  with e show "sinv s' \<and> view s' = g \<and> (\<exists>e. r = Inl e)" by (auto simp: isl_def)
qed

lemma denied_object_post [denied_intros]: "denied g (object_post c)"
  by (simp add: denied_def object_post_def req_finish_def)

lemma denied_ops [denied_intros]:
  assumes "\<not> granted_on g i name"
  shows "denied g (s3_delete_bucket drv i name)" "denied g (s3_stat_bucket cr drv i name)"
    "denied g (s3_get_location cr drv i name)" "denied g (s3_get_versioning cr drv i name)"
    "denied g (s3_list_objects_v1 cr drv i name a)" "denied g (s3_list_objects_v2 cr drv i name a)"
    "denied g (s3_put_object cr drv now i name key hs body)" "denied g (s3_get_object cr drv i name key hs get_data)"
    "denied g (s3_delete_object drv i name key)" "denied g (s3_delete_multi cr drv i name hs body)"
  unfolding s3_delete_bucket_def s3_stat_bucket_def s3_get_location_def s3_get_versioning_def
    s3_list_objects_v1_def s3_list_objects_v2_def s3_put_object_def s3_get_object_def s3_delete_object_def
    s3_delete_multi_def
  by (intro denied_intros assms)+

lemma denied_handlers:
  assumes "handler_bucket h = Some n" and "\<not> granted_on g (sc_identity c) n"
    and "sinv s" and "view s = g" and "s3_serve cr drv fx c h s = Some (r, s')"
  shows "sinv s' \<and> view s' = g \<and> (\<exists>e. r = Inl e)"
proof -
  have handlers: "denied g (bucket_get cr drv c n)" "denied g (bucket_head cr drv c n)"
    "denied g (bucket_delete cr drv c n)" "denied g (bucket_post cr drv c n)" "denied g (object_put cr drv fx c n k)"
    "denied g (get_or_head cr drv c n k d)" "denied g (object_delete cr drv c n k)" for k d
    unfolding bucket_get_def bucket_head_def bucket_delete_def bucket_post_def object_put_def get_or_head_def
      object_delete_def
    by (intro denied_intros assms(2))+
  have run: "denied g m \<Longrightarrow> \<exists>m'. denied g m' \<and> run_o m = run_o m'" for m :: "('s, s3_error, response) act"
    by blast
  have "\<exists>m. denied g m \<and> s3_serve cr drv fx c h = run_o m"
    using assms(1)
    by (cases h) (auto simp: object_get_def object_head_def intro: run handlers denied_object_post)
  then obtain m where m: "denied g m" "s3_serve cr drv fx c h = run_o m" by blast
  with deniedD [OF m(1) assms(3,4), of r s'] assms(5) show ?thesis by simp
qed

subsection \<open>Every handler returns\<close>

lemma owned_returns:
  assumes "sinv s"
  obtains r s1 where "op_o (list_owned_buckets drv u limit) s = Some (r, s1)" and "sinv s1" and "view s1 = view s"
  using owned_buckets [OF assms, of u limit] that by (auto simp: op_o_apply)

lemma check_quota_returns:
  assumes "sinv s"
  obtains r s1 where "check_quota drv user s = Some (r, s1)" and "sinv s1" and "view s1 = view s"
proof (cases "0 < sint (ui_max_buckets user)")
  case True
  obtain r0 s0 where "op_o (list_owned_buckets drv (ui_user_id user) (Some (nat (sint (ui_max_buckets user))))) s = Some (r0, s0)"
      "sinv s0" "view s0 = view s"
    by (rule owned_returns [OF assms])
  with True that show ?thesis
    by (cases r0) (auto simp: check_quota_def Let_def try_o_apply)
next
  case False
  show ?thesis
    by (rule that [of "if sint (ui_max_buckets user) < 0 then Inl (op_error_from AccessDenied) else Inr ()" s])
      (use False assms in \<open>auto simp: check_quota_def Let_def\<close>)
qed

lemma finish_o_some: "m s = Some (r, s1) \<Longrightarrow> finish_o c m s = Some (req_finish (call_ctx c) r, s1)"
  by (simp add: finish_o_def match_o_apply)

lemma s3_serve_returns:
  assumes "sinv s"
  shows "\<exists>r s'. s3_serve cr drv fx c h s = Some (r, s')"
proof (cases h)
  case ServiceGet
  have "\<exists>r s'. s3_list_buckets cr drv i s = Some (r, s')" for i
  proof (cases "require_user i")
    case (Inl e)
    then show ?thesis by (simp add: s3_list_buckets_def try_o_apply)
  next
    case (Inr u)
    obtain r0 s0 where "op_o (list_owned_buckets drv (ui_user_id u) None) s = Some (r0, s0)"
      by (rule owned_returns [OF assms])
    with Inr show ?thesis by (cases r0) (auto simp: s3_list_buckets_def try_o_apply)
  qed
  from this [of "sc_identity c"] show ?thesis using ServiceGet by (auto simp: service_get_def finish_o_some)
next
  case (BucketPut b)
  have "\<exists>r s'. s3_create_bucket cr drv i b uuid now s = Some (r, s')" for i uuid now
  proof (cases "require_user i")
    case (Inl e)
    then show ?thesis by (simp add: s3_create_bucket_def try_o_apply)
  next
    case (Inr u)
    obtain r0 s0 where "check_quota drv u s = Some (r0, s0)" by (rule check_quota_returns [OF assms])
    with Inr show ?thesis
      by (cases r0; cases "validate_bucket_name b") (auto simp: s3_create_bucket_def try_o_apply split: prod.splits)
  qed
  then obtain r s' where m: "(let a = args_parse cr (sc_query c) in
      try_o (run_o (lift_a (reject_unsupported a BUCKET_UNSUPPORTED))) (\<lambda>_.
      if args_exists a ''versioning'' then run_o (err_a (op_error_from NotImplemented))
      else s3_create_bucket cr drv (sc_identity c) b (fx_uuid fx) (fx_now fx))) s = Some (r, s')"
    by (cases "reject_unsupported (args_parse cr (sc_query c)) BUCKET_UNSUPPORTED";
        cases "args_exists (args_parse cr (sc_query c)) ''versioning''") (fastforce simp: Let_def try_o_apply)+
  then have "bucket_put cr drv fx c b s = Some (req_finish (call_ctx c) r, s')"
    unfolding bucket_put_def by (rule finish_o_some)
  then show ?thesis using BucketPut by simp
qed (simp_all add: prod_eq_iff)

subsection \<open>What creating a bucket does to the store\<close>

lemma store_new_bucket_run:
  assumes s: "sinv s" "uid_stable (ui_user_id u)" and ok: "validate_bucket_name name = Inr ()"
    and run: "store_new_bucket cr drv u name uuid now s = (r, s')"
  shows "sinv s' \<and> (view s' = view s \<and> (\<exists>e. r = Inl e) \<or>
    r = Inr (status_response 200 [(''location'', CHR ''/'' # name)]) \<and>
    bt_get (g_buckets (view s)) (name, []) = None \<and> view s' = g_add_bucket (new_bucket u name uuid now) (view s))"
proof -
  obtain r0 s0 where cb: "create_bucket drv (new_bucket u name uuid now) s = (r0, s0)" by fastforce
  have "refines sinv view (create_bucket drv (new_bucket u name uuid now)) (spec_create_bucket (new_bucket u name uuid now))"
    by (rule create_bucket_ok) (simp add: new_bucket_def s(2))
  from refinesD [OF this s(1) cb]
  have r0: "sinv s0" "r0 = Inr () \<and> bt_get (g_buckets (view s)) (name, []) = None \<and>
        view s0 = g_add_bucket (new_bucket u name uuid now) (view s) \<or> (\<exists>e. r0 = Inl e) \<and> view s0 = view s"
    by (auto simp: spec_create_bucket_def g_add_bucket_def new_bucket_def bucket_key_new_def Let_def split: if_splits)
  show ?thesis
  proof (cases r0)
    case (Inr x)
    have "hdr_from_str_ok (CHR ''/'' # name)"
      using valid_name_chars [OF ok]
      by (fastforce simp: hdr_from_str_ok_def list_all_iff name_alnum_def is_ascii_lowercase_def is_ascii_digit_def)
    with Inr r0 cb run show ?thesis
      by (auto simp: store_new_bucket_def match_a_apply try_a_apply header_value_ok)
  next
    case (Inl e)
    obtain r1 s1 where lb: "load_bucket drv [] name s0 = (r1, s1)" by fastforce
    from refines_reads [OF load_bucket_ok reads_specs(5) r0(1) lb] have "sinv s1" "view s1 = view s0" by auto
    with Inl r0 cb lb run show ?thesis
      by (auto simp: store_new_bucket_def match_a_apply Let_def split: if_splits)
  qed
qed

lemma create_bucket_effect:
  assumes s: "sinv s" and uid: "\<And>u. identity_user i = Some u \<Longrightarrow> uid_stable (ui_user_id u)"
    and run: "s3_create_bucket cr drv i name uuid now s = Some (r, s')"
  shows "sinv s' \<and> (view s' = view s \<and> (\<exists>e. r = Inl e) \<or>
    (\<exists>u. identity_user i = Some u \<and> validate_bucket_name name = Inr () \<and>
      r = Inr (status_response 200 [(''location'', CHR ''/'' # name)]) \<and>
      bt_get (g_buckets (view s)) (name, []) = None \<and> view s' = g_add_bucket (new_bucket u name uuid now) (view s)))"
proof (cases "identity_user i")
  case None
  with s run show ?thesis by (auto simp: s3_create_bucket_def require_user_def try_o_apply)
next
  case (Some u)
  obtain r0 s0 where q: "check_quota drv u s = Some (r0, s0)" and s0: "sinv s0" "view s0 = view s"
    by (rule check_quota_returns [OF s])
  obtain r1 s1 where n: "store_new_bucket cr drv u name uuid now s0 = (r1, s1)" by fastforce
  note eff = store_new_bucket_run [OF s0(1) uid [OF Some] _ n, unfolded s0(2)]
  show ?thesis
    using run Some q n s s0 eff
    by (cases "validate_bucket_name name"; cases r0)
      (auto simp: s3_create_bucket_def require_user_def try_o_apply)
qed

end

end
