(* ===== verification/S3_Refine.thy ===== *)
theory S3_Refine
  imports S3_Access
begin

section \<open>The S3 handlers compute what they compute on the abstract store\<close>

text \<open>
  When the driver works, every handler gives the response, and leaves the store, that the same
  handler gives on the abstract store. \<open>call_ok\<close> states what the Rust types say of a call (a key is
  UTF-8 text, a body fits in memory), that a listing prefix holds no NUL, and that the caller's id
  is one the tables can hold. \<open>HEAD\<close> of a bucket is left out: the object count and byte total of
  the driver may fail on their own.
\<close>

lemma sim_op_r [sim_intros]: "sim I view (op_r r) (op_r r)"
  by (auto intro: simI)

lemma sim_op_a [sim_intros]: "sim I view m m' \<Longrightarrow> sim I view (op_a m) (op_a m')"
  unfolding op_a_def by (intro sim_intros)

lemma sim_finish [sim_intros]: "sim I view m m' \<Longrightarrow> sim I view (finish_a c m) (finish_a c m')"
  unfolding finish_a_def by (intro sim_intros)

lemma sim_finish_o [sim_intros]: "sim_o I view m m' \<Longrightarrow> sim_o I view (finish_o c m) (finish_o c m')"
  unfolding finish_o_def by (intro sim_intros)

lemma sim_op_o [sim_intros]: "sim_o I view m m' \<Longrightarrow> sim_o I view (op_o m) (op_o m')"
  unfolding op_o_def by (intro sim_intros sim_op_r)

lemma from_utf8_ok_replacement: "from_utf8_ok replacement"
  by code_simp

lemma from_utf8_ok_take_step:
  assumes "s \<noteq> []" and "snd (utf8_step s)"
  shows "from_utf8_ok (take (fst (utf8_step s)) s)"
proof -
  let ?t = "take (fst (utf8_step s)) s"
  have ne: "?t \<noteq> []" using utf8_step_pos [OF assms(1)] assms(1) by simp
  have len: "length ?t = fst (utf8_step s)" using utf8_step_le [OF assms(2)] by simp
  have "utf8_step ?t = utf8_step s"
    using assms by (cases s) (auto simp: utf8_step_def Let_def split: list.splits if_splits)
  with assms(2) ne len show ?thesis
    by (simp add: from_utf8_ok.simps [of ?t] from_utf8_ok.simps [of "[]"] del: take_eq_Nil)
qed

lemma from_utf8_lossy_valid: "from_utf8_ok (from_utf8_lossy s)"
proof (induction s rule: from_utf8_lossy.induct)
  case (1 s)
  show ?case
  proof (cases "s = []")
    case True
    then show ?thesis by (simp add: from_utf8_lossy.simps [of "[]"] from_utf8_ok.simps [of "[]"])
  next
    case False
    let ?c = "if snd (utf8_step s) then take (fst (utf8_step s)) s else replacement"
    have "from_utf8_ok ?c" using False by (simp add: from_utf8_ok_take_step from_utf8_ok_replacement)
    with 1 [OF False] False show ?thesis by (simp add: from_utf8_lossy.simps [of s] from_utf8_ok_append)
  qed
qed

lemma args_get_in: "args_get a n = Some v \<Longrightarrow> (n, v) \<in> set a"
  by (induction a) (auto simp: args_get_def split: if_splits)

lemma args_get_utf8:
  assumes "args_get (args_parse cr q) n = Some v"
  shows "from_utf8_ok v"
proof -
  have "kv \<in> set (args_parse cr q) \<Longrightarrow> from_utf8_ok (snd kv)" for kv
    by (auto simp: args_parse_def args_decode_def from_utf8_lossy_valid case_prod_beta split: option.splits)
  with args_get_in [OF assms] show ?thesis by fastforce
qed

lemma or_default_utf8: "from_utf8_ok (or_default (args_get (args_parse cr q) n))"
  by (auto simp: or_default_def args_get_utf8 from_utf8_ok.simps [of "[]"] split: option.splits)

definition prefix_arg :: "'j crates \<Rightarrow> s3_call \<Rightarrow> string" where
  "prefix_arg cr c = or_default (args_get (args_parse cr (sc_query c)) ''prefix'')"

fun handler_key :: "s3_handler \<Rightarrow> string" where
  "handler_key (ObjectPut _ k) = k"
| "handler_key _ = []"

definition call_ok :: "'j crates \<Rightarrow> s3_call \<Rightarrow> s3_handler \<Rightarrow> bool" where
  "call_ok cr c h \<longleftrightarrow>
     from_utf8_ok (handler_key h) \<and> body_fits (sc_body c) \<and> CHR 0x00 \<notin> set (prefix_arg cr c) \<and>
     (case identity_user (sc_identity c) of None \<Rightarrow> True | Some u \<Rightarrow> uid_stable (ui_user_id u)) \<and>
     to_bytes_ok cr \<and> (\<forall>b. h \<noteq> BucketHead b)"

lemma common_parse_prefix:
  "common_parse a = Inr co \<Longrightarrow> co_prefix co = or_default (args_get a ''prefix'')"
  by (auto simp: common_parse_def try_r_Inr_iff)

lemma put_payload_fits:
  assumes "to_bytes_ok cr" and "body_fits body" and "put_payload cr hs body = Inr payload"
  shows "body_fits payload"
proof -
  have "length b \<le> 2 ^ 30" if "buffer_body cr body MAX_BUFFERED_PUT = Inr b" for b
    using that assms(1) by (simp add: buffer_body_def to_bytes_ok_def MAX_BUFFERED_PUT_def)
  then have "length b < 2 ^ 63" if "buffer_body cr body MAX_BUFFERED_PUT = Inr b" for b
    using that by fastforce
  then show ?thesis using assms(2,3)
    by (auto simp: put_payload_def try_r_Inr_iff body_fits_def split: option.splits)
qed

context driver_client
begin

lemma sim_load_bucket_for [sim_intros]:
  "sim works view (load_bucket_for drv i n) (load_bucket_for (spec_driver etag) i n)"
  unfolding load_bucket_for_def by (intro sim_intros)

lemma sim_try_op_r:
  "(\<And>x. r = Inr x \<Longrightarrow> sim works view (f x) (f' x)) \<Longrightarrow> sim works view (try_a (op_r r) f) (try_a (op_r r) f')"
  by (cases r) (auto intro!: simI dest: simD simp: try_a_apply)

lemma sim_list_v1:
  assumes "CHR 0x00 \<notin> set (or_default (args_get (args_parse cr q) ''prefix''))"
  shows "sim works view (s3_list_objects_v1 cr drv i n (args_parse cr q)) (s3_list_objects_v1 cr (spec_driver etag) i n (args_parse cr q))"
  unfolding s3_list_objects_v1_def common_list_def Let_def
  by (rule sim_try_op_r, intro sim_intros)
    (use assms in \<open>auto simp: co_params_def common_parse_prefix or_default_utf8\<close>)

lemma sim_list_v2:
  assumes "CHR 0x00 \<notin> set (or_default (args_get (args_parse cr q) ''prefix''))"
  shows "sim works view (s3_list_objects_v2 cr drv i n (args_parse cr q)) (s3_list_objects_v2 cr (spec_driver etag) i n (args_parse cr q))"
  unfolding s3_list_objects_v2_def common_list_def
  by (rule sim_try_op_r, intro sim_intros)
    (use assms in \<open>auto simp: co_params_def common_parse_prefix or_default_utf8\<close>)

lemma sim_ops [sim_intros]:
  "sim works view (s3_get_location cr drv i n) (s3_get_location cr (spec_driver etag) i n)"
  "sim works view (s3_get_versioning cr drv i n) (s3_get_versioning cr (spec_driver etag) i n)"
  "sim works view (s3_delete_bucket drv i n) (s3_delete_bucket (spec_driver etag) i n)"
  "sim works view (s3_delete_object drv i n k) (s3_delete_object (spec_driver etag) i n k)"
  "sim works view (s3_get_object cr drv i n k hs d) (s3_get_object cr (spec_driver etag) i n k hs d)"
  unfolding s3_get_location_def s3_get_versioning_def s3_delete_bucket_def s3_delete_object_def s3_get_object_def Let_def
  by (intro sim_intros)+

lemma sim_put:
  assumes "from_utf8_ok k" and "body_fits body" and "to_bytes_ok cr"
  shows "sim works view (s3_put_object cr drv now i n k hs body) (s3_put_object cr (spec_driver etag) now i n k hs body)"
proof -
  have "from_utf8_ok (ok_name (object_key_new k))" using assms(1) by (simp add: object_key_new_def)
  then show ?thesis
    unfolding s3_put_object_def Let_def
    by (intro sim_intros sim_try_op_r bt_wf_put_attrs) (auto intro: put_payload_fits assms)
qed

lemma sim_delete_keys:
  assumes "works s" and "delete_keys drv b q ds xs es s = (res, s')"
  shows "works s' \<and> delete_keys (spec_driver etag) b q ds xs es (view s) = (res, view s')"
  using assms
proof (induction ds arbitrary: xs es s)
  case (Cons d ds)
  obtain r1 s1 where run: "delete_object drv b (object_key_new (do_key d)) s = (r1, s1)" by fastforce
  from simD [OF sim_methods(9) Cons.prems(1) run] Cons.IH [of s1] Cons.prems(2) run
  show ?case by (cases r1) (auto split: if_splits)
qed simp

lemma sim_delete_multi:
  "sim works view (s3_delete_multi cr drv i n hs body) (s3_delete_multi cr (spec_driver etag) i n hs body)"
proof -
  have keys: "sim works view
      (\<lambda>s. case delete_keys drv b q ds [] [] s of ((xs, es), s1) \<Rightarrow> op_r (xml_response cr (delete_result_elem xs es)) s1)
      (\<lambda>s. case delete_keys (spec_driver etag) b q ds [] [] s of ((xs, es), s1) \<Rightarrow> op_r (xml_response cr (delete_result_elem xs es)) s1)"
    for b q ds
    by (rule simI) (auto dest: sim_delete_keys split: prod.splits)
  show ?thesis unfolding s3_delete_multi_def by (intro sim_intros keys)
qed

lemma sim_s3_list_buckets [sim_intros]:
  "sim_o works view (s3_list_buckets cr drv i) (s3_list_buckets cr (spec_driver etag) i)"
  unfolding s3_list_buckets_def list_owned_buckets_def by (intro sim_intros sim_owned_loop)

lemma sim_o_try_lift:
  "(\<And>x. r = Inr x \<Longrightarrow> sim_o works view (f x) (f' x)) \<Longrightarrow>
   sim_o works view (try_o (run_o (op_r r)) f) (try_o (run_o (op_r r)) f')"
  by (cases r) (auto intro!: sim_oI dest: sim_oD simp: try_o_apply)

lemma sim_s3_create_bucket:
  assumes "\<And>u. identity_user i = Some u \<Longrightarrow> uid_stable (ui_user_id u)"
  shows "sim_o works view (s3_create_bucket cr drv i n uuid now) (s3_create_bucket cr (spec_driver etag) i n uuid now)"
  unfolding s3_create_bucket_def check_quota_def list_owned_buckets_def store_new_bucket_def Let_def
  by (rule sim_o_try_lift, intro sim_intros sim_owned_loop)
    (auto simp: new_bucket_def require_user_def intro: assms)

lemma s3_serve_sim:
  assumes "call_ok cr c h"
  shows "sim_o works view (s3_serve cr drv fx c h) (s3_serve cr (spec_driver etag) fx c h)"
proof -
  have uid: "identity_user (sc_identity c) = Some u \<Longrightarrow> uid_stable (ui_user_id u)" for u
    using assms by (simp add: call_ok_def)
  have pre: "CHR 0x00 \<notin> set (or_default (args_get (args_parse cr (sc_query c)) ''prefix''))"
    using assms by (simp add: call_ok_def prefix_arg_def)
  show ?thesis
  proof (cases h)
    case ServiceGet
    show ?thesis unfolding ServiceGet s3_serve.simps service_get_def by (intro sim_intros)
  next
    case (BucketGet n)
    show ?thesis unfolding BucketGet s3_serve.simps bucket_get_def Let_def
      by (intro sim_intros sim_list_v1 sim_list_v2 pre)
  next
    case (BucketHead n)
    then show ?thesis using assms by (simp add: call_ok_def)
  next
    case (BucketPut n)
    show ?thesis unfolding BucketPut s3_serve.simps bucket_put_def Let_def
      by (intro sim_intros sim_s3_create_bucket uid)
  next
    case (BucketDelete n)
    show ?thesis unfolding BucketDelete s3_serve.simps bucket_delete_def by (intro sim_intros)
  next
    case (BucketPost n)
    show ?thesis unfolding BucketPost s3_serve.simps bucket_post_def by (intro sim_intros sim_delete_multi)
  next
    case (ObjectPut n k)
    then show ?thesis unfolding ObjectPut s3_serve.simps object_put_def
      by (intro sim_intros sim_put) (use assms ObjectPut in \<open>auto simp: call_ok_def\<close>)
  next
    case (ObjectGet n k)
    show ?thesis unfolding ObjectGet s3_serve.simps object_get_def get_or_head_def by (intro sim_intros)
  next
    case (ObjectHead n k)
    show ?thesis unfolding ObjectHead s3_serve.simps object_head_def get_or_head_def by (intro sim_intros)
  next
    case (ObjectDelete n k)
    show ?thesis unfolding ObjectDelete s3_serve.simps object_delete_def by (intro sim_intros)
  next
    case (ObjectPost n k)
    show ?thesis unfolding ObjectPost s3_serve.simps object_post_def by (intro sim_intros)
  qed
qed

end

end
