(* ===== verification/S3_Spec.thy ===== *)
theory S3_Spec
  imports S3_Handler Sal_Client
begin

section \<open>What the S3 operations do to the abstract store\<close>

text \<open>
  The operations run on the abstract store: \<open>HEAD\<close> and \<open>GET\<close> agree, an object that is put is read back
  with its metadata, deleting is idempotent, a batch of deletes removes exactly its keys.
\<close>

lemma spec_load_bucket_for:
  "load_bucket_for (spec_driver e) i n g =
     (if CHR ''/'' \<in> set n then Inl NoSuchBucket
      else case bt_get (g_buckets g) (n, []) of
        None \<Rightarrow> Inl NoSuchBucket
      | Some b \<Rightarrow> if may_access i b then Inr b else Inl AccessDenied, g)"
  by (auto simp: load_bucket_for_def spec_load_bucket_def try_a_apply verify_bucket_access_cases split: option.splits)

lemma spec_head [simp]: "spec_head_object b k g = (try_r (g_find_object g b k) (\<lambda>(ob, _). Inr ob), g)"
  by (simp add: spec_head_object_def)

lemma bucket_id_listed: "gw_wf g \<Longrightarrow> bt_get (g_buckets g) k = Some b \<Longrightarrow> bk_bucket_id (bi_bucket b) \<in> set (g_bucket_ids g)"
  using bt_get_Some_in [of "g_buckets g" k b] by (force simp: g_bucket_ids_def)

subsection \<open>\<open>HEAD\<close> and \<open>GET\<close>\<close>

definition strip_body :: "response \<Rightarrow> response" where
  "strip_body resp = resp\<lparr>rs_body := []\<rparr>"

lemma object_response_body:
  "object_response cr info rng body = map_sum id (\<lambda>resp. resp\<lparr>rs_body := body\<rparr>) (object_response cr info rng [])"
  by (auto simp: object_response_def try_r_def Let_def split: sum.splits option.splits)

lemma object_response_strip: "map_sum id strip_body (object_response cr info rng body) = object_response cr info rng []"
  by (subst object_response_body) (auto simp: object_response_def strip_body_def try_r_def Let_def split: sum.splits option.splits)

lemma map_err_map_sum: "map_err f (map_sum id h r) = map_sum id h (map_err f r)"
  by (cases r) auto

lemma spec_get_strip:
  assumes "gw_wf g"
  shows "s3_get_object cr (spec_driver e) i n k hs False g =
    (case s3_get_object cr (spec_driver e) i n k hs True g of (r, g') \<Rightarrow> (map_sum id strip_body r, g'))"
proof (cases "fst (load_bucket_for (spec_driver e) i n g)")
  case (Inl err)
  then have "load_bucket_for (spec_driver e) i n g = (Inl err, g)" by (auto simp: spec_load_bucket_for)
  then show ?thesis by (simp add: s3_get_object_def try_a_apply op_a_apply)
next
  case (Inr b)
  then have lb: "load_bucket_for (spec_driver e) i n g = (Inr b, g)" by (auto simp: spec_load_bucket_for)
  let ?f = "g_find_object g (bi_bucket b) (object_key_new k)"
  show ?thesis
  proof (cases ?f)
    case (Inl err)
    then have "err \<noteq> InvalidRange" by (auto simp: g_find_object_def ok_or_Inl_iff split: if_splits)
    with Inl lb show ?thesis
      by (simp add: s3_get_object_def try_a_apply op_a_apply match_a_apply spec_get_object_def Let_def)
  next
    case (Inr obd)
    obtain ob d where obd: "obd = (ob, d)" by fastforce
    from Inr obd have "bt_get (g_objects g) (bk_bucket_id (bi_bucket b), k) = Some (ob, d)"
      by (auto simp: g_find_object_def object_key_new_def split: if_splits)
    with gw_wf_object [OF assms] have sz: "unat (oi_size ob) = length d" by blast
    show ?thesis
    proof (cases "request_range hs")
      case None
      with lb Inr obd show ?thesis
        by (simp add: s3_get_object_def try_a_apply op_a_apply match_a_apply spec_get_object_def Let_def
            map_err_map_sum [symmetric] object_response_strip)
    next
      case (Some rng)
      then have wf: "range_wf rng" by (auto simp: request_range_def bind_eq_Some_conv dest: parse_range_wf)
      show ?thesis
      proof (cases "spec_range rng (length d)")
        case None
        with s3_resolve_range_none [OF wf] sz have "s3_resolve_range rng (oi_size ob) = None" by simp
        with None Some lb Inr obd show ?thesis
          by (simp add: s3_get_object_def try_a_apply op_a_apply match_a_apply spec_get_object_def Let_def)
      next
        case r: (Some lohi)
        obtain lo hi where "lohi = (lo, hi)" by fastforce
        with r s3_resolve_range_some [OF wf] sz
        have "s3_resolve_range rng (oi_size ob) = Some (of_nat lo, of_nat hi)" by simp
        with r \<open>lohi = (lo, hi)\<close> Some lb Inr obd show ?thesis
          by (simp add: s3_get_object_def try_a_apply op_a_apply match_a_apply spec_get_object_def Let_def
              map_err_map_sum [symmetric] object_response_strip)
      qed
    qed
  qed
qed

subsection \<open>\<open>DELETE\<close>\<close>

definition g_drop_object :: "bucket_key \<Rightarrow> string \<Rightarrow> gw \<Rightarrow> gw" where
  "g_drop_object b k g = g\<lparr>g_objects := bt_remove (bk_bucket_id b, k) (g_objects g)\<rparr>"

lemma g_drop_object_sel [simp]:
  "g_buckets (g_drop_object b k g) = g_buckets g" "g_bucket_ids (g_drop_object b k g) = g_bucket_ids g"
  "g_users (g_drop_object b k g) = g_users g" "g_keys (g_drop_object b k g) = g_keys g"
  by (simp_all add: g_drop_object_def g_bucket_ids_def)

lemma bt_remove_absent: "bt_get m k = None \<Longrightarrow> bt_remove k m = m"
  by (force simp: bt_get_None_iff bt_remove_def filter_id_conv)

lemma spec_delete_cases:
  assumes "bk_bucket_id b \<in> set (g_bucket_ids g)"
  shows "spec_delete_object b (object_key_new k) g = (Inr (), g_drop_object b k g) \<or>
    spec_delete_object b (object_key_new k) g = (Inl NoSuchKey, g_drop_object b k g)"
proof (cases "bt_get (g_objects g) (bk_bucket_id b, k)")
  case None
  then have "g_drop_object b k g = g" by (simp add: g_drop_object_def bt_remove_absent)
  with None assms show ?thesis by (simp add: spec_delete_object_def g_find_object_def object_key_new_def)
next
  case (Some obd)
  with assms show ?thesis by (simp add: spec_delete_object_def g_find_object_def object_key_new_def g_drop_object_def)
qed

lemma spec_delete_granted:
  assumes "gw_wf g" and "CHR ''/'' \<notin> set n" and b: "bt_get (g_buckets g) (n, []) = Some b" and "may_access i b"
  shows "s3_delete_object (spec_driver e) i n k g = (Inr (status_response 204 []), g_drop_object (bi_bucket b) k g)"
  using spec_delete_cases [OF bucket_id_listed [OF assms(1) b], of k] assms
  by (auto simp: s3_delete_object_def spec_load_bucket_for try_a_apply op_a_apply match_a_apply)

lemma g_drop_object_twice [simp]: "g_drop_object b k (g_drop_object b k g) = g_drop_object b k g"
  by (simp add: g_drop_object_def bt_remove_def)

lemma spec_delete_keys:
  assumes "bk_bucket_id b \<in> set (g_bucket_ids g)"
  shows "delete_keys (spec_driver e) b q ds xs es g =
    ((xs @ (if q then [] else map do_key ds), es), fold (\<lambda>d. g_drop_object b (do_key d)) ds g)"
  using assms
proof (induction ds arbitrary: xs g)
  case (Cons d ds)
  have "bk_bucket_id b \<in> set (g_bucket_ids (g_drop_object b (do_key d) g))" using Cons.prems by simp
  note ih = Cons.IH [OF this]
  from spec_delete_cases [OF Cons.prems, of "do_key d"] show ?case using ih by auto
qed simp

text \<open>Dropping keys one by one keeps exactly the other objects.\<close>

lemma fold_drop_objects:
  "fold (\<lambda>d. g_drop_object b (do_key d)) ds g =
     g\<lparr>g_objects := filter (\<lambda>e. \<not> (fst (fst e) = bk_bucket_id b \<and> snd (fst e) \<in> do_key ` set ds)) (g_objects g)\<rparr>"
proof (induction ds arbitrary: g)
  case (Cons d ds)
  have "filter (\<lambda>e. \<not> (fst (fst e) = bk_bucket_id b \<and> snd (fst e) \<in> do_key ` set ds)) (bt_remove (bk_bucket_id b, do_key d) m) =
      filter (\<lambda>e. \<not> (fst (fst e) = bk_bucket_id b \<and> snd (fst e) \<in> do_key ` set (d # ds))) m" for m :: "(string \<times> string, object_info \<times> bytes) btree"
    unfolding bt_remove_def filter_filter by (rule filter_cong [OF refl]) (auto simp: prod_eq_iff split: prod.splits)
  with Cons.IH show ?case by (simp add: g_drop_object_def)
qed simp

subsection \<open>\<open>PUT\<close>, then \<open>GET\<close>\<close>

lemma try_map_read: "(\<forall>c \<in> set body. \<exists>d. c = Inr d) \<Longrightarrow> read_body body = Inr (concat (map projr body))"
  by (induction body) auto

lemma put_payload_read:
  assumes "to_bytes_ok cr" and "put_payload cr hs body = Inr payload"
  shows "read_body payload = read_body body"
proof (cases "content_md5 cr hs")
  case (Inr m)
  show ?thesis
  proof (cases m)
    case (Some digest)
    with Inr assms(2) obtain b where b: "buffer_body cr body MAX_BUFFERED_PUT = Inr b" and p: "payload = body_from_bytes b"
      by (auto simp: put_payload_def try_r_Inr_iff)
    then have "body_to_bytes cr body MAX_BUFFERED_PUT = Inr b" by (simp add: buffer_body_def)
    with assms(1) have "b = concat (map projr body)" "\<forall>c \<in> set body. \<exists>d. c = Inr d"
      by (auto simp: to_bytes_ok_def)
    with p show ?thesis by (simp add: try_map_read)
  qed (use Inr assms(2) in \<open>simp add: put_payload_def\<close>)
qed (use assms(2) in \<open>simp add: put_payload_def\<close>)

text \<open>What a successful \<open>PUT\<close> means, on the abstract store.\<close>

lemma spec_put_run:
  assumes wf: "gw_wf g" and tb: "to_bytes_ok cr"
    and put: "s3_put_object cr (spec_driver e) now i n k hs body g = (Inr resp, g1)"
  obtains b u d where "CHR ''/'' \<notin> set n" and "bt_get (g_buckets g) (n, []) = Some b" and "may_access i b"
    and "identity_user i = Some u" and "read_body body = Inr d"
    and "g1 = g\<lparr>g_objects := bt_insert (bk_bucket_id (bi_bucket b), k)
        (canon_object (new_object e now (object_key_new k) (owner_of u) (put_attrs hs) d), d) (g_objects g)\<rparr>"
    and "resp = status_response 200 [(''etag'', quote @ e d @ quote)]"
proof -
  have cs: "hdr_get hs ''x-amz-copy-source'' = None" using put by (auto simp: s3_put_object_def split: if_splits)
  obtain b where lb: "load_bucket_for (spec_driver e) i n g = (Inr b, g)"
    using put cs by (auto simp: s3_put_object_def try_a_apply op_a_apply spec_load_bucket_for split: if_splits option.splits)
  then have b: "CHR ''/'' \<notin> set n" "bt_get (g_buckets g) (n, []) = Some b" "may_access i b"
    by (auto simp: spec_load_bucket_for split: if_splits option.splits)
  obtain u where u: "identity_user i = Some u" using b(3) by (auto simp: may_access_iff)
  then have ru: "require_user i = Inr u" by (simp add: require_user_def)
  obtain payload where pp: "put_payload cr hs body = Inr payload"
    using put cs lb ru
    by (cases "put_payload cr hs body") (auto simp: s3_put_object_def try_a_apply op_a_apply Let_def split: if_splits)
  note rd = put_payload_read [OF tb pp]
  have "\<exists>d. read_body payload = Inr d"
    using put cs lb ru pp
    by (cases "read_body payload")
      (auto simp: s3_put_object_def try_a_apply op_a_apply Let_def spec_put_object_def split: if_splits)
  then obtain d where d: "read_body payload = Inr d" by blast
  have "g1 = g\<lparr>g_objects := bt_insert (bk_bucket_id (bi_bucket b), k)
        (canon_object (new_object e now (object_key_new k) (owner_of u) (put_attrs hs) d), d) (g_objects g)\<rparr> \<and>
      resp = status_response 200 [(''etag'', quote @ e d @ quote)]"
    using put cs lb ru pp d bucket_id_listed [OF wf b(2)]
    by (auto simp: s3_put_object_def try_a_apply op_a_apply Let_def spec_put_object_def header_value_def
        object_key_new_def new_object_def split: if_splits)
  with b u rd d show thesis by (intro that) auto
qed

text \<open>
  The texts that go into headers are visible ones: the values of a \<open>HeaderMap\<close>, an HTTP date and an
  ETag.
\<close>

definition values_ok :: "headers \<Rightarrow> bool" where
  "values_ok hs \<longleftrightarrow> (\<forall>(n, v) \<in> set hs. hdr_from_str_ok v)"

definition dates_ok :: "'j crates \<Rightarrow> bool" where
  "dates_ok cr \<longleftrightarrow> (\<forall>t. hdr_from_str_ok (format_http_date cr t))"

lemma hdr_ok_append [simp]: "hdr_from_str_ok (a @ b) \<longleftrightarrow> hdr_from_str_ok a \<and> hdr_from_str_ok b"
  by (simp add: hdr_from_str_ok_def)

lemma hdr_ok_graphic: "(\<And>c. c \<in> set s \<Longrightarrow> is_ascii_graphic c) \<Longrightarrow> hdr_from_str_ok s"
  by (fastforce simp: hdr_from_str_ok_def list_all_iff is_ascii_graphic_def)

lemma hdr_ok_show [simp]: "hdr_from_str_ok (show_nat n)"
  by (rule hdr_ok_graphic) (rule show_radix_graphic [of 10], simp_all)

lemma hdr_ok_quote [simp]: "hdr_from_str_ok quote"
  by code_simp

lemma hdr_ok_lits [simp]:
  "hdr_from_str_ok ''bytes ''" "hdr_from_str_ok ''bytes''" "hdr_from_str_ok ''-''" "hdr_from_str_ok ''/''"
  "hdr_from_str_ok ''bytes */''" "hdr_from_str_ok ''STANDARD''" "hdr_from_str_ok DEFAULT_CONTENT_TYPE"
  "hdr_from_str_ok '',''"
  by code_simp+

lemma echo_generic_other:
  "m \<notin> fst ` set GENERIC_ATTRS \<Longrightarrow> na \<in> set GENERIC_ATTRS \<Longrightarrow> hdr_get (echo_generic info na hs) m = hdr_get hs m"
  by (auto simp: echo_generic_def hdr_get_insert image_iff split: prod.splits option.splits)

lemma fold_echo_generic_other:
  assumes "m \<notin> fst ` set GENERIC_ATTRS"
  shows "hdr_get (fold (echo_generic info) GENERIC_ATTRS hs) m = hdr_get hs m"
proof -
  have "set nas \<subseteq> set GENERIC_ATTRS \<Longrightarrow> hdr_get (fold (echo_generic info) nas hs) m = hdr_get hs m" for nas
    by (induction nas arbitrary: hs) (auto simp: echo_generic_other [OF assms])
  then show ?thesis by simp
qed

lemma fold_echo_meta_some: "hdr_get hs m = Some v \<Longrightarrow> hdr_get (fold (echo_meta cr) svs hs) m = Some v"
proof (induction svs arbitrary: hs)
  case (Cons sv svs)
  then have "hdr_get (echo_meta cr sv hs) m = Some v"
    by (auto simp: echo_meta_def hdr_get_append split: prod.splits option.splits)
  with Cons.IH show ?case by simp
qed simp

lemma echo_meta_none:
  "hdr_get hs m = None \<Longrightarrow> hdr_get (echo_meta cr (sfx, v) hs) m =
     (if header_name cr (AMZ_META @ sfx) = Some m \<and> hdr_from_str_ok v then Some v else None)"
  by (auto simp: echo_meta_def hdr_get_append split: option.splits)

text \<open>Metadata names parse as themselves, as the names of a \<open>HeaderMap\<close> do.\<close>

definition meta_named :: "'j crates \<Rightarrow> (string \<times> bytes) list \<Rightarrow> bool" where
  "meta_named cr svs \<longleftrightarrow> (\<forall>(sfx, v) \<in> set svs. header_name cr (AMZ_META @ sfx) = Some (AMZ_META @ sfx) \<and> hdr_from_str_ok v)"

lemma fold_echo_meta:
  "meta_named cr svs \<Longrightarrow> hdr_get hs (AMZ_META @ sfx) = None \<Longrightarrow>
   hdr_get (fold (echo_meta cr) svs hs) (AMZ_META @ sfx) = map_of svs sfx"
proof (induction svs arbitrary: hs)
  case (Cons sv svs)
  obtain s v where sv: "sv = (s, v)" by fastforce
  with Cons.prems have nm: "header_name cr (AMZ_META @ s) = Some (AMZ_META @ s)" "hdr_from_str_ok v" "meta_named cr svs"
    by (auto simp: meta_named_def)
  show ?case
  proof (cases "s = sfx")
    case True
    then have "hdr_get (echo_meta cr sv hs) (AMZ_META @ sfx) = Some v"
      using Cons.prems(2) nm sv by (simp add: echo_meta_none)
    then show ?thesis using True sv by (simp add: fold_echo_meta_some)
  next
    case False
    then have "hdr_get (echo_meta cr sv hs) (AMZ_META @ sfx) = None"
      using Cons.prems(2) nm sv by (simp add: echo_meta_none)
    with Cons.IH [OF nm(3)] False sv show ?thesis by simp
  qed
qed simp

subsection \<open>The attributes a \<open>GET\<close> echoes\<close>

lemma map_of_metadata:
  "map_of (List.map_filter (\<lambda>(k, v). map_option (\<lambda>s. (s, v)) (strip_prefix p k)) at) sfx = map_of at (p @ sfx)"
proof (induction at)
  case (Cons kv at)
  obtain k v where kv: "kv = (k, v)" by fastforce
  show ?case
  proof (cases "strip_prefix p k")
    case None
    then have "k \<noteq> p @ sfx" by (auto simp: strip_prefix_Some [symmetric])
    with None kv Cons show ?thesis by (simp add: map_filter_simps)
  next
    case (Some r)
    with kv Cons show ?thesis by (auto simp: map_filter_simps strip_prefix_Some)
  qed
qed (simp add: map_filter_simps)

lemma map_of_user_metadata: "map_of (user_metadata ob) sfx = bt_get (oi_attrs ob) (RGW_ATTR_META_PREFIX @ sfx)"
  by (simp add: user_metadata_def map_of_metadata bt_get_def)

lemma generic_keys:
  "(n, a) \<in> set GENERIC_ATTRS \<Longrightarrow> \<not> prefix RGW_ATTR_META_PREFIX (RGW_ATTR_PREFIX @ a) \<and> RGW_ATTR_PREFIX @ a \<noteq> RGW_ATTR_CONTENT_TYPE"
  by (auto simp: GENERIC_ATTRS_def RGW_ATTR_META_PREFIX_def RGW_ATTR_PREFIX_def RGW_ATTR_CONTENT_TYPE_def)

lemma fold_generic_other:
  assumes "bt_wf at" and "\<forall>(n, a) \<in> set nas. RGW_ATTR_PREFIX @ a \<noteq> k"
  shows "bt_get (fold (add_generic hs) nas at) k = bt_get at k"
  using assms
proof (induction nas arbitrary: at)
  case (Cons na nas)
  have "bt_get (add_generic hs na at) k = bt_get at k"
    using Cons.prems by (auto simp: add_generic_def bt_get_insert split: prod.splits option.splits)
  with Cons show ?case by (simp add: bt_wf_add_generic)
qed simp

lemma attr_keys:
  "\<not> prefix RGW_ATTR_META_PREFIX RGW_ATTR_CONTENT_TYPE" "\<not> prefix RGW_ATTR_META_PREFIX RGW_ATTR_STORAGE_CLASS"
  "RGW_ATTR_STORAGE_CLASS \<noteq> RGW_ATTR_CONTENT_TYPE"
  by (simp_all add: RGW_ATTR_META_PREFIX_def RGW_ATTR_CONTENT_TYPE_def RGW_ATTR_STORAGE_CLASS_def)

abbreviation put_content_type :: "headers \<Rightarrow> bytes" where
  "put_content_type hs \<equiv> (case hdr_get hs ''content-type'' of None \<Rightarrow> DEFAULT_CONTENT_TYPE | Some v \<Rightarrow> v)"

lemma put_attrs_get:
  assumes "k \<noteq> RGW_ATTR_STORAGE_CLASS" and "\<forall>(n, a) \<in> set GENERIC_ATTRS. RGW_ATTR_PREFIX @ a \<noteq> k"
  shows "bt_get (put_attrs hs) k = bt_get (fold add_meta hs [(RGW_ATTR_CONTENT_TYPE, put_content_type hs)]) k"
proof -
  have wf: "bt_wf (fold add_meta hs [(RGW_ATTR_CONTENT_TYPE, put_content_type hs)])"
    by (intro bt_wf_fold bt_wf_add_meta) (simp_all add: bt_wf_def)
  have "bt_wf (fold (add_generic hs) GENERIC_ATTRS (fold add_meta hs [(RGW_ATTR_CONTENT_TYPE, put_content_type hs)]))"
    by (rule bt_wf_fold [OF _ wf]) (rule bt_wf_add_generic)
  with fold_generic_other [OF wf assms(2)] assms(1) show ?thesis
    by (simp add: put_attrs_def Let_def bt_get_insert split: option.splits)
qed

lemma put_attrs_content_type: "bt_get (put_attrs hs) RGW_ATTR_CONTENT_TYPE = Some (put_content_type hs)"
proof -
  have "bt_get (put_attrs hs) RGW_ATTR_CONTENT_TYPE =
      bt_get (fold add_meta hs [(RGW_ATTR_CONTENT_TYPE, put_content_type hs)]) RGW_ATTR_CONTENT_TYPE"
    by (rule put_attrs_get) (use attr_keys generic_keys in fastforce)+
  also have "\<dots> = Some (put_content_type hs)"
    by (subst fold_meta_other) (simp_all add: attr_keys bt_wf_def bt_get_def)
  finally show ?thesis .
qed

definition meta_value :: "headers \<Rightarrow> string \<Rightarrow> bytes option" where
  "meta_value hs sfx = (if meta_values hs sfx = [] then None else Some (join '','' (meta_values hs sfx)))"

lemma put_attrs_meta: "bt_get (put_attrs hs) (RGW_ATTR_META_PREFIX @ sfx) = meta_value hs sfx"
proof -
  have ne: "RGW_ATTR_META_PREFIX @ sfx \<noteq> k" "k \<noteq> RGW_ATTR_META_PREFIX @ sfx" if "\<not> prefix RGW_ATTR_META_PREFIX k" for k
    using that by auto
  have "bt_get (put_attrs hs) (RGW_ATTR_META_PREFIX @ sfx) =
      bt_get (fold add_meta hs [(RGW_ATTR_CONTENT_TYPE, put_content_type hs)]) (RGW_ATTR_META_PREFIX @ sfx)"
    by (rule put_attrs_get) (use ne attr_keys(2) generic_keys in blast)+
  moreover have "bt_get [(RGW_ATTR_CONTENT_TYPE, put_content_type hs)] (RGW_ATTR_META_PREFIX @ sfx) = None"
    using ne(1) [OF attr_keys(1)] by (auto simp: bt_get_def)
  moreover have "bt_wf [(RGW_ATTR_CONTENT_TYPE, put_content_type hs)]" by (simp add: bt_wf_def)
  ultimately show ?thesis by (simp add: fold_meta meta_value_def)
qed

lemma hdr_ok_Cons: "hdr_from_str_ok (c # s) \<longleftrightarrow> (32 \<le> byte c \<and> byte c \<noteq> 127 \<or> byte c = 9) \<and> hdr_from_str_ok s"
  by (simp add: hdr_from_str_ok_def)

lemma join_ok: "\<forall>v \<in> set vs. hdr_from_str_ok v \<Longrightarrow> hdr_from_str_ok (join '','' vs)"
proof (induction "'',''" vs rule: join.induct)
  case 1
  then show ?case by (simp add: hdr_from_str_ok_def)
next
  case (3 x y xs)
  then show ?case by (simp add: hdr_ok_Cons)
qed simp

definition meta_headers_ok :: "'j crates \<Rightarrow> headers \<Rightarrow> bool" where
  "meta_headers_ok cr hs \<longleftrightarrow> (\<forall>(n, v) \<in> set hs. prefix AMZ_META n \<longrightarrow> header_name cr n = Some n)"

lemma meta_named_put:
  assumes "values_ok hs" and "meta_headers_ok cr hs" and at: "oi_attrs ob = put_attrs hs"
  shows "meta_named cr (user_metadata ob)"
proof -
  have "header_name cr (AMZ_META @ sfx) = Some (AMZ_META @ sfx) \<and> hdr_from_str_ok v"
    if "(sfx, v) \<in> set (user_metadata ob)" for sfx v
  proof -
    have "(RGW_ATTR_META_PREFIX @ sfx, v) \<in> set (put_attrs hs)"
      using that at by (auto simp: user_metadata_def List.map_filter_def strip_prefix_Some)
    then have "meta_value hs sfx = Some v"
      using bt_in_get [OF bt_wf_put_attrs] put_attrs_meta by metis
    then have mv: "meta_values hs sfx \<noteq> []" "v = join '','' (meta_values hs sfx)"
      by (auto simp: meta_value_def split: if_splits)
    then obtain w where "(AMZ_META @ sfx, w) \<in> set hs"
      by (fastforce simp: meta_values_def hdr_get_all_def filter_empty_conv)
    with assms(2) have "header_name cr (AMZ_META @ sfx) = Some (AMZ_META @ sfx)"
      by (auto simp: meta_headers_ok_def)
    moreover have "\<forall>w \<in> set (meta_values hs sfx). hdr_from_str_ok w"
      using assms(1) by (auto simp: values_ok_def meta_values_def hdr_get_all_def)
    ultimately show ?thesis using mv(2) join_ok by simp
  qed
  then show ?thesis by (auto simp: meta_named_def)
qed

lemma names_distinct:
  "''etag'' \<notin> fst ` set GENERIC_ATTRS" "''content-length'' \<notin> fst ` set GENERIC_ATTRS"
  "''content-type'' \<notin> fst ` set GENERIC_ATTRS" "AMZ_META @ sfx \<notin> fst ` set GENERIC_ATTRS"
  by (auto simp: GENERIC_ATTRS_def AMZ_META_def)

text \<open>The whole response of a \<open>GET\<close> without a range.\<close>

lemma object_response_whole:
  assumes "dates_ok cr" and "hdr_from_str_ok (oi_etag ob)" and "oi_storage_class ob = ''STANDARD''"
    and ct: "hdr_from_str_ok (case content_type ob of None \<Rightarrow> DEFAULT_CONTENT_TYPE | Some t \<Rightarrow> t)"
    and meta: "meta_named cr (user_metadata ob)"
  obtains hs where "object_response cr ob None body = Inr \<lparr>rs_status = 200, rs_headers = hs, rs_body = body\<rparr>"
    and "hdr_get hs ''etag'' = Some (quote @ oi_etag ob @ quote)"
    and "hdr_get hs ''content-length'' = Some (show_nat (unat (oi_size ob)))"
    and "hdr_get hs ''content-type'' = Some (case content_type ob of None \<Rightarrow> DEFAULT_CONTENT_TYPE | Some t \<Rightarrow> t)"
    and "\<forall>sfx. hdr_get hs (AMZ_META @ sfx) = map_of (user_metadata ob) sfx"
proof -
  let ?ct = "case content_type ob of None \<Rightarrow> DEFAULT_CONTENT_TYPE | Some t \<Rightarrow> t"
  let ?h1 = "hdr_insert ''accept-ranges'' ''bytes'' (hdr_insert ''content-type'' ?ct
     (hdr_insert ''last-modified'' (http_date cr (oi_mtime ob)) (hdr_insert ''etag'' (quote @ oi_etag ob @ quote)
       (hdr_insert ''content-length'' (show_nat (unat (oi_size ob))) []))))"
  let ?h2 = "fold (echo_generic ob) GENERIC_ATTRS ?h1"
  let ?h3 = "fold (echo_meta cr) (user_metadata ob) ?h2"
  let ?h4 = "hdr_insert AMZ_STORAGE_CLASS ''STANDARD'' ?h3"
  have resp: "object_response cr ob None body = Inr \<lparr>rs_status = 200, rs_headers = ?h4, rs_body = body\<rparr>"
    using assms by (simp add: object_response_def header_value_ok dates_ok_def http_date_def storage_class_def)
  have keep: "hdr_get ?h4 m = Some v" if "m \<notin> fst ` set GENERIC_ATTRS" "m \<noteq> AMZ_STORAGE_CLASS" "hdr_get ?h1 m = Some v" for m v
    using that by (simp add: hdr_get_insert fold_echo_meta_some fold_echo_generic_other)
  have "hdr_get ?h4 (AMZ_META @ sfx) = map_of (user_metadata ob) sfx" for sfx
  proof -
    have "hdr_get ?h2 (AMZ_META @ sfx) = None"
      by (simp add: fold_echo_generic_other names_distinct hdr_get_insert) (simp add: AMZ_META_def hdr_get_def)
    from fold_echo_meta [OF meta this] show ?thesis by (simp add: hdr_get_insert) (simp add: AMZ_META_def AMZ_STORAGE_CLASS_def)
  qed
  moreover have "hdr_get ?h4 ''etag'' = Some (quote @ oi_etag ob @ quote)"
    "hdr_get ?h4 ''content-length'' = Some (show_nat (unat (oi_size ob)))" "hdr_get ?h4 ''content-type'' = Some ?ct"
    by (intro keep names_distinct; simp add: hdr_get_def AMZ_STORAGE_CLASS_def)+
  ultimately show thesis using resp by (intro that) auto
qed

lemma spec_get_after_put:
  assumes wf: "gw_wf g" and tb: "to_bytes_ok cr" and fits: "body_fits body"
    and put: "s3_put_object cr (spec_driver e) now i n k hs body g = (Inr resp, g1)"
    and hdrs: "values_ok hs" "meta_headers_ok cr hs" "dates_ok cr" "\<And>d. hdr_from_str_ok (e d)"
    and i': "\<And>b. bt_get (g_buckets g) (n, []) = Some b \<Longrightarrow> may_access i' b"
    and rng: "request_range hs' = None"
  shows "\<exists>d resp'. read_body body = Inr d \<and> s3_get_object cr (spec_driver e) i' n k hs' True g1 = (Inr resp', g1) \<and>
    rs_status resp' = 200 \<and> rs_body resp' = body_from_bytes d \<and>
    hdr_get (rs_headers resp') ''etag'' = hdr_get (rs_headers resp) ''etag'' \<and>
    hdr_get (rs_headers resp') ''content-length'' = Some (show_nat (length d)) \<and>
    hdr_get (rs_headers resp') ''content-type'' =
      Some (if from_utf8_ok (put_content_type hs) then put_content_type hs else DEFAULT_CONTENT_TYPE) \<and>
    (\<forall>sfx. hdr_get (rs_headers resp') (AMZ_META @ sfx) = meta_value hs sfx)"
proof (rule spec_put_run [OF wf tb put])
  fix b u d
  assume n: "CHR ''/'' \<notin> set n" and b: "bt_get (g_buckets g) (n, []) = Some b"
    and d: "read_body body = Inr d"
    and g1: "g1 = g\<lparr>g_objects := bt_insert (bk_bucket_id (bi_bucket b), k)
        (canon_object (new_object e now (object_key_new k) (owner_of u) (put_attrs hs) d), d) (g_objects g)\<rparr>"
    and resp: "resp = status_response 200 [(''etag'', quote @ e d @ quote)]"
  define w where "w = canon_object (new_object e now (object_key_new k) (owner_of u) (put_attrs hs) d)"
  have ob: "oi_attrs w = put_attrs hs" "oi_etag w = e d" "oi_storage_class w = ''STANDARD''" "oi_size w = of_nat (length d)"
    by (simp_all add: w_def canon_object_def new_object_def)
  have ct: "(case content_type w of None \<Rightarrow> DEFAULT_CONTENT_TYPE | Some t \<Rightarrow> t) =
      (if from_utf8_ok (put_content_type hs) then put_content_type hs else DEFAULT_CONTENT_TYPE)"
    unfolding content_type_def ob(1) put_attrs_content_type by (simp add: from_utf8_def)
  have "hdr_from_str_ok (put_content_type hs)"
    using hdrs(1) by (auto simp: values_ok_def hdr_get_def dest: map_of_SomeD split: option.splits)
  then have ctok: "hdr_from_str_ok (case content_type w of None \<Rightarrow> DEFAULT_CONTENT_TYPE | Some t \<Rightarrow> t)"
    unfolding ct by simp
  have etag: "hdr_from_str_ok (oi_etag w)" by (simp add: ob(2) hdrs(4))
  obtain h where h: "object_response cr w None (body_from_bytes d) = Inr \<lparr>rs_status = 200, rs_headers = h, rs_body = body_from_bytes d\<rparr>"
      "hdr_get h ''etag'' = Some (quote @ oi_etag w @ quote)"
      "hdr_get h ''content-length'' = Some (show_nat (unat (oi_size w)))"
      "hdr_get h ''content-type'' = Some (case content_type w of None \<Rightarrow> DEFAULT_CONTENT_TYPE | Some t \<Rightarrow> t)"
      "\<forall>sfx. hdr_get h (AMZ_META @ sfx) = map_of (user_metadata w) sfx"
    by (rule object_response_whole [OF hdrs(3) etag ob(3) ctok meta_named_put [OF hdrs(1,2) ob(1)], where body = "body_from_bytes d"])
  have g1w: "g1 = g\<lparr>g_objects := bt_insert (bk_bucket_id (bi_bucket b), k) (w, d) (g_objects g)\<rparr>"
    unfolding g1 w_def ..
  have find: "g_find_object g1 (bi_bucket b) (object_key_new k) = Inr (w, d)"
    using bucket_id_listed [OF wf b] gw_wf_maps [OF wf]
    by (simp add: g_find_object_def g1w g_bucket_ids_def object_key_new_def bt_get_insert)
  have "load_bucket_for (spec_driver e) i' n g1 = (Inr b, g1)"
    using n b i' [OF b] by (simp add: spec_load_bucket_for g1)
  then have get: "s3_get_object cr (spec_driver e) i' n k hs' True g1 =
      (Inr \<lparr>rs_status = 200, rs_headers = h, rs_body = body_from_bytes d\<rparr>, g1)"
    using rng find h(1)
    by (simp add: s3_get_object_def try_a_apply op_a_apply match_a_apply spec_get_object_def Let_def)
  have len: "length d < 2 ^ 64" using fits d by (simp add: body_fits_def)
  then have "unat (oi_size w) = length d" by (simp add: ob(4) unat_of_nat take_bit_nat_eq_self)
  with d get h(2-5) resp ct show ?thesis
    by (intro exI [of _ d] exI conjI)
      (auto simp: status_response_def hdr_get_def ob(2) map_of_user_metadata ob(1) put_attrs_meta)
qed

end
