(* ===== verification/S3_Quota.thy ===== *)
theory S3_Quota
  imports S3_Refine S3_Spec
begin

section \<open>Bucket quotas, listings, and the shape of the bucket table\<close>

text \<open>
  A bucket is created only below the caller's quota, so the quota bounds what a user owns; every
  handler keeps all buckets in the default tenant; a listing is the document of one page.
\<close>

subsection \<open>The number of buckets a user owns\<close>

lemma length_filter_insert: "length (filter (P \<circ> snd) (bt_insert k v m)) \<le> Suc (length (filter (P \<circ> snd) m))"
  by (induction k v m rule: bt_insert.induct) auto

lemma g_owned_add: "length (g_owned (g_add_bucket b g) u m) \<le> Suc (length (g_owned g u m))"
  by (simp add: g_owned_def g_buckets_of_def g_add_bucket_def filter_map length_filter_insert)

lemma set_bt_insert: "set (bt_insert k v m) \<subseteq> insert (k, v) (set m)"
  by (induction k v m rule: bt_insert.induct) auto

lemma default_tenant_insert:
  assumes "default_tenant g" and "bk_tenant (bi_bucket b) = []" and "bk_name (bi_bucket b) \<noteq> []"
  shows "default_tenant (g_add_bucket b g)"
  using assms set_bt_insert [of "(bk_name (bi_bucket b), bk_tenant (bi_bucket b))" "canon_bucket b" "g_buckets g"]
  unfolding default_tenant_def g_add_bucket_def by fastforce

context driver_client
begin

lemma check_quota_ok:
  assumes "sinv s" and "default_tenant (view s)" and q: "check_quota drv u s = Some (Inr (), s1)"
  shows "sinv s1 \<and> view s1 = view s \<and> 0 \<le> sint (ui_max_buckets u) \<and>
    (0 < sint (ui_max_buckets u) \<longrightarrow> int (length (g_owned (view s) (ui_user_id u) [])) < sint (ui_max_buckets u))"
proof (cases "0 < sint (ui_max_buckets u)")
  case True
  let ?mx = "nat (sint (ui_max_buckets u))"
  obtain r s0 where run: "list_owned_buckets drv (ui_user_id u) (Some ?mx) s = Some (r, s0)" "sinv s0" "view s0 = view s"
      and r: "(\<exists>e. r = Inl e \<and> is_internal e) \<and> \<not> calm s \<or> (\<exists>bs. r = Inr bs \<and> collected (view s) (ui_user_id u) (Some ?mx) [] [] bs)"
    using owned_buckets [OF assms(1), of "ui_user_id u" "Some ?mx"] by auto
  from q True run(1) obtain bs where bs: "r = Inr bs" "length bs < ?mx" "s1 = s0"
    by (cases r) (auto simp: check_quota_def Let_def try_o_apply op_o_apply)
  with r assms(2) have "bs = g_owned (view s) (ui_user_id u) []" by (auto simp: collected_def)
  with bs run True show ?thesis by auto
next
  case False
  with q assms(1) show ?thesis by (auto simp: check_quota_def Let_def split: if_splits)
qed

lemma create_bucket_within_quota:
  assumes "sinv s" and "default_tenant (view s)" and u: "identity_user i = Some u" "uid_stable (ui_user_id u)"
    and run: "s3_create_bucket cr drv i name uuid now s = Some (Inr resp, s')"
  shows "sinv s' \<and> view s' = g_add_bucket (new_bucket u name uuid now) (view s) \<and>
    bt_get (g_buckets (view s)) (name, []) = None \<and> validate_bucket_name name = Inr () \<and>
    resp = status_response 200 [(''location'', CHR ''/'' # name)] \<and> 0 \<le> sint (ui_max_buckets u) \<and>
    (0 < sint (ui_max_buckets u) \<longrightarrow> int (length (g_owned (view s) (ui_user_id u) [])) < sint (ui_max_buckets u))"
proof -
  have ok: "validate_bucket_name name = Inr ()"
    using run u by (cases "validate_bucket_name name") (auto simp: s3_create_bucket_def require_user_def try_o_apply)
  obtain s1 where q: "check_quota drv u s = Some (Inr (), s1)" and n: "store_new_bucket cr drv u name uuid now s1 = (Inr resp, s')"
    using run u ok by (auto simp: s3_create_bucket_def require_user_def try_o_apply split: option.splits prod.splits sum.splits)
  note quota = check_quota_ok [OF assms(1,2) q]
  with store_new_bucket_run [OF _ u(2) ok n] ok show ?thesis by auto
qed

end

subsection \<open>Every handler keeps the buckets in the default tenant\<close>

lemma keeps_op_a [keeps_intros]: "keeps I m \<Longrightarrow> keeps I (op_a m)"
  unfolding op_a_def by (intro keeps_intros)

lemma keeps_op_r [keeps_intros]: "keeps I (op_r m)"
  unfolding op_r_def by (intro keeps_intros)

lemma keeps_if: "keeps I m \<Longrightarrow> keeps I n \<Longrightarrow> keeps I (if b then m else n)"
  by simp

lemma keeps_let: "keeps I (f x) \<Longrightarrow> keeps I (let y = x in f y)"
  by simp

lemma keeps_case_sum: "(\<And>y. keeps I (g y)) \<Longrightarrow> (\<And>y. keeps I (f y)) \<Longrightarrow> keeps I (case x of Inl y \<Rightarrow> g y | Inr y \<Rightarrow> f y)"
  by (cases x) simp_all

lemma keeps_reads: "reads m \<Longrightarrow> keeps I m"
  by (simp add: reads_def keeps_def)

lemmas keeps_branch = keeps_if keeps_let keeps_case_sum

definition same_buckets :: "gw \<Rightarrow> gw \<Rightarrow> bool" where
  "same_buckets g g' \<longleftrightarrow> g_buckets g' = g_buckets g"

lemma keeps_same_buckets [keeps_intros]:
  "keeps (same_buckets g) (spec_put_object e now b k ow at body)" "keeps (same_buckets g) (spec_delete_object b k)"
  by (auto simp: keeps_def same_buckets_def spec_put_object_def spec_delete_object_def Let_def split: sum.splits)

lemma keeps_load_for [keeps_intros]: "keeps I (load_bucket_for (spec_driver e) i n)"
  by (auto simp: keeps_def spec_load_bucket_for)

text \<open>No handler but those that create or delete a bucket changes the bucket table.\<close>

lemma keeps_ops [keeps_intros]:
  "keeps (same_buckets g) (s3_get_location cr (spec_driver e) i n)"
  "keeps (same_buckets g) (s3_get_versioning cr (spec_driver e) i n)"
  "keeps (same_buckets g) (s3_list_objects_v1 cr (spec_driver e) i n a)"
  "keeps (same_buckets g) (s3_list_objects_v2 cr (spec_driver e) i n a)"
  "keeps (same_buckets g) (s3_put_object cr (spec_driver e) now i n k hs body)"
  "keeps (same_buckets g) (s3_get_object cr (spec_driver e) i n k hs d)"
  "keeps (same_buckets g) (s3_delete_object (spec_driver e) i n k)"
  unfolding s3_get_location_def s3_get_versioning_def s3_list_objects_v1_def s3_list_objects_v2_def common_list_def
    s3_put_object_def s3_get_object_def s3_delete_object_def spec_driver_sel
  by (intro keeps_intros keeps_branch keeps_reads reads_specs)+

lemma keeps_same:
  assumes "\<And>g. keeps (same_buckets g) m"
  shows "keeps default_tenant m"
proof (rule keepsI)
  fix g assume "default_tenant g"
  moreover have "same_buckets g (snd (m g))" by (rule keepsD [OF assms]) (simp add: same_buckets_def)
  ultimately show "default_tenant (snd (m g))" by (simp add: default_tenant_def same_buckets_def)
qed

lemma keeps_finish [keeps_intros]: "keeps I m \<Longrightarrow> keeps I (finish_a c m)"
  unfolding finish_a_def by (intro keeps_intros)

lemma delete_keys_buckets:
  "g_buckets (snd (delete_keys (spec_driver e) b q ds xs es g)) = g_buckets g"
proof (induction ds arbitrary: xs es g)
  case (Cons d ds)
  have "g_buckets (snd (spec_delete_object b k g)) = g_buckets g" for k
    by (auto simp: spec_delete_object_def split: sum.splits)
  with Cons show ?case by (auto split: prod.splits sum.splits) (metis snd_conv)+
qed simp

lemma keeps_delete_multi: "keeps default_tenant (s3_delete_multi cr (spec_driver e) i n hs body)"
proof (rule keeps_same)
  fix g
  have keys: "keeps (same_buckets g) (\<lambda>s. case delete_keys (spec_driver e) b q ds [] [] s of
      ((xs, es), s1) \<Rightarrow> op_r (xml_response cr (delete_result_elem xs es)) s1)" for b q ds
  proof (rule keepsI)
    fix h assume "same_buckets g h"
    moreover obtain xs es h' where "delete_keys (spec_driver e) b q ds [] [] h = ((xs, es), h')" by (metis prod.exhaust)
    ultimately show "same_buckets g (snd (case delete_keys (spec_driver e) b q ds [] [] h of
        ((xs, es), s1) \<Rightarrow> op_r (xml_response cr (delete_result_elem xs es)) s1))"
      using delete_keys_buckets [of e b q ds "[]" "[]" h] by (simp add: same_buckets_def)
  qed
  show "keeps (same_buckets g) (s3_delete_multi cr (spec_driver e) i n hs body)"
    unfolding s3_delete_multi_def by (intro keeps_intros keys)
qed

lemma keeps_delete_bucket: "keeps default_tenant (s3_delete_bucket (spec_driver e) i n)"
proof -
  have "keeps default_tenant (spec_remove_bucket t m)" for t m
    by (auto simp: keeps_def default_tenant_def spec_remove_bucket_def bt_remove_def split: option.splits)
  then show ?thesis unfolding s3_delete_bucket_def spec_driver_sel by (intro keeps_intros)
qed

context driver_client
begin

lemma list_buckets_view: "sinv s \<Longrightarrow> s3_list_buckets cr drv i s = Some (r, s') \<Longrightarrow> view s' = view s"
proof -
  assume s: "sinv s" and run: "s3_list_buckets cr drv i s = Some (r, s')"
  show "view s' = view s"
  proof (cases "require_user i")
    case (Inr u)
    obtain r0 s0 where "op_o (list_owned_buckets drv (ui_user_id u) None) s = Some (r0, s0)" "view s0 = view s"
      by (rule owned_returns [OF s])
    with run Inr show ?thesis by (cases r0) (auto simp: s3_list_buckets_def try_o_apply)
  qed (use run in \<open>auto simp: s3_list_buckets_def try_o_apply\<close>)
qed

lemma create_keeps_tenant:
  assumes "sinv s" and "default_tenant (view s)"
    and "\<And>u. identity_user i = Some u \<Longrightarrow> uid_stable (ui_user_id u)"
    and "s3_create_bucket cr drv i name uuid now s = Some (r, s')"
  shows "default_tenant (view s')"
proof -
  have "default_tenant (g_add_bucket (new_bucket u name uuid now) (view s))" if "validate_bucket_name name = Inr ()" for u
    using that by (intro default_tenant_insert assms(2))
      (auto simp: new_bucket_def bucket_key_new_def validate_bucket_name_iff)
  with create_bucket_effect [OF assms(1,3,4)] assms(2) show ?thesis by auto
qed

lemma s3_serve_tenant:
  assumes s: "works s" and ok: "call_ok cr c h" and dt: "default_tenant (view s)"
    and run: "s3_serve cr drv fx c h s = Some (r, s')"
  shows "default_tenant (view s')"
proof -
  have sinv: "sinv s" using s by (simp add: works_def)
  from sim_oD [OF s3_serve_sim [OF ok] s run]
  have sp: "s3_serve cr (spec_driver etag) fx c h (view s) = Some (r, view s')" by simp
  have simple: ?thesis if "s3_serve cr (spec_driver etag) fx c h = run_o m" "keeps default_tenant m" for m
    using keepsD [OF that(2) dt] sp that(1) by auto
  note kp = keeps_same [OF keeps_ops(1)] keeps_same [OF keeps_ops(2)] keeps_same [OF keeps_ops(3)]
    keeps_same [OF keeps_ops(4)] keeps_same [OF keeps_ops(5)] keeps_same [OF keeps_ops(6)] keeps_same [OF keeps_ops(7)]
    keeps_delete_multi keeps_delete_bucket keeps_intros keeps_branch
  show ?thesis
  proof (cases h)
    case ServiceGet
    with run have "view s' = view s"
      by (auto simp: service_get_def finish_o_def match_o_apply split: option.splits dest!: list_buckets_view [OF sinv])
    with dt show ?thesis by simp
  next
    case (BucketPut n)
    have uid: "identity_user (sc_identity c) = Some u \<Longrightarrow> uid_stable (ui_user_id u)" for u
      using ok by (simp add: call_ok_def)
    from BucketPut run dt show ?thesis
      by (auto simp: bucket_put_def finish_o_def match_o_apply try_o_apply Let_def
          split: option.splits sum.splits if_splits intro: create_keeps_tenant [OF sinv dt uid])
  next
    case (BucketGet n)
    have "keeps default_tenant (bucket_get cr (spec_driver etag) c n)" unfolding bucket_get_def Let_def by (intro kp)
    then show ?thesis using BucketGet by (intro simple) auto
  next
    case (BucketHead n)
    with ok show ?thesis by (simp add: call_ok_def)
  next
    case (BucketDelete n)
    have "keeps default_tenant (bucket_delete cr (spec_driver etag) c n)" unfolding bucket_delete_def by (intro kp)
    then show ?thesis using BucketDelete by (intro simple) auto
  next
    case (BucketPost n)
    have "keeps default_tenant (bucket_post cr (spec_driver etag) c n)" unfolding bucket_post_def by (intro kp)
    then show ?thesis using BucketPost by (intro simple) auto
  next
    case (ObjectPut n k)
    have "keeps default_tenant (object_put cr (spec_driver etag) fx c n k)" unfolding object_put_def by (intro kp)
    then show ?thesis using ObjectPut by (intro simple) auto
  next
    case (ObjectGet n k)
    have "keeps default_tenant (object_get cr (spec_driver etag) c n k)" unfolding object_get_def get_or_head_def by (intro kp)
    then show ?thesis using ObjectGet by (intro simple) auto
  next
    case (ObjectHead n k)
    have "keeps default_tenant (object_head cr (spec_driver etag) c n k)" unfolding object_head_def get_or_head_def by (intro kp)
    then show ?thesis using ObjectHead by (intro simple) auto
  next
    case (ObjectDelete n k)
    have "keeps default_tenant (object_delete cr (spec_driver etag) c n k)" unfolding object_delete_def by (intro kp)
    then show ?thesis using ObjectDelete by (intro simple) auto
  next
    case (ObjectPost n k)
    have "keeps default_tenant (object_post c)" unfolding object_post_def by (intro kp)
    then show ?thesis using ObjectPost by (intro simple) auto
  qed
qed

end

subsection \<open>Listing\<close>

lemma spec_list_v2:
  assumes wf: "gw_wf g" and n: "CHR ''/'' \<notin> set n" and b: "bt_get (g_buckets g) (n, []) = Some b" and i: "may_access i b"
    and c: "common_parse a = Inr co" "co_max_keys co \<noteq> 0"
  shows "s3_list_objects_v2 cr (spec_driver e) i n a g =
    (map_err op_error_from (xml_response cr (list_result_v2_elem (v2_doc cr co a b
       (page_of (co_max_keys co) (entries_after (co_params co (v2_marker a)) (g_objects_of g (b_id b))))))), g)"
  using bucket_id_listed [OF wf b] n b i c
  by (simp add: s3_list_objects_v2_def try_a_apply op_a_apply spec_load_bucket_for common_list_def spec_list_objects_def
      co_params_def page_size_def)

end
