(* ===== verification/Admin_Ops.thy ===== *)
theory Admin_Ops
  imports Sal May_Diverge
begin

section \<open>\<open>rgw-admin-ops\<close>: the admin operations\<close>

text \<open>
  \<open>keygen.rs\<close>, \<open>bucket.rs\<close> and \<open>user.rs\<close>: what both the admin REST API and the command line tool
  run. The clock readings and the numbers drawn from the random generator are the record
  \<open>admin_fx\<close>; a loop that pages through a driver may not end, so it is an \<open>oact\<close>.
\<close>

subsection \<open>\<open>keygen.rs\<close>\<close>

definition ACCESS_KEY_LEN :: nat where
  "ACCESS_KEY_LEN = 20"

definition SECRET_KEY_LEN :: nat where
  "SECRET_KEY_LEN = 40"

definition ACCESS_ALPHABET :: string where
  "ACCESS_ALPHABET = ''ABCDEFGHIJKLMNOPQRSTUVWXYZ0123456789''"

definition SECRET_ALPHABET :: string where
  "SECRET_ALPHABET = ''ABCDEFGHIJKLMNOPQRSTUVWXYZabcdefghijklmnopqrstuvwxyz0123456789+/''"

text \<open>\<open>draw i\<close> is the \<open>i\<close>-th value \<open>random_range(0..alphabet.len())\<close> gives.\<close>

definition random_string :: "string \<Rightarrow> nat \<Rightarrow> (nat \<Rightarrow> nat) \<Rightarrow> string" where
  "random_string alphabet len draw = map (\<lambda>i. alphabet ! draw i) [0..<len]"

definition generate_access_key :: "(nat \<Rightarrow> nat) \<Rightarrow> string" where
  "generate_access_key draw = random_string ACCESS_ALPHABET ACCESS_KEY_LEN draw"

definition generate_secret_key :: "(nat \<Rightarrow> nat) \<Rightarrow> string" where
  "generate_secret_key draw = random_string SECRET_ALPHABET SECRET_KEY_LEN draw"

text \<open>The \<open>n\<close>-th access key candidate is drawn from \<open>af_access n\<close>.\<close>

record admin_fx =
  af_now :: time
  af_key_now :: time
  af_access :: "nat \<Rightarrow> nat \<Rightarrow> nat"
  af_secret :: "nat \<Rightarrow> nat"

subsection \<open>\<open>bucket.rs\<close>\<close>

definition parse_bucket :: "string \<Rightarrow> string \<times> string" where
  "parse_bucket s = (case split_once (CHR ''/'') s of Some (tenant, name) \<Rightarrow> (tenant, name) | None \<Rightarrow> ([], s))"

definition require_name :: "string \<Rightarrow> unit rgw_result" where
  "require_name name = (if name = [] then Inl (InvalidArgument ''bucket is required'') else Inr ())"

partial_function (option) list_all_loop ::
    "'s driver \<Rightarrow> user_id option \<Rightarrow> bucket_info list \<Rightarrow> string \<Rightarrow> ('s, rgw_error, bucket_info list) oact" where
  [code]: "list_all_loop drv ow out marker s =
     (case list_buckets drv ow marker 0 s of
        (Inl e, s1) \<Rightarrow> Some (Inl e, s1)
      | (Inr page, s1) \<Rightarrow>
          (let out' = out @ bl_buckets page in
           if \<not> bl_is_truncated page then Some (Inr out', s1)
           else if bl_next_marker page = [] \<or> bl_next_marker page = marker then
             Some (Inl (InternalError ''bucket listing did not advance''), s1)
           else list_all_loop drv ow out' (bl_next_marker page) s1))"

definition list_all_buckets :: "'s driver \<Rightarrow> user_id option \<Rightarrow> ('s, rgw_error, bucket_info list) oact" where
  "list_all_buckets drv ow = list_all_loop drv ow [] []"

definition purge_one :: "'s driver \<Rightarrow> bucket_key \<Rightarrow> object_info \<Rightarrow> ('s, unit) rgw_act" where
  "purge_one drv bucket ob =
     match_a (delete_object drv bucket (oi_key ob)) (\<lambda>r. case r of
       Inr _ \<Rightarrow> ret_a ()
     | Inl e \<Rightarrow> if e = NoSuchKey then ret_a () else err_a e)"

partial_function (option) purge_loop :: "'s driver \<Rightarrow> bucket_key \<Rightarrow> list_params \<Rightarrow> ('s, rgw_error, unit) oact" where
  [code]: "purge_loop drv bucket params s =
     (case list_objects drv bucket params s of
        (Inl e, s1) \<Rightarrow> Some (Inl e, s1)
      | (Inr page, s1) \<Rightarrow>
          (case try_for (purge_one drv bucket) (lr_objects page) s1 of
             (Inl e, s2) \<Rightarrow> Some (Inl e, s2)
           | (Inr _, s2) \<Rightarrow>
               if \<not> lr_is_truncated page then Some (Inr (), s2)
               else if lr_next_marker page = [] \<or> lr_next_marker page = lp_marker params then
                 Some (Inl (InternalError ''object listing did not advance''), s2)
               else purge_loop drv bucket (params\<lparr>lp_marker := lr_next_marker page\<rparr>) s2))"

definition purge_objects :: "'s driver \<Rightarrow> bucket_key \<Rightarrow> ('s, rgw_error, unit) oact" where
  "purge_objects drv bucket = purge_loop drv bucket list_params_default"

definition admin_bucket_info :: "'s driver \<Rightarrow> string \<Rightarrow> string \<Rightarrow> ('s, bucket_info \<times> bucket_stats) rgw_act" where
  "admin_bucket_info drv tenant name =
     try_a (lift_a (require_name name)) (\<lambda>_.
     try_a (load_bucket drv tenant name) (\<lambda>info.
     try_a (read_stats drv (bi_bucket info)) (\<lambda>stats.
     ret_a (info, stats))))"

definition admin_bucket_list :: "'s driver \<Rightarrow> user_id option \<Rightarrow> ('s, rgw_error, bucket_info list) oact" where
  "admin_bucket_list drv ow = list_all_buckets drv ow"

definition bucket_remove :: "'s driver \<Rightarrow> string \<Rightarrow> string \<Rightarrow> bool \<Rightarrow> ('s, rgw_error, unit) oact" where
  "bucket_remove drv tenant name purge =
     try_o (run_o (lift_a (require_name name))) (\<lambda>_.
     try_o (if purge then
              try_o (run_o (load_bucket drv tenant name)) (\<lambda>info. purge_objects drv (bi_bucket info))
            else run_o (ret_a ())) (\<lambda>_.
     run_o (remove_bucket drv tenant name)))"

subsection \<open>\<open>user.rs\<close>: parameters and checks\<close>

definition KEYGEN_ATTEMPTS :: nat where
  "KEYGEN_ATTEMPTS = 10"

record user_create_params =
  uc_uid :: user_id
  uc_display_name :: string
  uc_email :: "string option"
  uc_access_key :: "string option"
  uc_secret_key :: "string option"
  uc_generate_key :: "bool option"
  uc_caps :: "string option"
  uc_max_buckets :: "i32 option"
  uc_suspended :: "bool option"
  uc_system :: "bool option"
  uc_admin :: "bool option"

record user_modify_params =
  um_uid :: user_id
  um_display_name :: "string option"
  um_email :: "string option"
  um_max_buckets :: "i32 option"
  um_suspended :: "bool option"
  um_system :: "bool option"
  um_admin :: "bool option"
  um_access_key :: "string option"
  um_secret_key :: "string option"
  um_generate_key :: bool

record user_list =
  ul_ids :: "user_id list"
  ul_truncated :: bool
  ul_next_marker :: string

definition nonempty :: "string option \<Rightarrow> string option" where
  "nonempty s = (case s of Some t \<Rightarrow> if t = [] then None else Some t | None \<Rightarrow> None)"

definition unwrap_or :: "'a option \<Rightarrow> 'a \<Rightarrow> 'a" where
  "unwrap_or x d = (case x of Some v \<Rightarrow> v | None \<Rightarrow> d)"

definition require_uid :: "user_id \<Rightarrow> unit rgw_result" where
  "require_uid uid = (if user_id_is_empty uid then Inl (InvalidArgument ''uid is required'') else Inr ())"

definition ensure_email_free :: "'s driver \<Rightarrow> user_id \<Rightarrow> string \<Rightarrow> ('s, unit) rgw_act" where
  "ensure_email_free drv uid email =
     match_a (load_user_by_email drv email) (\<lambda>r. case r of
       Inr other \<Rightarrow> if ui_user_id other \<noteq> uid then err_a UserAlreadyExists else ret_a ()
     | Inl e \<Rightarrow> if e = NoSuchUser then ret_a () else err_a e)"

definition ensure_key_free :: "'s driver \<Rightarrow> user_id \<Rightarrow> string \<Rightarrow> ('s, unit) rgw_act" where
  "ensure_key_free drv uid key =
     match_a (load_user_by_access_key drv key) (\<lambda>r. case r of
       Inr other \<Rightarrow> if ui_user_id other \<noteq> uid then err_a KeyExists else ret_a ()
     | Inl e \<Rightarrow> if e = NoSuchUser then ret_a () else err_a e)"

fun unused_key_loop :: "'s driver \<Rightarrow> string list \<Rightarrow> ('s, string) rgw_act" where
  "unused_key_loop drv [] = err_a (InternalError ''could not generate a unique access key'')"
| "unused_key_loop drv (candidate # rest) =
     match_a (load_user_by_access_key drv candidate) (\<lambda>r. case r of
       Inl e \<Rightarrow> if e = NoSuchUser then ret_a candidate else err_a e
     | Inr _ \<Rightarrow> unused_key_loop drv rest)"

definition unused_access_key :: "'s driver \<Rightarrow> admin_fx \<Rightarrow> ('s, string) rgw_act" where
  "unused_access_key drv fx = unused_key_loop drv (map (\<lambda>n. generate_access_key (af_access fx n)) [0..<KEYGEN_ATTEMPTS])"

definition put_key ::
    "'s driver \<Rightarrow> admin_fx \<Rightarrow> user_info \<Rightarrow> string option \<Rightarrow> string option \<Rightarrow> bool \<Rightarrow> ('s, user_info) rgw_act" where
  "put_key drv fx info access secret generate =
     try_a (case access of
         Some ak \<Rightarrow> try_a (ensure_key_free drv (ui_user_id info) ak) (\<lambda>_. ret_a ak)
       | None \<Rightarrow> if generate then unused_access_key drv fx
                 else err_a (InvalidArgument ''access-key is required'')) (\<lambda>ak.
     try_a (lift_a (case secret of
         Some key \<Rightarrow> Inr key
       | None \<Rightarrow> if generate then Inr (generate_secret_key (af_secret fx))
                 else Inl (InvalidArgument ''secret-key is required''))) (\<lambda>key.
     ret_a (add_access_key \<lparr>ak_id = ak, ak_key = key, ak_subuser = [], ak_active = True,
                            ak_create_date = af_key_now fx\<rparr> info)))"

definition key_request ::
    "string option \<Rightarrow> string option \<Rightarrow> bool \<Rightarrow> (string option \<times> string option \<times> bool) option rgw_result" where
  "key_request access secret generate =
     (if access = None \<and> secret = None \<and> \<not> generate then Inr None
      else if (access = None \<or> secret = None) \<and> \<not> generate then
        Inl (InvalidArgument ''access-key and secret-key must be given together'')
      else Inr (Some (access, secret, generate)))"

definition put_key_request ::
    "'s driver \<Rightarrow> admin_fx \<Rightarrow> user_info \<Rightarrow> (string option \<times> string option \<times> bool) option \<Rightarrow> ('s, user_info) rgw_act" where
  "put_key_request drv fx info key = (case key of
       Some (a, s, g) \<Rightarrow> put_key drv fx info a s g
     | None \<Rightarrow> ret_a info)"

subsection \<open>\<open>user.rs\<close>: users\<close>

definition user_create :: "'s driver \<Rightarrow> admin_fx \<Rightarrow> user_create_params \<Rightarrow> ('s, user_info) rgw_act" where
  "user_create drv fx params =
     try_a (lift_a (require_uid (uc_uid params))) (\<lambda>_.
     if uc_display_name params = [] then err_a (InvalidArgument ''display-name is required'')
     else
       (let access = nonempty (uc_access_key params);
            secret = nonempty (uc_secret_key params);
            generate = unwrap_or (uc_generate_key params) (access = None \<and> secret = None)
        in
        try_a (lift_a (key_request access secret generate)) (\<lambda>key.
        let info0 = user_info_new (uc_uid params) (uc_display_name params) (af_now fx) in
        try_a (lift_a (case nonempty (uc_caps params) of
            Some caps \<Rightarrow> try_r (caps_add_from_string (ui_caps info0) caps) (\<lambda>cs. Inr (info0\<lparr>ui_caps := cs\<rparr>))
          | None \<Rightarrow> Inr info0)) (\<lambda>info1.
        try_a (case nonempty (uc_email params) of
            Some email \<Rightarrow> try_a (ensure_email_free drv (ui_user_id info1) email) (\<lambda>_.
                            ret_a (info1\<lparr>ui_user_email := email\<rparr>))
          | None \<Rightarrow> ret_a info1) (\<lambda>info2.
        let info3 = info2\<lparr>ui_max_buckets := unwrap_or (uc_max_buckets params) (ui_max_buckets info2),
                          ui_suspended := unwrap_or (uc_suspended params) False,
                          ui_system := unwrap_or (uc_system params) False,
                          ui_admin := unwrap_or (uc_admin params) False\<rparr> in
        try_a (put_key_request drv fx info3 key) (\<lambda>info.
        try_a (store_user drv info True) (\<lambda>_.
        ret_a info)))))))"

definition user_show :: "'s driver \<Rightarrow> user_id \<Rightarrow> ('s, user_info) rgw_act" where
  "user_show drv uid = try_a (lift_a (require_uid uid)) (\<lambda>_. load_user drv uid)"

definition modify_name :: "string option \<Rightarrow> user_info \<Rightarrow> user_info rgw_result" where
  "modify_name name info = (case name of
       None \<Rightarrow> Inr info
     | Some n \<Rightarrow> if n = [] then Inl (InvalidArgument ''display-name must not be empty'')
                 else Inr (info\<lparr>ui_display_name := n\<rparr>))"

definition modify_email :: "'s driver \<Rightarrow> string option \<Rightarrow> user_info \<Rightarrow> ('s, user_info) rgw_act" where
  "modify_email drv email info = (case email of
       None \<Rightarrow> ret_a info
     | Some e \<Rightarrow>
         try_a (if e \<noteq> [] then ensure_email_free drv (ui_user_id info) e else ret_a ()) (\<lambda>_.
         ret_a (info\<lparr>ui_user_email := e\<rparr>)))"

definition user_modify :: "'s driver \<Rightarrow> admin_fx \<Rightarrow> user_modify_params \<Rightarrow> ('s, user_info) rgw_act" where
  "user_modify drv fx params =
     try_a (lift_a (require_uid (um_uid params))) (\<lambda>_.
     try_a (lift_a (key_request (nonempty (um_access_key params)) (nonempty (um_secret_key params)) (um_generate_key params))) (\<lambda>key.
     try_a (load_user drv (um_uid params)) (\<lambda>info0.
     try_a (lift_a (modify_name (um_display_name params) info0)) (\<lambda>info1.
     try_a (modify_email drv (um_email params) info1) (\<lambda>info2.
     let info3 = info2\<lparr>ui_max_buckets := unwrap_or (um_max_buckets params) (ui_max_buckets info2),
                       ui_suspended := unwrap_or (um_suspended params) (ui_suspended info2),
                       ui_system := unwrap_or (um_system params) (ui_system info2),
                       ui_admin := unwrap_or (um_admin params) (ui_admin info2)\<rparr> in
     try_a (put_key_request drv fx info3 key) (\<lambda>info.
     try_a (store_user drv info False) (\<lambda>_.
     ret_a info)))))))"

definition remove_owned :: "'s driver \<Rightarrow> bucket_info \<Rightarrow> ('s, rgw_error, unit) oact" where
  "remove_owned drv bucket =
     try_o (purge_objects drv (bi_bucket bucket)) (\<lambda>_.
     run_o (remove_bucket drv (bk_tenant (bi_bucket bucket)) (bk_name (bi_bucket bucket))))"

definition user_remove :: "'s driver \<Rightarrow> user_id \<Rightarrow> bool \<Rightarrow> ('s, rgw_error, unit) oact" where
  "user_remove drv uid purge_data =
     try_o (run_o (lift_a (require_uid uid))) (\<lambda>_.
     try_o (run_o (load_user drv uid)) (\<lambda>_.
     try_o (if \<not> purge_data then
              run_o (try_a (list_buckets drv (Some uid) [] 1) (\<lambda>first.
                if bl_buckets first \<noteq> [] then err_a (InvalidRequest ''user has buckets; use purge-data'')
                else ret_a ()))
            else
              try_o (list_all_buckets drv (Some uid)) (\<lambda>buckets. try_for_o (remove_owned drv) buckets)) (\<lambda>_.
     run_o (remove_user drv uid))))"

definition user_list_page :: "'s driver \<Rightarrow> string \<Rightarrow> nat \<Rightarrow> ('s, user_list) rgw_act" where
  "user_list_page drv marker mx0 =
     (let mx = (if mx0 = 0 then DEFAULT_MAX_ENTRIES else min mx0 DEFAULT_MAX_ENTRIES) in
      try_a (list_users drv marker (mx + 1)) (\<lambda>ids0.
      let truncated = mx < length ids0; ids = take mx ids0 in
      ret_a \<lparr>ul_ids = ids, ul_truncated = truncated,
             ul_next_marker = (if ids \<noteq> [] \<and> truncated then user_id_display (last ids) else [])\<rparr>))"

subsection \<open>\<open>user.rs\<close>: keys and capabilities\<close>

definition key_create ::
    "'s driver \<Rightarrow> admin_fx \<Rightarrow> user_id \<Rightarrow> string option \<Rightarrow> string option \<Rightarrow> bool \<Rightarrow> ('s, user_info) rgw_act" where
  "key_create drv fx uid access secret generate =
     try_a (lift_a (require_uid uid)) (\<lambda>_.
     try_a (load_user drv uid) (\<lambda>info0.
     try_a (put_key drv fx info0 (nonempty access) (nonempty secret) generate) (\<lambda>info.
     try_a (store_user drv info False) (\<lambda>_.
     ret_a info))))"

definition key_remove :: "'s driver \<Rightarrow> user_id \<Rightarrow> string \<Rightarrow> ('s, user_info) rgw_act" where
  "key_remove drv uid access =
     try_a (lift_a (require_uid uid)) (\<lambda>_.
     if access = [] then err_a (InvalidArgument ''access-key is required'')
     else
       try_a (load_user drv uid) (\<lambda>info0.
       if bt_get (ui_access_keys info0) access = None then err_a InvalidAccessKeyId
       else
         (let info = info0\<lparr>ui_access_keys := bt_remove access (ui_access_keys info0)\<rparr> in
          try_a (store_user drv info False) (\<lambda>_.
          ret_a info))))"

definition parse_caps :: "string \<Rightarrow> user_caps rgw_result" where
  "parse_caps caps =
     (if trim caps = [] then Inl (InvalidArgument ''user-caps is required'')
      else caps_add_from_string caps_new caps)"

definition caps_add :: "'s driver \<Rightarrow> user_id \<Rightarrow> string \<Rightarrow> ('s, user_info) rgw_act" where
  "caps_add drv uid caps =
     try_a (lift_a (require_uid uid)) (\<lambda>_.
     try_a (lift_a (parse_caps caps)) (\<lambda>parsed.
     try_a (load_user drv uid) (\<lambda>info0.
     try_a (lift_a (try_fold (\<lambda>(cap, perm) cs. user_caps_add cs cap perm) parsed (ui_caps info0))) (\<lambda>cs.
     let info = info0\<lparr>ui_caps := cs\<rparr> in
     try_a (store_user drv info False) (\<lambda>_.
     ret_a info)))))"

definition caps_remove :: "'s driver \<Rightarrow> user_id \<Rightarrow> string \<Rightarrow> ('s, user_info) rgw_act" where
  "caps_remove drv uid caps =
     try_a (lift_a (require_uid uid)) (\<lambda>_.
     try_a (lift_a (parse_caps caps)) (\<lambda>parsed.
     try_a (load_user drv uid) (\<lambda>info0.
     let info = info0\<lparr>ui_caps := fold (\<lambda>(cap, perm) cs. user_caps_remove cs cap perm) parsed (ui_caps info0)\<rparr> in
     try_a (store_user drv info False) (\<lambda>_.
     ret_a info))))"

subsection \<open>Generated keys\<close>

lemma random_string_length [simp]: "length (random_string a n draw) = n"
  by (simp add: random_string_def)

lemma random_string_chars:
  "(\<And>i. i < n \<Longrightarrow> draw i < length a) \<Longrightarrow> set (random_string a n draw) \<subseteq> set a"
  by (auto simp: random_string_def)

end
