(* ===== verification/Admin_Loops.thy ===== *)
theory Admin_Loops
  imports Admin_Ops Bucket_Lists Listing
begin

section \<open>The loops of the admin operations\<close>

text \<open>
  Listing all buckets and purging a bucket both page through a driver. For a driver that meets the
  contract both end, whatever fails; a purge only ever removes objects of its bucket, and leaves
  none of those it was asked to delete when it succeeds.
\<close>

subsection \<open>Objects after a marker\<close>

lemma g_objects_sorted:
  assumes "gw_wf g"
  shows "obs_sorted (g_objects_of g i)"
proof -
  have keys: "sorted_wrt (\<lambda>x y. fst x < fst y) (g_objects g)"
    using gw_wf_maps [OF assms] by (simp add: bt_wf_def sorted_wrt_map)
  have nm: "ob_name (fst (snd e)) = snd (fst e)" if "e \<in> set (g_objects g)" for e
  proof -
    obtain j n ob d where e: "e = ((j, n), (ob, d))" by (metis prod.collapse)
    with that gw_wf_maps [OF assms] have "bt_get (g_objects g) (j, n) = Some (ob, d)" using bt_in_get by metis
    from gw_wf_object [OF assms this] e show ?thesis by (simp add: object_key_new_def)
  qed
  have "sorted_wrt (\<lambda>x y. ob_name (fst (snd x)) < ob_name (fst (snd y))) (filter (\<lambda>e. fst (fst e) = i) (g_objects g))"
    by (rule sorted_wrt_mono_rel [OF _ sorted_wrt_filter [OF keys]]) (auto simp: nm less_prod_def)
  then show ?thesis by (simp add: obs_sorted_def g_objects_of_def sorted_wrt_map)
qed

definition objs_after :: "gw \<Rightarrow> string \<Rightarrow> string \<Rightarrow> object_info list" where
  "objs_after g i m = filter (\<lambda>ob. m < ob_name ob) (g_objects_of g i)"

abbreviation purge_params :: "string \<Rightarrow> list_params" where
  "purge_params m \<equiv> list_params_default\<lparr>lp_marker := m\<rparr>"

lemma all_objects: "entry_of pre [] = EObject"
  by (rule ext) (simp add: entry_of_def common_prefix_def)

lemma entries_all: "entries_after (purge_params m) (g_objects_of g i) = map EObject (objs_after g i m)"
  if "gw_wf g"
proof -
  have "sorted_wrt (<) (map ob_name (g_objects_of g i))"
    using g_objects_sorted [OF that] by (simp add: obs_sorted_def sorted_wrt_map)
  then have "distinct (map EObject (g_objects_of g i))"
    by (auto simp: strict_sorted_iff distinct_map inj_on_def)
  then have "remdups_adj (map EObject (g_objects_of g i)) = map EObject (g_objects_of g i)"
    by (rule remdups_adj_distinct)
  then show ?thesis
    by (simp add: entries_after_def list_entries_def list_params_default_def all_objects objs_after_def filter_map comp_def)
qed


lemma objs_after_later: "m \<le> m' \<Longrightarrow> objs_after g i m' = filter (\<lambda>ob. m' < ob_name ob) (objs_after g i m)"
  unfolding objs_after_def filter_filter by (rule filter_cong [OF refl]) auto

text \<open>After a full page of objects fewer are left.\<close>

lemma objs_after_less:
  assumes "n < length (objs_after g i m)" and "n \<noteq> 0" and m': "m' = ob_name (last (take n (objs_after g i m)))"
  shows "m < m'" and "length (objs_after g i m') < length (objs_after g i m)"
proof -
  let ?obs = "objs_after g i m"
  have "take n ?obs \<noteq> []" using assms(1,2) by auto
  then have last: "last (take n ?obs) \<in> set ?obs" by (meson in_set_takeD last_in_set)
  then show lt: "m < m'" using m' by (auto simp: objs_after_def)
  have "filter (\<lambda>ob. m' < ob_name ob) ?obs \<noteq> ?obs"
    using last m' by (auto simp: filter_id_conv)
  then show "length (objs_after g i m') < length ?obs"
    unfolding objs_after_later [OF less_imp_le [OF lt]]
    by (metis (no_types, lifting) filter_True length_filter_less linorder_not_less filter_id_conv)
qed

subsection \<open>Stores without some objects\<close>

definition g_without :: "string \<Rightarrow> string set \<Rightarrow> gw \<Rightarrow> gw" where
  "g_without i K g = g\<lparr>g_objects := filter (\<lambda>e. \<not> (fst (fst e) = i \<and> snd (fst e) \<in> K)) (g_objects g)\<rparr>"

lemma g_without_sel [simp]:
  "g_buckets (g_without i K g) = g_buckets g" "g_bucket_ids (g_without i K g) = g_bucket_ids g"
  "g_users (g_without i K g) = g_users g" "g_keys (g_without i K g) = g_keys g"
  by (simp_all add: g_without_def g_bucket_ids_def)

lemma g_without_empty [simp]: "g_without i {} g = g"
  by (simp add: g_without_def)

lemma g_without_twice [simp]: "g_without i K (g_without i L g) = g_without i (L \<union> K) g"
  by (cases g) (auto simp: g_without_def intro!: filter_cong)

lemma g_without_remove: "g\<lparr>g_objects := bt_remove (i, n) (g_objects g)\<rparr> = g_without i {n} g"
  by (cases g) (auto simp: g_without_def bt_remove_def prod_eq_iff intro!: filter_cong)

lemma g_without_absent:
  assumes "bt_get (g_objects g) (i, n) = None"
  shows "g_without i {n} g = g"
proof -
  have "filter (\<lambda>e. \<not> (fst (fst e) = i \<and> snd (fst e) \<in> {n})) (g_objects g) = g_objects g"
    using assms by (force simp: filter_id_conv bt_get_None_iff)
  then show ?thesis by (simp add: g_without_def)
qed

lemma objs_after_without: "set (objs_after (g_without i K g) i m) \<subseteq> set (objs_after g i m)"
  by (auto simp: objs_after_def g_objects_of_def g_without_def)

lemma length_filter_filter: "length (filter P (filter Q xs)) \<le> length (filter P xs)"
  by (induction xs) auto

lemma objs_after_without_length: "length (objs_after (g_without i K g) j m) \<le> length (objs_after g j m)"
proof -
  have "objs_after h j m = map (fst \<circ> snd) (filter (\<lambda>e. fst (fst e) = j \<and> m < ob_name (fst (snd e))) (g_objects h))" for h
    by (simp add: objs_after_def g_objects_of_def filter_map comp_def conj_commute)
  then show ?thesis using length_filter_filter by (simp add: g_without_def del: filter_filter)
qed

lemma object_entry_name:
  assumes "gw_wf g" and "((i, n), (ob, d)) \<in> set (g_objects g)"
  shows "ob_name ob = n"
proof -
  have "bt_get (g_objects g) (i, n) = Some (ob, d)" using assms gw_wf_maps [OF assms(1)] bt_in_get by metis
  from gw_wf_object [OF assms(1) this] show ?thesis by (simp add: object_key_new_def)
qed

lemma objs_after_rest:
  assumes "gw_wf g" and "n < length (objs_after g i m)" and "n \<noteq> 0"
  shows "objs_after g i (ob_name (last (take n (objs_after g i m)))) = drop n (objs_after g i m)"
proof -
  let ?obs = "objs_after g i m" and ?p = "purge_params m"
  have ne: "?obs \<noteq> []" "take n ?obs \<noteq> []" using assms(2,3) by auto
  have nm: "lr_next_marker (page_of n (map EObject ?obs)) = ob_name (last (take n ?obs))"
    using ne by (simp add: page_of_def Let_def take_map last_map)
  have "entries_after ?p (g_objects_of g i) \<noteq> []" using ne(1) by (simp add: entries_all [OF assms(1)])
  from entries_resume [OF g_objects_sorted [OF assms(1)] _ this, of n] assms(3)
  have "map EObject (objs_after g i (ob_name (last (take n ?obs)))) = drop n (map EObject ?obs)"
    by (simp add: entries_all [OF assms(1)] nm)
  then show ?thesis by (simp add: drop_map inj_map_eq_map inj_def)
qed

lemma g_without_cong:
  assumes "\<And>n ob d. ((i, n), (ob, d)) \<in> set (g_objects g) \<Longrightarrow> n \<in> K \<longleftrightarrow> n \<in> L"
  shows "g_without i K g = g_without i L g"
proof -
  have "filter (\<lambda>e. \<not> (fst (fst e) = i \<and> snd (fst e) \<in> K)) (g_objects g) =
      filter (\<lambda>e. \<not> (fst (fst e) = i \<and> snd (fst e) \<in> L)) (g_objects g)"
    by (rule filter_cong [OF refl]) (use assms in force)
  then show ?thesis by (simp add: g_without_def)
qed

lemma in_objs_after:
  assumes "gw_wf g" and "((i, n), (ob, d)) \<in> set (g_objects g)"
  shows "n \<in> ob_name ` set (objs_after g i m) \<longleftrightarrow> m < n"
proof
  show "n \<in> ob_name ` set (objs_after g i m) \<Longrightarrow> m < n" by (auto simp: objs_after_def)
  assume "m < n"
  have "ob \<in> set (g_objects_of g i)" using assms(2) by (force simp: g_objects_of_def)
  with \<open>m < n\<close> object_entry_name [OF assms] show "n \<in> ob_name ` set (objs_after g i m)"
    by (auto simp: objs_after_def)
qed

text \<open>One page after the other removes every name after the first marker.\<close>

lemma g_without_page:
  assumes "gw_wf g" and "k \<noteq> 0" and "k < length (objs_after g i m)"
  shows "g_without i {n. ob_name (last (take k (objs_after g i m))) < n} (g_without i (ob_name ` set (take k (objs_after g i m))) g)
       = g_without i {n. m < n} g"
  unfolding g_without_twice
proof (rule g_without_cong)
  let ?obs = "objs_after g i m"
  fix n ob d assume e: "((i, n), (ob, d)) \<in> set (g_objects g)"
  note in_objs_after [OF assms(1) e, of "ob_name (last (take k ?obs))"]
  then have "ob_name (last (take k ?obs)) < n \<longleftrightarrow> n \<in> ob_name ` set (drop k ?obs)"
    by (simp add: objs_after_rest [OF assms(1,3,2)])
  moreover have "set ?obs = set (take k ?obs) \<union> set (drop k ?obs)" by (metis append_take_drop_id set_append)
  ultimately show "n \<in> ob_name ` set (take k ?obs) \<union> {n. ob_name (last (take k ?obs)) < n} \<longleftrightarrow> n \<in> {n. m < n}"
    using in_objs_after [OF assms(1) e, of m] by (simp add: image_Un)
qed

lemma g_without_last_page:
  "gw_wf g \<Longrightarrow> g_without i (ob_name ` set (objs_after g i m)) g = g_without i {n. m < n} g"
  by (rule g_without_cong) (simp add: in_objs_after)

subsection \<open>Listing every bucket\<close>

context driver_client
begin

lemma list_all_step:
  "list_all_loop drv ow out m s = (case list_buckets drv ow m 0 s of
      (Inl e, s1) \<Rightarrow> Some (Inl e, s1)
    | (Inr page, s1) \<Rightarrow>
        if \<not> bl_is_truncated page then Some (Inr (out @ bl_buckets page), s1)
        else if bl_next_marker page = [] \<or> bl_next_marker page = m then
          Some (Inl (InternalError ''bucket listing did not advance''), s1)
        else list_all_loop drv ow (out @ bl_buckets page) (bl_next_marker page) s1)"
  by (rule trans [OF list_all_loop.simps]) (auto simp: Let_def split: prod.splits sum.splits)

text \<open>
  The listing ends; without failures it returns every bucket after the marker, in order, when all
  buckets are in the default tenant.
\<close>

lemma list_all_ends:
  assumes "sinv s"
  shows "\<exists>r s'. list_all_loop drv ow out m s = Some (r, s') \<and> sinv s' \<and> view s' = view s \<and>
    ((\<exists>e. r = Inl e \<and> is_internal e) \<and> \<not> calm s \<or>
     (\<exists>bs. r = Inr (out @ bs) \<and> (default_tenant (view s) \<longrightarrow> bs = g_buckets_of (view s) ow m))) \<and> (calm s \<longrightarrow> calm s')"
  using assms
proof (induction "length (g_buckets_of (view s) ow m)" arbitrary: s out m rule: less_induct)
  case less
  let ?bs = "g_buckets_of (view s) ow m"
  obtain r s1 where run: "list_buckets drv ow m 0 s = (r, s1)" by fastforce
  note lb = list_buckets_run [OF less.prems run]
  have calm: "calm s \<Longrightarrow> calm s1" using lb(4) by simp
  show ?case
  proof (cases r)
    case (Inl e)
    with lb have "is_internal e" "\<not> calm s" by (auto simp: spec_buckets_page)
    with Inl run lb show ?thesis by (auto simp: list_all_step [of ow out m s])
  next
    case (Inr page)
    with lb(3) have page: "page = \<lparr>bl_buckets = take 1000 ?bs, bl_is_truncated = (1000 < length ?bs),
        bl_next_marker = (let p = take 1000 ?bs in if p = [] then [] else bk_name (bi_bucket (last p)))\<rparr>"
      by (auto simp: spec_buckets_page)
    show ?thesis
    proof (cases "1000 < length ?bs")
      case False
      with Inr run lb(1,2) calm page show ?thesis by (simp add: list_all_step [of ow out m s])
    next
      case True
      let ?m' = "bk_name (bi_bucket (last (take 1000 ?bs)))"
      have ne: "take 1000 ?bs \<noteq> []" using True by auto
      note rest = buckets_rest [OF sinv_wf [OF less.prems] True _ refl]
      have "?m' \<noteq> []" "?m' \<noteq> m" using rest(1) by auto
      with True ne Inr run page
      have step: "list_all_loop drv ow out m s = list_all_loop drv ow (out @ take 1000 ?bs) ?m' s1"
        by (auto simp: list_all_step [of ow out m s] Let_def)
      have "length (g_buckets_of (view s1) ow ?m') < length ?bs" using rest(2) lb(2) by simp
      from less.hyps [OF this lb(1), where out = "out @ take 1000 ?bs"] obtain r' s' where
        ih: "list_all_loop drv ow (out @ take 1000 ?bs) ?m' s1 = Some (r', s')" "sinv s'" "view s' = view s1"
          "(\<exists>e. r' = Inl e \<and> is_internal e) \<and> \<not> calm s1 \<or>
           (\<exists>bs. r' = Inr ((out @ take 1000 ?bs) @ bs) \<and> (default_tenant (view s1) \<longrightarrow> bs = g_buckets_of (view s1) ow ?m'))"
          "calm s1 \<longrightarrow> calm s'"
        by (elim exE conjE) (rule that, assumption+)
      have "default_tenant (view s) \<Longrightarrow> take 1000 ?bs @ g_buckets_of (view s1) ow ?m' = ?bs"
        using rest(3) lb(2) by simp
      with ih(4) lb(2) calm have "(\<exists>e. r' = Inl e \<and> is_internal e) \<and> \<not> calm s \<or>
          (\<exists>bs. r' = Inr (out @ bs) \<and> (default_tenant (view s) \<longrightarrow> bs = ?bs))" by auto
      with ih(1-3,5) step lb(2) calm show ?thesis by auto
    qed
  qed
qed

lemma sim_list_all [sim_intros]:
  "sim_o works view (list_all_loop drv ow out m) (list_all_loop (spec_driver etag) ow out m)"
proof (rule sim_oI)
  fix s r s' assume "works s" and "list_all_loop drv ow out m s = Some (r, s')"
  then show "works s' \<and> list_all_loop (spec_driver etag) ow out m (view s) = Some (r, view s')"
  proof (induction "length (g_buckets_of (view s) ow m)" arbitrary: s out m rule: less_induct)
    case less
    obtain r1 s1 where run: "list_buckets drv ow m 0 s = (r1, s1)" by fastforce
    have "sim works view (list_buckets drv ow m 0) (list_buckets (spec_driver etag) ow m 0)"
      by (rule sim_list_buckets) simp
    from simD [OF this less.prems(1) run]
    have s1: "works s1" and sp: "spec_list_buckets ow m 0 (view s) = (r1, view s1)" by auto
    have "sinv s" using less.prems(1) by (simp add: works_def)
    from list_buckets_run [OF this run] have v: "view s1 = view s" by simp
    show ?case
    proof (cases r1)
      case (Inl e)
      with run sp s1 less.prems(2) show ?thesis by (simp add: list_all_loop.simps [of _ ow out m])
    next
      case (Inr page)
      with sp have page: "page = \<lparr>bl_buckets = take 1000 (g_buckets_of (view s) ow m),
          bl_is_truncated = (1000 < length (g_buckets_of (view s) ow m)),
          bl_next_marker = (let p = take 1000 (g_buckets_of (view s) ow m) in if p = [] then [] else bk_name (bi_bucket (last p)))\<rparr>"
        by (metis fst_conv spec_buckets_page sum.inject(2))
      have ih: "works s' \<and> list_all_loop (spec_driver etag) ow (out @ bl_buckets page) (bl_next_marker page) (view s1) = Some (r, view s')"
        if "bl_is_truncated page" "list_all_loop drv ow (out @ bl_buckets page) (bl_next_marker page) s1 = Some (r, s')"
      proof -
        have len: "1000 < length (g_buckets_of (view s) ow m)" using that page by simp
        then have "bl_next_marker page = bk_name (bi_bucket (last (take 1000 (g_buckets_of (view s) ow m))))"
          using page by (auto simp: Let_def)
        from buckets_rest(2) [OF sinv_wf [OF \<open>sinv s\<close>] len _ this]
        have "length (g_buckets_of (view s1) ow (bl_next_marker page)) < length (g_buckets_of (view s) ow m)" using v by simp
        from less.hyps [OF this s1 that(2)] show ?thesis .
      qed
      show ?thesis
        using less.prems(2) run Inr sp ih s1
        by (auto simp: list_all_loop.simps [of _ ow out m] Let_def split: if_splits)
    qed
  qed
qed

subsection \<open>Purging a bucket\<close>

lemma delete_object_run:
  assumes "sinv s" and "delete_object drv b k s = (r, s')"
  shows "sinv s'" and "calm s \<Longrightarrow> calm s'"
    and "(\<exists>e. r = Inl e \<and> is_internal e) \<and> \<not> calm s \<and> view s' = view s \<or> (r, view s') = spec_delete_object b k (view s)"
  using refinesD [OF delete_object_ok assms] exactD [OF delete_object_exact assms(1) _ assms(2)] by blast+

lemma spec_delete_without:
  assumes "bk_bucket_id b \<in> set (g_bucket_ids g)"
  shows "\<exists>r. spec_delete_object b k g = (r, g_without (bk_bucket_id b) {ok_name k} g) \<and> (r = Inr () \<or> r = Inl NoSuchKey)"
  using assms g_without_absent [of g "bk_bucket_id b" "ok_name k"]
  by (cases "bt_get (g_objects g) (bk_bucket_id b, ok_name k)")
    (auto simp: spec_delete_object_def g_find_object_def g_without_remove)

lemma purge_one_run:
  assumes "sinv s" and "bk_bucket_id b \<in> set (g_bucket_ids (view s))" and run: "purge_one drv b ob s = (r, s')"
  shows "sinv s'" and "calm s \<Longrightarrow> calm s'"
    and "r = Inr () \<and> view s' = g_without (bk_bucket_id b) {ok_name (oi_key ob)} (view s) \<or>
      (\<exists>e. r = Inl e \<and> is_internal e) \<and> \<not> calm s \<and> view s' = view s"
proof -
  obtain r0 s0 where d: "delete_object drv b (oi_key ob) s = (r0, s0)" by fastforce
  have s0: "s' = s0" "r = (case r0 of Inr _ \<Rightarrow> Inr () | Inl e \<Rightarrow> if e = NoSuchKey then Inr () else Inl e)"
    using run d by (auto simp: purge_one_def match_a_apply split: sum.splits if_splits)
  note del = delete_object_run [OF assms(1) d]
  show "sinv s'" "calm s \<Longrightarrow> calm s'" using del(1,2) s0 by simp_all
  show "r = Inr () \<and> view s' = g_without (bk_bucket_id b) {ok_name (oi_key ob)} (view s) \<or>
      (\<exists>e. r = Inl e \<and> is_internal e) \<and> \<not> calm s \<and> view s' = view s"
    using del(3) spec_delete_without [OF assms(2), of "oi_key ob"] s0 by (auto simp: is_internal_def)
qed

lemma purge_page_run:
  assumes "sinv s" and "bk_bucket_id b \<in> set (g_bucket_ids (view s))" and "try_for (purge_one drv b) obs s = (r, s')"
  shows "sinv s' \<and> (calm s \<longrightarrow> calm s') \<and>
    (r = Inr () \<and> view s' = g_without (bk_bucket_id b) (ob_name ` set obs) (view s) \<or>
     (\<exists>e. r = Inl e \<and> is_internal e) \<and> \<not> calm s \<and> (\<exists>K. view s' = g_without (bk_bucket_id b) K (view s)))"
  using assms
proof (induction obs arbitrary: s)
  case (Cons ob obs)
  obtain r0 s0 where one: "purge_one drv b ob s = (r0, s0)" by fastforce
  note p = purge_one_run [OF Cons.prems(1,2) one]
  from p(3) show ?case
  proof
    assume ok: "r0 = Inr () \<and> view s0 = g_without (bk_bucket_id b) {ok_name (oi_key ob)} (view s)"
    then have run: "try_for (purge_one drv b) obs s0 = (r, s')"
      using one Cons.prems(3) by (simp add: try_a_apply)
    have "bk_bucket_id b \<in> set (g_bucket_ids (view s0))" using ok Cons.prems(2) by simp
    from Cons.IH [OF p(1) this run] ok p(2) show ?thesis by (elim conjE disjE exE) auto
  next
    assume err: "(\<exists>e. r0 = Inl e \<and> is_internal e) \<and> \<not> calm s \<and> view s0 = view s"
    then have "r = r0" "s' = s0" using one Cons.prems(3) by (auto simp: try_a_apply)
    with err p(1) show ?thesis by (metis g_without_empty)
  qed
qed (use assms in \<open>simp add: g_without_def\<close>)

lemma purge_list_run:
  assumes "sinv s" and "bk_bucket_id b \<in> set (g_bucket_ids (view s))" and "list_objects drv b (purge_params m) s = (r, s1)"
  shows "sinv s1" and "view s1 = view s" and "calm s \<Longrightarrow> calm s1"
    and "(\<exists>e. r = Inl e \<and> is_internal e) \<and> \<not> calm s \<or>
      r = Inr (page_of 1000 (map EObject (objs_after (view s) (bk_bucket_id b) m)))"
proof -
  have pre: "from_utf8_ok (lp_prefix (purge_params m))" "CHR 0x00 \<notin> set (lp_prefix (purge_params m))"
    by (simp_all add: list_params_default_def from_utf8_ok.simps)
  have spec: "spec_list_objects b (purge_params m) (view s) =
      (Inr (page_of 1000 (map EObject (objs_after (view s) (bk_bucket_id b) m))), view s)"
    using assms(2) entries_all [OF sinv_wf [OF assms(1)]]
    by (simp add: spec_list_objects_def) (simp add: list_params_default_def page_size_def DEFAULT_MAX_ENTRIES_def)
  from refinesD [OF list_objects_ok [OF pre] assms(1,3)] exactD [OF list_objects_exact [OF pre] assms(1) _ assms(3)]
  show "sinv s1" "view s1 = view s" "calm s \<Longrightarrow> calm s1" "(\<exists>e. r = Inl e \<and> is_internal e) \<and> \<not> calm s \<or>
      r = Inr (page_of 1000 (map EObject (objs_after (view s) (bk_bucket_id b) m)))"
    unfolding spec by blast+
qed

text \<open>
  A purge ends whatever fails on the way, and removes nothing but objects of the bucket; when it
  succeeds, as it does without failures, every object after the marker is gone.
\<close>

lemma purge_loop_run:
  assumes "sinv s" and "bk_bucket_id b \<in> set (g_bucket_ids (view s))"
  shows "\<exists>r s' K. purge_loop drv b (purge_params m) s = Some (r, s') \<and> sinv s' \<and> (calm s \<longrightarrow> calm s') \<and>
    view s' = g_without (bk_bucket_id b) K (view s) \<and>
    ((\<exists>e. r = Inl e \<and> is_internal e) \<and> \<not> calm s \<or> r = Inr () \<and> K = {n. m < n})"
  using assms
proof (induction "length (objs_after (view s) (bk_bucket_id b) m)" arbitrary: s m rule: less_induct)
  case less
  let ?i = "bk_bucket_id b" and ?g = "view s"
  let ?obs = "objs_after ?g ?i m"
  note wf = sinv_wf [OF less.prems(1)]
  obtain r1 s1 where list: "list_objects drv b (purge_params m) s = (r1, s1)" by fastforce
  note lp = purge_list_run [OF less.prems list]
  show ?case
  proof (cases r1)
    case (Inl e)
    with lp(4) have "is_internal e" "\<not> calm s" by auto
    moreover have "purge_loop drv b (purge_params m) s = Some (Inl e, s1)"
      using list Inl by (simp add: purge_loop.simps [of drv b "purge_params m"])
    ultimately show ?thesis using lp(1,2) by (metis g_without_empty)
  next
    case (Inr page)
    with lp(4) have page: "page = page_of 1000 (map EObject ?obs)" by auto
    then have obs: "lr_objects page = take 1000 ?obs"
      by (simp add: take_map entry_objects_def map_filter_map_filter map_filter_simps) (simp add: List.map_filter_def comp_def)
    obtain r2 s2 where del: "try_for (purge_one drv b) (take 1000 ?obs) s1 = (r2, s2)" by fastforce
    have ids: "?i \<in> set (g_bucket_ids (view s1))" using less.prems(2) lp(2) by simp
    note pp = purge_page_run [OF lp(1) ids del]
    show ?thesis
    proof (cases r2)
      case (Inl e)
      with pp lp(3) obtain K where "is_internal e" "\<not> calm s" "view s2 = g_without ?i K (view s1)" by auto
      moreover have "purge_loop drv b (purge_params m) s = Some (Inl e, s2)"
        using list \<open>r1 = Inr page\<close> obs del Inl by (simp add: purge_loop.simps [of drv b "purge_params m"])
      ultimately show ?thesis using pp lp(2) by metis
    next
      case (Inr u)
      with pp lp(2) have v2: "view s2 = g_without ?i (ob_name ` set (take 1000 ?obs)) ?g" by auto
      show ?thesis
      proof (cases "1000 < length ?obs")
        case False
        then have "purge_loop drv b (purge_params m) s = Some (Inr (), s2)"
          using list \<open>r1 = Inr page\<close> obs del Inr page by (simp add: purge_loop.simps [of drv b "purge_params m"])
        moreover have "view s2 = g_without ?i {n. m < n} ?g" using v2 False g_without_last_page [OF wf] by simp
        ultimately show ?thesis using pp lp(3) by blast
      next
        case True
        let ?m' = "ob_name (last (take 1000 ?obs))"
        have ne: "take 1000 ?obs \<noteq> []" using True by auto
        then have nm: "lr_next_marker page = ?m'" "lr_is_truncated page"
          using page True by (simp_all add: page_of_def Let_def take_map last_map)
        note smaller = objs_after_less [OF True _ refl]
        have "?m' \<noteq> []" "?m' \<noteq> m" using smaller(1) by auto
        then have step: "purge_loop drv b (purge_params m) s = purge_loop drv b (purge_params ?m') s2"
          using list \<open>r1 = Inr page\<close> obs del Inr nm by (simp add: purge_loop.simps [of drv b "purge_params m"])
        have "length (objs_after (view s2) ?i ?m') < length ?obs"
          unfolding v2 by (rule le_less_trans [OF objs_after_without_length smaller(2)]) simp
        from less.hyps [OF this] pp v2 less.prems(2) obtain r' s' K where
          ih: "purge_loop drv b (purge_params ?m') s2 = Some (r', s')" "sinv s'" "calm s2 \<longrightarrow> calm s'"
            "view s' = g_without ?i K (view s2)" "(\<exists>e. r' = Inl e \<and> is_internal e) \<and> \<not> calm s2 \<or> r' = Inr () \<and> K = {n. ?m' < n}"
          by (metis g_without_sel(2))
        have "K = {n. ?m' < n} \<Longrightarrow> view s' = g_without ?i {n. m < n} ?g"
          using ih(4) v2 g_without_page [OF wf _ True] by simp
        then show ?thesis using ih step v2 pp lp(3) by (metis g_without_twice)
      qed
    qed
  qed
qed

end

end
