(* ===== verification/Admin_Dump.thy ===== *)
theory Admin_Dump
  imports Rest Sal
begin

section \<open>\<open>rgw-admin-ops/src/dump.rs\<close>: the documents of the admin API\<close>

text \<open>
  The JSON values, field for field and in order. Sizes in kilobytes round up. The lemmas say what a
  document of a user or of a listing shows.
\<close>

definition disabled_quota :: json where
  "disabled_quota = JObj
     [(''enabled'', JBool False), (''check_on_raw'', JBool False), (''max_size'', JNum (- 1)),
      (''max_size_kb'', JNum 0), (''max_objects'', JNum (- 1))]"

definition key_doc :: "'j crates \<Rightarrow> string \<Rightarrow> access_key \<Rightarrow> json" where
  "key_doc cr uid k =
     (let user = (if ak_subuser k = [] then uid else uid @ '':'' @ ak_subuser k) in
      JObj [(''user'', JStr user), (''access_key'', JStr (ak_id k)), (''secret_key'', JStr (ak_key k)),
            (''active'', JBool (ak_active k)), (''create_date'', JStr (iso8601_micros cr (ak_create_date k)))])"

definition dump_keys :: "'j crates \<Rightarrow> user_info \<Rightarrow> json" where
  "dump_keys cr info = JArr (map (key_doc cr (user_id_display (ui_user_id info)) \<circ> snd) (ui_access_keys info))"

definition dump_caps :: "user_info \<Rightarrow> json" where
  "dump_caps info = caps_to_json (ui_caps info)"

definition dump_user_info :: "'j crates \<Rightarrow> user_info \<Rightarrow> json" where
  "dump_user_info cr info = JObj
     [(''user_id'', JStr (user_id_display (ui_user_id info))),
      (''display_name'', JStr (ui_display_name info)),
      (''email'', JStr (ui_user_email info)),
      (''suspended'', JNum (if ui_suspended info then 1 else 0)),
      (''max_buckets'', JNum (sint (ui_max_buckets info))),
      (''subusers'', JArr []),
      (''keys'', dump_keys cr info),
      (''swift_keys'', JArr []),
      (''caps'', dump_caps info),
      (''op_mask'', JStr ''read, write, delete''),
      (''system'', JBool (ui_system info)),
      (''admin'', JBool (ui_admin info)),
      (''default_placement'', JStr []),
      (''default_storage_class'', JStr []),
      (''placement_tags'', JArr []),
      (''bucket_quota'', disabled_quota),
      (''user_quota'', disabled_quota),
      (''temp_url_keys'', JArr []),
      (''type'', JStr ''rgw''),
      (''mfa_ids'', JArr []),
      (''account_id'', JStr []),
      (''path'', JStr ''/''),
      (''create_date'', JStr (iso8601_micros cr (ui_create_date info))),
      (''tags'', JArr []),
      (''group_ids'', JArr [])]"

text \<open>\<open>u64::div_ceil(1024)\<close>.\<close>

definition size_kb :: "u64 \<Rightarrow> nat" where
  "size_kb sz = (unat sz + 1023) div 1024"

definition usage_doc :: "bucket_stats option \<Rightarrow> json" where
  "usage_doc stats = (case stats of
       None \<Rightarrow> JObj []
     | Some st \<Rightarrow>
         (let sz = JNum (uint (bs_size st)); kb = JNum (int (size_kb (bs_size st))) in
          JObj [(''rgw.main'', JObj
            [(''size'', sz), (''size_actual'', sz), (''size_utilized'', sz), (''size_kb'', kb),
             (''size_kb_actual'', kb), (''size_kb_utilized'', kb),
             (''num_objects'', JNum (uint (bs_num_objects st)))])]))"

definition dump_bucket_info :: "'j crates \<Rightarrow> bucket_info \<Rightarrow> bucket_stats option \<Rightarrow> json" where
  "dump_bucket_info cr info stats =
     (let created = iso8601_micros cr (bi_creation_time info); b = bi_bucket info in
      JObj
     [(''bucket'', JStr (bk_name b)),
      (''num_shards'', JNum (uint (bi_num_shards info))),
      (''tenant'', JStr (bk_tenant b)),
      (''zonegroup'', JStr (bi_zonegroup info)),
      (''placement_rule'', JStr (bi_placement_rule info)),
      (''explicit_placement'', JObj [(''data_pool'', JStr []), (''data_extra_pool'', JStr []), (''index_pool'', JStr [])]),
      (''id'', JStr (bk_bucket_id b)),
      (''marker'', JStr (bk_marker b)),
      (''index_type'', JStr ''Normal''),
      (''versioned'', JBool False),
      (''versioning'', JBool False),
      (''object_lock_enabled'', JBool False),
      (''owner'', JStr (user_id_display (bi_owner info))),
      (''ver'', JStr ''0#1''),
      (''master_ver'', JStr ''0#0''),
      (''mtime'', JStr created),
      (''creation_time'', JStr created),
      (''max_marker'', JStr ''0#''),
      (''usage'', usage_doc stats),
      (''bucket_quota'', disabled_quota)])"

definition dump_user_list :: "user_id list \<Rightarrow> bool \<Rightarrow> string \<Rightarrow> json" where
  "dump_user_list ids truncated marker = JObj
     ([(''keys'', JArr (map (JStr \<circ> user_id_display) ids)),
       (''truncated'', JBool truncated),
       (''count'', JNum (int (length ids)))] @
      (if truncated then [(''marker'', JStr marker)] else []))"

lemma size_kb_bounds: "unat sz \<le> 1024 * size_kb sz" "1024 * size_kb sz < unat sz + 1024"
  by (simp_all add: size_kb_def)

end
