(* ===== verification/Admin_Rest.thy ===== *)
theory Admin_Rest
  imports Admin_Ops Admin_Dump Auth
begin

section \<open>\<open>rgw-rest-admin\<close>: the admin REST API\<close>

text \<open>
  Each handler is the body of its \<open>async\<close> block, the reply or the error it finishes with; \<open>finish\<close>
  turns either into a response. The query is what axum's \<open>Query\<close> extractor gives: a map, here an
  association list with distinct keys, or the text of a rejection.
\<close>

subsection \<open>Arguments\<close>

type_synonym admin_query = "string + (string \<times> string) list"
type_synonym admin_args = "(string \<times> string) list"

definition admin_args_new :: "admin_query \<Rightarrow> admin_args rgw_result" where
  "admin_args_new q = map_err InvalidArgument q"

definition arg_has :: "admin_args \<Rightarrow> string \<Rightarrow> bool" where
  "arg_has a name \<longleftrightarrow> map_of a name \<noteq> None"

definition arg_string :: "admin_args \<Rightarrow> string \<Rightarrow> string option" where
  "arg_string a name = map_of a name"

definition arg_str_or_empty :: "admin_args \<Rightarrow> string \<Rightarrow> string" where
  "arg_str_or_empty a name = (case map_of a name of None \<Rightarrow> [] | Some v \<Rightarrow> v)"

definition arg_required :: "admin_args \<Rightarrow> string \<Rightarrow> string rgw_result" where
  "arg_required a name = (case map_of a name of
       Some v \<Rightarrow> if v \<noteq> [] then Inr v else Inl (InvalidArgument (name @ '' is required''))
     | None \<Rightarrow> Inl (InvalidArgument (name @ '' is required'')))"

definition arg_uid :: "admin_args \<Rightarrow> user_id rgw_result" where
  "arg_uid a = try_r (arg_required a ''uid'') (\<lambda>v. Inr (user_id_parse v))"

definition parse_bool :: "string \<Rightarrow> string \<Rightarrow> bool rgw_result" where
  "parse_bool name v =
     (if v \<in> {''true'', ''yes'', ''1''} then Inr True
      else if v \<in> {''false'', ''no'', ''0''} then Inr False
      else Inl (InvalidArgument (name @ '': not a boolean: '' @ v)))"

definition arg_bool :: "admin_args \<Rightarrow> string \<Rightarrow> bool option rgw_result" where
  "arg_bool a name = (case map_of a name of
       None \<Rightarrow> Inr None
     | Some v \<Rightarrow> try_r (parse_bool name v) (\<lambda>b. Inr (Some b)))"

text \<open>\<open>int::<T>\<close>, with the parser of the type.\<close>

definition arg_int :: "(string \<Rightarrow> 'n option) \<Rightarrow> admin_args \<Rightarrow> string \<Rightarrow> 'n option rgw_result" where
  "arg_int parse a name = (case map_of a name of
       None \<Rightarrow> Inr None
     | Some v \<Rightarrow> try_r (ok_or (InvalidArgument (name @ '': not a number: '' @ v)) (parse v)) (\<lambda>n. Inr (Some n)))"

definition parse_usize :: "string \<Rightarrow> nat option" where
  "parse_usize = parse_unsigned 10 (2 ^ 64)"

definition parse_i32 :: "string \<Rightarrow> i32 option" where
  "parse_i32 v = map_option word_of_int (parse_signed 10 (2 ^ 31) v)"

definition require_cap :: "identity \<Rightarrow> string \<Rightarrow> cap_perm \<Rightarrow> unit rgw_result" where
  "require_cap i cap perm = (if identity_check_cap i cap perm then Inr () else Inl AccessDenied)"

subsection \<open>Replies\<close>

datatype reply = ReplyJson json | ReplyEmpty

definition JSON_TYPE :: headers where
  "JSON_TYPE = [(''content-type'', ''application/json'')]"

definition admin_finish :: "'j crates \<Rightarrow> string \<Rightarrow> rgw_error + reply \<Rightarrow> response" where
  "admin_finish cr rid r = (case r of
       Inr (ReplyJson v) \<Rightarrow>
         (case json_pretty cr v of
            Inr body \<Rightarrow> \<lparr>rs_status = 200, rs_headers = JSON_TYPE, rs_body = body_from_bytes body\<rparr>
          | Inl e \<Rightarrow> admin_error_response cr (internal e) rid)
     | Inr ReplyEmpty \<Rightarrow> status_response 200 JSON_TYPE
     | Inl e \<Rightarrow> admin_error_response cr e rid)"

definition admin_unsupported :: "admin_args \<Rightarrow> string list \<Rightarrow> unit rgw_result" where
  "admin_unsupported a names = (if list_ex (arg_has a) names then Inl NotImplemented else Inr ())"

text \<open>What every handler does first: the arguments, the unsupported sub-resources, the capability.\<close>

record admin_call =
  ad_identity :: identity
  ad_request_id :: string
  ad_query :: admin_query

definition admin_begin :: "admin_call \<Rightarrow> string list \<Rightarrow> string \<Rightarrow> cap_perm \<Rightarrow> admin_args rgw_result" where
  "admin_begin c names cap perm =
     try_r (admin_args_new (ad_query c)) (\<lambda>a.
     try_r (admin_unsupported a names) (\<lambda>_.
     try_r (require_cap (ad_identity c) cap perm) (\<lambda>_. Inr a)))"

subsection \<open>Users\<close>

definition admin_user_get :: "'j crates \<Rightarrow> 's driver \<Rightarrow> admin_call \<Rightarrow> ('s, reply) rgw_act" where
  "admin_user_get cr drv c =
     try_a (lift_a (admin_begin c [''quota''] ''users'' CAP_READ)) (\<lambda>a.
     if arg_has a ''list'' then
       try_a (lift_a (arg_int parse_usize a ''max-entries'')) (\<lambda>mx.
       try_a (user_list_page drv (arg_str_or_empty a ''marker'') (unwrap_or mx 0)) (\<lambda>l.
       ret_a (ReplyJson (dump_user_list (ul_ids l) (ul_truncated l) (ul_next_marker l)))))
     else
       try_a (lift_a (arg_uid a)) (\<lambda>uid.
       try_a (user_show drv uid) (\<lambda>info.
       ret_a (ReplyJson (dump_user_info cr info)))))"

definition user_put_params :: "admin_args \<Rightarrow> user_create_params rgw_result" where
  "user_put_params a =
     try_r (arg_uid a) (\<lambda>uid.
     try_r (arg_required a ''display-name'') (\<lambda>name.
     try_r (arg_bool a ''generate-key'') (\<lambda>gen.
     try_r (arg_int parse_i32 a ''max-buckets'') (\<lambda>mx.
     try_r (arg_bool a ''suspended'') (\<lambda>susp.
     try_r (arg_bool a ''system'') (\<lambda>sys.
     Inr \<lparr>uc_uid = uid, uc_display_name = name, uc_email = arg_string a ''email'',
          uc_access_key = arg_string a ''access-key'', uc_secret_key = arg_string a ''secret-key'',
          uc_generate_key = gen, uc_caps = arg_string a ''user-caps'', uc_max_buckets = mx,
          uc_suspended = susp, uc_system = sys, uc_admin = None\<rparr>))))))"

definition admin_user_put :: "'j crates \<Rightarrow> 's driver \<Rightarrow> admin_fx \<Rightarrow> admin_call \<Rightarrow> ('s, reply) rgw_act" where
  "admin_user_put cr drv fx c =
     try_a (lift_a (admin_begin c [''subuser'', ''quota''] ''users'' CAP_WRITE)) (\<lambda>a.
     if arg_has a ''key'' then
       try_a (lift_a (arg_uid a)) (\<lambda>uid.
       try_a (lift_a (arg_bool a ''generate-key'')) (\<lambda>gen.
       try_a (key_create drv fx uid (arg_string a ''access-key'') (arg_string a ''secret-key'') (unwrap_or gen True)) (\<lambda>info.
       ret_a (ReplyJson (dump_keys cr info)))))
     else if arg_has a ''caps'' then
       try_a (lift_a (arg_uid a)) (\<lambda>uid.
       try_a (lift_a (arg_required a ''user-caps'')) (\<lambda>caps.
       try_a (caps_add drv uid caps) (\<lambda>info.
       ret_a (ReplyJson (dump_caps info)))))
     else
       try_a (lift_a (user_put_params a)) (\<lambda>params.
       try_a (user_create drv fx params) (\<lambda>info.
       ret_a (ReplyJson (dump_user_info cr info)))))"

definition user_post_params :: "admin_args \<Rightarrow> user_modify_params rgw_result" where
  "user_post_params a =
     try_r (arg_uid a) (\<lambda>uid.
     try_r (arg_int parse_i32 a ''max-buckets'') (\<lambda>mx.
     try_r (arg_bool a ''suspended'') (\<lambda>susp.
     try_r (arg_bool a ''system'') (\<lambda>sys.
     try_r (arg_bool a ''generate-key'') (\<lambda>gen.
     Inr \<lparr>um_uid = uid, um_display_name = arg_string a ''display-name'', um_email = arg_string a ''email'',
          um_max_buckets = mx, um_suspended = susp, um_system = sys, um_admin = None,
          um_access_key = arg_string a ''access-key'', um_secret_key = arg_string a ''secret-key'',
          um_generate_key = unwrap_or gen False\<rparr>)))))"

definition admin_user_post :: "'j crates \<Rightarrow> 's driver \<Rightarrow> admin_fx \<Rightarrow> admin_call \<Rightarrow> ('s, reply) rgw_act" where
  "admin_user_post cr drv fx c =
     try_a (lift_a (admin_begin c [''subuser'', ''quota''] ''users'' CAP_WRITE)) (\<lambda>a.
     try_a (lift_a (user_post_params a)) (\<lambda>params.
     try_a (user_modify drv fx params) (\<lambda>info.
     ret_a (ReplyJson (dump_user_info cr info)))))"

definition admin_user_delete :: "'s driver \<Rightarrow> admin_call \<Rightarrow> ('s, rgw_error, reply) oact" where
  "admin_user_delete drv c =
     try_o (run_o (lift_a (admin_begin c [''subuser'', ''quota''] ''users'' CAP_WRITE))) (\<lambda>a.
     try_o (run_o (lift_a (arg_uid a))) (\<lambda>uid.
     if arg_has a ''key'' then
       run_o (try_a (lift_a (arg_required a ''access-key'')) (\<lambda>key.
              try_a (key_remove drv uid key) (\<lambda>_.
              ret_a ReplyEmpty)))
     else if arg_has a ''caps'' then
       run_o (try_a (lift_a (arg_required a ''user-caps'')) (\<lambda>caps.
              try_a (caps_remove drv uid caps) (\<lambda>info.
              ret_a (ReplyJson (dump_caps info)))))
     else
       try_o (run_o (lift_a (arg_bool a ''purge-data''))) (\<lambda>purge.
       try_o (user_remove drv uid (unwrap_or purge False)) (\<lambda>_.
       run_o (ret_a ReplyEmpty)))))"

subsection \<open>Buckets\<close>

fun bucket_docs :: "'j crates \<Rightarrow> 's driver \<Rightarrow> bool \<Rightarrow> bucket_info list \<Rightarrow> json list \<Rightarrow> ('s, json list) rgw_act" where
  "bucket_docs cr drv stats [] out = ret_a out"
| "bucket_docs cr drv stats (b # bs) out =
     (if stats then
        try_a (read_stats drv (bi_bucket b)) (\<lambda>st.
        bucket_docs cr drv stats bs (out @ [dump_bucket_info cr b (Some st)]))
      else bucket_docs cr drv stats bs (out @ [JStr (bk_name (bi_bucket b))]))"

definition admin_bucket_get :: "'j crates \<Rightarrow> 's driver \<Rightarrow> admin_call \<Rightarrow> ('s, rgw_error, reply) oact" where
  "admin_bucket_get cr drv c =
     try_o (run_o (lift_a (admin_begin c [''index'', ''policy''] ''buckets'' CAP_READ))) (\<lambda>a.
     try_o (run_o (lift_a (arg_bool a ''stats''))) (\<lambda>st.
     let stats = unwrap_or st False in
     (case nonempty (arg_string a ''bucket'') of
        Some bucket \<Rightarrow>
          (case parse_bucket bucket of (tenant, name) \<Rightarrow>
             run_o (try_a (admin_bucket_info drv tenant name) (\<lambda>(info, bst).
                    ret_a (ReplyJson (dump_bucket_info cr info (if stats then Some bst else None))))))
      | None \<Rightarrow>
          (let ow = map_option user_id_parse (nonempty (arg_string a ''uid'')) in
           try_o (admin_bucket_list drv ow) (\<lambda>buckets.
           run_o (try_a (bucket_docs cr drv stats buckets []) (\<lambda>out.
                  ret_a (ReplyJson (JArr out)))))))))"

definition admin_bucket_put :: "('s, reply) rgw_act" where
  "admin_bucket_put = err_a NotImplemented"

definition admin_bucket_delete :: "'s driver \<Rightarrow> admin_call \<Rightarrow> ('s, rgw_error, reply) oact" where
  "admin_bucket_delete drv c =
     try_o (run_o (lift_a (admin_begin c [''object''] ''buckets'' CAP_WRITE))) (\<lambda>a.
     try_o (run_o (lift_a (arg_required a ''bucket''))) (\<lambda>bucket.
     (case parse_bucket bucket of (tenant, name) \<Rightarrow>
        try_o (run_o (lift_a (arg_bool a ''purge-objects''))) (\<lambda>purge.
        try_o (bucket_remove drv tenant name (unwrap_or purge False)) (\<lambda>_.
        run_o (ret_a ReplyEmpty))))))"

subsection \<open>Info, other methods and the routes\<close>

definition admin_info_get :: "'s driver \<Rightarrow> admin_call \<Rightarrow> ('s, reply) rgw_act" where
  "admin_info_get drv c =
     try_a (lift_a (require_cap (ad_identity c) ''info'' CAP_READ)) (\<lambda>_.
     ret_a (ReplyJson (JObj [(''info'', JObj [(''storage_backends'', JArr
       [JObj [(''name'', JStr (drv_name drv)), (''cluster_id'', JStr ''rgw-rs'')]])])])))"

definition method_not_allowed :: "('s, reply) rgw_act" where
  "method_not_allowed = err_a MethodNotAllowed"

datatype admin_path = UserPath | BucketsPath | InfoPath

datatype admin_handler =
    AdminUserGet | AdminUserPut | AdminUserPost | AdminUserDelete
  | AdminBucketGet | AdminBucketPut | AdminBucketDelete
  | AdminInfoGet | AdminOther

text \<open>\<open>get\<close> also serves \<open>HEAD\<close>.\<close>

fun admin_route :: "string \<Rightarrow> admin_path \<Rightarrow> admin_handler" where
  "admin_route verb UserPath =
     (if verb = ''GET'' \<or> verb = ''HEAD'' then AdminUserGet else if verb = ''PUT'' then AdminUserPut
      else if verb = ''POST'' then AdminUserPost else if verb = ''DELETE'' then AdminUserDelete
      else AdminOther)"
| "admin_route verb BucketsPath =
     (if verb = ''GET'' \<or> verb = ''HEAD'' then AdminBucketGet else if verb = ''PUT'' then AdminBucketPut
      else if verb = ''DELETE'' then AdminBucketDelete else AdminOther)"
| "admin_route verb InfoPath = (if verb = ''GET'' \<or> verb = ''HEAD'' then AdminInfoGet else AdminOther)"

fun admin_serve :: "'j crates \<Rightarrow> 's driver \<Rightarrow> admin_fx \<Rightarrow> admin_call \<Rightarrow> admin_handler \<Rightarrow> ('s, rgw_error, reply) oact" where
  "admin_serve cr drv fx c AdminUserGet = run_o (admin_user_get cr drv c)"
| "admin_serve cr drv fx c AdminUserPut = run_o (admin_user_put cr drv fx c)"
| "admin_serve cr drv fx c AdminUserPost = run_o (admin_user_post cr drv fx c)"
| "admin_serve cr drv fx c AdminUserDelete = admin_user_delete drv c"
| "admin_serve cr drv fx c AdminBucketGet = admin_bucket_get cr drv c"
| "admin_serve cr drv fx c AdminBucketPut = run_o admin_bucket_put"
| "admin_serve cr drv fx c AdminBucketDelete = admin_bucket_delete drv c"
| "admin_serve cr drv fx c AdminInfoGet = run_o (admin_info_get drv c)"
| "admin_serve cr drv fx c AdminOther = run_o method_not_allowed"

end
