(* ===== verification/Admin_Facts.thy ===== *)
theory Admin_Facts
  imports Admin_Loops Admin_Rest
begin

section \<open>The admin operations over any driver\<close>

text \<open>
  Every admin handler does on a driver what it does on the abstract store, returns, and needs its
  capability before it touches the driver. \<open>gives\<close> carries what is known of a value read from the
  store, such as that a stored user is well-formed, to the actions that write it back.
\<close>

subsection \<open>What an action gives\<close>

definition gives :: "('s \<Rightarrow> bool) \<Rightarrow> ('a \<Rightarrow> bool) \<Rightarrow> ('s, 'e, 'a) act \<Rightarrow> bool" where
  "gives I Q m \<longleftrightarrow> (\<forall>s x s'. I s \<longrightarrow> m s = (Inr x, s') \<longrightarrow> Q x)"

lemma givesI: "(\<And>s x s'. I s \<Longrightarrow> m s = (Inr x, s') \<Longrightarrow> Q x) \<Longrightarrow> gives I Q m"
  by (auto simp: gives_def)

lemma givesD: "gives I Q m \<Longrightarrow> I s \<Longrightarrow> m s = (Inr x, s') \<Longrightarrow> Q x"
  by (auto simp: gives_def)

lemma sim_try_gives:
  assumes m: "sim I view m m'" and g: "gives I Q m" and f: "\<And>x. Q x \<Longrightarrow> sim I view (f x) (f' x)"
  shows "sim I view (try_a m f) (try_a m' f')"
proof (rule simI)
  fix s r s' assume I: "I s" and run: "try_a m f s = (r, s')"
  obtain r0 s0 where 0: "m s = (r0, s0)" by fastforce
  note m' = simD [OF m I 0]
  show "I s' \<and> try_a m' f' (view s) = (r, view s')"
  proof (cases r0)
    case (Inl e)
    with 0 run m' show ?thesis by (simp add: try_a_apply)
  next
    case (Inr x)
    then have "Q x" using givesD [OF g I] 0 by simp
    from simD [OF f [OF this], of s0 r s'] Inr 0 run m' show ?thesis by (simp add: try_a_apply)
  qed
qed

lemma sim_try_lift:
  "(\<And>x. r = Inr x \<Longrightarrow> sim I view (f x) (f' x)) \<Longrightarrow> sim I view (try_a (lift_a r) f) (try_a (lift_a r) f')"
  by (rule sim_try_gives [where Q = "\<lambda>x. r = Inr x"]) (auto intro: sim_intros simp: gives_def)

lemma sim_try_for: "(\<And>x. sim I view (f x) (f' x)) \<Longrightarrow> sim I view (try_for f xs) (try_for f' xs)"
  by (induction xs) (auto intro: sim_intros)

lemma sim_try_for_o: "(\<And>x. sim_o I view (f x) (f' x)) \<Longrightarrow> sim_o I view (try_for_o f xs) (try_for_o f' xs)"
  by (induction xs) (auto intro: sim_intros)

lemma sim_o_case_prod [sim_intros]:
  "(\<And>a b. x = (a, b) \<Longrightarrow> sim_o I view (f a b) (f' a b)) \<Longrightarrow>
   sim_o I view (case x of (a, b) \<Rightarrow> f a b) (case x of (a, b) \<Rightarrow> f' a b)"
  by (cases x) simp

text \<open>A user record that may be stored.\<close>

definition user_ok :: "user_info \<Rightarrow> bool" where
  "user_ok u \<longleftrightarrow> user_wf u \<and> uid_stable (ui_user_id u)"

lemma user_ok_add_key [simp]: "user_ok u \<Longrightarrow> user_ok (add_access_key k u)"
  by (simp add: user_ok_def user_wf_def add_access_key_def bt_wf_insert)

lemma user_ok_fields [simp]:
  "user_ok (u\<lparr>ui_display_name := n\<rparr>) = user_ok u" "user_ok (u\<lparr>ui_user_email := e\<rparr>) = user_ok u"
  "user_ok (u\<lparr>ui_suspended := b\<rparr>) = user_ok u" "user_ok (u\<lparr>ui_max_buckets := mx\<rparr>) = user_ok u"
  "user_ok (u\<lparr>ui_system := b\<rparr>) = user_ok u" "user_ok (u\<lparr>ui_admin := b\<rparr>) = user_ok u"
  by (simp_all add: user_ok_def user_wf_def)

lemma user_ok_caps: "user_ok u \<Longrightarrow> caps_wf cs \<Longrightarrow> user_ok (u\<lparr>ui_caps := cs\<rparr>)"
  by (simp add: user_ok_def user_wf_def)

lemma user_ok_capsD: "user_ok u \<Longrightarrow> caps_wf (ui_caps u)"
  by (simp add: user_ok_def user_wf_def)

lemma user_ok_remove_key: "user_ok u \<Longrightarrow> user_ok (u\<lparr>ui_access_keys := bt_remove k (ui_access_keys u)\<rparr>)"
  by (simp add: user_ok_def user_wf_def bt_wf_remove)

lemma put_key_Inr:
  assumes "put_key drv fx info a sec g s = (Inr info', s')"
  obtains ak key where "info' = add_access_key \<lparr>ak_id = ak, ak_key = key, ak_subuser = [], ak_active = True,
      ak_create_date = af_key_now fx\<rparr> info"
    and "(case a of Some k \<Rightarrow> try_a (ensure_key_free drv (ui_user_id info) k) (\<lambda>_. ret_a k)
      | None \<Rightarrow> if g then unused_access_key drv fx else err_a (InvalidArgument ''access-key is required'')) s = (Inr ak, s')"
    and "key = unwrap_or sec (generate_secret_key (af_secret fx))" and "a = None \<or> sec = None \<Longrightarrow> g"
  using assms unfolding put_key_def
  by (elim try_aE) (auto simp: unwrap_or_def split: option.splits if_splits)

lemma gives_put_key: "user_ok info \<Longrightarrow> gives I user_ok (put_key drv fx info a sec g)"
  by (rule givesI) (auto elim: put_key_Inr)

lemma gives_put_key_request: "user_ok info \<Longrightarrow> gives I user_ok (put_key_request drv fx info key)"
proof (rule givesI)
  fix s x s' assume "user_ok info" "put_key_request drv fx info key s = (Inr x, s')"
  then show "user_ok x"
    by (cases key) (auto simp: put_key_request_def elim: put_key_Inr)
qed

lemma gives_modify_email: "user_ok info \<Longrightarrow> gives I user_ok (modify_email drv email info)"
  by (rule givesI) (auto simp: modify_email_def act_Inr_iff split: option.splits)

lemma modify_name_ok: "modify_name name info = Inr info' \<Longrightarrow> user_ok info \<Longrightarrow> user_ok info'"
  by (auto simp: modify_name_def split: option.splits if_splits)

lemma user_info_new_sel [simp]:
  "ui_caps (user_info_new uid n t) = caps_new" "ui_user_id (user_info_new uid n t) = uid"
  "ui_access_keys (user_info_new uid n t) = []" "ui_max_buckets (user_info_new uid n t) = RGW_DEFAULT_MAX_BUCKETS"
  by (simp_all add: user_info_new_def)

lemma parse_caps_wf: "parse_caps caps = Inr parsed \<Longrightarrow> caps_wf parsed"
  by (auto simp: parse_caps_def caps_wf_new split: if_splits intro: caps_from_string_wf [OF caps_wf_new])

lemma caps_add_all_wf:
  assumes "caps_wf parsed" and "caps_wf cs"
    and "try_fold (\<lambda>(cap, perm) cs. user_caps_add cs cap perm) parsed cs = Inr cs'"
  shows "caps_wf cs'"
proof (rule try_fold_invariant [where P = caps_wf, OF assms(2) _ assms(3)])
  fix x s s' assume "x \<in> set parsed" "caps_wf s" "(case x of (cap, perm) \<Rightarrow> \<lambda>cs. user_caps_add cs cap perm) s = Inr s'"
  moreover from this(1) assms(1) obtain cap perm where "x = (cap, perm)" "cap_valid perm"
    by (cases x) (auto simp: caps_wf_def)
  ultimately show "caps_wf s'" using caps_add_wf [of s perm cap s'] by simp
qed

lemma caps_remove_all_wf: "caps_wf cs \<Longrightarrow> caps_wf (fold (\<lambda>(cap, perm) cs. user_caps_remove cs cap perm) parsed cs)"
  by (induction parsed arbitrary: cs) (auto intro: caps_remove_wf)

context driver_client
begin

subsection \<open>Simulation\<close>

lemma gives_load_user: "gives works user_ok (load_user drv uid)"
proof (rule givesI)
  fix s u s' assume "works s" and run: "load_user drv uid s = (Inr u, s')"
  then have s: "sinv s" by (simp add: works_def)
  from reads_ok(1) [OF s run] have "bt_get (g_users (view s)) (user_id_display uid) = Some u"
    by (auto simp: spec_load_user_def)
  from gw_wf_user [OF sinv_wf [OF s] this] show "user_ok u" by (simp add: user_ok_def canonical_stable)
qed

lemma sim_try_user:
  "(\<And>u. user_ok u \<Longrightarrow> sim works view (f u) (f' u)) \<Longrightarrow>
   sim works view (try_a (load_user drv uid) f) (try_a (load_user (spec_driver etag) uid) f')"
  by (rule sim_try_gives [OF sim_methods(1) gives_load_user])

lemma sim_store_ok: "user_ok u \<Longrightarrow> sim works view (store_user drv u excl) (store_user (spec_driver etag) u excl)"
  by (rule sim_store_user) (simp_all add: user_ok_def)

lemma sim_unused_key [sim_intros]: "sim works view (unused_key_loop drv ks) (unused_key_loop (spec_driver etag) ks)"
proof (induction ks)
  case (Cons k ks)
  show ?case unfolding unused_key_loop.simps by (intro sim_intros Cons.IH)
next
  case Nil
  show ?case unfolding unused_key_loop.simps by (rule sim_err)
qed

lemma sim_checks [sim_intros]:
  "sim works view (ensure_email_free drv uid e) (ensure_email_free (spec_driver etag) uid e)"
  "sim works view (ensure_key_free drv uid k) (ensure_key_free (spec_driver etag) uid k)"
  "sim works view (unused_access_key drv fx) (unused_access_key (spec_driver etag) fx)"
  unfolding ensure_email_free_def ensure_key_free_def unused_access_key_def by (intro sim_intros)+

lemma sim_put_key [sim_intros]:
  "sim works view (put_key drv fx info a sec g) (put_key (spec_driver etag) fx info a sec g)"
  unfolding put_key_def by (intro sim_intros)

lemma sim_put_key_request [sim_intros]:
  "sim works view (put_key_request drv fx info key) (put_key_request (spec_driver etag) fx info key)"
  unfolding put_key_request_def by (intro sim_intros)

lemma sim_modify_email [sim_intros]:
  "sim works view (modify_email drv e info) (modify_email (spec_driver etag) e info)"
  unfolding modify_email_def by (intro sim_intros)

lemma sim_user_create:
  assumes "uid_stable (uc_uid params)"
  shows "sim works view (user_create drv fx params) (user_create (spec_driver etag) fx params)"
proof -
  let ?i = "user_info_new (uc_uid params) (uc_display_name params) (af_now fx)"
  have new: "user_ok ?i" using assms by (simp add: user_ok_def user_wf_def user_info_new_def caps_wf_new bt_wf_def)
  have caps: "user_ok i1" if "(case nonempty (uc_caps params) of
      Some caps \<Rightarrow> try_r (caps_add_from_string (ui_caps ?i) caps) (\<lambda>cs. Inr (?i\<lparr>ui_caps := cs\<rparr>)) | None \<Rightarrow> Inr ?i) = Inr i1" for i1
    using that new by (auto simp: try_r_Inr_iff split: option.splits intro!: user_ok_caps intro: caps_from_string_wf [OF caps_wf_new])
  have email: "gives works user_ok (case nonempty (uc_email params) of
      Some email \<Rightarrow> try_a (ensure_email_free drv (ui_user_id i1) email) (\<lambda>_. ret_a (i1\<lparr>ui_user_email := email\<rparr>))
    | None \<Rightarrow> ret_a i1)" if "user_ok i1" for i1
    using that by (auto intro!: givesI simp: act_Inr_iff split: option.splits)
  show ?thesis
    unfolding user_create_def Let_def
    by (rule sim_try_lift, rule sim_if, rule sim_err, rule sim_try_lift, rule sim_try_lift, rule sim_try_gives [OF _ email],
        intro sim_intros, rule caps, assumption, rule sim_try_gives [OF sim_put_key_request gives_put_key_request], simp,
        rule sim_try [OF sim_store_ok], assumption, rule sim_ret)
qed

lemma sim_user_show [sim_intros]: "sim works view (user_show drv uid) (user_show (spec_driver etag) uid)"
  unfolding user_show_def by (intro sim_intros)

lemma sim_user_modify [sim_intros]:
  "sim works view (user_modify drv fx params) (user_modify (spec_driver etag) fx params)"
  unfolding user_modify_def Let_def
  by (rule sim_try_lift, rule sim_try_lift, rule sim_try_user, rule sim_try_lift,
      rule sim_try_gives [OF sim_modify_email gives_modify_email], erule (1) modify_name_ok,
      rule sim_try_gives [OF sim_put_key_request gives_put_key_request], simp,
      rule sim_try [OF sim_store_ok], assumption, rule sim_ret)

lemma sim_key_create [sim_intros]:
  "sim works view (key_create drv fx uid a sec g) (key_create (spec_driver etag) fx uid a sec g)"
  unfolding key_create_def
  by (rule sim_try_lift, rule sim_try_user, rule sim_try_gives [OF sim_put_key gives_put_key], assumption,
      rule sim_try [OF sim_store_ok], assumption, rule sim_ret)

lemma sim_key_remove [sim_intros]:
  "sim works view (key_remove drv uid a) (key_remove (spec_driver etag) uid a)"
  unfolding key_remove_def Let_def
  by (rule sim_try_lift, rule sim_if, rule sim_err, rule sim_try_user, rule sim_if, rule sim_err,
      rule sim_try [OF sim_store_ok], erule user_ok_remove_key, rule sim_ret)

lemma sim_caps_add [sim_intros]: "sim works view (caps_add drv uid caps) (caps_add (spec_driver etag) uid caps)"
  unfolding caps_add_def Let_def
  by (rule sim_try_lift, rule sim_try_lift, rule sim_try_user, rule sim_try_lift, rule sim_try [OF sim_store_ok],
      rule user_ok_caps, assumption, rule caps_add_all_wf, erule parse_caps_wf, erule user_ok_capsD, assumption, rule sim_ret)

lemma sim_caps_remove [sim_intros]:
  "sim works view (caps_remove drv uid caps) (caps_remove (spec_driver etag) uid caps)"
  unfolding caps_remove_def Let_def
  by (rule sim_try_lift, rule sim_try_lift, rule sim_try_user, rule sim_try [OF sim_store_ok],
      rule user_ok_caps, assumption, rule caps_remove_all_wf, erule user_ok_capsD, rule sim_ret)

lemma sim_user_list [sim_intros]:
  "sim works view (user_list_page drv m mx) (user_list_page (spec_driver etag) m mx)"
  unfolding user_list_page_def Let_def
  by (intro sim_intros) (simp add: DEFAULT_MAX_ENTRIES_def min_less_iff_disj)

lemma sim_purge_one [sim_intros]: "sim works view (purge_one drv b ob) (purge_one (spec_driver etag) b ob)"
  unfolding purge_one_def by (intro sim_intros)

lemma sim_purge_loop:
  assumes "from_utf8_ok (lp_prefix p)" and "CHR 0x00 \<notin> set (lp_prefix p)"
  shows "sim_o works view (purge_loop drv b p) (purge_loop (spec_driver etag) b p)"
proof (rule sim_oI)
  fix s r s' assume works: "works s" and run: "purge_loop drv b p s = Some (r, s')"
  let ?P = "\<lambda>d b p s y. d = drv \<longrightarrow> from_utf8_ok (lp_prefix p) \<longrightarrow> CHR 0x00 \<notin> set (lp_prefix p) \<longrightarrow> works s \<longrightarrow>
      works (snd y) \<and> purge_loop (spec_driver etag) b p (view s) = Some (fst y, view (snd y))"
  have "?P d b p s y" if "purge_loop d b p s = Some y" for d y
  proof (rule purge_loop.raw_induct [where P = ?P, OF _ that], goal_cases)
    case (1 loop d b p s y)
    show ?case
    proof (intro impI)
      assume d: "d = drv" and pre: "from_utf8_ok (lp_prefix p)" "CHR 0x00 \<notin> set (lp_prefix p)" and s: "works s"
      obtain r1 s1 where list: "list_objects drv b p s = (r1, s1)" by fastforce
      from simD [OF sim_list_objects [OF pre] s list]
      have s1: "works s1" and l: "list_objects (spec_driver etag) b p (view s) = (r1, view s1)" by auto
      show "works (snd y) \<and> purge_loop (spec_driver etag) b p (view s) = Some (fst y, view (snd y))"
      proof (cases r1)
        case (Inl e)
        with 1(2) d list l s1 show ?thesis by (auto simp: purge_loop.simps [of _ b p "view s"] simp del: spec_driver_sel)
      next
        case (Inr page)
        obtain r2 s2 where del: "try_for (purge_one drv b) (lr_objects page) s1 = (r2, s2)" by fastforce
        from simD [OF sim_try_for [OF sim_purge_one] s1 del]
        have s2: "works s2" and l2: "try_for (purge_one (spec_driver etag) b) (lr_objects page) (view s1) = (r2, view s2)" by auto
        show ?thesis
          using 1(2) d list l s1 Inr del s2 l2 1(1) [of drv b "p\<lparr>lp_marker := lr_next_marker page\<rparr>" s2 y] pre
          by (cases y; cases r2) (auto simp: purge_loop.simps [of _ b p "view s"] simp del: spec_driver_sel split: if_splits)
      qed
    qed
  qed
  from this [OF run] assms works show "works s' \<and> purge_loop (spec_driver etag) b p (view s) = Some (r, view s')" by simp
qed

lemma sim_purge [sim_intros]: "sim_o works view (purge_objects drv b) (purge_objects (spec_driver etag) b)"
  unfolding purge_objects_def
  by (rule sim_purge_loop) (simp_all add: list_params_default_def from_utf8_ok.simps)

lemma sim_bucket_ops [sim_intros]:
  "sim_o works view (bucket_remove drv t n p) (bucket_remove (spec_driver etag) t n p)"
  "sim_o works view (remove_owned drv bk) (remove_owned (spec_driver etag) bk)"
  unfolding bucket_remove_def remove_owned_def by (intro sim_intros)+

lemma sim_user_remove [sim_intros]:
  "sim_o works view (user_remove drv uid p) (user_remove (spec_driver etag) uid p)"
  unfolding user_remove_def list_all_buckets_def
  by (intro sim_intros sim_try_for_o) simp_all

end

subsection \<open>Capabilities\<close>

text \<open>The capability a handler asks for; \<open>None\<close> for those that only answer with an error.\<close>

fun handler_cap :: "admin_handler \<Rightarrow> (string \<times> cap_perm) option" where
  "handler_cap AdminUserGet = Some (''users'', CAP_READ)"
| "handler_cap AdminUserPut = Some (''users'', CAP_WRITE)"
| "handler_cap AdminUserPost = Some (''users'', CAP_WRITE)"
| "handler_cap AdminUserDelete = Some (''users'', CAP_WRITE)"
| "handler_cap AdminBucketGet = Some (''buckets'', CAP_READ)"
| "handler_cap AdminBucketDelete = Some (''buckets'', CAP_WRITE)"
| "handler_cap AdminInfoGet = Some (''info'', CAP_READ)"
| "handler_cap AdminBucketPut = None"
| "handler_cap AdminOther = None"

text \<open>A user may run a handler who is an admin or holds its capability.\<close>

definition may_run :: "identity \<Rightarrow> admin_handler \<Rightarrow> bool" where
  "may_run i h \<longleftrightarrow> (case (identity_user i, handler_cap h) of
       (Some u, Some (cap, perm)) \<Rightarrow> ui_admin u \<or> caps_check_cap (ui_caps u) cap perm
     | _ \<Rightarrow> False)"

lemma may_run_iff:
  "may_run i h \<longleftrightarrow> (case handler_cap h of None \<Rightarrow> False | Some (cap, perm) \<Rightarrow> identity_check_cap i cap perm)"
  by (auto simp: may_run_def identity_check_cap_def split: option.splits)

lemma admin_begin_Inr:
  "admin_begin c names cap perm = Inr a \<longleftrightarrow>
     ad_query c = Inr a \<and> \<not> list_ex (arg_has a) names \<and> identity_check_cap (ad_identity c) cap perm"
  by (auto simp: admin_begin_def admin_args_new_def admin_unsupported_def require_cap_def try_r_Inr_iff split: if_splits)

lemma admin_begin_denied:
  assumes "\<not> identity_check_cap (ad_identity c) cap perm"
  shows "\<exists>e. admin_begin c names cap perm = Inl e \<and>
    (e = AccessDenied \<or> e = NotImplemented \<or> (\<exists>m. ad_query c = Inl m \<and> e = InvalidArgument m))"
  using assms
  by (cases "ad_query c") (auto simp: admin_begin_def admin_args_new_def admin_unsupported_def require_cap_def)

text \<open>Without its capability a handler fails before it calls the driver, whatever the driver is.\<close>

lemma admin_serve_denied:
  assumes "\<not> may_run (ad_identity c) h"
  shows "\<exists>e. admin_serve cr drv fx c h s = Some (Inl e, s) \<and>
    (e = AccessDenied \<or> e = NotImplemented \<or> e = MethodNotAllowed \<or> (\<exists>m. ad_query c = Inl m \<and> e = InvalidArgument m))"
proof -
  have start: "\<exists>e. admin_begin c names cap perm = Inl e \<and>
      (e = AccessDenied \<or> e = NotImplemented \<or> e = MethodNotAllowed \<or> (\<exists>m. ad_query c = Inl m \<and> e = InvalidArgument m))"
    if "handler_cap h = Some (cap, perm)" for names cap perm
    using assms that admin_begin_denied [of c cap perm names] by (auto simp: may_run_iff)
  show ?thesis
  proof (cases h)
    case AdminUserGet
    with start [of "''users''" CAP_READ "[''quota'']"] show ?thesis by (auto simp: admin_user_get_def)
  next
    case AdminUserPut
    with start [of "''users''" CAP_WRITE "[''subuser'', ''quota'']"] show ?thesis by (auto simp: admin_user_put_def)
  next
    case AdminUserPost
    with start [of "''users''" CAP_WRITE "[''subuser'', ''quota'']"] show ?thesis by (auto simp: admin_user_post_def)
  next
    case AdminUserDelete
    with start [of "''users''" CAP_WRITE "[''subuser'', ''quota'']"] show ?thesis by (auto simp: admin_user_delete_def)
  next
    case AdminBucketGet
    with start [of "''buckets''" CAP_READ "[''index'', ''policy'']"] show ?thesis by (auto simp: admin_bucket_get_def)
  next
    case AdminBucketDelete
    with start [of "''buckets''" CAP_WRITE "[''object'']"] show ?thesis by (auto simp: admin_bucket_delete_def)
  next
    case AdminInfoGet
    with assms show ?thesis by (simp add: admin_info_get_def require_cap_def may_run_iff)
  qed (simp_all add: admin_bucket_put_def method_not_allowed_def)
qed

subsection \<open>The handlers\<close>

definition uid_arg :: "admin_call \<Rightarrow> string" where
  "uid_arg c = (case ad_query c of Inl _ \<Rightarrow> [] | Inr a \<Rightarrow> arg_str_or_empty a ''uid'')"

text \<open>
  The calls whose answer the contract fixes: the id names a user in canonical form, and neither
  statistics (the sum of sizes may overflow in SQLite) nor the driver's name are asked for.
\<close>

definition admin_call_ok :: "admin_call \<Rightarrow> admin_handler \<Rightarrow> bool" where
  "admin_call_ok c h \<longleftrightarrow> uid_stable (user_id_parse (uid_arg c)) \<and> h \<noteq> AdminBucketGet \<and> h \<noteq> AdminInfoGet"

lemma user_put_params_uid:
  assumes "ad_query c = Inr a" and "user_put_params a = Inr params"
  shows "uc_uid params = user_id_parse (uid_arg c)"
  using assms
  by (auto simp: user_put_params_def arg_uid_def arg_required_def uid_arg_def arg_str_or_empty_def try_r_Inr_iff
      split: option.splits if_splits)

context driver_client
begin

lemma admin_serve_sim:
  assumes "admin_call_ok c h"
  shows "sim_o works view (admin_serve cr drv fx c h) (admin_serve cr (spec_driver etag) fx c h)"
proof (cases h)
  case AdminUserGet
  show ?thesis unfolding AdminUserGet admin_serve.simps admin_user_get_def by (intro sim_intros)
next
  case AdminUserPut
  have create: "sim works view (user_create drv fx params) (user_create (spec_driver etag) fx params)"
    if "admin_begin c names cap perm = Inr a" "user_put_params a = Inr params" for names cap perm a params
  proof (rule sim_user_create)
    have "ad_query c = Inr a" using that(1) by (simp add: admin_begin_Inr)
    with user_put_params_uid [OF this that(2)] assms show "uid_stable (uc_uid params)" by (simp add: admin_call_ok_def)
  qed
  show ?thesis unfolding AdminUserPut admin_serve.simps admin_user_put_def
    by (rule sim_o_run, rule sim_try_lift, rule sim_if, intro sim_intros, rule sim_if, intro sim_intros,
        rule sim_try_lift, rule sim_try [OF create], assumption, assumption, rule sim_ret)
next
  case AdminUserPost
  show ?thesis unfolding AdminUserPost admin_serve.simps admin_user_post_def by (intro sim_intros)
next
  case AdminUserDelete
  show ?thesis unfolding AdminUserDelete admin_serve.simps admin_user_delete_def by (intro sim_intros)
next
  case AdminBucketPut
  show ?thesis unfolding AdminBucketPut admin_serve.simps admin_bucket_put_def by (intro sim_intros)
next
  case AdminBucketDelete
  show ?thesis unfolding AdminBucketDelete admin_serve.simps admin_bucket_delete_def
    by (intro sim_intros)
next
  case AdminOther
  show ?thesis unfolding AdminOther admin_serve.simps method_not_allowed_def by (intro sim_intros)
qed (use assms in \<open>simp_all add: admin_call_ok_def\<close>)

subsection \<open>Every handler returns\<close>

lemma keeps_refines: "refines sinv view m sp \<Longrightarrow> keeps sinv m"
  by (rule keepsI) (metis prod.collapse refinesD)

lemmas keeps_methods [keeps_intros] =
  keeps_refines [OF load_user_ok] keeps_refines [OF load_key_ok] keeps_refines [OF load_email_ok]
  keeps_refines [OF remove_user_ok] keeps_refines [OF load_bucket_ok] keeps_refines [OF remove_bucket_ok]
  keeps_refines [OF read_stats_ok] keeps_refines [OF delete_object_ok]

lemma keeps_list_buckets [keeps_intros]: "mx < 2 ^ 63 \<Longrightarrow> keeps sinv (list_buckets drv ow m mx)"
  by (rule keeps_refines [OF list_buckets_ok])

lemma ends_list_all [ends_intros]: "ends sinv (list_all_buckets drv ow)"
proof (rule endsI)
  fix s assume "sinv s"
  from list_all_ends [OF this] show "\<exists>r s'. list_all_buckets drv ow s = Some (r, s') \<and> sinv s'"
    unfolding list_all_buckets_def by blast
qed

lemma ends_purge [ends_intros]: "ends sinv (purge_objects drv b)"
proof (rule endsI)
  fix s assume s: "sinv s"
  have p: "purge_params [] = list_params_default" by (simp add: list_params_default_def)
  show "\<exists>r s'. purge_objects drv b s = Some (r, s') \<and> sinv s'"
  proof (cases "bk_bucket_id b \<in> set (g_bucket_ids (view s))")
    case True
    from purge_loop_run [OF s True, of "[]", unfolded p] show ?thesis unfolding purge_objects_def by blast
  next
    case False
    obtain r s1 where run: "list_objects drv b list_params_default s = (r, s1)" by fastforce
    have pre: "from_utf8_ok (lp_prefix list_params_default)" "CHR 0x00 \<notin> set (lp_prefix list_params_default)"
      by (simp_all add: list_params_default_def from_utf8_ok.simps)
    from refinesD [OF list_objects_ok [OF pre] s run] False obtain e where "r = Inl e" "sinv s1"
      by (auto simp: spec_list_objects_def)
    with run show ?thesis by (simp add: purge_objects_def purge_loop.simps [of drv b])
  qed
qed

lemma ends_if: "ends P m \<Longrightarrow> ends P n \<Longrightarrow> ends P (if b then m else n)"
  by simp

lemma ends_bucket_ops [ends_intros]:
  "ends sinv (bucket_remove drv t n p)" "ends sinv (remove_owned drv bk)" "ends sinv (user_remove drv uid pd)"
proof -
  have "keeps sinv (if b then err_a e else ret_a ())" for b and e :: rgw_error by (simp add: keeps_intros)
  then show "ends sinv (bucket_remove drv t n p)" "ends sinv (remove_owned drv bk)" "ends sinv (user_remove drv uid pd)"
    unfolding bucket_remove_def remove_owned_def user_remove_def
    by (intro ends_intros keeps_intros ends_if; simp)+
qed

lemma admin_serve_ends:
  assumes "sinv s"
  shows "\<exists>r s'. admin_serve cr drv fx c h s = Some (r, s')"
proof -
  have returns: "\<exists>r s'. try_o (run_o (lift_a r0)) f s = Some (r, s')"
    if "\<And>x. \<exists>r s'. f x s = Some (r, s')" for r0 :: "rgw_error + 'y" and f :: "'y \<Rightarrow> ('s, rgw_error, reply) oact"
    using that by (cases r0) auto
  have ended: "\<exists>r s'. try_o m (\<lambda>x. run_o (k x)) s = Some (r, s')" if "ends sinv m"
    for m :: "('s, rgw_error, 'y) oact" and k :: "'y \<Rightarrow> ('s, rgw_error, reply) act"
    using endsD [OF that assms] by (auto simp: try_o_apply split: sum.splits)
  show ?thesis
  proof (cases h)
    case AdminUserDelete
    show ?thesis unfolding AdminUserDelete admin_serve.simps admin_user_delete_def
      by (rule returns, rule returns) (auto intro!: returns ended ends_intros simp del: try_o_run)
  next
    case AdminBucketGet
    show ?thesis unfolding AdminBucketGet admin_serve.simps admin_bucket_get_def admin_bucket_list_def Let_def
      by (rule returns, rule returns) (auto intro!: ended ends_intros split: option.splits prod.splits simp del: try_o_run)
  next
    case AdminBucketDelete
    show ?thesis unfolding AdminBucketDelete admin_serve.simps admin_bucket_delete_def
      by (rule returns, rule returns) (auto intro!: returns ended ends_intros split: prod.splits simp del: try_o_run)
  qed (simp_all add: prod_eq_iff)
qed

end

end
