(* ===== verification/Admin_Spec.thy ===== *)
theory Admin_Spec
  imports Admin_Facts
begin

section \<open>What the admin operations do to the store\<close>

text \<open>
  Creating a user, paging through the users, revoking a key and removing a user with everything it
  owns, as equations on the abstract store.
\<close>

subsection \<open>Creating a user\<close>

lemma spec_unused_key_state: "snd (unused_key_loop (spec_driver e) ks g) = g"
  by (induction ks) (auto simp: match_a_apply spec_load_user_by_access_key_def split: sum.splits)

lemma spec_put_key_state: "put_key_request (spec_driver e) fx i key g = (r, g') \<Longrightarrow> g' = g"
proof -
  have "ensure_key_free (spec_driver e) uid k g = (r0, g1) \<Longrightarrow> g1 = g" for uid k r0 g1
    by (auto simp: ensure_key_free_def match_a_apply spec_load_user_by_access_key_def split: sum.splits if_splits)
  moreover have "unused_access_key (spec_driver e) fx g = (r0, g1) \<Longrightarrow> g1 = g" for r0 g1
    using spec_unused_key_state by (metis snd_conv unused_access_key_def)
  moreover assume "put_key_request (spec_driver e) fx i key g = (r, g')"
  ultimately show ?thesis
    unfolding put_key_request_def put_key_def
    by (cases key) (auto elim!: try_aE split: option.splits prod.splits if_splits)
qed

lemma user_by_id:
  assumes "gw_wf g" and "(uid, u) \<in> set (g_users g)"
  shows "bt_get (g_users g) uid = Some u" and "user_id_display (ui_user_id u) = uid"
proof -
  show "bt_get (g_users g) uid = Some u" using assms gw_wf_maps [OF assms(1)] bt_in_get by metis
  from gw_wf_user [OF assms(1) this] show "user_id_display (ui_user_id u) = uid" by simp
qed

text \<open>No other user has the email, and no user has the key, of a user that was created.\<close>

lemma spec_email_free:
  assumes "gw_wf g" and "ensure_email_free (spec_driver e) uid email g = (Inr (), g1)" and "email \<noteq> []"
    and "bt_get (g_users g) (user_id_display uid) = None"
  shows "\<forall>u \<in> snd ` set (g_users g). ui_user_email u \<noteq> email" and "g1 = g"
proof -
  let ?f = "find (\<lambda>u. ui_user_email u = email) (map snd (g_users g))"
  have "?f = None"
  proof (cases ?f)
    case (Some u)
    then have "u \<in> set (map snd (g_users g))" by (metis find_Some_iff nth_mem)
    then obtain k where k: "(k, u) \<in> set (g_users g)" by auto
    from Some assms(2,3) have "ui_user_id u = uid"
      by (auto simp: ensure_email_free_def match_a_apply spec_load_user_by_email_def split: if_splits)
    with user_by_id [OF assms(1) k] assms(4) show ?thesis by simp
  qed simp
  then show "\<forall>u \<in> snd ` set (g_users g). ui_user_email u \<noteq> email" by (auto simp: find_None_iff)
  show "g1 = g" using assms(2)
    by (auto simp: ensure_email_free_def match_a_apply spec_load_user_by_email_def split: sum.splits if_splits)
qed

lemma spec_store_new:
  assumes "gw_wf g" and "spec_store_user info True g = (Inr (), g')"
  shows "bt_get (g_users g) (user_id_display (ui_user_id info)) = None"
    and "\<forall>k. user_has_key info k \<longrightarrow> bt_get (g_keys g) k = None"
    and "g' = g_put_user (user_id_display (ui_user_id info)) info g"
proof -
  let ?uid = "user_id_display (ui_user_id info)"
  show new: "bt_get (g_users g) ?uid = None" and "g' = g_put_user ?uid info g"
    using assms(2) by (auto simp: spec_store_user_def Let_def split: if_splits)
  have clash: "\<not> g_key_clash g ?uid info" using assms(2) by (auto simp: spec_store_user_def Let_def split: if_splits)
  show "\<forall>k. user_has_key info k \<longrightarrow> bt_get (g_keys g) k = None"
  proof (intro allI impI)
    fix k assume "user_has_key info k"
    with clash have "bt_get (g_keys g) k = Some ow \<Longrightarrow> ow = ?uid" for ow
      unfolding g_key_clash_iff user_has_key_def by blast
    with gw_wf_key [OF assms(1), of k ?uid] new show "bt_get (g_keys g) k = None"
      by (cases "bt_get (g_keys g) k") auto
  qed
qed

text \<open>The fields a new user gets from the parameters.\<close>

definition created_from :: "user_create_params \<Rightarrow> user_info \<Rightarrow> bool" where
  "created_from params info \<longleftrightarrow>
     ui_user_id info = uc_uid params \<and> ui_display_name info = uc_display_name params \<and>
     ui_user_email info = unwrap_or (nonempty (uc_email params)) [] \<and>
     ui_max_buckets info = unwrap_or (uc_max_buckets params) RGW_DEFAULT_MAX_BUCKETS \<and>
     ui_suspended info = unwrap_or (uc_suspended params) False \<and>
     ui_system info = unwrap_or (uc_system params) False \<and> ui_admin info = unwrap_or (uc_admin params) False \<and>
     (case nonempty (uc_caps params) of None \<Rightarrow> ui_caps info = caps_new
      | Some caps \<Rightarrow> caps_add_from_string caps_new caps = Inr (ui_caps info)) \<and>
     length (ui_access_keys info) \<le> 1"

lemma put_key_request_Inr:
  assumes "put_key_request drv fx info key s = (Inr info', s')"
  shows "info' = info \<and> key = None \<or> (\<exists>k. info' = add_access_key k info \<and> ak_active k \<and> ak_create_date k = af_key_now fx)"
  using assms by (cases key) (auto simp: put_key_request_def elim!: put_key_Inr)

lemma spec_user_create:
  assumes wf: "gw_wf g" and run: "user_create (spec_driver e) fx params g = (Inr info, g')"
  shows "created_from params info" and "\<not> user_id_is_empty (uc_uid params)"
    and "bt_get (g_users g) (user_id_display (uc_uid params)) = None"
    and "\<forall>k. user_has_key info k \<longrightarrow> bt_get (g_keys g) k = None"
    and "ui_user_email info \<noteq> [] \<longrightarrow> (\<forall>u \<in> snd ` set (g_users g). ui_user_email u \<noteq> ui_user_email info)"
    and "g' = g_put_user (user_id_display (uc_uid params)) info g"
proof -
  let ?i0 = "user_info_new (uc_uid params) (uc_display_name params) (af_now fx)"
  let ?set = "\<lambda>i. i\<lparr>ui_max_buckets := unwrap_or (uc_max_buckets params) (ui_max_buckets i),
      ui_suspended := unwrap_or (uc_suspended params) False, ui_system := unwrap_or (uc_system params) False,
      ui_admin := unwrap_or (uc_admin params) False\<rparr>"
  let ?mail = "\<lambda>i. case nonempty (uc_email params) of
      Some email \<Rightarrow> try_a (ensure_email_free (spec_driver e) (ui_user_id i) email) (\<lambda>_. ret_a (i\<lparr>ui_user_email := email\<rparr>))
    | None \<Rightarrow> ret_a i"
  obtain key i1 i2 g1 g2 where uid: "require_uid (uc_uid params) = Inr ()"
    and caps: "(case nonempty (uc_caps params) of
      Some caps \<Rightarrow> try_r (caps_add_from_string (ui_caps ?i0) caps) (\<lambda>cs. Inr (?i0\<lparr>ui_caps := cs\<rparr>)) | None \<Rightarrow> Inr ?i0) = Inr i1"
    and mail: "?mail i1 g = (Inr i2, g1)"
    and key: "put_key_request (spec_driver e) fx (?set i2) key g1 = (Inr info, g2)"
    and store: "spec_store_user info True g2 = (Inr (), g')"
    using run unfolding user_create_def Let_def
    by (elim try_aE) (auto simp: lift_a_def ret_a_def err_a_def split: if_splits elim!: try_aE)
  obtain cs where i1: "i1 = ?i0\<lparr>ui_caps := cs\<rparr>"
      "case nonempty (uc_caps params) of None \<Rightarrow> cs = caps_new | Some caps \<Rightarrow> caps_add_from_string caps_new caps = Inr cs"
    using caps by (auto simp: try_r_Inr_iff user_info_new_def split: option.splits)
  have i2: "i2 = i1\<lparr>ui_user_email := unwrap_or (nonempty (uc_email params)) []\<rparr>"
    using mail i1(1) by (auto simp: act_Inr_iff unwrap_or_def user_info_new_def split: option.splits)
  have g: "g1 = g" "g2 = g1"
    using mail spec_put_key_state [OF key]
    by (auto simp: act_Inr_iff ensure_email_free_def match_a_apply spec_load_user_by_email_def split: option.splits sum.splits if_splits)
  note info = put_key_request_Inr [OF key]
  show made: "created_from params info"
    using info i1 i2 by (auto simp: created_from_def add_access_key_def user_info_new_def split: option.splits)
  show "\<not> user_id_is_empty (uc_uid params)" using uid by (auto simp: require_uid_def split: if_splits)
  have id: "ui_user_id info = uc_uid params" using made by (simp add: created_from_def)
  note st = spec_store_new [OF wf store [unfolded g], unfolded id]
  show "bt_get (g_users g) (user_id_display (uc_uid params)) = None"
    "\<forall>k. user_has_key info k \<longrightarrow> bt_get (g_keys g) k = None"
    "g' = g_put_user (user_id_display (uc_uid params)) info g" using st by blast+
  show "ui_user_email info \<noteq> [] \<longrightarrow> (\<forall>u \<in> snd ` set (g_users g). ui_user_email u \<noteq> ui_user_email info)"
  proof
    assume ne: "ui_user_email info \<noteq> []"
    then have em: "nonempty (uc_email params) = Some (ui_user_email info)"
      using made by (cases "nonempty (uc_email params)") (auto simp: created_from_def unwrap_or_def)
    then have "ensure_email_free (spec_driver e) (uc_uid params) (ui_user_email info) g = (Inr (), g1)"
      using mail i1(1) by (auto simp: act_Inr_iff)
    from spec_email_free(1) [OF wf this ne st(1)]
    show "\<forall>u \<in> snd ` set (g_users g). ui_user_email u \<noteq> ui_user_email info" .
  qed
qed

subsection \<open>Listing users\<close>

definition users_after :: "gw \<Rightarrow> string \<Rightarrow> string list" where
  "users_after g m = filter (\<lambda>u. m < u) (bt_keys (g_users g))"

definition page_len :: "nat \<Rightarrow> nat" where
  "page_len mx = (if mx = 0 then DEFAULT_MAX_ENTRIES else min mx DEFAULT_MAX_ENTRIES)"

lemma stored_uid_parse:
  assumes "gw_wf g" and "uid \<in> set (bt_keys (g_users g))"
  shows "user_id_display (user_id_parse uid) = uid"
proof -
  obtain u where "(uid, u) \<in> set (g_users g)" using assms(2) by auto
  then have "bt_get (g_users g) uid = Some u" using gw_wf_maps [OF assms(1)] bt_in_get by metis
  from gw_wf_user [OF assms(1) this] show ?thesis by (metis user_id_parse_display)
qed

lemma spec_user_list:
  assumes wf: "gw_wf g" and run: "user_list_page (spec_driver e) m mx g = (r, g')"
  shows "g' = g \<and> (\<exists>page. r = Inr page \<and> map user_id_display (ul_ids page) = take (page_len mx) (users_after g m) \<and>
    ul_truncated page = (page_len mx < length (users_after g m)) \<and>
    (ul_truncated page \<longrightarrow> ul_ids page \<noteq> [] \<and> ul_next_marker page = last (take (page_len mx) (users_after g m))))"
proof -
  let ?us = "users_after g m" and ?n = "page_len mx"
  have n: "?n \<noteq> 0" "(if mx = 0 then DEFAULT_MAX_ENTRIES else min mx DEFAULT_MAX_ENTRIES) = ?n"
    by (simp_all add: page_len_def DEFAULT_MAX_ENTRIES_def)
  have ids: "map user_id_display (map user_id_parse (take k ?us)) = take k ?us" for k
    unfolding map_map by (rule map_idI) (auto dest!: in_set_takeD simp: users_after_def intro: stored_uid_parse [OF wf])
  have "length (take (?n + 1) ?us) > ?n \<longleftrightarrow> ?n < length ?us" by auto
  then have run': "r = Inr \<lparr>ul_ids = map user_id_parse (take ?n ?us), ul_truncated = ?n < length ?us,
      ul_next_marker = (if take ?n ?us \<noteq> [] \<and> ?n < length ?us then user_id_display (last (map user_id_parse (take ?n ?us))) else [])\<rparr>"
    "g' = g" using run
    by (auto simp: user_list_page_def Let_def n(2) try_a_apply spec_list_users_def page_size_def users_after_def [symmetric]
        take_map [symmetric])
  moreover have "take ?n ?us \<noteq> [] \<Longrightarrow> user_id_display (last (map user_id_parse (take ?n ?us))) = last (take ?n ?us)"
    using ids [of ?n] by (metis last_map list.map_disc_iff)
  ultimately show ?thesis using n(1) ids [of ?n] by auto
qed

text \<open>The next page starts where this one ends.\<close>

lemma sorted_rest:
  fixes xs :: "'a::linorder list"
  assumes "sorted_wrt (<) (xs @ ys)" and "xs \<noteq> []"
  shows "filter (\<lambda>u. last xs < u) (xs @ ys) = ys"
proof -
  from assms(2) obtain zs l where "xs = zs @ [l]" by (metis rev_exhaust)
  with assms(1) show ?thesis
    by (auto simp: sorted_wrt_append filter_empty_conv filter_id_conv dest: order.asym)
qed

lemma users_after_rest:
  assumes "gw_wf g" and "n < length (users_after g m)" and "n \<noteq> 0"
  shows "users_after g (last (take n (users_after g m))) = drop n (users_after g m)"
proof -
  let ?us = "users_after g m"
  have sorted: "sorted_wrt (<) ?us"
    using gw_wf_maps [OF assms(1)] by (simp add: users_after_def bt_wf_def sorted_wrt_filter)
  have "last (take n ?us) \<in> set ?us" using assms(2,3)
    by (metis in_set_takeD last_in_set length_greater_0_conv list.size(3) not_less_zero take_eq_Nil)
  then have lt: "m < last (take n ?us)" by (simp add: users_after_def)
  have "users_after g (last (take n ?us)) = filter (\<lambda>u. last (take n ?us) < u) ?us"
    unfolding users_after_def filter_filter by (rule filter_cong [OF refl]) (use lt in \<open>auto simp: users_after_def\<close>)
  also have "\<dots> = filter (\<lambda>u. last (take n ?us) < u) (take n ?us @ drop n ?us)" by simp
  also have "\<dots> = drop n ?us"
    by (rule sorted_rest) (use sorted assms in auto)
  finally show ?thesis .
qed

subsection \<open>Revoking a key\<close>

lemma user_has_key_remove:
  "user_has_key (u\<lparr>ui_access_keys := bt_remove k (ui_access_keys u)\<rparr>) k' \<longleftrightarrow> k' \<noteq> k \<and> user_has_key u k'"
  by (auto simp: user_has_key_def bt_remove_def)

text \<open>
  The index of keys is the one the users give, so it is enough to know what happens to the users.
\<close>

lemma g_keys_by_users:
  assumes "gw_wf g" "gw_wf g'"
    and users: "\<And>uid. bt_get (g_users g') uid = (if uid = i then Some u' else bt_get (g_users g) uid)"
    and u: "bt_get (g_users g) i = Some u" and k: "user_has_key u k"
    and u': "\<And>k'. user_has_key u' k' \<longleftrightarrow> k' \<noteq> k \<and> user_has_key u k'"
  shows "bt_get (g_keys g') k' = (if k' = k then None else bt_get (g_keys g) k')"
proof -
  note iff = gw_wf_key [OF assms(1)] gw_wf_key [OF assms(2)]
  have "bt_get (g_keys g) k = Some i" using iff(1) u k by blast
  then have other: "bt_get (g_keys g) k = Some j \<longleftrightarrow> j = i" for j by auto
  have eq: "bt_get (g_keys g') k' = Some j \<longleftrightarrow> (if k' = k then None else bt_get (g_keys g) k') = Some j" for j
  proof (cases "j = i")
    case True
    then show ?thesis using iff(1) [of k' i] iff(2) [of k' i] users [of i] u u' [of k'] by simp
  next
    case False
    have "bt_get (g_keys g') k' = Some j \<longleftrightarrow> bt_get (g_keys g) k' = Some j"
      unfolding iff users by (simp only: False if_False)
    with False other [of j] show ?thesis by simp
  qed
  show ?thesis by (rule option.exhaust_sel [of "bt_get (g_keys g') k'"]) (use eq in \<open>metis option.exhaust_sel\<close>)+
qed

context driver_client
begin

lemma key_remove_run:
  assumes s: "sinv s" and run: "key_remove drv uid k s = (Inr info, s')"
  shows "sinv s'" and "\<not> user_has_key info k"
    and "bt_get (g_keys (view s)) k = Some (user_id_display uid)"
    and "bt_get (g_keys (view s')) k' = (if k' = k then None else bt_get (g_keys (view s)) k')"
    and "bt_get (g_users (view s')) i = (if i = user_id_display uid then Some info else bt_get (g_users (view s)) i)"
proof -
  obtain u s1 where load: "load_user drv uid s = (Inr u, s1)" and k: "bt_get (ui_access_keys u) k \<noteq> None"
    and info: "info = u\<lparr>ui_access_keys := bt_remove k (ui_access_keys u)\<rparr>"
    and store: "store_user drv info False s1 = (Inr (), s')"
    using run unfolding key_remove_def Let_def
    by (elim try_aE) (auto simp: lift_a_def ret_a_def err_a_def elim!: try_aE split: if_splits)
  from reads_ok(1) [OF s load] have s1: "sinv s1" "view s1 = view s"
    and u: "bt_get (g_users (view s)) (user_id_display uid) = Some u"
    by (auto simp: spec_load_user_def)
  note wf = gw_wf_user [OF sinv_wf [OF s] u]
  then have "user_ok u" by (simp add: user_ok_def canonical_stable)
  with wf have ok: "user_ok info" "canonical_uid (ui_user_id info)" "user_id_display (ui_user_id info) = user_id_display uid"
    unfolding info by (simp_all add: user_ok_remove_key)
  then have "refines sinv view (store_user drv info False) (spec_store_user info False)"
    by (intro store_user_ok) (auto simp: user_ok_def)
  from refinesD [OF this s1(1) store] ok
  show s': "sinv s'" and "\<not> user_has_key info k"
    by (auto simp: info user_has_key_remove)
  have "view s' = g_put_user (user_id_display uid) info (view s)"
    using refinesD [OF \<open>refines sinv view (store_user drv info False) _\<close> s1(1) store] ok(3) s1(2)
    by (auto simp: spec_store_user_def Let_def split: if_splits)
  then show users: "bt_get (g_users (view s')) i = (if i = user_id_display uid then Some info else bt_get (g_users (view s)) i)" for i
    using ok(2) gw_wf_maps [OF sinv_wf [OF s]] by (simp add: g_put_user_def bt_get_insert)
  have held: "user_has_key u k" using k by (simp add: user_has_key_def bt_get_None_iff)
  then show "bt_get (g_keys (view s)) k = Some (user_id_display uid)" using gw_wf_key [OF sinv_wf [OF s]] u by blast
  show "bt_get (g_keys (view s')) k' = (if k' = k then None else bt_get (g_keys (view s)) k')"
    by (rule g_keys_by_users [OF sinv_wf [OF s] sinv_wf [OF s'] users u held]) (simp add: info user_has_key_remove)
qed

end

end
