(* ===== verification/Admin_Cli.thy ===== *)
theory Admin_Cli
  imports Admin_Spec Sqlite
begin

section \<open>\<open>radosgw-admin/src/main.rs\<close>: the command line tool\<close>

text \<open>
  The commands as clap parses them, each run on a driver through the same operations as the admin
  API, and the exit code and the texts \<open>main\<close> ends with. \<open>user list\<close> pages through every id without checking that the listing advances; over a
  driver that meets the contract it ends, with every id.
\<close>

subsection \<open>Commands\<close>

record user_flags =
  uf_uid :: "string option"
  uf_display_name :: "string option"
  uf_email :: "string option"
  uf_access_key :: "string option"
  uf_secret_key :: "string option"
  uf_gen_access_key :: bool
  uf_gen_secret :: bool
  uf_caps :: "string option"
  uf_max_buckets :: "i32 option"
  uf_suspended :: "bool option"
  uf_system :: "bool option"
  uf_admin :: "bool option"
  uf_purge_data :: bool

datatype user_op =
    UserCreate user_flags
  | UserInfoOp user_flags
  | UserModify user_flags
  | UserRm user_flags
  | UserListOp "string option" "nat option"

datatype key_op = KeyCreate user_flags | KeyRm user_flags

datatype caps_op = CapsAdd user_flags | CapsRm user_flags

datatype bucket_op =
    BucketListOp "string option"
  | BucketStatsOp string
  | BucketRmOp string bool

datatype command = UserCmd user_op | KeyCmd key_op | CapsCmd caps_op | BucketCmd bucket_op

definition flags_uid :: "user_flags \<Rightarrow> user_id rgw_result" where
  "flags_uid f = (case uf_uid f of
       Some uid \<Rightarrow> if uid \<noteq> [] then Inr (user_id_parse uid) else Inl (InvalidArgument ''--uid is required'')
     | None \<Rightarrow> Inl (InvalidArgument ''--uid is required''))"

definition flags_generate :: "user_flags \<Rightarrow> bool" where
  "flags_generate f \<longleftrightarrow> uf_gen_access_key f \<or> uf_gen_secret f"

definition cli_parse_bool :: "string \<Rightarrow> string + bool" where
  "cli_parse_bool s =
     (if s \<in> {''true'', ''yes'', ''1''} then Inr True
      else if s \<in> {''false'', ''no'', ''0''} then Inr False
      else Inl (''not a boolean: '' @ s))"

subsection \<open>Running a command\<close>

partial_function (option) list_users_loop ::
    "'s driver \<Rightarrow> json list \<Rightarrow> string \<Rightarrow> ('s, rgw_error, json) oact" where
  [code]: "list_users_loop drv ids marker s =
     (case user_list_page drv marker 0 s of
        (Inl e, s1) \<Rightarrow> Some (Inl e, s1)
      | (Inr page, s1) \<Rightarrow>
          (let ids' = ids @ map (JStr \<circ> user_id_display) (ul_ids page) in
           if \<not> ul_truncated page then Some (Inr (JArr ids'), s1)
           else list_users_loop drv ids' (ul_next_marker page) s1))"

definition list_all_users :: "'s driver \<Rightarrow> string \<Rightarrow> ('s, rgw_error, json) oact" where
  "list_all_users drv marker = list_users_loop drv [] marker"

definition create_flags :: "user_flags \<Rightarrow> user_create_params rgw_result" where
  "create_flags f = try_r (flags_uid f) (\<lambda>uid.
     Inr \<lparr>uc_uid = uid, uc_display_name = unwrap_or (uf_display_name f) [], uc_email = uf_email f,
          uc_access_key = uf_access_key f, uc_secret_key = uf_secret_key f,
          uc_generate_key = (if flags_generate f then Some True else None), uc_caps = uf_caps f,
          uc_max_buckets = uf_max_buckets f, uc_suspended = uf_suspended f, uc_system = uf_system f,
          uc_admin = uf_admin f\<rparr>)"

definition modify_flags :: "user_flags \<Rightarrow> user_modify_params rgw_result" where
  "modify_flags f = try_r (flags_uid f) (\<lambda>uid.
     Inr \<lparr>um_uid = uid, um_display_name = uf_display_name f, um_email = uf_email f,
          um_max_buckets = uf_max_buckets f, um_suspended = uf_suspended f, um_system = uf_system f,
          um_admin = uf_admin f, um_access_key = uf_access_key f, um_secret_key = uf_secret_key f,
          um_generate_key = flags_generate f\<rparr>)"

fun cli_user :: "'j crates \<Rightarrow> 's driver \<Rightarrow> admin_fx \<Rightarrow> user_op \<Rightarrow> ('s, rgw_error, json option) oact" where
  "cli_user cr drv fx (UserCreate f) =
     run_o (try_a (lift_a (create_flags f)) (\<lambda>params.
            try_a (user_create drv fx params) (\<lambda>info.
            ret_a (Some (dump_user_info cr info)))))"
| "cli_user cr drv fx (UserInfoOp f) =
     run_o (try_a (lift_a (flags_uid f)) (\<lambda>uid.
            try_a (user_show drv uid) (\<lambda>info.
            ret_a (Some (dump_user_info cr info)))))"
| "cli_user cr drv fx (UserModify f) =
     run_o (try_a (lift_a (modify_flags f)) (\<lambda>params.
            try_a (user_modify drv fx params) (\<lambda>info.
            ret_a (Some (dump_user_info cr info)))))"
| "cli_user cr drv fx (UserRm f) =
     try_o (run_o (lift_a (flags_uid f))) (\<lambda>uid.
     try_o (user_remove drv uid (uf_purge_data f)) (\<lambda>_.
     run_o (ret_a None)))"
| "cli_user cr drv fx (UserListOp marker mx) =
     (case mx of
        Some n \<Rightarrow> run_o (try_a (user_list_page drv (unwrap_or marker []) n) (\<lambda>page.
                         ret_a (Some (dump_user_list (ul_ids page) (ul_truncated page) (ul_next_marker page)))))
      | None \<Rightarrow> try_o (list_all_users drv (unwrap_or marker [])) (\<lambda>doc. run_o (ret_a (Some doc))))"

fun cli_key :: "'j crates \<Rightarrow> 's driver \<Rightarrow> admin_fx \<Rightarrow> key_op \<Rightarrow> ('s, json option) rgw_act" where
  "cli_key cr drv fx (KeyCreate f) =
     (let generate = flags_generate f \<or> uf_access_key f = None in
      try_a (lift_a (flags_uid f)) (\<lambda>uid.
      try_a (key_create drv fx uid (uf_access_key f) (uf_secret_key f) generate) (\<lambda>info.
      ret_a (Some (dump_user_info cr info)))))"
| "cli_key cr drv fx (KeyRm f) =
     try_a (lift_a (flags_uid f)) (\<lambda>uid.
     try_a (key_remove drv uid (unwrap_or (uf_access_key f) [])) (\<lambda>info.
     ret_a (Some (dump_user_info cr info))))"

fun cli_caps :: "'j crates \<Rightarrow> 's driver \<Rightarrow> caps_op \<Rightarrow> ('s, json option) rgw_act" where
  "cli_caps cr drv (CapsAdd f) =
     try_a (lift_a (flags_uid f)) (\<lambda>uid.
     try_a (caps_add drv uid (unwrap_or (uf_caps f) [])) (\<lambda>info.
     ret_a (Some (dump_user_info cr info))))"
| "cli_caps cr drv (CapsRm f) =
     try_a (lift_a (flags_uid f)) (\<lambda>uid.
     try_a (caps_remove drv uid (unwrap_or (uf_caps f) [])) (\<lambda>info.
     ret_a (Some (dump_user_info cr info))))"

fun cli_bucket :: "'j crates \<Rightarrow> 's driver \<Rightarrow> bucket_op \<Rightarrow> ('s, rgw_error, json option) oact" where
  "cli_bucket cr drv (BucketListOp uid) =
     (let ow = map_option user_id_parse (nonempty uid) in
      try_o (admin_bucket_list drv ow) (\<lambda>buckets.
      run_o (ret_a (Some (JArr (map (\<lambda>b. JStr (bk_name (bi_bucket b))) buckets))))))"
| "cli_bucket cr drv (BucketStatsOp bucket) =
     (case parse_bucket bucket of (tenant, name) \<Rightarrow>
        run_o (try_a (admin_bucket_info drv tenant name) (\<lambda>(info, stats).
               ret_a (Some (dump_bucket_info cr info (Some stats))))))"
| "cli_bucket cr drv (BucketRmOp bucket purge) =
     (case parse_bucket bucket of (tenant, name) \<Rightarrow>
        try_o (bucket_remove drv tenant name purge) (\<lambda>_.
        run_o (ret_a None)))"

fun cli_run :: "'j crates \<Rightarrow> 's driver \<Rightarrow> admin_fx \<Rightarrow> command \<Rightarrow> ('s, rgw_error, json option) oact" where
  "cli_run cr drv fx (UserCmd op) = cli_user cr drv fx op"
| "cli_run cr drv fx (KeyCmd op) = run_o (cli_key cr drv fx op)"
| "cli_run cr drv fx (CapsCmd op) = run_o (cli_caps cr drv op)"
| "cli_run cr drv fx (BucketCmd op) = cli_bucket cr drv op"

subsection \<open>\<open>main\<close>\<close>

record cli_exit =
  ce_success :: bool
  ce_stdout :: string
  ce_stderr :: string

definition NL :: string where
  "NL = [CHR 0x0A]"

definition cli_report :: "'j crates \<Rightarrow> rgw_error + json option \<Rightarrow> cli_exit" where
  "cli_report cr r = (case r of
       Inr (Some doc) \<Rightarrow>
         (case json_pretty cr doc of
            Inr s \<Rightarrow> \<lparr>ce_success = True, ce_stdout = s @ NL, ce_stderr = []\<rparr>
          | Inl e \<Rightarrow> \<lparr>ce_success = False, ce_stdout = [], ce_stderr = ''ERROR: InternalError: '' @ e @ NL\<rparr>)
     | Inr None \<Rightarrow> \<lparr>ce_success = True, ce_stdout = [], ce_stderr = []\<rparr>
     | Inl e \<Rightarrow> \<lparr>ce_success = False, ce_stdout = [],
                 ce_stderr = ''ERROR: '' @ error_code e @ '': '' @ error_display e @ NL\<rparr>)"

text \<open>A session opens the database and runs one command; for \<open>main\<close> the state is the database file, with the failures to come.\<close>

definition cli_session ::
    "'j crates \<Rightarrow> ('s, unit) rgw_act \<Rightarrow> 's driver \<Rightarrow> admin_fx \<Rightarrow> command \<Rightarrow> 's \<Rightarrow> (cli_exit \<times> 's) option" where
  "cli_session cr open drv fx cmd s =
     map_option (\<lambda>(r, s'). (cli_report cr r, s'))
       (try_o (run_o open) (\<lambda>_. cli_run cr drv fx cmd) s)"

definition cli_main :: "'j crates \<Rightarrow> admin_fx \<Rightarrow> command \<Rightarrow> 'j conn \<Rightarrow> (cli_exit \<times> 'j conn) option" where
  "cli_main cr fx cmd c = cli_session cr sq_open (sqlite_driver cr) fx cmd c"

subsection \<open>Over a driver\<close>

context driver_client
begin

text \<open>One page of users, whether or not the driver fails.\<close>

lemma user_page_run:
  assumes s: "sinv s" and run: "user_list_page drv m 0 s = (r, s')"
  shows "sinv s'" and "view s' = view s" and "calm s \<Longrightarrow> calm s'"
    and "(\<exists>e. r = Inl e \<and> is_internal e) \<and> \<not> calm s \<or> r = fst (user_list_page (spec_driver etag) m 0 (view s))"
proof -
  obtain r0 s0 where lu: "list_users drv m (DEFAULT_MAX_ENTRIES + 1) s = (r0, s0)" by fastforce
  have small: "DEFAULT_MAX_ENTRIES + 1 < 2 ^ 63" by (simp add: DEFAULT_MAX_ENTRIES_def)
  have "DEFAULT_MAX_ENTRIES + 1 < 2 ^ 64" by (simp add: DEFAULT_MAX_ENTRIES_def)
  from reads_ok(4) [OF this s lu] have 0: "sinv s0" "view s0 = view s"
    "(\<exists>e. r0 = Inl e \<and> is_internal e) \<or> r0 = fst (spec_list_users m (DEFAULT_MAX_ENTRIES + 1) (view s))" by auto
  have c: "calm s \<Longrightarrow> calm s0 \<and> r0 = fst (spec_list_users m (DEFAULT_MAX_ENTRIES + 1) (view s))"
    using exactD [OF list_users_exact [OF small] s _ lu] by (metis fst_conv)
  have sp: "snd (spec_list_users m (DEFAULT_MAX_ENTRIES + 1) (view s)) = view s" by (simp add: spec_list_users_def)
  have "s' = s0" using run lu by (auto simp: user_list_page_def Let_def try_a_apply split: sum.splits)
  then show "sinv s'" "view s' = view s" "calm s \<Longrightarrow> calm s'" using 0 c by simp_all
  show "(\<exists>e. r = Inl e \<and> is_internal e) \<and> \<not> calm s \<or> r = fst (user_list_page (spec_driver etag) m 0 (view s))"
    using run lu 0(3) c
    by (cases "calm s") (auto simp: user_list_page_def Let_def try_a_apply spec_list_users_def split: sum.splits)
qed

lemma list_users_ends:
  assumes "sinv s"
  shows "\<exists>r s'. list_users_loop drv ids m s = Some (r, s') \<and> sinv s' \<and> view s' = view s \<and>
    ((\<exists>e. r = Inl e \<and> is_internal e) \<and> \<not> calm s \<or> r = Inr (JArr (ids @ map JStr (users_after (view s) m))))"
  using assms
proof (induction "length (users_after (view s) m)" arbitrary: s ids m rule: less_induct)
  case less
  let ?us = "users_after (view s) m"
  note wf = sinv_wf [OF less.prems]
  obtain r1 s1 where run: "user_list_page drv m 0 s = (r1, s1)" by fastforce
  note up = user_page_run [OF less.prems run]
  obtain r2 g2 where "user_list_page (spec_driver etag) m 0 (view s) = (r2, g2)" by fastforce
  from spec_user_list [OF wf this] this obtain page where
    page: "fst (user_list_page (spec_driver etag) m 0 (view s)) = Inr page"
      "map user_id_display (ul_ids page) = take 1000 ?us" "ul_truncated page = (1000 < length ?us)"
      "ul_truncated page \<longrightarrow> ul_next_marker page = last (take 1000 ?us)"
    by (auto simp: page_len_def DEFAULT_MAX_ENTRIES_def)
  then have docs: "map (JStr \<circ> user_id_display) (ul_ids page) = map JStr (take 1000 ?us)"
    by (metis map_map)
  show ?case
  proof (cases r1)
    case (Inl e)
    with up(4) page(1) have "is_internal e" "\<not> calm s" by auto
    moreover have "list_users_loop drv ids m s = Some (Inl e, s1)"
      using run Inl by (simp add: list_users_loop.simps [of drv ids m])
    ultimately show ?thesis using up(1,2) by blast
  next
    case (Inr p)
    with up(4) page(1) have p: "p = page" by auto
    show ?thesis
    proof (cases "1000 < length ?us")
      case False
      then have "list_users_loop drv ids m s = Some (Inr (JArr (ids @ map JStr ?us)), s1)"
        using run Inr p page(3) docs by (simp add: list_users_loop.simps [of drv ids m] Let_def)
      with up(1,2) show ?thesis by blast
    next
      case True
      let ?m = "last (take 1000 ?us)"
      have step: "list_users_loop drv ids m s = list_users_loop drv (ids @ map JStr (take 1000 ?us)) ?m s1"
        using run Inr p page(3,4) docs True by (simp add: list_users_loop.simps [of drv ids m] Let_def)
      have rest: "users_after (view s) ?m = drop 1000 ?us" by (rule users_after_rest [OF wf True]) simp
      with True up(2) have "length (users_after (view s1) ?m) < length ?us" by simp
      from less.hyps [OF this up(1)] obtain r' s' where
        ih: "list_users_loop drv (ids @ map JStr (take 1000 ?us)) ?m s1 = Some (r', s')" "sinv s'" "view s' = view s1"
          "(\<exists>e. r' = Inl e \<and> is_internal e) \<and> \<not> calm s1 \<or>
           r' = Inr (JArr ((ids @ map JStr (take 1000 ?us)) @ map JStr (users_after (view s1) ?m)))" by blast
      have "map JStr (take 1000 ?us) @ map JStr (drop 1000 ?us) = map JStr ?us"
        by (metis append_take_drop_id map_append)
      with ih(4) up(2,3) rest have "(\<exists>e. r' = Inl e \<and> is_internal e) \<and> \<not> calm s \<or> r' = Inr (JArr (ids @ map JStr ?us))"
        by auto
      with ih(1-3) step up(2) show ?thesis by auto
    qed
  qed
qed

lemma cli_run_ends:
  assumes "sinv s"
  shows "\<exists>r s'. cli_run cr drv fx cmd s = Some (r, s')"
proof -
  have ended: "\<exists>r s'. try_o m (\<lambda>x. run_o (k x)) s = Some (r, s')" if "ends sinv m"
    for m :: "('s, rgw_error, 'y) oact" and k :: "'y \<Rightarrow> ('s, rgw_error, json option) act"
    using endsD [OF that assms] by (auto simp: try_o_apply split: sum.splits)
  have users: "ends sinv (list_all_users drv m)" for m
    unfolding list_all_users_def using list_users_ends by (intro endsI) meson
  have user: "\<exists>r s'. cli_user cr drv fx op s = Some (r, s')" for op
  proof (cases op)
    case (UserRm f)
    then show ?thesis
      by (cases "flags_uid f") (auto intro!: ended ends_intros simp: lift_a_def)
  next
    case (UserListOp m n)
    then show ?thesis by (cases n) (auto intro!: ended users simp: prod_eq_iff)
  qed (simp_all add: prod_eq_iff)
  have bucket: "\<exists>r s'. cli_bucket cr drv op s = Some (r, s')" for op
    by (cases op) (auto intro!: ended ends_intros simp: admin_bucket_list_def Let_def prod_eq_iff simp del: try_o_run split: prod.splits)
  show ?thesis by (cases cmd) (simp_all add: user bucket prod_eq_iff)
qed

end

end
