(* ===== verification/Admin_Purge.thy ===== *)
theory Admin_Purge
  imports Admin_Facts
begin

section \<open>Removing a user with everything it owns\<close>

text \<open>
  What \<open>user rm --purge-data\<close> leaves of the store: the user, its keys, its buckets and the objects
  in them are gone, everything else is as it was. An object with an empty name would stay, since a
  listing starts after the empty marker; the store is assumed to hold none.
\<close>

definition named_objects :: "gw \<Rightarrow> bool" where
  "named_objects g \<longleftrightarrow> (\<forall>e \<in> set (g_objects g). snd (fst e) \<noteq> [])"

definition g_drop_buckets :: "bucket_info list \<Rightarrow> gw \<Rightarrow> gw" where
  "g_drop_buckets bs g =
     g\<lparr>g_buckets := filter (\<lambda>e. snd e \<notin> set bs) (g_buckets g),
       g_objects := filter (\<lambda>e. fst (fst e) \<notin> b_id ` set bs) (g_objects g)\<rparr>"

definition g_drop_user :: "string \<Rightarrow> gw \<Rightarrow> gw" where
  "g_drop_user uid g =
     g\<lparr>g_users := bt_remove uid (g_users g), g_keys := filter (\<lambda>(_, ow). ow \<noteq> uid) (g_keys g)\<rparr>"

lemma nil_less: "[] < (x :: string) \<longleftrightarrow> x \<noteq> []"
  by (cases x) auto

lemma g_drop_none [simp]: "g_drop_buckets [] g = g"
  by (simp add: g_drop_buckets_def)

lemma g_drop_step: "g_drop_buckets bs (g_drop_buckets [b] g) = g_drop_buckets (b # bs) g"
  by (cases g) (auto simp: g_drop_buckets_def intro!: filter_cong)

lemma named_drop: "named_objects g \<Longrightarrow> named_objects (g_drop_buckets bs g)"
  by (auto simp: named_objects_def g_drop_buckets_def)

lemma bucket_by_key:
  assumes "gw_wf g" and "(k, b) \<in> set (g_buckets g)"
  shows "k = (bk_name (bi_bucket b), bk_tenant (bi_bucket b))" and "bt_get (g_buckets g) k = Some b"
    and "b_id b \<in> set (g_bucket_ids g)"
proof -
  show "bt_get (g_buckets g) k = Some b" using assms gw_wf_maps [OF assms(1)] bt_in_get by metis
  with gw_wf_bucket [OF assms(1), of "fst k" "snd k" b]
  show "k = (bk_name (bi_bucket b), bk_tenant (bi_bucket b))" by (simp add: prod_eq_iff)
  show "b_id b \<in> set (g_bucket_ids g)" using assms(2) by (force simp: g_bucket_ids_def)
qed

text \<open>Removing a bucket after its objects.\<close>

lemma spec_remove_purged:
  assumes wf: "gw_wf g" and b: "(k, b) \<in> set (g_buckets g)" and "named_objects g"
    and g': "g' = g_without (b_id b) {n. [] < n} g"
  shows "spec_remove_bucket (bk_tenant (bi_bucket b)) (bk_name (bi_bucket b)) g' = (Inr (), g_drop_buckets [b] g)"
proof -
  note key = bucket_by_key [OF wf b]
  have objs: "g_objects g' = filter (\<lambda>e. fst (fst e) \<noteq> b_id b) (g_objects g)"
    unfolding g' g_without_def using assms(3) by (auto simp: named_objects_def nil_less intro!: filter_cong)
  have "bt_remove k (g_buckets g) = filter (\<lambda>e. snd e \<noteq> b) (g_buckets g)"
    unfolding bt_remove_def case_prod_unfold
  proof (rule filter_cong [OF refl])
    fix e assume "e \<in> set (g_buckets g)"
    then have e: "(fst e, snd e) \<in> set (g_buckets g)" by simp
    from bucket_by_key(1,2) [OF wf e] key(1,2) show "(fst e \<noteq> k) = (snd e \<noteq> b)" by auto
  qed
  then show ?thesis
    using key objs unfolding g'
    by (cases g) (simp add: spec_remove_bucket_def g_objects_of_def g_drop_buckets_def g_without_def)
qed

context driver_client
begin

lemma remove_owned_run:
  assumes s: "works s" and b: "(k, b) \<in> set (g_buckets (view s))" and named: "named_objects (view s)"
  shows "\<exists>s'. remove_owned drv b s = Some (Inr (), s') \<and> works s' \<and> view s' = g_drop_buckets [b] (view s)"
proof -
  have inv: "sinv s" "calm s" using s by (simp_all add: works_def)
  note wf = sinv_wf [OF inv(1)]
  from purge_loop_run [OF inv(1) bucket_by_key(3) [OF wf b], of "[]"] inv(2)
  obtain s1 where p: "purge_loop drv (bi_bucket b) (purge_params []) s = Some (Inr (), s1)" "works s1"
    "view s1 = g_without (b_id b) {n. [] < n} (view s)" by (auto simp: works_def)
  obtain r s' where rm: "remove_bucket drv (bk_tenant (bi_bucket b)) (bk_name (bi_bucket b)) s1 = (r, s')" by fastforce
  from simD [OF sim_methods(6) p(2) rm] spec_remove_purged [OF wf b named p(3)]
  have "works s'" "r = Inr ()" "view s' = g_drop_buckets [b] (view s)" by simp_all
  then show ?thesis using p(1) rm
    by (simp add: remove_owned_def purge_objects_def try_o_apply list_params_default_def)
qed

lemma remove_all_run:
  assumes "works s" and "set bs \<subseteq> snd ` set (g_buckets (view s))" and "distinct bs" and "named_objects (view s)"
  shows "\<exists>s'. try_for_o (remove_owned drv) bs s = Some (Inr (), s') \<and> works s' \<and>
    view s' = g_drop_buckets bs (view s)"
  using assms
proof (induction bs arbitrary: s)
  case (Cons b bs)
  then obtain k where "(k, b) \<in> set (g_buckets (view s))" by auto
  from remove_owned_run [OF Cons.prems(1) this Cons.prems(4)] obtain s1 where
    s1: "remove_owned drv b s = Some (Inr (), s1)" "works s1" "view s1 = g_drop_buckets [b] (view s)" by blast
  have "set bs \<subseteq> snd ` set (g_buckets (view s1))"
    using Cons.prems(2,3) by (force simp: s1(3) g_drop_buckets_def)
  from Cons.IH [OF s1(2) this] Cons.prems(3,4) s1 show ?case
    by (auto simp: try_o_apply g_drop_step named_drop)
qed (simp add: works_def)

text \<open>The buckets a listing for the user returns are the ones it owns.\<close>

lemma user_remove_purged:
  assumes s: "works s" and "\<not> user_id_is_empty uid" and dt: "default_tenant (view s)" and named: "named_objects (view s)"
    and user: "bt_get (g_users (view s)) (user_id_display uid) \<noteq> None"
  shows "\<exists>s'. user_remove drv uid True s = Some (Inr (), s') \<and> works s' \<and>
    view s' = g_drop_user (user_id_display uid) (g_drop_buckets (g_buckets_of (view s) (Some uid) []) (view s))"
proof -
  let ?bs = "g_buckets_of (view s) (Some uid) []"
  obtain r0 s0 where load: "load_user drv uid s = (r0, s0)" by fastforce
  have s0: "works s0" "view s0 = view s" "\<exists>x. r0 = Inr x"
    using simD [OF sim_methods(1) s load] user by (auto simp: spec_load_user_def)
  have inv: "sinv s0" "calm s0" using s0(1) by (simp_all add: works_def)
  from list_all_ends [OF inv(1), of "Some uid" "[]" "[]"] inv(2) s0(2) dt obtain s1 where
    l: "list_all_loop drv (Some uid) [] [] s0 = Some (Inr ?bs, s1)" "works s1" "view s1 = view s"
    by (auto simp: works_def)
  have "distinct ?bs"
    using g_buckets_distinct [OF sinv_wf dt] s by (auto simp: works_def distinct_map)
  moreover have "set ?bs \<subseteq> snd ` set (g_buckets (view s1))" by (auto simp: g_buckets_of_def l(3))
  ultimately obtain s2 where d: "try_for_o (remove_owned drv) ?bs s1 = Some (Inr (), s2)" "works s2"
    "view s2 = g_drop_buckets ?bs (view s)" using remove_all_run [OF l(2)] named l(3) by metis
  obtain r s' where rm: "remove_user drv uid s2 = (r, s')" by fastforce
  have "r = Inr ()" "works s'" "view s' = g_drop_user (user_id_display uid) (g_drop_buckets ?bs (view s))"
    using simD [OF sim_methods(4) d(2) rm] user d(3)
    by (auto simp: spec_remove_user_def g_drop_buckets_def g_drop_user_def Let_def)
  moreover have "user_remove drv uid True s = Some (r, s')"
    using load s0(3) l(1) d(1) rm assms(2)
    by (auto simp: user_remove_def list_all_buckets_def require_uid_def try_o_apply)
  ultimately show ?thesis by blast
qed

end

text \<open>In one step: what is left of the store when everything that belongs to \<open>uid\<close> is gone.\<close>

definition g_purge_user :: "string \<Rightarrow> gw \<Rightarrow> gw" where
  "g_purge_user uid g =
     (let own = filter (\<lambda>b. user_id_display (bi_owner b) = uid) (map snd (g_buckets g)) in
      g\<lparr>g_users := filter (\<lambda>(k, _). k \<noteq> uid) (g_users g), g_keys := filter (\<lambda>(_, ow). ow \<noteq> uid) (g_keys g),
        g_buckets := filter (\<lambda>(_, b). user_id_display (bi_owner b) \<noteq> uid) (g_buckets g),
        g_objects := filter (\<lambda>((i, _), _). i \<notin> set (map b_id own)) (g_objects g)\<rparr>)"

lemma g_purge_steps:
  assumes "gw_wf g" and "default_tenant g"
  shows "g_drop_user (user_id_display uid) (g_drop_buckets (g_buckets_of g (Some uid) []) g) = g_purge_user (user_id_display uid) g"
proof -
  have "g_buckets_of g (Some uid) [] = filter (\<lambda>b. user_id_display (bi_owner b) = user_id_display uid) (map snd (g_buckets g))"
    unfolding g_buckets_of_def
  proof (rule filter_cong [OF refl])
    fix b assume "b \<in> set (map snd (g_buckets g))"
    then obtain k where k: "(k, b) \<in> set (g_buckets g)" by auto
    with assms(2) bucket_by_key(1) [OF assms(1) k] have "bk_name (bi_bucket b) \<noteq> []"
      by (auto simp: default_tenant_def)
    then show "([] < bk_name (bi_bucket b) \<and> (case Some uid of None \<Rightarrow> True | Some u \<Rightarrow> user_id_display (bi_owner b) = user_id_display u))
        = (user_id_display (bi_owner b) = user_id_display uid)" by (simp add: nil_less)
  qed
  moreover have "filter (\<lambda>e. snd e \<notin> set (filter P (map snd xs))) xs = filter (\<lambda>e. \<not> P (snd e)) xs" for P and xs :: "('a \<times> 'b) list"
    by (rule filter_cong [OF refl]) auto
  ultimately show ?thesis
    unfolding g_drop_user_def g_drop_buckets_def g_purge_user_def Let_def bt_remove_def case_prod_unfold
      set_map [of b_id, symmetric]
    by (cases g) simp
qed

end
