(* ===== verification/Sqlite_Client.thy ===== *)
theory Sqlite_Client
  imports S3_Quota Admin_Cli Admin_Purge Sqlite_Props
begin

section \<open>The clients on the SQLite driver\<close>

text \<open>
  The locale of clients holds what the S3 service, the admin operations and the command line tool do over any driver that
  meets the contract. Here it is interpreted on the SQLite driver: \<open>sq_inv\<close> is the invariant every
  history keeps, \<open>sq_view\<close> the abstract store the tables stand for, and \<open>sq_calm\<close> says that SQLite
  does not fail.
\<close>

interpretation sg: driver_client "sqlite_driver cr" "sq_inv cr" "sq_view cr" "md5_hex cr" "sq_calm cr" cr for cr :: "'j crates"
  by unfold_locales

lemma sq_works [simp]: "sg.works cr s \<longleftrightarrow> sq_inv cr s \<and> sq_calm cr s"
  by (simp add: sg.works_def)

end
