(* ===== verification/S3_Props.thy ===== *)
theory S3_Props
  imports Sqlite_Client
begin

section \<open>What the S3 service over the SQLite driver guarantees\<close>

text \<open>
  The lemmas of the locale of clients, on the SQLite driver, are the properties of the S3 handlers
  over a real database. Each property is run on the store of two objects of \<open>Sqlite_Props\<close>.
\<close>

lemma http_status_error: "400 \<le> http_status e"
  by (cases e) simp_all

lemma finish_status: "\<exists>e. r = Inl e \<Longrightarrow> 400 \<le> rs_status (s3_response cr r)"
  by (auto simp: s3_response_def s3_error_status http_status_error)

subsection \<open>Calls on the demonstration store\<close>

definition demo_identity :: identity where
  "demo_identity = User \<lparr>au_info = demo_alice, au_access_key_id = ''AKID''\<rparr>"

definition demo_call :: "identity \<Rightarrow> headers \<Rightarrow> object_body \<Rightarrow> s3_call" where
  "demo_call i hs body = \<lparr>sc_identity = i, sc_request_id = ''tx'', sc_method = ''PUT'', sc_path = ''/b'',
     sc_query = None, sc_headers = hs, sc_body = body\<rparr>"

definition demo_fx :: effects where
  "demo_fx = \<lparr>fx_uuid = ''u'', fx_now = 9\<rparr>"

abbreviation demo_serve :: "s3_call \<Rightarrow> s3_handler \<Rightarrow> (json conn, s3_error, response) oact" where
  "demo_serve \<equiv> s3_serve demo_crates (sqlite_driver demo_crates) demo_fx"

abbreviation demo_spec_serve :: "s3_call \<Rightarrow> s3_handler \<Rightarrow> (gw, s3_error, response) oact" where
  "demo_spec_serve \<equiv> s3_serve demo_crates (spec_driver (md5_hex demo_crates)) demo_fx"

lemma demo_identity_user [simp]: "identity_user demo_identity = Some demo_alice"
  by (simp add: demo_identity_def)

lemma demo_alice_id: "ui_user_id demo_alice = user_id_new ''alice''" "ui_max_buckets demo_alice = 1000"
  "ui_system demo_alice = False" "ui_admin demo_alice = False"
  by (simp_all add: demo_alice_def add_access_key_def user_info_new_def RGW_DEFAULT_MAX_BUCKETS_def)

lemma demo_gw_buckets: "g_buckets demo_gw = [((''b'', []), demo_bucket)]"
proof -
  have "canon_bucket demo_bucket = demo_bucket" by code_simp
  then show ?thesis
    by (simp add: demo_gw_def demo_ops_def demo_put_def gw_empty_def try_a_apply spec_create_bucket_def
      spec_put_object_def g_bucket_ids_def demo_bucket_key_def bucket_key_new_def Let_def
      object_key_new_def demo_bucket_def)
qed

lemma demo_bucket_get: "bt_get (g_buckets demo_gw) (n, []) = (if n = ''b'' then Some demo_bucket else None)"
  by (simp add: demo_gw_buckets bt_get_def)

lemma demo_may_access [simp]: "may_access demo_identity demo_bucket" "\<not> may_access Anonymous demo_bucket"
  by (simp_all add: may_access_iff demo_alice_id demo_bucket_def)

lemma demo_default_tenant: "default_tenant demo_gw"
  by (simp add: default_tenant_def demo_gw_buckets)

lemma demo_uid_stable: "uid_stable (user_id_new ''alice'')"
  by code_simp

lemma demo_call_ok:
  "from_utf8_ok (handler_key h) \<Longrightarrow> body_fits body \<Longrightarrow> i = demo_identity \<or> i = Anonymous \<Longrightarrow> \<forall>b. h \<noteq> BucketHead b \<Longrightarrow>
   call_ok demo_crates (demo_call i hs body) h"
  by (auto simp: call_ok_def demo_call_def prefix_arg_def args_parse_def args_get_def or_default_def demo_alice_id
      demo_uid_stable)

lemma demo_runs:
  obtains r s' where "demo_serve c h demo_store = Some (r, s')"
  using sg.s3_serve_returns [OF demo_store_inv] by blast

subsection \<open>Access\<close>

text \<open>
  C24 (safety): a request about a bucket, by a caller who is neither its owner nor a \<open>system\<close> or
  \<open>admin\<close> user, anonymous callers included, is answered with an error and leaves the store exactly as
  it was, whatever SQLite does meanwhile; so does a request about a bucket that does not exist.
\<close>

theorem s3_denied:
  assumes "sq_inv cr s" and "handler_bucket h = Some n"
    and "\<not> granted_on (sq_view cr s) (sc_identity c) n"
    and "s3_serve cr (sqlite_driver cr) fx c h s = Some (r, s')"
  shows "sq_view cr s' = sq_view cr s \<and> (\<exists>e. r = Inl e) \<and> 400 \<le> rs_status (s3_response cr r)"
  using sg.denied_handlers [OF assms(2,3,1) refl assms(4)] finish_status by blast

lemma s3_denied_witness:
  "\<exists>r s'. demo_serve (demo_call Anonymous [] []) (ObjectDelete ''b'' ''b'') demo_store = Some (r, s') \<and>
     sq_view demo_crates s' = demo_gw \<and> (\<exists>e. r = Inl e) \<and> 400 \<le> rs_status (s3_response demo_crates r)"
proof (rule demo_runs)
  fix r s' assume run: "demo_serve (demo_call Anonymous [] []) (ObjectDelete ''b'' ''b'') demo_store = Some (r, s')"
  have "\<not> granted_on (sq_view demo_crates demo_store) (sc_identity (demo_call Anonymous [] [])) ''b''"
    by (simp add: demo_store_view granted_on_def demo_bucket_get demo_call_def)
  from s3_denied [OF demo_store_inv _ this run] run show ?thesis by (simp add: demo_store_view)
qed

lemma no_args_supported: "reject_unsupported [] t = Inr ()"
  by (induction t) (simp_all add: reject_unsupported_def args_any_of_def args_exists_def split: option.splits)

subsection \<open>Buckets\<close>

text \<open>
  C25 (safety): a successful \<open>PUT\<close> of a bucket adds exactly one bucket, under a valid name that was
  free, owned by the caller, and the caller then owns no more buckets than \<open>max_buckets\<close> allows;
  otherwise the store is unchanged.
\<close>

theorem s3_create_within_quota:
  assumes "sq_inv cr s" and "default_tenant (sq_view cr s)"
    and "identity_user i = Some u" and "uid_stable (ui_user_id u)"
    and "s3_create_bucket cr (sqlite_driver cr) i name uuid now s = Some (r, s')"
  shows "case r of
      Inr _ \<Rightarrow> validate_bucket_name name = Inr () \<and> bt_get (g_buckets (sq_view cr s)) (name, []) = None \<and>
        sq_view cr s' = g_add_bucket (new_bucket u name uuid now) (sq_view cr s) \<and> 0 \<le> sint (ui_max_buckets u) \<and>
        (0 < sint (ui_max_buckets u) \<longrightarrow>
           int (length (g_owned (sq_view cr s') (ui_user_id u) [])) \<le> sint (ui_max_buckets u))
    | Inl _ \<Rightarrow> sq_view cr s' = sq_view cr s"
proof (cases r)
  case (Inr resp)
  from sg.create_bucket_within_quota [OF assms(1-4) assms(5) [unfolded Inr]]
  have *: "sq_view cr s' = g_add_bucket (new_bucket u name uuid now) (sq_view cr s)"
    "bt_get (g_buckets (sq_view cr s)) (name, []) = None" "validate_bucket_name name = Inr ()"
    "0 \<le> sint (ui_max_buckets u)"
    "0 < sint (ui_max_buckets u) \<Longrightarrow> int (length (g_owned (sq_view cr s) (ui_user_id u) [])) < sint (ui_max_buckets u)"
    by auto
  have "length (g_owned (sq_view cr s') (ui_user_id u) []) \<le> Suc (length (g_owned (sq_view cr s) (ui_user_id u) []))"
    unfolding *(1) by (rule g_owned_add)
  with * Inr show ?thesis by auto
next
  case (Inl e)
  with sg.create_bucket_effect [OF assms(1) _ assms(5)] assms(3,4) show ?thesis by auto
qed

lemma demo_spec_create:
  "s3_create_bucket demo_crates (spec_driver e) demo_identity ''abc'' ''u'' 9 demo_gw =
     Some (Inr (status_response 200 [(''location'', ''/abc'')]), g_add_bucket (new_bucket demo_alice ''abc'' ''u'' 9) demo_gw)"
proof -
  have name: "validate_bucket_name ''abc'' = Inr ()" by code_simp
  have loc: "header_value demo_crates ''/abc'' = Inr ''/abc''" by (rule header_value_ok) code_simp
  have page: "fst (spec_list_buckets (Some (user_id_new ''alice'')) [] 0 demo_gw) =
      Inr \<lparr>bl_buckets = [demo_bucket], bl_is_truncated = False, bl_next_marker = ''b''\<rparr>"
    by (simp add: spec_list_buckets_def g_buckets_of_def demo_gw_buckets demo_bucket_def demo_bucket_key_def
        bucket_key_new_def page_size_def DEFAULT_MAX_ENTRIES_def)
  then have "spec_list_buckets (Some (user_id_new ''alice'')) [] 0 demo_gw =
      (Inr \<lparr>bl_buckets = [demo_bucket], bl_is_truncated = False, bl_next_marker = ''b''\<rparr>, demo_gw)"
    by (simp add: spec_list_buckets_def Let_def)
  then have owned: "list_owned_buckets (spec_driver e) (user_id_new ''alice'') l demo_gw = Some (Inr [demo_bucket], demo_gw)" for l
    by (simp add: list_owned_buckets_def list_owned_loop.simps [of "spec_driver e"] Let_def)
  have quota: "check_quota (spec_driver e) demo_alice demo_gw = Some (Inr (), demo_gw)"
    by (simp add: check_quota_def demo_alice_id owned op_o_apply try_o_apply)
  have "store_new_bucket demo_crates (spec_driver e) demo_alice ''abc'' ''u'' 9 demo_gw =
      (Inr (status_response 200 [(''location'', ''/abc'')]), g_add_bucket (new_bucket demo_alice ''abc'' ''u'' 9) demo_gw)"
    by (simp add: store_new_bucket_def match_a_apply try_a_apply spec_create_bucket_def new_bucket_def bucket_key_new_def
        demo_gw_ids demo_bucket_get loc g_add_bucket_def)
  with name quota show ?thesis by (simp add: s3_create_bucket_def require_user_def try_o_apply)
qed

lemma s3_create_within_quota_witness:
  "\<exists>s'. s3_create_bucket demo_crates (sqlite_driver demo_crates) demo_identity ''abc'' ''u'' 9 demo_store =
       Some (Inr (status_response 200 [(''location'', ''/abc'')]), s') \<and>
     sq_view demo_crates s' = g_add_bucket (new_bucket demo_alice ''abc'' ''u'' 9) demo_gw \<and>
     length (g_owned (sq_view demo_crates s') (user_id_new ''alice'') []) \<le> 1000"
proof -
  have "\<exists>r s'. bucket_put demo_crates (sqlite_driver demo_crates) \<lparr>fx_uuid = ''u'', fx_now = 9\<rparr> (demo_call demo_identity [] []) ''abc'' demo_store = Some (r, s')"
    using sg.s3_serve_returns [OF demo_store_inv, where fx = "\<lparr>fx_uuid = ''u'', fx_now = 9\<rparr>"
        and c = "demo_call demo_identity [] []" and h = "BucketPut ''abc''"]
    by simp
  then obtain r s' where run:
    "s3_create_bucket demo_crates (sqlite_driver demo_crates) demo_identity ''abc'' ''u'' 9 demo_store = Some (r, s')"
    by (auto simp: bucket_put_def finish_o_def match_o_apply try_o_apply no_args_supported args_parse_def demo_call_def
        args_exists_def split: option.splits)
  have uid: "\<And>u. identity_user demo_identity = Some u \<Longrightarrow> uid_stable (ui_user_id u)"
    by (simp add: demo_alice_id demo_uid_stable)
  from sim_oD [OF sg.sim_s3_create_bucket [OF uid] _ run] demo_store_inv demo_store_calm
  have r: "r = Inr (status_response 200 [(''location'', ''/abc'')])"
    by (simp add: demo_store_view demo_spec_create)
  from s3_create_within_quota [OF demo_store_inv _ demo_identity_user _ run] run r
  show ?thesis by (auto simp: demo_store_view demo_default_tenant demo_alice_id demo_uid_stable)
qed



text \<open>
  Whatever handler runs while SQLite works, all buckets stay in the default tenant, the condition under
  which listing a user's buckets is complete and the quota counts them all.
\<close>

theorem s3_keeps_default_tenant:
  assumes "sq_inv cr s" and "sq_calm cr s" and "call_ok cr c h" and "default_tenant (sq_view cr s)"
    and "s3_serve cr (sqlite_driver cr) fx c h s = Some (r, s')"
  shows "default_tenant (sq_view cr s')"
  using sg.s3_serve_tenant [OF _ assms(3-5)] assms(1,2) by simp

lemma s3_keeps_default_tenant_witness:
  "\<exists>r s'. demo_serve (demo_call demo_identity [] []) (BucketPut ''abc'') demo_store = Some (r, s') \<and>
     default_tenant (sq_view demo_crates s')"
proof (rule demo_runs)
  fix r s' assume run: "demo_serve (demo_call demo_identity [] []) (BucketPut ''abc'') demo_store = Some (r, s')"
  have ok: "call_ok demo_crates (demo_call demo_identity [] []) (BucketPut ''abc'')"
    by (rule demo_call_ok) (simp_all add: body_fits_def from_utf8_ok.simps)
  have "default_tenant (sq_view demo_crates demo_store)" by (simp add: demo_store_view demo_default_tenant)
  from s3_keeps_default_tenant [OF demo_store_inv demo_store_calm ok this run] run show ?thesis by blast
qed

subsection \<open>Objects\<close>



lemma md5_hex_visible: "hex_ok cr \<Longrightarrow> hdr_from_str_ok (md5_hex cr d)"
proof (rule hdr_ok_graphic)
  fix c assume "hex_ok cr" "c \<in> set (md5_hex cr d)"
  then have "is_ascii_hexdigit c" by (auto simp: md5_hex_def hex_ok_def)
  then show "is_ascii_graphic c" by (auto simp: is_ascii_hexdigit_def is_ascii_digit_def is_ascii_graphic_def)
qed

text \<open>
  C30 (roundtrip): after a successful \<open>PUT\<close>, a \<open>GET\<close> of the key by any caller with access returns 200,
  the bytes put, the ETag the \<open>PUT\<close> announced, the length, the content type (the default one when it
  is missing or not UTF-8), and for each user metadata name the values sent, joined by commas.
\<close>

theorem s3_get_after_put:
  assumes inv: "sq_inv cr s" and calm: "sq_calm cr s"
    and ok: "from_utf8_ok k" "body_fits body" "to_bytes_ok cr" "hex_ok cr" "dates_ok cr"
      "values_ok hs" "meta_headers_ok cr hs"
    and put: "s3_put_object cr (sqlite_driver cr) now i n k hs body s = (Inr resp, s1)"
    and acc: "granted_on (sq_view cr s) i' n" and rng: "request_range hs' = None"
    and get: "s3_get_object cr (sqlite_driver cr) i' n k hs' True s1 = (r, s2)"
  shows "\<exists>d resp'. read_body body = Inr d \<and> r = Inr resp' \<and> rs_status resp' = 200 \<and> rs_body resp' = body_from_bytes d \<and>
    hdr_get (rs_headers resp') ''etag'' = hdr_get (rs_headers resp) ''etag'' \<and>
    hdr_get (rs_headers resp') ''content-length'' = Some (show_nat (length d)) \<and>
    hdr_get (rs_headers resp') ''content-type'' =
      Some (if from_utf8_ok (put_content_type hs) then put_content_type hs else DEFAULT_CONTENT_TYPE) \<and>
    (\<forall>sfx. hdr_get (rs_headers resp') (AMZ_META @ sfx) = meta_value hs sfx)"
proof -
  from simD [OF sg.sim_put [OF ok(1-3)] _ put] inv calm
  have s1: "sq_inv cr s1" "sq_calm cr s1"
    and p: "s3_put_object cr (spec_driver (md5_hex cr)) now i n k hs body (sq_view cr s) = (Inr resp, sq_view cr s1)"
    by auto
  from simD [OF sg.sim_ops(5) _ get] s1
  have g: "s3_get_object cr (spec_driver (md5_hex cr)) i' n k hs' True (sq_view cr s1) = (r, sq_view cr s2)" by simp
  have acc': "\<And>b. bt_get (g_buckets (sq_view cr s)) (n, []) = Some b \<Longrightarrow> may_access i' b"
    using acc by (auto simp: granted_on_def)
  from spec_get_after_put [OF sq.sinv_wf [OF inv] ok(3,2) p ok(6,7,5) md5_hex_visible [OF ok(4)] acc' rng]
  show ?thesis unfolding g prod.inject by blast
qed

lemma demo_dates_ok: "dates_ok demo_crates"
  by (simp add: dates_ok_def demo_crates_def demo_time_def hdr_ok_Cons)

abbreviation demo_meta :: headers where
  "demo_meta \<equiv> [(''x-amz-meta-k'', ''v''), (''x-amz-meta-k'', ''w'')]"

lemma demo_meta_ok: "values_ok demo_meta" "meta_headers_ok demo_crates demo_meta" "meta_value demo_meta ''k'' = Some ''v,w''"
proof -
  show "values_ok demo_meta" by (simp add: values_ok_def hdr_from_str_ok_def)
  show "meta_headers_ok demo_crates demo_meta" by (simp add: meta_headers_ok_def demo_crates_def)
  show "meta_value demo_meta ''k'' = Some ''v,w''" by code_simp
qed

lemma demo_spec_put:
  "fst (s3_put_object demo_crates (spec_driver (md5_hex demo_crates)) 9 demo_identity ''b'' ''c'' demo_meta
     (body_from_bytes ''hi'') demo_gw) = Inr (status_response 200 [(''etag'', quote @ md5_hex demo_crates ''hi'' @ quote)])"
proof -
  have "gw_wf demo_gw" using sq.sinv_wf [OF demo_store_inv] by (simp add: demo_store_view)
  from bucket_id_listed [OF this, of "(''b'', [])" demo_bucket]
  have id: "bk_bucket_id (bi_bucket demo_bucket) \<in> set (g_bucket_ids demo_gw)" by (simp add: demo_bucket_get)
  have "put_payload demo_crates demo_meta (body_from_bytes ''hi'') = Inr (body_from_bytes ''hi'')"
    by (simp add: put_payload_def content_md5_def hdr_get_def)
  with id show ?thesis
    by (simp add: s3_put_object_def try_a_apply op_a_apply Let_def spec_put_object_def header_value_def demo_bucket_get
        spec_load_bucket_for require_user_def hdr_get_def body_from_bytes_def new_object_def
        md5_hex_visible object_key_new_def header_str_def MAX_OBJECT_NAME_def)
qed

lemma s3_get_after_put_witness:
  "\<exists>resp s1 resp' s2. s3_put_object demo_crates (sqlite_driver demo_crates) 9 demo_identity ''b'' ''c'' demo_meta
       (body_from_bytes ''hi'') demo_store = (Inr resp, s1) \<and>
     s3_get_object demo_crates (sqlite_driver demo_crates) demo_identity ''b'' ''c'' [] True s1 = (Inr resp', s2) \<and>
     rs_body resp' = body_from_bytes ''hi'' \<and> hdr_get (rs_headers resp') (AMZ_META @ ''k'') = Some ''v,w''"
proof -
  let ?b = "body_from_bytes ''hi''"
  obtain r s1 where put: "s3_put_object demo_crates (sqlite_driver demo_crates) 9 demo_identity ''b'' ''c'' demo_meta ?b demo_store = (r, s1)"
    by fastforce
  obtain r' s2 where get: "s3_get_object demo_crates (sqlite_driver demo_crates) demo_identity ''b'' ''c'' [] True s1 = (r', s2)"
    by fastforce
  have ok: "from_utf8_ok ''c''" "body_fits ?b" "request_range [] = None" "read_body ?b = Inr ''hi''"
    by code_simp (simp_all add: body_fits_def body_from_bytes_def request_range_def header_str_def hdr_get_def)
  from simD [OF sg.sim_put [OF ok(1,2) demo_to_bytes_ok] _ put] demo_store_inv demo_store_calm
  have "s3_put_object demo_crates (spec_driver (md5_hex demo_crates)) 9 demo_identity ''b'' ''c'' demo_meta ?b demo_gw = (r, sq_view demo_crates s1)"
    by (simp add: demo_store_view)
  with demo_spec_put obtain resp where r: "r = Inr resp" by simp
  have acc: "granted_on (sq_view demo_crates demo_store) demo_identity ''b''"
    by (simp add: demo_store_view granted_on_def demo_bucket_get)
  from s3_get_after_put [OF demo_store_inv demo_store_calm ok(1,2) demo_to_bytes_ok demo_crates_more_ok(1) demo_dates_ok demo_meta_ok(1,2)
      put [unfolded r] acc ok(3) get] ok(4) demo_meta_ok(3)
  obtain resp' where "r' = Inr resp'" "rs_body resp' = body_from_bytes ''hi''"
      "hdr_get (rs_headers resp') (AMZ_META @ ''k'') = Some ''v,w''" by auto
  with put get r show ?thesis by blast
qed

text \<open>
  C31 (safety): a \<open>PUT\<close> whose payload does not have the MD5 its \<open>Content-MD5\<close> header announces (or
  whose header is not the MD5 of anything) is refused, and no object changes.
\<close>

theorem s3_put_digest_mismatch:
  assumes "sq_inv cr s" and "to_bytes_ok cr" and body: "read_body body = Inr d"
    and md5: "content_md5 cr hs \<noteq> Inr None" "content_md5 cr hs \<noteq> Inr (Some (md5_digest cr d))"
    and run: "s3_put_object cr (sqlite_driver cr) now i n k hs body s = (r, s')"
  shows "(\<exists>e. r = Inl e) \<and> sq_view cr s' = sq_view cr s"
proof -
  obtain r0 s0 where lb: "load_bucket_for (sqlite_driver cr) i n s = (r0, s0)" by fastforce
  have v: "sq_view cr s0 = sq_view cr s" using sg.load_bucket_for_run [OF assms(1) lb] by simp
  have "\<exists>e. put_payload cr hs body = Inl e"
  proof (cases "put_payload cr hs body")
    case (Inr payload)
    then obtain dg b where dg: "content_md5 cr hs = Inr (Some dg)" "buffer_body cr body MAX_BUFFERED_PUT = Inr b"
        "md5_digest cr b = dg" "payload = body_from_bytes b"
      using md5(1) by (auto simp: put_payload_def verify_md5_def try_r_Inr_iff split: option.splits if_splits)
    then have "read_body body = Inr b"
      using put_payload_read [OF assms(2) Inr] by simp
    with dg md5(2) body show ?thesis by simp
  qed simp
  then show ?thesis using run lb v
    by (cases r0; cases "require_user i") (auto simp: s3_put_object_def try_a_apply op_a_apply Let_def split: if_splits)
qed

lemma s3_put_digest_mismatch_witness:
  "\<exists>e s'. s3_put_object demo_crates (sqlite_driver demo_crates) 9 demo_identity ''b'' ''c'' [(''content-md5'', ''0'')]
     (body_from_bytes ''hi'') demo_store = (Inl e, s') \<and> sq_view demo_crates s' = demo_gw"
proof -
  obtain r s' where run: "s3_put_object demo_crates (sqlite_driver demo_crates) 9 demo_identity ''b'' ''c''
      [(''content-md5'', ''0'')] (body_from_bytes ''hi'') demo_store = (r, s')" by fastforce
  have body: "read_body (body_from_bytes ''hi'') = Inr ''hi''" by (simp add: body_from_bytes_def)
  have "content_md5 demo_crates [(''content-md5'', ''0'')] \<noteq> Inr None" "content_md5 demo_crates [(''content-md5'', ''0'')] \<noteq> Inr (Some (md5_digest demo_crates ''hi''))"
    by code_simp+
  from s3_put_digest_mismatch [OF demo_store_inv demo_to_bytes_ok body this run] run show ?thesis
    by (auto simp: demo_store_view)
qed

text \<open>
  C32 (functional): a permitted \<open>DELETE\<close> answers 204 whether or not the key exists, removes that
  key's object and nothing else, and repeating it changes nothing.
\<close>

theorem s3_delete_effect:
  assumes inv: "sq_inv cr s" "sq_calm cr s" and n: "CHR ''/'' \<notin> set n"
    and b: "bt_get (g_buckets (sq_view cr s)) (n, []) = Some b" "may_access i b"
    and run: "s3_delete_object (sqlite_driver cr) i n k s = (r, s1)"
    and again: "s3_delete_object (sqlite_driver cr) i n k s1 = (r2, s2)"
  shows "r = Inr (status_response 204 []) \<and> r2 = r \<and>
    sq_view cr s1 = (sq_view cr s)\<lparr>g_objects := bt_remove (b_id b, k) (g_objects (sq_view cr s))\<rparr> \<and>
    sq_view cr s2 = sq_view cr s1"
proof -
  from simD [OF sg.sim_ops(4) _ run] inv
  have 1: "sq_inv cr s1" "sq_calm cr s1"
    "s3_delete_object (spec_driver (md5_hex cr)) i n k (sq_view cr s) = (r, sq_view cr s1)" by auto
  with spec_delete_granted [OF sq.sinv_wf [OF inv(1)] n b, of "md5_hex cr" k]
  have e: "r = Inr (status_response 204 [])" "sq_view cr s1 = g_drop_object (bi_bucket b) k (sq_view cr s)" by auto
  have "bt_get (g_buckets (sq_view cr s1)) (n, []) = Some b" using b(1) e(2) by simp
  from spec_delete_granted [OF sq.sinv_wf [OF 1(1)] n this b(2), of "md5_hex cr" k] simD [OF sg.sim_ops(4) _ again] 1
  have "r2 = Inr (status_response 204 [])" "sq_view cr s2 = g_drop_object (bi_bucket b) k (sq_view cr s1)" by auto
  with e show ?thesis by (simp add: g_drop_object_def bt_remove_def)
qed

lemma s3_delete_effect_witness:
  "\<exists>r s1 s2. s3_delete_object (sqlite_driver demo_crates) demo_identity ''b'' ''b'' demo_store = (r, s1) \<and>
     s3_delete_object (sqlite_driver demo_crates) demo_identity ''b'' ''b'' s1 = (r, s2) \<and>
     r = Inr (status_response 204 []) \<and> map fst (g_objects (sq_view demo_crates s2)) = [(''i'', ''a/1'')]"
proof -
  obtain r s1 r2 s2 where run: "s3_delete_object (sqlite_driver demo_crates) demo_identity ''b'' ''b'' demo_store = (r, s1)"
    and run2: "s3_delete_object (sqlite_driver demo_crates) demo_identity ''b'' ''b'' s1 = (r2, s2)" by fastforce
  have b: "CHR ''/'' \<notin> set ''b''" "bt_get (g_buckets (sq_view demo_crates demo_store)) (''b'', []) = Some demo_bucket"
    by (simp_all add: demo_store_view demo_bucket_get)
  have id: "b_id demo_bucket = ''i''" by (simp add: demo_bucket_def)
  from s3_delete_effect [OF demo_store_inv demo_store_calm b demo_may_access(1) run run2] run run2 show ?thesis
    by (simp add: demo_store_view demo_gw_objects bt_remove_def id)
qed


definition demo_query :: "string option" where
  "demo_query = Some ''list-type=2&delimiter=%2F&max-keys=1''"

lemma demo_args: "args_parse demo_crates demo_query = [(''list-type'', ''2''), (''delimiter'', ''/''), (''max-keys'', ''1'')]"
  by code_simp

lemma demo_common: "common_parse (args_parse demo_crates demo_query) = Inr \<lparr>co_prefix = [], co_delimiter = ''/'', co_max_keys = 1, co_encode = False\<rparr>"
proof -
  have "trim ''1'' = ''1''" by code_simp
  then show ?thesis
    by (simp add: demo_args common_parse_def args_get_def or_default_def parse_max_keys_def parse_signed_def parse_unsigned_def
        MAX_KEYS_def to_digit_def is_ascii_digit_def)
qed

lemma demo_query_args: "v2_marker (args_parse demo_crates demo_query) = []"
    "or_default (args_get (args_parse demo_crates demo_query) ''prefix'') = []"
  by (simp_all add: demo_args v2_marker_def args_get_def or_default_def)


end
