(* ===== verification/Admin_Props.thy ===== *)
theory Admin_Props
  imports S3_Props Auth_Props
begin

section \<open>What the admin API over the SQLite driver guarantees\<close>

text \<open>
  The lemmas of the locale of clients about the admin operations, on the SQLite driver. The
  witnesses run on the store of two objects of \<open>Sqlite_Props\<close>.
\<close>

subsection \<open>A store with a user\<close>

definition adm_ops :: "sal_op list" where
  "adm_ops = [StoreUser demo_alice True, CreateBucket demo_bucket, demo_put ''b'' ''two'']"

definition adm_store :: "json conn" where
  "adm_store = exec_ops (sqlite_driver demo_crates) adm_ops (conn_of db_empty)"

definition adm_gw :: gw where
  "adm_gw = spec_ops (md5_hex demo_crates) adm_ops gw_empty"

lemma demo_alice_ok: "user_wf demo_alice" "uid_stable (ui_user_id demo_alice)" "canon_user demo_alice = demo_alice"
  by code_simp+

lemma adm_ops_ok: "list_all op_ok adm_ops"
proof -
  have "op_ok (CreateBucket demo_bucket)" by code_simp
  then show ?thesis by (simp add: adm_ops_def demo_put_ok demo_names_ok demo_alice_ok)
qed

lemma adm_store_inv: "sq_inv demo_crates adm_store" and adm_store_calm: "sq_calm demo_crates adm_store"
  and adm_store_view: "sq_view demo_crates adm_store = adm_gw"
  using sqr.ops_exact [OF adm_ops_ok, of demo_crates "conn_of db_empty"]
    empty_conn_inv [OF demo_crates_sq, of "conn_of db_empty"]
  by (simp_all add: adm_store_def adm_gw_def sq_calm_def)

lemma demo_alice_keys: "bt_keys (ui_access_keys demo_alice) = [''AKID'']" "user_id_display (ui_user_id demo_alice) = ''alice''"
  by code_simp+

lemma adm_gw_eq:
  "adm_gw = \<lparr>g_users = [(''alice'', demo_alice)], g_keys = [(''AKID'', ''alice'')],
     g_buckets = [((''b'', []), demo_bucket)],
     g_objects = [((''i'', ''b''), (canon_object (demo_object ''b'' ''two''), ''two''))]\<rparr>"
proof -
  have "canon_bucket demo_bucket = demo_bucket" by code_simp
  then show ?thesis
    by (simp add: adm_gw_def adm_ops_def demo_put_def gw_empty_def try_a_apply spec_store_user_def g_key_clash_def
      g_put_user_def demo_alice_keys demo_alice_ok spec_create_bucket_def
      spec_put_object_def g_bucket_ids_def demo_bucket_key_def bucket_key_new_def Let_def
      object_key_new_def demo_bucket_def)
qed

lemma adm_default_tenant: "default_tenant adm_gw"
  by (simp add: default_tenant_def adm_gw_eq)

definition adm_root :: identity where
  "adm_root = User \<lparr>au_info = demo_alice\<lparr>ui_admin := True\<rparr>, au_access_key_id = ''AKID''\<rparr>"

definition adm_call :: "identity \<Rightarrow> (string \<times> string) list \<Rightarrow> admin_call" where
  "adm_call i args = \<lparr>ad_identity = i, ad_request_id = ''tx'', ad_query = Inr args\<rparr>"

definition adm_fx :: admin_fx where
  "adm_fx = \<lparr>af_now = 1, af_key_now = 2, af_access = (\<lambda>_ _. 0), af_secret = (\<lambda>_. 1)\<rparr>"

lemma alice_uid: "user_id_parse ''alice'' = user_id_new ''alice''" "user_id_display (user_id_new ''alice'') = ''alice''"
  "\<not> user_id_is_empty (user_id_new ''alice'')"
  by code_simp+

subsection \<open>Access\<close>

text \<open>
  C34 (safety): a caller without the capability an admin handler asks for (\<open>users\<close>, \<open>buckets\<close> or \<open>info\<close>,
  to read or to write), anonymous callers included, is answered with an error status; the driver,
  whichever it is, is not called.
\<close>

theorem admin_denied:
  assumes "\<not> may_run (ad_identity c) h"
  shows "\<exists>e. admin_serve cr drv fx c h s = Some (Inl e, s) \<and> 400 \<le> rs_status (admin_finish cr rid (Inl e))"
proof -
  have "400 \<le> rs_status (admin_finish cr rid (Inl e))" for e
    by (simp add: admin_finish_def admin_error_response_def respond_def http_status_error)
  moreover obtain e where "admin_serve cr drv fx c h s = Some (Inl e, s)"
    by (rule exE [OF admin_serve_denied [OF assms]]) (elim conjE, rule that, assumption)
  ultimately show ?thesis by (intro exI conjI)
qed

lemma admin_denied_witness:
  "\<exists>e. admin_serve demo_crates (sqlite_driver demo_crates) adm_fx (adm_call demo_identity [(''uid'', ''alice'')]) AdminUserDelete adm_store
     = Some (Inl e, adm_store)"
proof -
  have "\<not> may_run (ad_identity (adm_call demo_identity [(''uid'', ''alice'')])) AdminUserDelete" by code_simp
  from admin_denied [OF this, of demo_crates "sqlite_driver demo_crates" adm_fx adm_store] show ?thesis by blast
qed

subsection \<open>Users\<close>


definition adm_bob :: user_create_params where
  "adm_bob = \<lparr>uc_uid = user_id_new ''bob'', uc_display_name = ''Bob'', uc_email = Some ''b@x'', uc_access_key = None,
     uc_secret_key = None, uc_generate_key = None, uc_caps = Some ''users=read'', uc_max_buckets = None,
     uc_suspended = None, uc_system = None, uc_admin = None\<rparr>"

lemma adm_bob_created: "\<not> isl (fst (user_create (spec_driver (md5_hex demo_crates)) adm_fx adm_bob adm_gw))"
  unfolding adm_gw_eq by code_simp


text \<open>
  C36 (liveness): \<open>user rm --purge-data\<close> of an existing user succeeds while SQLite works, and leaves
  of the store exactly what does not belong to the user: its record, its access keys, the buckets it
  owns and every object in them are gone, all other entries are as they were.
\<close>

theorem admin_user_remove_purges:
  assumes "sq_inv cr s" and "sq_calm cr s" and "\<not> user_id_is_empty uid"
    and "default_tenant (sq_view cr s)" and "named_objects (sq_view cr s)"
    and "bt_get (g_users (sq_view cr s)) (user_id_display uid) \<noteq> None"
  shows "\<exists>s'. user_remove (sqlite_driver cr) uid True s = Some (Inr (), s') \<and>
    sq_inv cr s' \<and> sq_calm cr s' \<and> sq_view cr s' = g_purge_user (user_id_display uid) (sq_view cr s)"
  using sg.user_remove_purged [OF _ assms(3,4,5,6)] g_purge_steps [OF sq.sinv_wf [OF assms(1)] assms(4)] assms(1,2)
  by simp

lemma admin_user_remove_purges_witness:
  "\<exists>s'. user_remove (sqlite_driver demo_crates) (user_id_new ''alice'') True adm_store = Some (Inr (), s') \<and>
     sq_view demo_crates s' = gw_empty"
proof -
  have "default_tenant (sq_view demo_crates adm_store)" "named_objects (sq_view demo_crates adm_store)"
    "bt_get (g_users (sq_view demo_crates adm_store)) (user_id_display (user_id_new ''alice'')) \<noteq> None"
    unfolding adm_store_view by (simp_all only: adm_default_tenant) (simp_all add: adm_gw_eq named_objects_def alice_uid bt_get_def)
  note purge = admin_user_remove_purges [OF adm_store_inv adm_store_calm alice_uid(3) this]
  have "g_purge_user ''alice'' adm_gw = gw_empty"
    using alice_uid(2) by (simp add: g_purge_user_def adm_gw_eq demo_bucket_def gw_empty_def)
  with purge show ?thesis by (auto simp: adm_store_view alice_uid)
qed

text \<open>
  Listing users gives, in order, at most a thousand of the ids after the marker (the
  limit asked for, if that is less and not zero), says truthfully whether there are more, and gives a
  marker after which exactly the remaining ones are listed.
\<close>

theorem admin_user_pages:
  assumes inv: "sq_inv cr s" "sq_calm cr s" and run: "user_list_page (sqlite_driver cr) m mx s = (r, s')"
  shows "\<exists>page. r = Inr page \<and> sq_view cr s' = sq_view cr s \<and>
    (let us = users_after (sq_view cr s) m; n = page_len mx in
       map user_id_display (ul_ids page) = take n us \<and> ul_truncated page = (n < length us) \<and>
       (ul_truncated page \<longrightarrow> ul_ids page \<noteq> [] \<and> users_after (sq_view cr s) (ul_next_marker page) = drop n us))"
proof -
  note wf = sq.sinv_wf [OF inv(1)]
  have n: "page_len mx \<noteq> 0" by (simp add: page_len_def DEFAULT_MAX_ENTRIES_def)
  have "user_list_page (spec_driver (md5_hex cr)) m mx (sq_view cr s) = (r, sq_view cr s')"
    using simD [OF sg.sim_user_list _ run] inv by simp
  from spec_user_list [OF wf this] users_after_rest [OF wf _ n, of m] show ?thesis
    unfolding Let_def by auto
qed

lemma admin_user_pages_witness:
  "\<exists>page s'. user_list_page (sqlite_driver demo_crates) [] 1 adm_store = (Inr page, s') \<and>
     map user_id_display (ul_ids page) = [''alice''] \<and> \<not> ul_truncated page"
proof -
  obtain r s' where run: "user_list_page (sqlite_driver demo_crates) [] 1 adm_store = (r, s')" by fastforce
  have "users_after (sq_view demo_crates adm_store) [] = [''alice'']" "page_len 1 = 1"
    by (simp_all add: adm_store_view adm_gw_eq users_after_def page_len_def DEFAULT_MAX_ENTRIES_def)
  with admin_user_pages [OF adm_store_inv adm_store_calm run] run show ?thesis by (auto simp: Let_def)
qed

subsection \<open>Keys\<close>

text \<open>
  C37 (safety): once \<open>key rm\<close> has answered, no request signed with that key is let through; the user,
  and it only, was changed, and every other access key still names the user it named.
\<close>

theorem admin_key_revoked:
  assumes "sq_inv cr s" and run: "key_remove (sqlite_driver cr) uid k s = (Inr info, s1)"
    and "hdr_get (rq_headers req) ''authorization'' = Some authz" and "parse_authorization authz = Inr a"
    and "av_access_key_id a = k"
  shows "(\<exists>e s2. verify cr (sqlite_driver cr) cfg now req s1 = (Inl e, s2)) \<and>
    bt_get (g_keys (sq_view cr s1)) = (bt_get (g_keys (sq_view cr s)))(k := None) \<and>
    bt_get (g_users (sq_view cr s1)) = (bt_get (g_users (sq_view cr s)))(user_id_display uid \<mapsto> info)"
proof -
  note kr = sg.key_remove_run [OF assms(1) run]
  have "\<exists>e s2. verify cr (sqlite_driver cr) cfg now req s1 = (Inl e, s2)"
  proof (cases "verify cr (sqlite_driver cr) cfg now req s1")
    case (Pair r s2)
    show ?thesis
    proof (cases r)
      case (Inr req')
      with Pair have v: "verify cr (sqlite_driver cr) cfg now req s1 = (Inr req', s2)" by simp
      from verify_header_user [OF v] assms(3) obtain u where u: "rq_identity req' = Some (User u)" by auto
      show ?thesis
      proof (rule verify_user_run [OF v u])
        fix authz' a'
        assume "hdr_get (rq_headers req) ''authorization'' = Some authz'" "parse_authorization authz' = Inr a'"
          and "load_user_by_access_key (sqlite_driver cr) (av_access_key_id a') s1 = (Inr (au_info u), s2)"
        with assms(3,4,5) sq.load_key_found [OF kr(1), of k "au_info u" s2] kr(4) [of k] show ?thesis by simp
      qed
    qed (use Pair in blast)
  qed
  then show ?thesis using kr(4,5) by (simp add: fun_eq_iff)
qed

lemma adm_key_removed: "\<not> isl (fst (key_remove (spec_driver (md5_hex demo_crates)) (user_id_new ''alice'') ''AKID'' adm_gw))"
  unfolding adm_gw_eq by code_simp

lemma admin_key_revoked_witness:
  "\<exists>info s1 e s2. key_remove (sqlite_driver demo_crates) (user_id_new ''alice'') ''AKID'' adm_store = (Inr info, s1) \<and>
     verify demo_crates (sqlite_driver demo_crates) demo_config demo_now (demo_request ''UNSIGNED-PAYLOAD'' [Inr ''data'']) s1 = (Inl e, s2)"
proof -
  let ?req = "demo_request ''UNSIGNED-PAYLOAD'' [Inr ''data'']"
  obtain r s1 where run: "key_remove (sqlite_driver demo_crates) (user_id_new ''alice'') ''AKID'' adm_store = (r, s1)" by fastforce
  from simD [OF sg.sim_key_remove _ run] adm_key_removed obtain info where r: "r = Inr info"
    by (cases r) (auto simp: adm_store_inv adm_store_calm adm_store_view)
  have "case hdr_get (rq_headers ?req) ''authorization'' of None \<Rightarrow> False | Some z \<Rightarrow>
      (case parse_authorization z of Inl _ \<Rightarrow> False | Inr a \<Rightarrow> av_access_key_id a = ''AKID'')"
    by code_simp
  then obtain authz a where "hdr_get (rq_headers ?req) ''authorization'' = Some authz" "parse_authorization authz = Inr a"
    "av_access_key_id a = ''AKID''" by (auto split: option.splits sum.splits)
  from admin_key_revoked [OF adm_store_inv run [unfolded r] this] run r show ?thesis by blast
qed

subsection \<open>The command line tool\<close>

text \<open>
  C38 (liveness): \<open>radosgw-admin user list\<close>, whose loop does not check that the pages advance, ends on
  every consistent store, whatever SQLite does, and changes nothing. It prints the ids of all users
  after the marker, each once and in order, unless SQLite fails, and then it prints an error.
\<close>

theorem cli_user_list:
  assumes "sq_inv cr s"
  shows "\<exists>r s'. list_all_users (sqlite_driver cr) m s = Some (r, s') \<and> sq_inv cr s' \<and> sq_view cr s' = sq_view cr s \<and>
    ((\<exists>e. r = Inl e \<and> is_internal e) \<and> \<not> sq_calm cr s \<or> r = Inr (JArr (map JStr (users_after (sq_view cr s) m))))"
  using sg.list_users_ends [OF assms, of "[]" m] by (simp add: list_all_users_def)

lemma cli_user_list_witness:
  "\<exists>s'. list_all_users (sqlite_driver demo_crates) [] adm_store = Some (Inr (JArr [JStr ''alice'']), s')"
proof -
  have "users_after (sq_view demo_crates adm_store) [] = [''alice'']" by (simp add: adm_store_view adm_gw_eq users_after_def)
  with cli_user_list [OF adm_store_inv, of "[]"] adm_store_calm show ?thesis by auto
qed

text \<open>
  C39 (termination): every command of \<open>radosgw-admin\<close> on a consistent database ends with an exit code,
  whatever SQLite does, from opening the file on: listing users or buckets and purging end.
\<close>

theorem cli_terminates:
  assumes "sq_inv cr c"
  shows "\<exists>code c'. cli_main cr fx cmd c = Some (code, c')"
proof -
  obtain r c1 where op: "sq_open c = (r, c1)" by fastforce
  with assms sq_open_db have "sq_inv cr c1" unfolding sq_inv_def by metis
  from sg.cli_run_ends [OF this, where fx = fx and cmd = cmd] op show ?thesis by (cases r) (auto simp: cli_main_def cli_session_def)
qed

lemma cli_terminates_witness:
  "\<exists>code c'. cli_main demo_crates adm_fx (UserCmd (UserListOp None None)) adm_store = Some (code, c')"
  by (rule cli_terminates [OF adm_store_inv])

end
