(* ===== verification/Gateway.thy ===== *)
theory Gateway
  imports S3_Handler Admin_Rest
begin

section \<open>\<open>rgwd\<close>: the request pipeline\<close>

text \<open>
  \<open>build_app\<close> puts the request id outermost, then authentication, then the routes of both APIs. Which
  route a path selects, what an unrouted request is answered with and how the admin query is read is
  axum's; \<open>axum\<close> holds these functions. The daemon's flags, socket and logging are not modelled.
\<close>

datatype gw_target = AdminTarget admin_path | S3Target s3_target | Unrouted response

record axum =
  ax_match :: "string \<Rightarrow> gw_target"
  ax_not_allowed :: response
  ax_no_extension :: response
  ax_query :: "string option \<Rightarrow> admin_query"

text \<open>The clock readings and random draws of one request.\<close>

record gw_fx =
  gx_uuid :: string
  gx_timestamp :: int
  gx_now :: time
  gx_s3 :: effects
  gx_admin :: admin_fx

subsection \<open>Authentication as a layer\<close>

definition authenticate ::
    "'j crates \<Rightarrow> 's driver \<Rightarrow> auth_config \<Rightarrow> time \<Rightarrow> string \<Rightarrow> (request \<Rightarrow> ('s, rgw_error, response) oact) \<Rightarrow>
     request \<Rightarrow> ('s, rgw_error, response) oact" where
  "authenticate cr drv cfg now rid inner req =
     match_o (run_o (verify cr drv cfg now req)) (\<lambda>r. case r of
       Inr req' \<Rightarrow> inner req'
     | Inl err \<Rightarrow> run_o (ret_a (s3_error_response cr err (rq_path req) rid)))"

subsection \<open>The routes\<close>

definition gw_handler :: "axum \<Rightarrow> request \<Rightarrow> (admin_handler + s3_handler) option" where
  "gw_handler ax req = (case ax_match ax (rq_path req) of
       AdminTarget p \<Rightarrow> Some (Inl (admin_route (rq_method req) p))
     | S3Target t \<Rightarrow> map_option Inr (s3_route (rq_method req) t)
     | Unrouted _ \<Rightarrow> None)"

definition s3_call_of :: "string \<Rightarrow> identity \<Rightarrow> request \<Rightarrow> s3_call" where
  "s3_call_of rid i req = \<lparr>sc_identity = i, sc_request_id = rid, sc_method = rq_method req, sc_path = rq_path req,
     sc_query = rq_query req, sc_headers = rq_headers req, sc_body = rq_body req\<rparr>"

definition admin_call_of :: "axum \<Rightarrow> string \<Rightarrow> identity \<Rightarrow> request \<Rightarrow> admin_call" where
  "admin_call_of ax rid i req = \<lparr>ad_identity = i, ad_request_id = rid, ad_query = ax_query ax (rq_query req)\<rparr>"

definition gw_dispatch ::
    "'j crates \<Rightarrow> 's driver \<Rightarrow> axum \<Rightarrow> gw_fx \<Rightarrow> string \<Rightarrow> request \<Rightarrow> ('s, rgw_error, response) oact" where
  "gw_dispatch cr drv ax fx rid req =
     (case gw_handler ax req of
        None \<Rightarrow> run_o (ret_a (case ax_match ax (rq_path req) of Unrouted resp \<Rightarrow> resp | _ \<Rightarrow> ax_not_allowed ax))
      | Some h \<Rightarrow>
          (case rq_identity req of
             None \<Rightarrow> run_o (ret_a (ax_no_extension ax))
           | Some i \<Rightarrow>
               (case h of
                  Inl ah \<Rightarrow> match_o (admin_serve cr drv (gx_admin fx) (admin_call_of ax rid i req) ah)
                             (\<lambda>r. run_o (ret_a (admin_finish cr rid r)))
                | Inr sh \<Rightarrow> match_o (s3_serve cr drv (gx_s3 fx) (s3_call_of rid i req) sh)
                             (\<lambda>r. run_o (ret_a (s3_response cr r))))))"

definition build_app ::
    "'j crates \<Rightarrow> 's driver \<Rightarrow> axum \<Rightarrow> gw_fx \<Rightarrow> request \<Rightarrow> ('s, rgw_error, response) oact" where
  "build_app cr drv ax fx req =
     request_id_layer (new_request_id (gx_uuid fx) (gx_timestamp fx)) (\<lambda>rid.
       authenticate cr drv auth_config_default (gx_now fx) rid (gw_dispatch cr drv ax fx rid) req)"

end
