(* ===== verification/Gateway_Props.thy ===== *)
theory Gateway_Props
  imports Gateway Admin_Props
begin

section \<open>What the gateway guarantees, from the request to the tables\<close>

text \<open>
  Authentication, routing, the handlers and the SQLite driver together. A request that changes the
  store, or is answered with a success, was signed by a stored user who is allowed what it asks for.
\<close>

subsection \<open>The layers\<close>

lemma stamp_status [simp]: "rs_status (stamp_response rid resp) = rs_status resp"
  by (simp add: stamp_response_def Let_def)

lemma s3_error_response_status [simp]: "rs_status (s3_error_response cr e p rid) = http_status e"
  by (simp add: s3_error_response_def respond_def Let_def)

lemma admin_error_status: "400 \<le> rs_status (admin_finish cr rid (Inl e))"
  by (simp add: admin_finish_def admin_error_response_def respond_def http_status_error)

lemma build_app_run:
  "build_app cr drv ax fx req s = map_option (\<lambda>(r, s'). (map_sum id (stamp_response rid) r, s'))
     (authenticate cr drv auth_config_default (gx_now fx) rid (gw_dispatch cr drv ax fx rid) req s)"
  if "rid = new_request_id (gx_uuid fx) (gx_timestamp fx)"
  using that
  by (cases "authenticate cr drv auth_config_default (gx_now fx) rid (gw_dispatch cr drv ax fx rid) req s")
    (auto simp: build_app_def request_id_layer_def try_o_apply split: sum.splits)

text \<open>What authentication leaves of the store, and what it lets through.\<close>

lemma verify_view:
  assumes "sq_inv cr s" and "verify cr (sqlite_driver cr) cfg now req s = (r, s1)"
  shows "sq_inv cr s1" and "sq_view cr s1 = sq_view cr s"
  using verify_state [OF assms(2)] sq.reads_ok(2) [OF assms(1)] assms(1) by blast+

lemma verify_anonymous:
  assumes "verify cr drv cfg now req s = (Inr req', s')"
  obtains "rq_identity req' = Some Anonymous" | u where "rq_identity req' = Some (User u)"
proof (cases "hdr_get (rq_headers req) ''authorization''")
  case None
  with assms have "rq_identity req' = Some Anonymous" by (auto simp: verify_def Let_def split: if_splits)
  then show thesis by (rule that(1))
qed (use verify_header_user [OF assms] that(2) in auto)

text \<open>Authentication keeps what selects the route.\<close>

lemma verify_route:
  assumes "verify cr drv cfg now req s = (Inr req', s')"
  shows "rq_path req' = rq_path req \<and> rq_method req' = rq_method req \<and> rq_query req' = rq_query req"
proof (cases "hdr_get (rq_headers req) ''authorization''")
  case None
  with assms show ?thesis by (auto simp: verify_def Let_def split: if_splits)
next
  case (Some authz)
  with assms show ?thesis
    by (auto simp: verify_def Let_def act_Inr_iff match_a_apply split: if_splits sum.splits prod.splits option.splits)
qed

lemma anonymous_denied:
  assumes "handler_bucket h = None" and "sc_identity c = Anonymous" and "s3_serve cr drv fx c h s = Some (r, s')"
  shows "s' = s \<and> (\<exists>e. r = Inl e)"
  using assms
  by (cases h) (auto simp: service_get_def bucket_put_def finish_o_def s3_list_buckets_def s3_create_bucket_def
      require_user_def req_finish_def match_o_apply try_o_apply op_r_def Let_def split: sum.splits if_splits)

subsection \<open>Authorisation\<close>

definition permitted :: "gw \<Rightarrow> identity \<Rightarrow> admin_handler + s3_handler \<Rightarrow> bool" where
  "permitted g i h = (case h of
       Inl ah \<Rightarrow> may_run i ah
     | Inr sh \<Rightarrow> (case handler_bucket sh of None \<Rightarrow> i \<noteq> Anonymous | Some n \<Rightarrow> granted_on g i n))"

lemma permitted_user: "permitted g i h \<Longrightarrow> i \<noteq> Anonymous"
  by (auto simp: permitted_def may_run_def granted_on_def may_access_def split: sum.splits option.splits)

lemma dispatch_denied:
  assumes inv: "sq_inv cr s" and h: "gw_handler ax req = Some h" and i: "rq_identity req = Some i"
    and no: "\<not> permitted (sq_view cr s) i h"
    and run: "gw_dispatch cr (sqlite_driver cr) ax fx rid req s = Some (r, s')"
  shows "sq_view cr s' = sq_view cr s \<and> (\<exists>resp. r = Inr resp \<and> 400 \<le> rs_status resp)"
proof (cases h)
  case (Inl ah)
  then have "\<not> may_run (ad_identity (admin_call_of ax rid i req)) ah"
    using no by (simp add: permitted_def admin_call_of_def)
  then obtain e where "admin_serve cr (sqlite_driver cr) (gx_admin fx) (admin_call_of ax rid i req) ah s = Some (Inl e, s)"
    by (rule exE [OF admin_serve_denied]) (elim conjE, rule that, assumption)
  with Inl h i run show ?thesis
    by (simp add: gw_dispatch_def match_o_apply) (use admin_error_status in blast)
next
  case (Inr sh)
  let ?c = "s3_call_of rid i req"
  have c: "sc_identity ?c = i" by (simp add: s3_call_of_def)
  obtain r0 s0 where serve: "s3_serve cr (sqlite_driver cr) (gx_s3 fx) ?c sh s = Some (r0, s0)"
    using sg.s3_serve_returns [OF inv] by blast
  have "sq_view cr s0 = sq_view cr s \<and> (\<exists>e. r0 = Inl e)"
  proof (cases "handler_bucket sh")
    case None
    with no Inr have "i = Anonymous" by (simp add: permitted_def)
    with anonymous_denied [OF None _ serve] c show ?thesis by auto
  next
    case (Some n)
    with no Inr have "\<not> granted_on (sq_view cr s) (sc_identity ?c) n" by (simp add: permitted_def c)
    from sg.denied_handlers [OF Some this inv refl serve] show ?thesis by blast
  qed
  with serve Inr h i run finish_status [of r0 cr] show ?thesis
    by (auto simp: gw_dispatch_def match_o_apply)
qed

lemma dispatch_unrouted:
  assumes "gw_handler ax req = None" and "gw_dispatch cr drv ax fx rid req s = Some (r, s')"
  shows "s' = s"
  using assms by (simp add: gw_dispatch_def)

text \<open>What authentication hands to the routes of the request it let through.\<close>

lemma authenticate_run:
  assumes inv: "sq_inv cr s"
    and run: "authenticate cr (sqlite_driver cr) cfg now rid inner req s = Some (r, s')"
  obtains (refused) e where "r = Inr (s3_error_response cr e (rq_path req) rid)" and "sq_view cr s' = sq_view cr s"
    | (passed) req' i s1 where "verify cr (sqlite_driver cr) cfg now req s = (Inr req', s1)"
      and "sq_inv cr s1" and "sq_view cr s1 = sq_view cr s" and "inner req' s1 = Some (r, s')"
      and "rq_identity req' = Some i" and "rq_path req' = rq_path req" and "rq_method req' = rq_method req"
proof -
  obtain r0 s1 where v: "verify cr (sqlite_driver cr) cfg now req s = (r0, s1)" by fastforce
  note view = verify_view [OF inv v]
  show thesis
  proof (cases r0)
    case (Inl e)
    with v run have "r = Inr (s3_error_response cr e (rq_path req) rid)" "s' = s1"
      by (auto simp: authenticate_def match_o_apply)
    with view show thesis by (intro refused [of e]) simp_all
  next
    case (Inr req')
    then have ok: "verify cr (sqlite_driver cr) cfg now req s = (Inr req', s1)" using v by simp
    have inner: "inner req' s1 = Some (r, s')" using run ok by (simp add: authenticate_def match_o_apply)
    from verify_anonymous [OF ok] obtain i where i: "rq_identity req' = Some i" by metis
    from verify_route [OF ok] show thesis
      by (intro passed [OF ok view inner i]) simp_all
  qed
qed

text \<open>
  C1 (safety): whatever SQLite does meanwhile, a request to the gateway that changes the store, or that
  a route of either API answers with a success, carries a valid signature of a stored, unsuspended
  user under a key that names it, and that user is permitted: it owns the bucket the request is about
  (or is a \<open>system\<close> or \<open>admin\<close> user), or holds the capability of the admin operation.
\<close>

theorem gateway_authorised:
  assumes "hex_ok cr" and "mac_ok cr" and inv: "sq_inv cr s"
    and run: "build_app cr (sqlite_driver cr) ax fx req s = Some (Inr resp, s')"
    and effect: "sq_view cr s' \<noteq> sq_view cr s \<or> rs_status resp < 400 \<and> gw_handler ax req \<noteq> None"
  shows "\<exists>u h uid. authentic cr auth_config_default (gx_now fx) req u \<and>
    bt_get (g_keys (sq_view cr s)) (au_access_key_id u) = Some uid \<and>
    bt_get (g_users (sq_view cr s)) uid = Some (au_info u) \<and>
    gw_handler ax req = Some h \<and> permitted (sq_view cr s) (User u) h"
proof -
  define rid where "rid = new_request_id (gx_uuid fx) (gx_timestamp fx)"
  obtain r where auth: "authenticate cr (sqlite_driver cr) auth_config_default (gx_now fx) rid
      (gw_dispatch cr (sqlite_driver cr) ax fx rid) req s = Some (r, s')" and r: "map_sum id (stamp_response rid) r = Inr resp"
    using run by (auto simp: build_app_run [OF rid_def])
  from inv auth show ?thesis
  proof (cases rule: authenticate_run)
    case (refused e)
    with r have "rs_status resp = http_status e" by auto
    with refused(2) effect http_status_error [of e] show ?thesis by simp
  next
    case (passed req' i s1)
    have handler: "gw_handler ax req' = gw_handler ax req" unfolding gw_handler_def passed(6,7) ..
    obtain h where h: "gw_handler ax req = Some h"
      using effect dispatch_unrouted [OF _ passed(4)] handler passed(3) by fastforce
    have ok: "permitted (sq_view cr s) i h"
    proof (rule ccontr)
      assume no: "\<not> permitted (sq_view cr s) i h"
      from dispatch_denied [OF passed(2) _ passed(5) _ passed(4)] no h handler passed(3)
      obtain resp' where "sq_view cr s' = sq_view cr s" "r = Inr resp'" "400 \<le> rs_status resp'" by auto
      with r effect show False by auto
    qed
    with permitted_user obtain u where u: "i = User u" by (cases i) blast+
    from verified_authentic [OF assms(1,2) passed(1)] passed(5) u
    have a: "authentic cr auth_config_default (gx_now fx) req u"
      and l: "load_user_by_access_key (sqlite_driver cr) (au_access_key_id u) s = (Inr (au_info u), s1)" by simp_all
    from sq.load_key_found [OF inv l] a h ok u show ?thesis by blast
  qed
qed

subsection \<open>A request through the gateway\<close>

definition gwp_axum :: axum where
  "gwp_axum = \<lparr>ax_match = (\<lambda>_. S3Target (ObjectPath ''b'' ''b'')), ax_not_allowed = status_response 405 [],
     ax_no_extension = status_response 500 [], ax_query = (\<lambda>_. Inr [])\<rparr>"

definition gwp_fx :: gw_fx where
  "gwp_fx = \<lparr>gx_uuid = ''u'', gx_timestamp = 0, gx_now = demo_now, gx_s3 = demo_fx, gx_admin = adm_fx\<rparr>"

definition gwp_request :: request where
  "gwp_request = demo_sign ((demo_base_request ''UNSIGNED-PAYLOAD'' [Inr ''x''])\<lparr>rq_method := ''DELETE''\<rparr>) ''UNSIGNED-PAYLOAD''"

lemma sim_verify: "sim (sg.works cr) (sq_view cr) (verify cr' (sqlite_driver cr) cfg now req) (verify cr' (spec_driver (md5_hex cr)) cfg now req)"
  unfolding verify_def Let_def by (intro sim_intros sg.sim_methods)

text \<open>Evaluated with a limit of 500 bytes, which the short body does not notice.\<close>

lemma verify_same_config:
  assumes "ac_max_skew cfg = ac_max_skew cfg'"
    and "read_request_body cr (rq_headers req) (rq_body req) (ac_max_body_bytes cfg)
       = read_request_body cr (rq_headers req) (rq_body req) (ac_max_body_bytes cfg')"
  shows "verify cr drv cfg now req = verify cr drv cfg' now req"
  unfolding verify_def Let_def assms ..

lemma gwp_limit:
  "verify demo_crates drv auth_config_default demo_now gwp_request
   = verify demo_crates drv (auth_config_default\<lparr>ac_max_body_bytes := 500\<rparr>) demo_now gwp_request"
proof (rule verify_same_config)
  have "header_str (rq_headers gwp_request) ''content-length'' = None" "rq_body gwp_request = [Inr ''x'']"
    by code_simp+
  then show "read_request_body demo_crates (rq_headers gwp_request) (rq_body gwp_request) (ac_max_body_bytes auth_config_default)
      = read_request_body demo_crates (rq_headers gwp_request) (rq_body gwp_request) (ac_max_body_bytes (auth_config_default\<lparr>ac_max_body_bytes := 500\<rparr>))"
    by (simp add: read_request_body_def auth_config_default_def DEFAULT_MAX_BODY_BYTES_def demo_crates_def demo_to_bytes_def)
qed simp

lemma gwp_verified:
  "(case verify demo_crates (spec_driver id) (auth_config_default\<lparr>ac_max_body_bytes := 500\<rparr>) demo_now gwp_request
      \<lparr>g_users = [(''alice'', demo_alice)], g_keys = [(''AKID'', ''alice'')], g_buckets = [], g_objects = []\<rparr> of
      (Inr req', _) \<Rightarrow> rq_identity req' = Some demo_identity \<and> rq_query req' = None \<and> rq_body req' = [Inr ''x'']
    | _ \<Rightarrow> False)"
  unfolding auth_config_default_def auth_config.simps auth_config.update_convs by code_simp

text \<open>Authentication looks at the users only.\<close>

lemma sim_verify_users:
  "sim (\<lambda>_. True) (\<lambda>g. g\<lparr>g_buckets := [], g_objects := []\<rparr>) (verify cr (spec_driver e) cfg now req) (verify cr (spec_driver e') cfg now req)"
proof -
  have [sim_intros]: "sim (\<lambda>_. True) (\<lambda>g. g\<lparr>g_buckets := [], g_objects := []\<rparr>)
      (load_user_by_access_key (spec_driver e) k) (load_user_by_access_key (spec_driver e') k)" for k
    by (rule simI) (auto simp: spec_load_user_by_access_key_def)
  show ?thesis unfolding verify_def Let_def by (intro sim_intros)
qed

lemma gwp_passes:
  obtains req' s1 where "verify demo_crates (sqlite_driver demo_crates) auth_config_default demo_now gwp_request adm_store = (Inr req', s1)"
    and "rq_identity req' = Some demo_identity" and "rq_query req' = None" and "rq_body req' = [Inr ''x'']"
    and "sq_inv demo_crates s1" and "sq_calm demo_crates s1" and "sq_view demo_crates s1 = adm_gw"
proof -
  obtain r s1 where v: "verify demo_crates (sqlite_driver demo_crates) auth_config_default demo_now gwp_request adm_store = (r, s1)" by fastforce
  from simD [OF sim_verify _ v] have s1: "sq_inv demo_crates s1" "sq_calm demo_crates s1"
    and sp: "verify demo_crates (spec_driver (md5_hex demo_crates)) auth_config_default demo_now gwp_request adm_gw = (r, sq_view demo_crates s1)"
    by (simp_all add: adm_store_inv adm_store_calm adm_store_view)
  from simD [OF sim_verify_users _ sp, of id] gwp_verified have
    "case r of Inr req' \<Rightarrow> rq_identity req' = Some demo_identity \<and> rq_query req' = None \<and> rq_body req' = [Inr ''x''] | _ \<Rightarrow> False"
    unfolding gwp_limit by (simp add: adm_gw_eq)
  moreover have "sq_view demo_crates s1 = adm_gw"
    using verify_view(2) [OF adm_store_inv v] by (simp add: adm_store_view)
  ultimately show thesis using that s1 v by (cases r) auto
qed

lemma adm_spec_delete:
  "s3_serve demo_crates (spec_driver e) fx (s3_call_of rid demo_identity req) (ObjectDelete ''b'' ''b'') adm_gw =
     Some (Inr (status_response 204 []), g_drop_object demo_bucket_key ''b'' adm_gw)" if "rq_query req = None"
proof -
  have "gw_wf adm_gw" using sq.sinv_wf [OF adm_store_inv] by (simp add: adm_store_view)
  from spec_delete_granted [OF this, of "''b''" demo_bucket demo_identity e "''b''"]
  have "s3_delete_object (spec_driver e) demo_identity ''b'' ''b'' adm_gw =
      (Inr (status_response 204 []), g_drop_object demo_bucket_key ''b'' adm_gw)"
    by (simp add: adm_gw_eq bt_get_def) (simp add: demo_bucket_def)
  with that show ?thesis
    by (simp add: object_delete_def finish_a_def match_a_apply try_a_apply s3_call_of_def args_parse_def
        no_args_supported req_finish_def)
qed

lemma gateway_authorised_witness:
  "\<exists>resp s' u uid. build_app demo_crates (sqlite_driver demo_crates) gwp_axum gwp_fx gwp_request adm_store = Some (Inr resp, s') \<and>
     rs_status resp = 204 \<and> authentic demo_crates auth_config_default demo_now gwp_request u \<and>
     bt_get (g_users adm_gw) uid = Some (au_info u) \<and> granted_on adm_gw (User u) ''b''"
proof (rule gwp_passes)
  fix req' s1
  assume v: "verify demo_crates (sqlite_driver demo_crates) auth_config_default demo_now gwp_request adm_store = (Inr req', s1)"
    and req': "rq_identity req' = Some demo_identity" "rq_query req' = None" "rq_body req' = [Inr ''x'']"
    and s1: "sq_inv demo_crates s1" "sq_calm demo_crates s1" "sq_view demo_crates s1 = adm_gw"
  let ?rid = "new_request_id ''u'' 0" and ?h = "ObjectDelete ''b'' ''b''"
  let ?c = "s3_call_of ?rid demo_identity req'"
  have "rq_method gwp_request = ''DELETE''" by code_simp
  then have h: "gw_handler gwp_axum gwp_request = Some (Inr ?h)" "gw_handler gwp_axum req' = Some (Inr ?h)"
    using verify_route [OF v] by (simp_all add: gw_handler_def gwp_axum_def)
  obtain r s2 where serve: "s3_serve demo_crates (sqlite_driver demo_crates) demo_fx ?c ?h s1 = Some (r, s2)"
    using sg.s3_serve_returns [OF s1(1)] by blast
  have "call_ok demo_crates ?c ?h"
    by (auto simp: call_ok_def s3_call_of_def prefix_arg_def args_parse_def args_get_def or_default_def demo_alice_id
      demo_uid_stable req' body_fits_def from_utf8_ok.simps)
  from sim_oD [OF sg.s3_serve_sim [OF this] _ serve] s1 adm_spec_delete [OF req'(2)]
  have "r = Inr (status_response 204 [])" by simp
  with v h(2) req'(1) serve have run: "build_app demo_crates (sqlite_driver demo_crates) gwp_axum gwp_fx gwp_request adm_store =
      Some (Inr (stamp_response ?rid (status_response 204 [])), s2)"
    by (simp add: build_app_run [OF refl] authenticate_def match_o_apply gw_dispatch_def s3_response_def gwp_fx_def)
  have ok: "rs_status (stamp_response ?rid (status_response 204 [])) < 400 \<and> gw_handler gwp_axum gwp_request \<noteq> None"
    using h(1) by (simp add: status_response_def)
  from gateway_authorised [OF demo_crates_more_ok(1,2) adm_store_inv run disjI2 [OF ok]] obtain u uid where
    "authentic demo_crates auth_config_default demo_now gwp_request u" "bt_get (g_users adm_gw) uid = Some (au_info u)"
    "permitted adm_gw (User u) (Inr ?h)"
    unfolding h(1) adm_store_view by (auto simp: gwp_fx_def)
  with run show ?thesis by (auto simp: permitted_def status_response_def)
qed

text \<open>
  C40 (termination): the gateway answers every request, from every consistent store, whatever SQLite does.
\<close>

theorem gateway_answers:
  assumes "sq_inv cr s"
  shows "\<exists>resp s'. build_app cr (sqlite_driver cr) ax fx req s = Some (Inr resp, s')"
proof -
  define rid where "rid = new_request_id (gx_uuid fx) (gx_timestamp fx)"
  obtain r0 s1 where v: "verify cr (sqlite_driver cr) auth_config_default (gx_now fx) req s = (r0, s1)" by fastforce
  have inv: "sq_inv cr s1" using verify_view [OF assms v] by simp
  have dispatch: "\<exists>resp s'. gw_dispatch cr (sqlite_driver cr) ax fx rid req' s1 = Some (Inr resp, s')" for req'
  proof (cases "gw_handler ax req'"; cases "rq_identity req'")
    fix h i assume h: "gw_handler ax req' = Some h" "rq_identity req' = Some i"
    from h sg.admin_serve_ends [OF inv, where fx = "gx_admin fx" and c = "admin_call_of ax rid i req'" and h = "projl h"]
      sg.s3_serve_returns [OF inv, where fx = "gx_s3 fx" and c = "s3_call_of rid i req'" and h = "projr h"]
    show ?thesis by (cases h) (auto simp: gw_dispatch_def match_o_apply)
  qed (simp_all add: gw_dispatch_def)
  have "\<exists>resp s'. authenticate cr (sqlite_driver cr) auth_config_default (gx_now fx) rid
      (gw_dispatch cr (sqlite_driver cr) ax fx rid) req s = Some (Inr resp, s')"
    using v dispatch by (cases r0) (auto simp: authenticate_def match_o_apply)
  then show ?thesis by (auto simp: build_app_run [OF rid_def])
qed

lemma gateway_answers_witness:
  "\<exists>resp s'. build_app demo_crates (sqlite_driver demo_crates) gwp_axum gwp_fx (demo_base_request [] []) adm_store = Some (Inr resp, s')"
  by (rule gateway_answers [OF adm_store_inv])

end
