(* ===== verification/Client_Keeps.thy ===== *)
theory Client_Keeps
  imports S3_Quota Admin_Cli Admin_Purge
begin

section \<open>What every operation keeps of the store, whatever happens between its calls\<close>

text \<open>
  A \<open>tidy\<close> store: every bucket is in the default tenant under a valid name, every object has a name,
  is within the limits of the service, and its ETag is that of its bytes. Quotas, complete listings
  and purges rest on it. The locale asks of a driver only what holds of each call by itself, not what
  one call says of the next, so that it also describes a driver that others use meanwhile: each call
  keeps a predicate of the state, a user it returns may be stored again, and a state has a bound on
  the pages that can still be listed. Every operation of the S3 service, the admin API and the command
  line tool then ends and keeps the predicate.
\<close>

definition tidy_object :: "(bytes \<Rightarrow> string) \<Rightarrow> string \<Rightarrow> object_info \<Rightarrow> bytes \<Rightarrow> bool" where
  "tidy_object etag n ob d \<longleftrightarrow>
     n \<noteq> [] \<and> length n \<le> MAX_OBJECT_NAME \<and> length d \<le> DEFAULT_MAX_BODY_BYTES \<and> oi_etag ob = etag d"

definition tidy :: "(bytes \<Rightarrow> string) \<Rightarrow> gw \<Rightarrow> bool" where
  "tidy etag g \<longleftrightarrow>
     (\<forall>((n, t), b) \<in> set (g_buckets g). t = [] \<and> validate_bucket_name n = Inr ()) \<and>
     (\<forall>((i, n), ob, d) \<in> set (g_objects g). tidy_object etag n ob d)"

lemma tidy_empty: "tidy etag gw_empty"
  by (simp add: tidy_def gw_empty_def)

lemma tidy_shape: "tidy etag g \<Longrightarrow> default_tenant g \<and> named_objects g"
  by (fastforce simp: tidy_def tidy_object_def default_tenant_def named_objects_def validate_bucket_name_iff)

definition keeps_tidy :: "(bytes \<Rightarrow> string) \<Rightarrow> (gw, 'a) rgw_act \<Rightarrow> bool" where
  "keeps_tidy etag sp \<longleftrightarrow> (\<forall>g. tidy etag g \<longrightarrow> tidy etag (snd (sp g)))"

lemma keeps_run_D: "keeps I m \<Longrightarrow> I s \<Longrightarrow> m s = (r, s') \<Longrightarrow> I s'"
  by (drule (1) keepsD) simp

lemma keeps_runI: "(\<And>s r s'. I s \<Longrightarrow> m s = (r, s') \<Longrightarrow> I s') \<Longrightarrow> keeps I m"
  by (simp add: keeps_def prod_eq_iff)

subsection \<open>Composition\<close>

lemma keeps_case_option: "keeps I m \<Longrightarrow> (\<And>y. keeps I (f y)) \<Longrightarrow> keeps I (case x of None \<Rightarrow> m | Some y \<Rightarrow> f y)"
  by (cases x) simp_all

lemma keeps_case_prod: "(\<And>a b. keeps I (f a b)) \<Longrightarrow> keeps I (case x of (a, b) \<Rightarrow> f a b)"
  by (cases x) simp

lemma keeps_if_not: "keeps I m \<Longrightarrow> (\<not> b \<Longrightarrow> keeps I n) \<Longrightarrow> keeps I (if b then m else n)"
  by simp

lemmas keeps_cases = keeps_branch keeps_case_option keeps_case_prod

lemma ends_branch:
  "ends I m \<Longrightarrow> ends I n \<Longrightarrow> ends I (if b then m else n)"
  "ends I (f x) \<Longrightarrow> ends I (let y = x in f y)"
  "ends I m \<Longrightarrow> (\<And>y. ends I (f y)) \<Longrightarrow> ends I (case z of None \<Rightarrow> m | Some y \<Rightarrow> f y)"
  "(\<And>a b. ends I (g a b)) \<Longrightarrow> ends I (case p of (a, b) \<Rightarrow> g a b)"
  by (simp_all split: option.splits prod.splits)

text \<open>What is known of a value may be needed to show that what follows keeps the invariant.\<close>

lemma keeps_try_gives:
  assumes m: "keeps I m" and g: "gives I Q m" and f: "\<And>x. Q x \<Longrightarrow> keeps I (f x)"
  shows "keeps I (try_a m f)"
proof (rule keeps_runI)
  fix s r s' assume I: "I s" and run: "try_a m f s = (r, s')"
  obtain r0 s0 where 0: "m s = (r0, s0)" by fastforce
  show "I s'"
  proof (cases r0)
    case (Inl e)
    with 0 run keeps_run_D [OF m I 0] show ?thesis by (simp add: try_a_apply)
  next
    case (Inr x)
    with 0 run g I have "f x s0 = (r, s')" "Q x" by (auto simp: try_a_apply dest: givesD)
    with keeps_run_D [OF f keeps_run_D [OF m I 0]] show ?thesis by blast
  qed
qed

lemma keeps_try_lift: "(\<And>x. r = Inr x \<Longrightarrow> keeps I (f x)) \<Longrightarrow> keeps I (try_a (lift_a r) f)"
  by (rule keeps_try_gives [where Q = "\<lambda>x. r = Inr x"]) (auto intro: keeps_intros simp: gives_def)

lemma keeps_try_op_r: "(\<And>x. r = Inr x \<Longrightarrow> keeps I (f x)) \<Longrightarrow> keeps I (try_a (op_r r) f)"
  by (cases r) (auto intro!: keeps_runI simp: try_a_apply dest: keeps_run_D)

lemma ends_finish [ends_intros]: "ends I m \<Longrightarrow> ends I (finish_o c m)"
  unfolding finish_o_def by (intro ends_intros keeps_intros)

lemma ends_op [ends_intros]: "ends I m \<Longrightarrow> ends I (op_o m)"
  unfolding op_o_def by (intro ends_intros keeps_intros)

lemma ends_try_lift: "(\<And>x. r = Inr x \<Longrightarrow> ends I (f x)) \<Longrightarrow> ends I (try_o (run_o (op_r r)) f)"
  by (cases r) (auto intro!: endsI dest: endsD simp: try_o_apply)

subsection \<open>The calls of the contract\<close>

lemma keeps_tidy_reads [simp]: "reads sp \<Longrightarrow> keeps_tidy e sp"
  by (simp add: reads_def keeps_tidy_def)

lemma tidy_users [simp]: "tidy e (g\<lparr>g_users := us, g_keys := ks\<rparr>) = tidy e g"
  by (simp add: tidy_def)

lemma keeps_tidy_specs [simp]:
  "keeps_tidy e (spec_store_user info excl)" "keeps_tidy e (spec_remove_user uid)"
  "keeps_tidy e (spec_remove_bucket t n)" "keeps_tidy e (spec_delete_object b k)"
proof -
  show "keeps_tidy e (spec_store_user info excl)" "keeps_tidy e (spec_remove_user uid)"
    by (simp_all add: keeps_tidy_def spec_store_user_def spec_remove_user_def g_put_user_def Let_def)
  show "keeps_tidy e (spec_remove_bucket t n)" "keeps_tidy e (spec_delete_object b k)"
    by (auto simp: keeps_tidy_def tidy_def spec_remove_bucket_def spec_delete_object_def bt_remove_def
        split: option.splits sum.splits)
qed

lemma tidy_add_bucket:
  assumes "tidy e g" and "bk_tenant (bi_bucket b) = []" and "validate_bucket_name (bk_name (bi_bucket b)) = Inr ()"
  shows "tidy e (g_add_bucket b g)"
  using assms set_bt_insert [of "(bk_name (bi_bucket b), bk_tenant (bi_bucket b))" "canon_bucket b" "g_buckets g"]
  unfolding tidy_def g_add_bucket_def by fastforce

lemma keeps_tidy_create:
  assumes "bk_tenant (bi_bucket b) = []" and "validate_bucket_name (bk_name (bi_bucket b)) = Inr ()"
  shows "keeps_tidy e (spec_create_bucket b)"
  using tidy_add_bucket [OF _ assms] by (auto simp: keeps_tidy_def spec_create_bucket_def g_add_bucket_def Let_def)

definition body_within :: "object_body \<Rightarrow> bool" where
  "body_within body \<longleftrightarrow> (\<forall>d. read_body body = Inr d \<longrightarrow> length d \<le> DEFAULT_MAX_BODY_BYTES)"

lemma body_within_fits: "body_within body \<Longrightarrow> body_fits body"
  by (auto simp: body_within_def body_fits_def DEFAULT_MAX_BODY_BYTES_def split: sum.splits)

lemma tidy_insert:
  assumes "tidy e g" and "tidy_object e n ob d"
  shows "tidy e (g\<lparr>g_objects := bt_insert (i, n) (ob, d) (g_objects g)\<rparr>)"
proof -
  have "\<forall>((i, n), ob, d) \<in> set (bt_insert (i, n) (ob, d) (g_objects g)). tidy_object e n ob d"
    using assms by (auto simp: tidy_def dest!: set_bt_insert [THEN subsetD])
  with assms(1) show ?thesis by (simp add: tidy_def)
qed

lemma keeps_tidy_put:
  assumes "ok_name k \<noteq> []" and "length (ok_name k) \<le> MAX_OBJECT_NAME" and "body_within body"
  shows "keeps_tidy e (spec_put_object e now b k ow at body)"
  unfolding keeps_tidy_def
proof (intro allI impI)
  fix g assume g: "tidy e g"
  show "tidy e (snd (spec_put_object e now b k ow at body g))"
  proof (cases "read_body body")
    case (Inr d)
    let ?ob = "canon_object (new_object e now k ow at d)"
    have "tidy_object e (ok_name k) ?ob d"
      using assms Inr by (simp add: tidy_object_def body_within_def new_object_def canon_object_def)
    from tidy_insert [OF g this] g Inr show ?thesis by (simp add: spec_put_object_def Let_def)
  qed (use g in \<open>simp add: spec_put_object_def\<close>)
qed

lemma read_body_concat: "(\<forall>c \<in> set body. \<exists>d. c = Inr d) \<Longrightarrow> read_body body = Inr (concat (map projr body))"
  by (induction body rule: read_body.induct) (auto simp: try_r_Inr_iff)

lemma put_payload_within:
  assumes "to_bytes_ok cr" and "body_within body" and run: "put_payload cr hs body = Inr payload"
  shows "body_within payload"
proof -
  have "read_body body = Inr b" if "buffer_body cr body MAX_BUFFERED_PUT = Inr b" for b
    using that assms(1) read_body_concat [of body]
    by (cases "body_to_bytes cr body MAX_BUFFERED_PUT") (auto simp: buffer_body_def to_bytes_ok_def)
  with run assms(2) show ?thesis
    by (auto simp: put_payload_def try_r_Inr_iff body_within_def split: option.splits)
qed

text \<open>A command that creates a user names it by an id that reads back from its own text.\<close>

definition flags_stable :: "user_flags \<Rightarrow> bool" where
  "flags_stable f \<longleftrightarrow> (case flags_uid f of Inr uid \<Rightarrow> uid_stable uid | Inl _ \<Rightarrow> True)"

definition cmd_ok :: "command \<Rightarrow> bool" where
  "cmd_ok cmd \<longleftrightarrow> (case cmd of
       UserCmd op \<Rightarrow> (case op of UserCreate f \<Rightarrow> flags_stable f | _ \<Rightarrow> True)
     | _ \<Rightarrow> True)"

subsection \<open>The locale\<close>

locale served_driver =
  fixes drv :: "'s driver" and good :: "'s \<Rightarrow> bool" and fuel :: "'s \<Rightarrow> nat"
  assumes load_user_keeps: "keeps good (load_user drv uid)"
    and load_user_gives: "gives good user_ok (load_user drv uid)"
    and load_key_keeps: "keeps good (load_user_by_access_key drv k)"
    and load_key_gives: "gives good user_ok (load_user_by_access_key drv k)"
    and load_email_keeps: "keeps good (load_user_by_email drv email)"
    and store_user_keeps: "user_ok info \<Longrightarrow> keeps good (store_user drv info excl)"
    and remove_user_keeps: "keeps good (remove_user drv uid)"
    and list_users_keeps: "mx < 2 ^ 64 \<Longrightarrow> keeps good (list_users drv marker mx)"
    and create_bucket_keeps:
      "uid_stable (bi_owner b) \<Longrightarrow> bk_tenant (bi_bucket b) = [] \<Longrightarrow>
       validate_bucket_name (bk_name (bi_bucket b)) = Inr () \<Longrightarrow> keeps good (create_bucket drv b)"
    and load_bucket_keeps: "keeps good (load_bucket drv tenant name)"
    and list_buckets_keeps: "mx < 2 ^ 63 \<Longrightarrow> keeps good (list_buckets drv ow marker mx)"
    and remove_bucket_keeps: "keeps good (remove_bucket drv tenant name)"
    and read_stats_keeps: "keeps good (read_stats drv bk)"
    and list_objects_keeps: "keeps good (list_objects drv bk p)"
    and head_object_keeps: "keeps good (head_object drv bk key)"
    and get_object_keeps: "keeps good (get_object drv bk key rng)"
    and put_object_keeps:
      "from_utf8_ok (ok_name key) \<Longrightarrow> ok_name key \<noteq> [] \<Longrightarrow> length (ok_name key) \<le> MAX_OBJECT_NAME \<Longrightarrow>
       bt_wf at \<Longrightarrow> body_within body \<Longrightarrow> keeps good (put_object drv now bk key owner at body)"
    and delete_object_keeps: "keeps good (delete_object drv bk key)"
    and list_users_fuel: "list_users drv marker mx s = (Inr us, s') \<Longrightarrow> fuel s' < fuel s"
    and list_buckets_fuel: "list_buckets drv ow marker mx s = (Inr bl, s') \<Longrightarrow> fuel s' < fuel s"
    and list_objects_fuel: "list_objects drv bk p s = (Inr lr, s') \<Longrightarrow> fuel s' < fuel s"
    and delete_object_fuel: "fuel (snd (delete_object drv bk key s)) \<le> fuel s"
begin

lemmas keeps_calls [keeps_intros] = load_user_keeps load_key_keeps load_email_keeps store_user_keeps remove_user_keeps
  list_users_keeps load_bucket_keeps list_buckets_keeps remove_bucket_keeps read_stats_keeps list_objects_keeps
  head_object_keeps get_object_keeps put_object_keeps delete_object_keeps

subsection \<open>The admin operations\<close>

lemma keeps_try_user: "(\<And>u. user_ok u \<Longrightarrow> keeps good (f u)) \<Longrightarrow> keeps good (try_a (load_user drv uid) f)"
  by (rule keeps_try_gives [OF load_user_keeps load_user_gives])

lemma keeps_unused_key [keeps_intros]: "keeps good (unused_key_loop drv ks)"
proof (induction ks)
  case (Cons k ks)
  show ?case unfolding unused_key_loop.simps by (intro keeps_intros keeps_cases Cons.IH)
next
  case Nil
  show ?case unfolding unused_key_loop.simps by (rule keeps_err)
qed

lemma keeps_checks [keeps_intros]:
  "keeps good (ensure_email_free drv uid e)" "keeps good (ensure_key_free drv uid k)" "keeps good (unused_access_key drv fx)"
  unfolding ensure_email_free_def ensure_key_free_def unused_access_key_def by (intro keeps_intros keeps_cases)+

lemma keeps_put_key [keeps_intros]:
  "keeps good (put_key drv fx info a sec g)" "keeps good (put_key_request drv fx info key)"
  "keeps good (modify_email drv e info)"
  unfolding put_key_request_def put_key_def modify_email_def by (intro keeps_intros keeps_cases)+

lemma keeps_user_create:
  assumes "uid_stable (uc_uid params)"
  shows "keeps good (user_create drv fx params)"
proof -
  let ?i = "user_info_new (uc_uid params) (uc_display_name params) (af_now fx)"
  have new: "user_ok ?i" using assms by (simp add: user_ok_def user_wf_def user_info_new_def caps_wf_new bt_wf_def)
  have caps: "user_ok i1" if "(case nonempty (uc_caps params) of
      Some caps \<Rightarrow> try_r (caps_add_from_string (ui_caps ?i) caps) (\<lambda>cs. Inr (?i\<lparr>ui_caps := cs\<rparr>)) | None \<Rightarrow> Inr ?i) = Inr i1" for i1
    using that new by (auto simp: try_r_Inr_iff split: option.splits intro!: user_ok_caps intro: caps_from_string_wf [OF caps_wf_new])
  have email: "gives good user_ok (case nonempty (uc_email params) of
      Some email \<Rightarrow> try_a (ensure_email_free drv (ui_user_id i1) email) (\<lambda>_. ret_a (i1\<lparr>ui_user_email := email\<rparr>))
    | None \<Rightarrow> ret_a i1)" if "user_ok i1" for i1
    using that by (auto intro!: givesI simp: act_Inr_iff split: option.splits)
  show ?thesis
    unfolding user_create_def Let_def
    by (rule keeps_try_lift, rule keeps_if, rule keeps_err, rule keeps_try_lift, rule keeps_try_lift, rule keeps_try_gives [OF _ email],
        intro keeps_intros keeps_cases, rule caps, assumption, rule keeps_try_gives [OF keeps_put_key(2) gives_put_key_request], simp,
        rule keeps_try [OF store_user_keeps], assumption, rule keeps_ret)
qed

lemma keeps_user_ops [keeps_intros]:
  "keeps good (user_show drv uid)" "keeps good (user_list_page drv m mx)" "keeps good (purge_one drv b ob)"
  "keeps good (admin_bucket_info drv t n)"
proof -
  show "keeps good (user_show drv uid)" "keeps good (purge_one drv b ob)" "keeps good (admin_bucket_info drv t n)"
    unfolding user_show_def purge_one_def admin_bucket_info_def by (intro keeps_intros keeps_cases)+
  show "keeps good (user_list_page drv m mx)"
    unfolding user_list_page_def Let_def
    by (intro keeps_intros) (simp add: DEFAULT_MAX_ENTRIES_def min_less_iff_disj)
qed

lemma keeps_changes [keeps_intros]:
  "keeps good (user_modify drv fx ump)" "keeps good (key_create drv fx uid a sec g)"
  "keeps good (key_remove drv uid k)" "keeps good (caps_add drv uid caps)" "keeps good (caps_remove drv uid caps)"
proof -
  show "keeps good (user_modify drv fx ump)"
    unfolding user_modify_def Let_def
    by (rule keeps_try_lift, rule keeps_try_lift, rule keeps_try_user, rule keeps_try_lift,
        rule keeps_try_gives [OF keeps_put_key(3) gives_modify_email], erule (1) modify_name_ok,
        rule keeps_try_gives [OF keeps_put_key(2) gives_put_key_request], simp,
        rule keeps_try [OF store_user_keeps], assumption, rule keeps_ret)
  show "keeps good (key_create drv fx uid a sec g)"
    unfolding key_create_def
    by (rule keeps_try_lift, rule keeps_try_user, rule keeps_try_gives [OF keeps_put_key(1) gives_put_key], assumption,
        rule keeps_try [OF store_user_keeps], assumption, rule keeps_ret)
  show "keeps good (key_remove drv uid k)"
    unfolding key_remove_def Let_def
    by (rule keeps_try_lift, rule keeps_if, rule keeps_err, rule keeps_try_user, rule keeps_if, rule keeps_err,
        rule keeps_try [OF store_user_keeps], erule user_ok_remove_key, rule keeps_ret)
  show "keeps good (caps_add drv uid caps)"
    unfolding caps_add_def Let_def
    by (rule keeps_try_lift, rule keeps_try_lift, rule keeps_try_user, rule keeps_try_lift, rule keeps_try [OF store_user_keeps],
        rule user_ok_caps, assumption, rule caps_add_all_wf, erule parse_caps_wf, erule user_ok_capsD, assumption, rule keeps_ret)
  show "keeps good (caps_remove drv uid caps)"
    unfolding caps_remove_def Let_def
    by (rule keeps_try_lift, rule keeps_try_lift, rule keeps_try_user, rule keeps_try [OF store_user_keeps],
        rule user_ok_caps, assumption, rule caps_remove_all_wf, erule user_ok_capsD, rule keeps_ret)
qed

lemma ends_list_all [ends_intros]: "ends good (list_all_loop drv ow out m)"
proof (rule endsI)
  fix s assume "good s"
  then show "\<exists>r s'. list_all_loop drv ow out m s = Some (r, s') \<and> good s'"
  proof (induction "fuel s" arbitrary: s out m rule: less_induct)
    case less
    obtain r1 s1 where run: "list_buckets drv ow m 0 s = (r1, s1)" by fastforce
    have s1: "good s1" using keeps_run_D [OF list_buckets_keeps less.prems run] by simp
    show ?case
    proof (cases r1)
      case (Inr page)
      with run have "fuel s1 < fuel s" by (auto dest: list_buckets_fuel)
      from less.hyps [OF this s1] show ?thesis
        using run Inr s1 by (auto simp: list_all_loop.simps [of drv ow out m s] Let_def)
    qed (use run s1 in \<open>simp add: list_all_loop.simps [of drv ow out m s]\<close>)
  qed
qed

lemma ends_list_owned [ends_intros]: "ends good (list_owned_loop drv u limit out m)"
proof (rule endsI)
  fix s assume "good s"
  then show "\<exists>r s'. list_owned_loop drv u limit out m s = Some (r, s') \<and> good s'"
  proof (induction "fuel s" arbitrary: s out m rule: less_induct)
    case less
    obtain r1 s1 where run: "list_buckets drv (Some u) m 0 s = (r1, s1)" by fastforce
    have s1: "good s1" using keeps_run_D [OF list_buckets_keeps less.prems run] by simp
    show ?case
    proof (cases r1)
      case (Inr page)
      with run have "fuel s1 < fuel s" by (auto dest: list_buckets_fuel)
      from less.hyps [OF this s1] show ?thesis
        using run Inr s1 by (auto simp: list_owned_loop.simps [of drv u limit out m s] Let_def)
    qed (use run s1 in \<open>simp add: list_owned_loop.simps [of drv u limit out m s]\<close>)
  qed
qed

lemma user_list_page_fuel: "user_list_page drv m mx s = (Inr page, s') \<Longrightarrow> fuel s' < fuel s"
  by (auto simp: user_list_page_def Let_def act_Inr_iff dest: list_users_fuel)

lemma ends_list_users [ends_intros]: "ends good (list_users_loop drv ids m)"
proof (rule endsI)
  fix s assume "good s"
  then show "\<exists>r s'. list_users_loop drv ids m s = Some (r, s') \<and> good s'"
  proof (induction "fuel s" arbitrary: s ids m rule: less_induct)
    case less
    obtain r1 s1 where run: "user_list_page drv m 0 s = (r1, s1)" by fastforce
    have s1: "good s1" by (rule keeps_run_D [OF keeps_user_ops(2) less.prems run])
    show ?case
    proof (cases r1)
      case (Inr page)
      with run have "fuel s1 < fuel s" by (auto dest: user_list_page_fuel)
      from less.hyps [OF this s1] show ?thesis
        using run Inr s1 by (auto simp: list_users_loop.simps [of drv ids m s] Let_def)
    qed (use run s1 in \<open>simp add: list_users_loop.simps [of drv ids m s]\<close>)
  qed
qed

lemma purge_page_fuel: "try_for (purge_one drv b) obs s = (r, s') \<Longrightarrow> fuel s' \<le> fuel s"
proof (induction obs arbitrary: s)
  case (Cons ob obs)
  obtain r1 s1 where run: "delete_object drv b (oi_key ob) s = (r1, s1)" by fastforce
  with delete_object_fuel [of b "oi_key ob" s] Cons.IH [of s1] Cons.prems show ?case
    by (auto simp: purge_one_def try_a_apply match_a_apply split: sum.splits if_splits)
qed simp

lemma ends_purge_loop [ends_intros]: "ends good (purge_loop drv b p)"
proof (rule endsI)
  fix s assume "good s"
  then show "\<exists>r s'. purge_loop drv b p s = Some (r, s') \<and> good s'"
  proof (induction "fuel s" arbitrary: s p rule: less_induct)
    case less
    obtain r1 s1 where run: "list_objects drv b p s = (r1, s1)" by fastforce
    have s1: "good s1" by (rule keeps_run_D [OF list_objects_keeps less.prems run])
    show ?case
    proof (cases r1)
      case (Inr page)
      obtain r2 s2 where del: "try_for (purge_one drv b) (lr_objects page) s1 = (r2, s2)" by fastforce
      have "keeps good (try_for (purge_one drv b) (lr_objects page))" by (rule keeps_try_for) (rule keeps_user_ops)
      from keeps_run_D [OF this s1 del] have s2: "good s2" .
      have "fuel s2 < fuel s" using purge_page_fuel [OF del] run Inr by (auto dest: list_objects_fuel)
      from less.hyps [OF this s2] show ?thesis
        using run Inr del s2 by (cases r2) (auto simp: purge_loop.simps [of drv b p s])
    qed (use run s1 in \<open>simp add: purge_loop.simps [of drv b p s]\<close>)
  qed
qed

lemma ends_removals [ends_intros]:
  "ends good (bucket_remove drv t n p)" "ends good (remove_owned drv bk)" "ends good (user_remove drv uid pd)"
  unfolding bucket_remove_def user_remove_def remove_owned_def list_all_buckets_def purge_objects_def
  by (intro ends_intros ends_branch keeps_intros keeps_cases; simp)+

lemma keeps_bucket_docs [keeps_intros]: "keeps good (bucket_docs cr drv stats bs out)"
proof (induction bs arbitrary: out)
  case (Cons b bs)
  show ?case unfolding bucket_docs.simps by (intro keeps_intros keeps_cases Cons.IH)
next
  case Nil
  show ?case unfolding bucket_docs.simps by (rule keeps_ret)
qed

lemma ends_admin_serve:
  assumes "h = AdminUserPut \<Longrightarrow> uid_stable (user_id_parse (uid_arg c))"
  shows "ends good (admin_serve cr drv fx c h)"
proof (cases h)
  case AdminUserPut
  have create: "keeps good (user_create drv fx params)"
    if "admin_begin c names cap perm = Inr a" "user_put_params a = Inr params" for names cap perm a params
  proof (rule keeps_user_create)
    have "ad_query c = Inr a" using that(1) by (simp add: admin_begin_Inr)
    with user_put_params_uid [OF this that(2)] assms AdminUserPut show "uid_stable (uc_uid params)" by simp
  qed
  show ?thesis unfolding AdminUserPut admin_serve.simps admin_user_put_def
    by (rule ends_run, rule keeps_try_lift, rule keeps_if, intro keeps_intros, rule keeps_if, intro keeps_intros,
        rule keeps_try_lift, rule keeps_try [OF create], assumption, assumption, rule keeps_ret)
qed (auto simp: admin_user_get_def admin_user_post_def admin_user_delete_def admin_bucket_get_def admin_bucket_put_def
    admin_bucket_delete_def admin_info_get_def method_not_allowed_def admin_bucket_list_def list_all_buckets_def Let_def
    simp del: try_o_run intro!: ends_intros ends_branch keeps_intros keeps_cases)

subsection \<open>The command line tool\<close>

lemma ends_cli_user: "(case op of UserCreate f \<Rightarrow> flags_stable f | _ \<Rightarrow> True) \<Longrightarrow> ends good (cli_user cr drv fx op)"
proof (cases op)
  case (UserCreate f)
  assume "case op of UserCreate f \<Rightarrow> flags_stable f | _ \<Rightarrow> True"
  then have f: "flags_stable f" using UserCreate by simp
  have "uid_stable (uc_uid params)" if "create_flags f = Inr params" for params
    using that f by (auto simp: create_flags_def flags_stable_def try_r_Inr_iff)
  then show ?thesis unfolding UserCreate cli_user.simps
    by (intro ends_run keeps_try_lift keeps_try keeps_user_create keeps_ret)
qed (auto simp: list_all_users_def simp del: try_o_run intro!: ends_intros ends_branch keeps_intros keeps_cases)

lemma ends_cli_run: "cmd_ok cmd \<Longrightarrow> ends good (cli_run cr drv fx cmd)"
proof (cases cmd)
  case (KeyCmd op)
  then show ?thesis by (cases op) (auto simp: Let_def intro!: ends_intros keeps_intros)
next
  case (CapsCmd op)
  then show ?thesis by (cases op) (auto intro!: ends_intros keeps_intros)
next
  case (BucketCmd op)
  then show ?thesis by (cases op) (auto simp: Let_def admin_bucket_list_def list_all_buckets_def simp del: try_o_run intro!: ends_intros ends_branch keeps_intros keeps_cases)
qed (simp add: cmd_ok_def ends_cli_user)

subsection \<open>The S3 handlers\<close>

lemma keeps_bucket_for [keeps_intros]: "keeps good (load_bucket_for drv i n)"
  unfolding load_bucket_for_def by (intro keeps_intros keeps_cases)

lemma keeps_s3_ops [keeps_intros]:
  "keeps good (s3_get_location cr drv i n)" "keeps good (s3_get_versioning cr drv i n)"
  "keeps good (s3_stat_bucket cr drv i n)" "keeps good (s3_list_objects_v1 cr drv i n a)"
  "keeps good (s3_list_objects_v2 cr drv i n a)" "keeps good (s3_get_object cr drv i n k hs d)"
  "keeps good (s3_delete_object drv i n k)" "keeps good (s3_delete_bucket drv i n)"
  unfolding s3_get_location_def s3_get_versioning_def s3_stat_bucket_def s3_list_objects_v1_def s3_list_objects_v2_def
    common_list_def s3_get_object_def s3_delete_object_def s3_delete_bucket_def Let_def
  by (intro keeps_intros keeps_cases)+

lemma keeps_s3_put:
  assumes "from_utf8_ok k" and "k \<noteq> []" and within: "\<And>u. identity_user i = Some u \<Longrightarrow> body_within body" and "to_bytes_ok cr"
  shows "keeps good (s3_put_object cr drv now i n k hs body)"
proof -
  have "ok_name (object_key_new k) = k" by (simp add: object_key_new_def)
  with assms(1,2,4) have put: "keeps good (put_object drv now b (object_key_new k) ow (put_attrs hs) payload)"
    if "require_user i = Inr u" "\<not> MAX_OBJECT_NAME < length k" "put_payload cr hs body = Inr payload" for b u ow payload
    using that by (intro put_object_keeps bt_wf_put_attrs)
      (auto intro: put_payload_within within simp: require_user_def split: option.splits)
  show ?thesis
    unfolding s3_put_object_def Let_def
    by (rule keeps_if, rule keeps_err, rule keeps_try, intro keeps_op_a keeps_bucket_for, rule keeps_try_op_r,
        rule keeps_if_not, rule keeps_err, intro keeps_if keeps_err keeps_try_op_r keeps_try keeps_op_a put keeps_ret keeps_op_r;
        assumption)
qed

lemma keeps_delete_keys: "good s \<Longrightarrow> delete_keys drv b q ds xs es s = (res, s') \<Longrightarrow> good s'"
proof (induction ds arbitrary: xs es s)
  case (Cons d ds)
  obtain r1 s1 where run: "delete_object drv b (object_key_new (do_key d)) s = (r1, s1)" by fastforce
  from keeps_run_D [OF delete_object_keeps Cons.prems(1) run] Cons.IH [of s1] Cons.prems(2) run
  show ?case by (cases r1) (auto split: if_splits)
qed simp

lemma keeps_s3_delete_multi [keeps_intros]: "keeps good (s3_delete_multi cr drv i n hs body)"
proof -
  have keys: "keeps good
      (\<lambda>s. case delete_keys drv b q ds [] [] s of ((xs, es), s1) \<Rightarrow> op_r (xml_response cr (delete_result_elem xs es)) s1)"
    for b q ds
    by (rule keeps_runI) (auto dest: keeps_delete_keys split: prod.splits)
  show ?thesis unfolding s3_delete_multi_def by (intro keeps_intros keys)
qed

lemma ends_s3_list_buckets [ends_intros]: "ends good (s3_list_buckets cr drv i)"
  unfolding s3_list_buckets_def list_owned_buckets_def by (intro ends_intros keeps_intros)

lemma keeps_store_new:
  assumes "uid_stable (ui_user_id u)" and "validate_bucket_name n = Inr ()"
  shows "keeps good (store_new_bucket cr drv u n uuid now)"
proof -
  have "keeps good (create_bucket drv (new_bucket u n uuid now))"
    by (rule create_bucket_keeps) (simp_all add: new_bucket_def bucket_key_new_def assms)
  then show ?thesis unfolding store_new_bucket_def Let_def by (intro keeps_intros keeps_cases)
qed

lemma ends_s3_create:
  assumes "\<And>u. identity_user i = Some u \<Longrightarrow> uid_stable (ui_user_id u)"
  shows "ends good (s3_create_bucket cr drv i n uuid now)"
proof -
  have quota: "ends good (check_quota drv u)" for u
    unfolding check_quota_def list_owned_buckets_def Let_def by (intro ends_intros ends_branch keeps_intros)
  show ?thesis
    unfolding s3_create_bucket_def
    by (rule ends_try_lift, rule ends_try_lift, rule ends_try [OF quota], rule ends_run, rule keeps_store_new)
      (use assms in \<open>auto simp: require_user_def split: option.splits\<close>)
qed

text \<open>What a handler must know of its call: the body it stores is within the limit, the key it stores is a text.\<close>

lemma ends_s3_serve:
  assumes "\<And>u. identity_user (sc_identity c) = Some u \<Longrightarrow> uid_stable (ui_user_id u) \<and> body_within (sc_body c)"
    and "\<And>n k. h = ObjectPut n k \<Longrightarrow> from_utf8_ok k \<and> k \<noteq> []" and "to_bytes_ok cr"
  shows "ends good (s3_serve cr drv fx c h)"
proof (cases h)
  case (ObjectPut n k)
  with assms(2) have "from_utf8_ok k" "k \<noteq> []" by auto
  then show ?thesis unfolding ObjectPut s3_serve.simps object_put_def
    by (intro ends_intros keeps_intros keeps_s3_put assms(3)) (use assms(1) in auto)
next
  case (BucketPut n)
  show ?thesis unfolding BucketPut s3_serve.simps bucket_put_def Let_def
    by (intro ends_intros ends_branch keeps_intros ends_s3_create) (use assms(1) in auto)
qed (auto simp: service_get_def bucket_get_def bucket_head_def bucket_delete_def bucket_post_def object_get_def object_head_def
    get_or_head_def object_delete_def object_post_def Let_def intro!: ends_intros ends_branch keeps_intros keeps_cases)

end

end
