(* ===== verification/Gateway_System.thy ===== *)
theory Gateway_System
  imports Gateway_Props Client_Keeps
begin

section \<open>The whole system: requests and commands that share one store\<close>

text \<open>
  The daemon serves requests concurrently while the command line tool works on the same file; what is
  atomic is a call of the driver, which holds the lock of the connection. A client of the store is run
  on a driver whose calls find the states the others left: \<open>cv_found\<close> are the states its next calls
  find, \<open>cv_left\<close> those its calls left. When no state is left the client stops, as a request that is
  dropped or a process that is killed. \<open>gw_run\<close> interleaves any number of clients call by call.
\<close>

subsection \<open>A client's view of the store\<close>

record 'c client_view =
  cv_found :: "'c list"
  cv_left :: "'c list"

definition visit :: "('c, 'a) rgw_act \<Rightarrow> ('c client_view, 'a) rgw_act" where
  "visit m v = (case cv_found v of
       [] \<Rightarrow> (Inl (InternalError ''stopped''), v)
     | c # cs \<Rightarrow> (case m c of (r, c') \<Rightarrow> (r, \<lparr>cv_found = cs, cv_left = cv_left v @ [c']\<rparr>)))"

definition shared_driver :: "'c driver \<Rightarrow> 'c client_view driver" where
  "shared_driver d =
     \<lparr>drv_name = drv_name d,
      load_user = (\<lambda>uid. visit (load_user d uid)),
      load_user_by_access_key = (\<lambda>k. visit (load_user_by_access_key d k)),
      load_user_by_email = (\<lambda>e. visit (load_user_by_email d e)),
      store_user = (\<lambda>info excl. visit (store_user d info excl)),
      remove_user = (\<lambda>uid. visit (remove_user d uid)),
      list_users = (\<lambda>m mx. visit (list_users d m mx)),
      create_bucket = (\<lambda>b. visit (create_bucket d b)),
      load_bucket = (\<lambda>t n. visit (load_bucket d t n)),
      list_buckets = (\<lambda>ow m mx. visit (list_buckets d ow m mx)),
      remove_bucket = (\<lambda>t n. visit (remove_bucket d t n)),
      read_stats = (\<lambda>b. visit (read_stats d b)),
      list_objects = (\<lambda>b p. visit (list_objects d b p)),
      head_object = (\<lambda>b k. visit (head_object d b k)),
      get_object = (\<lambda>b k rng. visit (get_object d b k rng)),
      put_object = (\<lambda>now b k ow at body. visit (put_object d now b k ow at body)),
      delete_object = (\<lambda>b k. visit (delete_object d b k))\<rparr>"

lemma shared_driver_sel [simp]:
  "load_user (shared_driver d) uid = visit (load_user d uid)"
  "load_user_by_access_key (shared_driver d) k = visit (load_user_by_access_key d k)"
  "store_user (shared_driver d) info excl = visit (store_user d info excl)"
  "list_users (shared_driver d) m mx = visit (list_users d m mx)"
  by (simp_all add: shared_driver_def)

definition seen :: "('c \<Rightarrow> bool) \<Rightarrow> 'c client_view \<Rightarrow> bool" where
  "seen G v \<longleftrightarrow> (\<forall>c \<in> set (cv_found v). G c) \<and> (\<forall>c \<in> set (cv_left v). G c)"

lemma keeps_visit: "keeps G m \<Longrightarrow> keeps (seen G) (visit m)"
  by (rule keeps_runI) (auto simp: visit_def seen_def split: list.splits prod.splits dest: keeps_run_D)

lemma gives_visit: "gives G Q m \<Longrightarrow> gives (seen G) Q (visit m)"
  by (rule givesI) (auto simp: visit_def seen_def split: list.splits prod.splits dest: givesD)

lemma visit_fuel: "visit m v = (Inr x, v') \<Longrightarrow> length (cv_found v') < length (cv_found v)"
  by (auto simp: visit_def split: list.splits prod.splits)

lemma visit_fuel_le: "length (cv_found (snd (visit m v))) \<le> length (cv_found v)"
  by (auto simp: visit_def split: list.splits prod.splits)

text \<open>Each call of a driver that meets the contract keeps its invariant and a tidy store.\<close>

context sal_driver
begin

definition tidy_state :: "'s \<Rightarrow> bool" where
  "tidy_state s \<longleftrightarrow> sinv s \<and> tidy etag (view s)"

lemma refines_tidy_state:
  assumes "refines sinv view m sp" and "keeps_tidy etag sp"
  shows "keeps tidy_state m"
proof (rule keeps_runI)
  fix s r s' assume s: "tidy_state s" and run: "m s = (r, s')"
  then have "tidy etag (snd (sp (view s)))" using assms(2) by (simp add: tidy_state_def keeps_tidy_def)
  with refinesD [OF assms(1) _ run] s show "tidy_state s'" by (auto simp: tidy_state_def) (metis snd_conv)
qed

lemma gives_loaded: "gives tidy_state user_ok (load_user drv uid)" "gives tidy_state user_ok (load_user_by_access_key drv k)"
proof -
  have ok: "user_ok u" if "sinv s" "bt_get (g_users (view s)) i = Some u" for s i u
    using gw_wf_user [OF sinv_wf [OF that(1)] that(2)] by (simp add: user_ok_def canonical_stable)
  show "gives tidy_state user_ok (load_user drv uid)"
  proof (rule givesI)
    fix s u s' assume "tidy_state s" and run: "load_user drv uid s = (Inr u, s')"
    then have s: "sinv s" by (simp add: tidy_state_def)
    from reads_ok(1) [OF s run] have "bt_get (g_users (view s)) (user_id_display uid) = Some u"
      by (auto simp: spec_load_user_def)
    from ok [OF s this] show "user_ok u" .
  qed
  show "gives tidy_state user_ok (load_user_by_access_key drv k)"
  proof (rule givesI)
    fix s u s' assume "tidy_state s" and run: "load_user_by_access_key drv k s = (Inr u, s')"
    then have s: "sinv s" by (simp add: tidy_state_def)
    from load_key_found [OF s run] ok [OF s] show "user_ok u" by blast
  qed
qed

lemma shared_served: "served_driver (shared_driver drv) (seen tidy_state) (\<lambda>v. length (cv_found v))"
proof
  fix p bk
  have lists: "keeps tidy_state (list_objects drv bk p)"
    by (rule keeps_runI) (use list_objects_reads [of _ bk p] in \<open>force simp: tidy_state_def\<close>)
  show "keeps (seen tidy_state) (list_objects (shared_driver drv) bk p)"
    unfolding shared_driver_def driver.simps by (rule keeps_visit [OF lists])
next
  fix info excl assume "user_ok info"
  then show "keeps (seen tidy_state) (store_user (shared_driver drv) info excl)"
    unfolding shared_driver_def driver.simps
    by (intro keeps_visit refines_tidy_state [OF store_user_ok]) (simp_all add: user_ok_def)
next
  fix b :: bucket_info assume "uid_stable (bi_owner b)" "bk_tenant (bi_bucket b) = []" "validate_bucket_name (bk_name (bi_bucket b)) = Inr ()"
  then show "keeps (seen tidy_state) (create_bucket (shared_driver drv) b)"
    unfolding shared_driver_def driver.simps
    by (intro keeps_visit refines_tidy_state [OF create_bucket_ok] keeps_tidy_create)
next
  fix key :: object_key and at :: attrs and body now bk ow
  assume "from_utf8_ok (ok_name key)" "ok_name key \<noteq> []" "length (ok_name key) \<le> MAX_OBJECT_NAME" "bt_wf at" "body_within body"
  then show "keeps (seen tidy_state) (put_object (shared_driver drv) now bk key ow at body)"
    unfolding shared_driver_def driver.simps
    by (intro keeps_visit refines_tidy_state [OF put_object_ok] keeps_tidy_put body_within_fits)
qed (simp_all add: shared_driver_def gives_visit gives_loaded visit_fuel_le keeps_visit
    refines_tidy_state [OF load_user_ok] refines_tidy_state [OF load_key_ok] refines_tidy_state [OF load_email_ok]
    refines_tidy_state [OF remove_user_ok] refines_tidy_state [OF list_users_ok] refines_tidy_state [OF load_bucket_ok]
    refines_tidy_state [OF list_buckets_ok] refines_tidy_state [OF remove_bucket_ok] refines_tidy_state [OF read_stats_ok]
    refines_tidy_state [OF head_object_ok] refines_tidy_state [OF get_object_ok] refines_tidy_state [OF delete_object_ok],
    (erule visit_fuel)+)

end

interpretation sh: served_driver "shared_driver (sqlite_driver cr)" "seen (sq.tidy_state cr)" "\<lambda>v. length (cv_found v)"
  for cr :: "'j crates"
  by (rule sq.shared_served)

lemma sq_tidy_state: "sq.tidy_state cr c \<longleftrightarrow> sq_inv cr c \<and> tidy (md5_hex cr) (sq_view cr c)"
  by (simp add: sq.tidy_state_def)

subsection \<open>A request over any served driver\<close>

lemma verify_handler:
  assumes "verify cr drv cfg now req s = (Inr req', s')"
  shows "gw_handler ax req' = gw_handler ax req"
proof -
  from verify_route [OF assms] have same: "rq_path req' = rq_path req" "rq_method req' = rq_method req" by simp_all
  show ?thesis unfolding gw_handler_def same ..
qed

lemma verify_payload_length: "verify_payload cr hs raw h a date key = Inr (hs', p) \<Longrightarrow> length p \<le> length raw"
  by (auto simp: verify_payload_def Let_def try_r_Inr_iff dest!: decode_aws_chunked_length split: if_splits)

lemma verified_body:
  assumes ok: "to_bytes_ok cr" and run: "verify cr drv auth_config_default now req s = (Inr req', s')"
    and u: "rq_identity req' = Some (User u)"
  shows "body_within (rq_body req')"
proof (rule verify_user_run [OF run u])
  fix raw hs' payload h a date sk
  assume "read_request_body cr (rq_headers req) (rq_body req) (ac_max_body_bytes auth_config_default) = Inr raw"
  then have "body_to_bytes cr (rq_body req) DEFAULT_MAX_BODY_BYTES = Inr raw"
    by (auto simp: read_request_body_def auth_config_default_def Let_def split: if_splits sum.splits)
  then have "length raw \<le> DEFAULT_MAX_BODY_BYTES" using ok by (auto simp: to_bytes_ok_def)
  moreover assume "verify_payload cr (rq_headers req) raw h a date sk = Inr (hs', payload)"
  moreover assume "rq_body req' = body_from_bytes payload"
  ultimately show ?thesis using verify_payload_length by (fastforce simp: body_within_def)
qed

text \<open>
  What axum guarantees of a wildcard key: it is UTF-8 text and not empty. A request that creates a
  user through the admin API names it by an id that reads back from its own text.
\<close>

definition axum_ok :: "axum \<Rightarrow> bool" where
  "axum_ok ax \<longleftrightarrow> (\<forall>p b k. ax_match ax p = S3Target (ObjectPath b k) \<longrightarrow> from_utf8_ok k \<and> k \<noteq> [])"

definition request_ok :: "axum \<Rightarrow> request \<Rightarrow> bool" where
  "request_ok ax req \<longleftrightarrow> (gw_handler ax req = Some (Inl AdminUserPut) \<longrightarrow>
     (case ax_query ax (rq_query req) of Inl _ \<Rightarrow> True | Inr a \<Rightarrow> uid_stable (user_id_parse (arg_str_or_empty a ''uid''))))"

lemma s3_route_put: "s3_route verb t = Some (ObjectPut n k) \<Longrightarrow> t = ObjectPath n k"
  by (cases t) (auto split: if_splits)

lemma uid_stable_empty: "uid_stable (user_id_parse [])"
  by code_simp

context served_driver
begin

lemma keeps_verify: "keeps good (verify cr drv cfg now req)"
  unfolding verify_def Let_def by (intro keeps_intros keeps_cases)

lemma verify_gives:
  assumes "to_bytes_ok cr"
  shows "gives good (\<lambda>req'. \<forall>u. rq_identity req' = Some (User u) \<longrightarrow> user_ok (au_info u) \<and> body_within (rq_body req'))
    (verify cr drv auth_config_default now req)"
proof (intro givesI allI impI)
  fix s req' s' u assume s: "good s" and run: "verify cr drv auth_config_default now req s = (Inr req', s')"
    and u: "rq_identity req' = Some (User u)"
  have "user_ok (au_info u)"
  proof (rule verify_user_run [OF run u])
    fix a assume "load_user_by_access_key drv (av_access_key_id a) s = (Inr (au_info u), s')"
    then show ?thesis by (rule givesD [OF load_key_gives s])
  qed
  with verified_body [OF assms run u] show "user_ok (au_info u) \<and> body_within (rq_body req')" by simp
qed

lemma ends_dispatch:
  assumes "\<And>u. rq_identity req = Some (User u) \<Longrightarrow> user_ok (au_info u) \<and> body_within (rq_body req)"
    and "axum_ok ax" and "request_ok ax req" and "to_bytes_ok cr"
  shows "ends good (gw_dispatch cr drv ax fx rid req)"
proof (cases "gw_handler ax req"; cases "rq_identity req")
  fix h i assume h: "gw_handler ax req = Some h" and i: "rq_identity req = Some i"
  show ?thesis
  proof (cases h)
    case (Inl ah)
    have "ends good (admin_serve cr drv (gx_admin fx) (admin_call_of ax rid i req) ah)"
      by (rule ends_admin_serve) (use assms(3) h Inl in \<open>auto simp: request_ok_def uid_arg_def admin_call_of_def uid_stable_empty split: sum.splits\<close>)
    then show ?thesis using h i Inl by (auto simp: gw_dispatch_def intro!: ends_intros keeps_intros)
  next
    case (Inr sh)
    have key: "from_utf8_ok k \<and> k \<noteq> []" if "sh = ObjectPut n k" for n k
      using h Inr that assms(2)
      by (auto simp: gw_handler_def axum_ok_def split: gw_target.splits dest!: s3_route_put)
    have "ends good (s3_serve cr drv (gx_s3 fx) (s3_call_of rid i req) sh)"
    proof (rule ends_s3_serve [OF _ key assms(4)])
      fix u assume "identity_user (sc_identity (s3_call_of rid i req)) = Some u"
      then obtain a where "i = User a" "u = au_info a" by (cases i) (auto simp: s3_call_of_def)
      with assms(1) i show "uid_stable (ui_user_id u) \<and> body_within (sc_body (s3_call_of rid i req))"
        by (auto simp: user_ok_def s3_call_of_def)
    qed
    then show ?thesis using h i Inr by (auto simp: gw_dispatch_def intro!: ends_intros keeps_intros)
  qed
qed (auto simp: gw_dispatch_def intro!: ends_intros keeps_intros)

lemma ends_build_app:
  assumes "axum_ok ax" and "request_ok ax req" and "to_bytes_ok cr"
  shows "ends good (build_app cr drv ax fx req)"
proof -
  have auth: "ends good (authenticate cr drv auth_config_default (gx_now fx) rid (gw_dispatch cr drv ax fx rid) req)" for rid
  proof (rule endsI)
    fix s assume s: "good s"
    obtain r0 s1 where v: "verify cr drv auth_config_default (gx_now fx) req s = (r0, s1)" by fastforce
    have s1: "good s1" by (rule keeps_run_D [OF keeps_verify s v])
    show "\<exists>r s'. authenticate cr drv auth_config_default (gx_now fx) rid (gw_dispatch cr drv ax fx rid) req s = Some (r, s') \<and> good s'"
    proof (cases r0)
      case (Inr req')
      then have v': "verify cr drv auth_config_default (gx_now fx) req s = (Inr req', s1)" using v by simp
      have "request_ok ax req'" using verify_handler [OF v'] verify_route [OF v'] assms(2) by (simp add: request_ok_def)
      moreover have "user_ok (au_info u) \<and> body_within (rq_body req')" if "rq_identity req' = Some (User u)" for u
        using givesD [OF verify_gives [OF assms(3)] s v'] that by blast
      ultimately have "ends good (gw_dispatch cr drv ax fx rid req')" by (intro ends_dispatch assms(1,3))
      from endsD [OF this s1] v' show ?thesis by (simp add: authenticate_def match_o_apply)
    qed (use v s1 in \<open>simp add: authenticate_def match_o_apply\<close>)
  qed
  show ?thesis unfolding build_app_def request_id_layer_def by (intro ends_intros keeps_intros auth)
qed

end

subsection \<open>Clients of the gateway's store\<close>

datatype client = Request gw_fx request | Command admin_fx command

fun client_run :: "'j crates \<Rightarrow> axum \<Rightarrow> client \<Rightarrow> 'j conn client_view \<Rightarrow> 'j conn client_view option" where
  "client_run cr ax (Request fx req) v = map_option snd (build_app cr (shared_driver (sqlite_driver cr)) ax fx req v)"
| "client_run cr ax (Command fx cmd) v =
     map_option snd (cli_session cr (visit sq_open) (shared_driver (sqlite_driver cr)) fx cmd v)"

definition client_calls :: "'j crates \<Rightarrow> axum \<Rightarrow> client \<Rightarrow> 'j conn list \<Rightarrow> 'j conn list" where
  "client_calls cr ax cl fs =
     (case client_run cr ax cl \<lparr>cv_found = fs, cv_left = []\<rparr> of None \<Rightarrow> [] | Some v \<Rightarrow> cv_left v)"

fun client_ok :: "axum \<Rightarrow> client \<Rightarrow> bool" where
  "client_ok ax (Request fx req) = request_ok ax req"
| "client_ok ax (Command fx cmd) = cmd_ok cmd"

text \<open>
  The store and, of each client that has come, the states its calls so far found. A step is one call
  of one client, on the store as it is now; SQLite may start or stop failing at any time.
\<close>

inductive gw_run :: "'j crates \<Rightarrow> axum \<Rightarrow> 'j conn \<Rightarrow> (client \<times> 'j conn list) list \<Rightarrow> bool" for cr ax where
  start: "cn_db c = db_empty \<Longrightarrow> gw_run cr ax c []"
| arrive: "gw_run cr ax c cls \<Longrightarrow> client_ok ax cl \<Longrightarrow> gw_run cr ax c (cls @ [(cl, [])])"
| call: "gw_run cr ax c cls \<Longrightarrow> i < length cls \<Longrightarrow> cls ! i = (cl, fs) \<Longrightarrow>
    client_calls cr ax cl (fs @ [c]) = ls @ [c'] \<Longrightarrow> length ls = length fs \<Longrightarrow>
    gw_run cr ax c' (cls[i := (cl, fs @ [c])])"
| faults: "gw_run cr ax c cls \<Longrightarrow> gw_run cr ax (c\<lparr>cn_faults := es\<rparr>) cls"

lemma keeps_open: "keeps (sq.tidy_state cr) sq_open"
  by (rule keeps_runI) (auto simp: sq_tidy_state sq_inv_def sq_view_def dest: sq_open_db)

lemma ends_client:
  assumes "axum_ok ax" and "to_bytes_ok cr" and "client_ok ax cl" and "seen (sq.tidy_state cr) v"
  shows "\<exists>v'. client_run cr ax cl v = Some v' \<and> seen (sq.tidy_state cr) v'"
proof (cases cl)
  case (Request fx req)
  with assms(3) have "request_ok ax req" by simp
  from endsD [OF sh.ends_build_app [OF assms(1) this assms(2), where fx = fx] assms(4)] Request show ?thesis by auto
next
  case (Command fx cmd)
  with assms(3) have "cmd_ok cmd" by simp
  then have "ends (seen (sq.tidy_state cr)) (try_o (run_o (visit sq_open)) (\<lambda>_. cli_run cr (shared_driver (sqlite_driver cr)) fx cmd))"
    by (intro ends_intros keeps_visit keeps_open sh.ends_cli_run)
  from endsD [OF this assms(4)] Command show ?thesis by (auto simp: cli_session_def)
qed

lemma client_calls_tidy:
  assumes "axum_ok ax" and "to_bytes_ok cr" and "client_ok ax cl" and "\<forall>c \<in> set fs. sq.tidy_state cr c"
  shows "\<forall>c \<in> set (client_calls cr ax cl fs). sq.tidy_state cr c"
proof -
  have "seen (sq.tidy_state cr) \<lparr>cv_found = fs, cv_left = []\<rparr>" using assms(4) by (simp add: seen_def)
  from ends_client [OF assms(1-3) this] show ?thesis by (auto simp: client_calls_def seen_def)
qed

lemma gw_run_tidy:
  assumes "crates_ok cr" and "to_bytes_ok cr" and "axum_ok ax" and "gw_run cr ax c cls"
  shows "sq.tidy_state cr c \<and> (\<forall>(cl, fs) \<in> set cls. client_ok ax cl \<and> (\<forall>f \<in> set fs. sq.tidy_state cr f))"
  using assms(4)
proof (induction rule: gw_run.induct)
  case (start c)
  from empty_conn_inv [OF assms(1) start] show ?case by (simp add: sq_tidy_state tidy_empty)
next
  case (call c cls i cl fs ls c')
  from call.hyps(2,3) have "(cl, fs) \<in> set cls" by (metis nth_mem)
  with call.IH have cl: "client_ok ax cl" "\<forall>f \<in> set (fs @ [c]). sq.tidy_state cr f" by auto
  from client_calls_tidy [OF assms(3,2) this] call.hyps(4) have "sq.tidy_state cr c'" by simp
  moreover have "x \<in> set cls \<or> x = (cl, fs @ [c])" if "x \<in> set (cls[i := (cl, fs @ [c])])" for x
    using that set_update_subset_insert [of cls i "(cl, fs @ [c])"] by blast
  ultimately show ?case using call.IH cl by fastforce
next
  case (faults c cls es)
  have "sq.tidy_state cr (c\<lparr>cn_faults := es\<rparr>) = sq.tidy_state cr c"
    unfolding sq_tidy_state by (simp add: sq_inv_def sq_view_def)
  with faults.IH show ?case by simp
qed auto

subsection \<open>A run of two clients\<close>

definition sys_flags :: user_flags where
  "sys_flags = \<lparr>uf_uid = Some ''bob'', uf_display_name = Some ''Bob'', uf_email = None, uf_access_key = Some ''AK'',
     uf_secret_key = Some ''s'', uf_gen_access_key = False, uf_gen_secret = False, uf_caps = None, uf_max_buckets = None,
     uf_suspended = None, uf_system = None, uf_admin = None, uf_purge_data = False\<rparr>"

definition sys_user :: user_info where
  "sys_user = add_access_key \<lparr>ak_id = ''AK'', ak_key = ''s'', ak_subuser = [], ak_active = True, ak_create_date = 2\<rparr>
     (user_info_new (user_id_new ''bob'') ''Bob'' 1)"

lemma bob_id: "user_id_parse ''bob'' = user_id_new ''bob''" "\<not> user_id_is_empty (user_id_new ''bob'')"
  "user_id_display (user_id_new ''bob'') = ''bob''" "uid_stable (user_id_new ''bob'')"
  by code_simp+

lemma sys_create:
  "cli_user cr drv adm_fx (UserCreate sys_flags) =
     run_o (try_a (ensure_key_free drv (user_id_new ''bob'') ''AK'') (\<lambda>_.
            try_a (store_user drv sys_user True) (\<lambda>_. ret_a (Some (dump_user_info cr sys_user)))))"
  by (rule ext) (simp add: create_flags_def sys_flags_def flags_uid_def bob_id flags_generate_def unwrap_or_def user_create_def
     require_uid_def nonempty_def key_request_def Let_def put_key_request_def put_key_def sys_user_def adm_fx_def
     try_a_apply user_info_new_def split: prod.splits sum.splits)

definition sys_create_cmd :: client where
  "sys_create_cmd = Command adm_fx (UserCmd (UserCreate sys_flags))"

definition sys_list_cmd :: client where
  "sys_list_cmd = Command adm_fx (UserCmd (UserListOp None None))"

abbreviation sys_empty :: "json conn" where
  "sys_empty \<equiv> conn_of db_empty"

lemma sys_empty_calls:
  "sq_open sys_empty = (Inr (), sys_empty)"
  "load_user_by_access_key (sqlite_driver demo_crates) k sys_empty = (Inl NoSuchUser, sys_empty)"
  by (simp_all add: sq_open_def sq_init_def sq_load_user_by_access_key_def user_by_def try_a_apply sql_user_info_by_key_def db_empty_def)

lemma sys_axum_ok: "axum_ok gwp_axum"
  by (simp add: axum_ok_def gwp_axum_def demo_names_ok)

lemma sys_clients_ok: "client_ok ax sys_create_cmd" "client_ok ax sys_list_cmd"
  by (simp_all add: sys_create_cmd_def sys_list_cmd_def cmd_ok_def flags_stable_def flags_uid_def sys_flags_def bob_id)

lemma sys_create_calls:
  assumes store: "store_user (sqlite_driver demo_crates) sys_user True sys_empty = (Inr (), c1)"
  shows "client_calls demo_crates ax sys_create_cmd [sys_empty] = [sys_empty]"
    and "client_calls demo_crates ax sys_create_cmd [sys_empty, sys_empty] = [sys_empty, sys_empty]"
    and "client_calls demo_crates ax sys_create_cmd [sys_empty, sys_empty, sys_empty] = [sys_empty, sys_empty, c1]"
  using store
  by (simp_all add: client_calls_def sys_create_cmd_def cli_session_def sys_create try_o_apply visit_def sys_empty_calls
      ensure_key_free_def match_a_apply try_a_apply del: sqlite_driver_simps cli_user.simps)

lemma sys_list_calls: "client_calls demo_crates ax sys_list_cmd [sys_empty] = [sys_empty]"
  by (simp add: client_calls_def sys_list_cmd_def cli_session_def try_o_apply visit_def sys_empty_calls list_all_users_def
      list_users_loop.simps [of "shared_driver d" "[]" "[]" for d] user_list_page_def Let_def try_a_apply unwrap_or_def del: sqlite_driver_simps)

text \<open>
  C28 (invariant): from an empty database, whatever requests and commands come, however their calls
  of the driver are interleaved, wherever clients stop and whenever SQLite fails, the store is
  consistent and tidy: the tables agree, every bucket is in the default tenant under a valid name,
  every object has a name of at most 1024 bytes, at most 256 MiB of data, and the MD5 of its data as
  its ETag.
\<close>

theorem gateway_store_tidy:
  assumes "crates_ok cr" and "to_bytes_ok cr" and "axum_ok ax" and "gw_run cr ax c cls"
  shows "sq_inv cr c \<and> tidy (md5_hex cr) (sq_view cr c)"
  using gw_run_tidy [OF assms] by (simp add: sq_tidy_state)

lemma gateway_store_tidy_witness:
  "\<exists>c cls. gw_run demo_crates gwp_axum c cls \<and> length cls = 2 \<and> bt_get (g_users (sq_view demo_crates c)) ''bob'' \<noteq> None \<and>
     sq_inv demo_crates c \<and> tidy (md5_hex demo_crates) (sq_view demo_crates c)"
proof -
  obtain r c1 where store: "store_user (sqlite_driver demo_crates) sys_user True sys_empty = (r, c1)" by fastforce
  have user: "user_wf sys_user" "uid_stable (ui_user_id sys_user)" "user_id_display (ui_user_id sys_user) = ''bob''"
    by code_simp+
  have empty: "sq_inv demo_crates sys_empty" "sq_view demo_crates sys_empty = gw_empty" "sq_calm demo_crates sys_empty"
    using empty_conn_inv [OF demo_crates_sq, of sys_empty] by (simp_all add: sq_calm_def)
  from exactD [OF sqr.store_user_exact [OF user(1,2)] empty(1,3) store] empty(2)
  have "(r, sq_view demo_crates c1) = spec_store_user sys_user True gw_empty" by simp
  then have c1: "r = Inr ()" "bt_get (g_users (sq_view demo_crates c1)) ''bob'' \<noteq> None"
    by (simp_all add: spec_store_user_def user(3) gw_empty_def g_key_clash_def g_put_user_def Let_def bt_get_def)
  note calls = sys_create_calls [OF store [unfolded c1(1)], of gwp_axum]
  let ?run = "gw_run demo_crates gwp_axum"
  have "?run sys_empty [(sys_create_cmd, [])]" using gw_run.arrive [OF gw_run.start sys_clients_ok(1), of sys_empty] by simp
  from gw_run.arrive [OF this sys_clients_ok(2)]
  have "?run sys_empty [(sys_create_cmd, []), (sys_list_cmd, [])]" by simp
  from gw_run.call [OF this, of 0 sys_create_cmd "[]" "[]" sys_empty] calls(1)
  have "?run sys_empty [(sys_create_cmd, [sys_empty]), (sys_list_cmd, [])]" by simp
  from gw_run.call [OF this, of 1 sys_list_cmd "[]" "[]" sys_empty] sys_list_calls
  have "?run sys_empty [(sys_create_cmd, [sys_empty]), (sys_list_cmd, [sys_empty])]" by simp
  from gw_run.call [OF this, of 0 sys_create_cmd "[sys_empty]" "[sys_empty]" sys_empty] calls(2)
  have "?run sys_empty [(sys_create_cmd, [sys_empty, sys_empty]), (sys_list_cmd, [sys_empty])]" by simp
  from gw_run.call [OF this, of 0 sys_create_cmd "[sys_empty, sys_empty]" "[sys_empty, sys_empty]" c1] calls(3)
  have run: "?run c1 [(sys_create_cmd, [sys_empty, sys_empty, sys_empty]), (sys_list_cmd, [sys_empty])]" by simp
  from gateway_store_tidy [OF demo_crates_sq demo_to_bytes_ok sys_axum_ok run] run c1(2) show ?thesis
    by (intro exI [of _ c1] exI [of _ "[(sys_create_cmd, [sys_empty, sys_empty, sys_empty]), (sys_list_cmd, [sys_empty])]"]) simp
qed

end
