(* ===== verification/Gateway_Interleaved.thy ===== *)
theory Gateway_Interleaved
  imports Gateway_System
begin

section \<open>Authorisation when clients interleave\<close>

text \<open>
  A request loads its user and its bucket in one state of the store and writes in a later one. What
  still holds when others change the store in between: a request that changes the store at any of its
  calls was signed, and its user was stored, and permitted what it asks for, in states its calls
  found. Checks that look at the store first and write later are not atomic: two clients may both be
  below the quota before either has created its bucket.
\<close>

subsection \<open>Calls that leave the store as they found it\<close>

definition quiet :: "('c \<Rightarrow> 'g) \<Rightarrow> 'c list \<Rightarrow> 'c client_view \<Rightarrow> bool" where
  "quiet vw fs v \<longleftrightarrow> cv_found v = drop (length (cv_left v)) fs \<and> length (cv_left v) \<le> length fs \<and>
     map vw (cv_left v) = map vw (take (length (cv_left v)) fs)"

lemma visit_cases:
  assumes "visit m v = (r, v')"
  obtains "cv_found v = []" "v' = v" "r = Inl (InternalError ''stopped'')"
  | c cs c' where "cv_found v = c # cs" "m c = (r, c')" "v' = \<lparr>cv_found = cs, cv_left = cv_left v @ [c']\<rparr>"
  using assms by (auto simp: visit_def split: list.splits prod.splits)

lemma quiet_next:
  assumes "quiet vw fs v" and "cv_found v = c # cs"
  shows "c \<in> set fs" and "vw c' = vw c \<Longrightarrow> quiet vw fs \<lparr>cv_found = cs, cv_left = cv_left v @ [c']\<rparr>"
proof -
  let ?n = "length (cv_left v)"
  have d: "drop ?n fs = c # cs" using assms by (simp add: quiet_def)
  then have n: "?n < length fs" by (metis drop_all list.distinct(1) not_le)
  from d have c: "fs ! ?n = c" "drop (Suc ?n) fs = cs" using n by (metis Cons_nth_drop_Suc list.inject)+
  then show "c \<in> set fs" using n by (metis nth_mem)
  assume "vw c' = vw c"
  then show "quiet vw fs \<lparr>cv_found = cs, cv_left = cv_left v @ [c']\<rparr>"
    using assms(1) c n by (simp add: quiet_def take_Suc_conv_app_nth)
qed

lemma keeps_quiet:
  assumes "\<And>c r c'. c \<in> set fs \<Longrightarrow> m c = (r, c') \<Longrightarrow> vw c' = vw c"
  shows "keeps (quiet vw fs) (visit m)"
proof (rule keeps_runI)
  fix v r v' assume q: "quiet vw fs v" and "visit m v = (r, v')"
  from this(2) show "quiet vw fs v'"
    by (cases rule: visit_cases) (use q assms quiet_next [OF q] in \<open>auto\<close>)
qed

lemma gives_quiet:
  assumes "\<And>c x c'. c \<in> set fs \<Longrightarrow> m c = (Inr x, c') \<Longrightarrow> Q x"
  shows "gives (quiet vw fs) Q (visit m)"
proof (rule givesI)
  fix v x v' assume q: "quiet vw fs v" and "visit m v = (Inr x, v')"
  from this(2) show "Q x"
    by (cases rule: visit_cases) (use q assms quiet_next(1) [OF q] in \<open>auto\<close>)
qed

text \<open>An action that never succeeds: what would follow it does not happen.\<close>

definition blocked :: "('s \<Rightarrow> bool) \<Rightarrow> ('s, 'e, 'a) act \<Rightarrow> bool" where
  "blocked I m \<longleftrightarrow> keeps I m \<and> gives I (\<lambda>_. False) m"

definition keeps_part :: "('s \<Rightarrow> bool) \<Rightarrow> ('s, 'e, 'a) oact \<Rightarrow> bool" where
  "keeps_part I m \<longleftrightarrow> (\<forall>s r s'. I s \<longrightarrow> m s = Some (r, s') \<longrightarrow> I s')"

lemma keeps_partD: "keeps_part I m \<Longrightarrow> I s \<Longrightarrow> m s = Some (r, s') \<Longrightarrow> I s'"
  by (auto simp: keeps_part_def)

lemma keeps_part_run: "keeps I m \<Longrightarrow> keeps_part I (run_o m)"
  by (auto simp: keeps_part_def dest: keeps_run_D)

lemma blocked_try: "blocked I m \<Longrightarrow> keeps I (try_a (op_a m) f)"
  by (rule keeps_try_gives [where Q = "\<lambda>_. False"])
    (auto simp: blocked_def gives_def op_a_apply keeps_op_a split: prod.splits sum.splits)

lemma blocked_load:
  assumes "\<And>c. c \<in> set fs \<Longrightarrow> sq_inv cr c \<and> \<not> granted_on (sq_view cr c) i n"
  shows "blocked (quiet (sq_view cr) fs) (load_bucket_for (shared_driver (sqlite_driver cr)) i n)"
proof (cases "CHR ''/'' \<in> set n")
  case False
  have "load_bucket_for (shared_driver (sqlite_driver cr)) i n = visit (load_bucket_for (sqlite_driver cr) i n)"
    using False by (auto simp: fun_eq_iff load_bucket_for_def shared_driver_def visit_def try_a_apply split: list.splits prod.splits sum.splits)
  moreover have "sq_view cr c' = sq_view cr c \<and> (\<nexists>x. r = Inr x)"
    if "c \<in> set fs" "load_bucket_for (sqlite_driver cr) i n c = (r, c')" for c r c'
    using sg.load_bucket_for_run [OF conjunct1 [OF assms [OF that(1)]] that(2)] assms [OF that(1)]
    unfolding granted_on_def by blast
  ultimately show ?thesis unfolding blocked_def by (auto intro!: keeps_quiet gives_quiet)
qed (auto simp: blocked_def load_bucket_for_def gives_def intro: keeps_intros)

subsection \<open>Requests that are not permitted\<close>

lemma blocked_handlers:
  assumes "handler_bucket h = Some n" and b: "blocked I (load_bucket_for drv (sc_identity c) n)"
  shows "keeps_part I (s3_serve cr drv fx c h)"
proof -
  note rules = keeps_finish keeps_err keeps_if keeps_let keeps_try_lift keeps_try_op_r blocked_try [OF b]
  have "keeps I (bucket_get cr drv c n)" "keeps I (bucket_head cr drv c n)" "keeps I (bucket_delete cr drv c n)"
    "keeps I (bucket_post cr drv c n)" "keeps I (object_put cr drv fx c n k)" "keeps I (get_or_head cr drv c n k d)"
    "keeps I (object_delete cr drv c n k)" "keeps I (object_post c)" for k d
    unfolding bucket_get_def bucket_head_def bucket_delete_def bucket_post_def object_put_def get_or_head_def object_delete_def
      object_post_def s3_delete_bucket_def s3_stat_bucket_def s3_get_location_def s3_get_versioning_def
      s3_list_objects_v1_def s3_list_objects_v2_def s3_put_object_def s3_get_object_def s3_delete_object_def s3_delete_multi_def
    by (intro rules keeps_lift)+
  then show ?thesis using assms(1)
    by (cases h) (auto simp: object_get_def object_head_def intro: keeps_part_run)
qed

lemma keeps_verify_calls:
  assumes "\<And>k. keeps I (load_user_by_access_key drv k)"
  shows "keeps I (verify cr drv cfg now req)"
  unfolding verify_def Let_def by (intro assms keeps_intros keeps_cases)

lemma dispatch_quiet:
  assumes h: "gw_handler ax req = Some h" and i: "rq_identity req = Some i"
    and no: "\<And>c. c \<in> set fs \<Longrightarrow> sq_inv cr c \<and> \<not> permitted (sq_view cr c) i h" and "fs \<noteq> []"
    and q: "quiet (sq_view cr) fs v"
    and run: "gw_dispatch cr (shared_driver (sqlite_driver cr)) ax fx rid req v = Some (r, v')"
  shows "quiet (sq_view cr) fs v'"
proof (cases h)
  case (Inl ah)
  obtain c where "c \<in> set fs" using assms(4) by (cases fs) auto
  with no Inl have "\<not> may_run (ad_identity (admin_call_of ax rid i req)) ah"
    by (auto simp: permitted_def admin_call_of_def)
  then obtain e where "admin_serve cr (shared_driver (sqlite_driver cr)) (gx_admin fx) (admin_call_of ax rid i req) ah v = Some (Inl e, v)"
    by (rule exE [OF admin_serve_denied]) (elim conjE, rule that, assumption)
  with Inl h i run q show ?thesis by (auto simp: gw_dispatch_def match_o_apply)
next
  case (Inr sh)
  let ?c = "s3_call_of rid i req"
  have c: "sc_identity ?c = i" by (simp add: s3_call_of_def)
  obtain r0 v0 where serve: "s3_serve cr (shared_driver (sqlite_driver cr)) (gx_s3 fx) ?c sh v = Some (r0, v0)" and v: "v' = v0"
    using Inr h i run by (auto simp: gw_dispatch_def match_o_apply split: option.splits)
  show ?thesis
  proof (cases "handler_bucket sh")
    case None
    obtain c0 where "c0 \<in> set fs" using assms(4) by (cases fs) auto
    with no Inr None have "i = Anonymous" by (auto simp: permitted_def)
    with anonymous_denied [OF None _ serve] c q v show ?thesis by simp
  next
    case (Some n)
    have "blocked (quiet (sq_view cr) fs) (load_bucket_for (shared_driver (sqlite_driver cr)) (sc_identity ?c) n)"
      by (rule blocked_load) (use no Inr Some c in \<open>auto simp: permitted_def\<close>)
    from keeps_partD [OF blocked_handlers [OF Some this] q serve] v show ?thesis by simp
  qed
qed

text \<open>A request of which no call changes the store, unless it was signed by a user permitted to.\<close>

lemma request_quiet:
  assumes "hex_ok cr" and "mac_ok cr" and inv: "\<And>c. c \<in> set fs \<Longrightarrow> sq_inv cr c" and "fs \<noteq> []"
    and no: "\<And>u h uid c0 c1. authentic cr auth_config_default (gx_now fx) req u \<Longrightarrow> gw_handler ax req = Some h \<Longrightarrow>
      c0 \<in> set fs \<Longrightarrow> bt_get (g_keys (sq_view cr c0)) (au_access_key_id u) = Some uid \<Longrightarrow>
      bt_get (g_users (sq_view cr c0)) uid = Some (au_info u) \<Longrightarrow> c1 \<in> set fs \<Longrightarrow> \<not> permitted (sq_view cr c1) (User u) h"
    and run: "build_app cr (shared_driver (sqlite_driver cr)) ax fx req \<lparr>cv_found = fs, cv_left = []\<rparr> = Some (r, v')"
  shows "quiet (sq_view cr) fs v'"
proof -
  let ?d = "shared_driver (sqlite_driver cr)" and ?q = "quiet (sq_view cr) fs"
  define rid where "rid = new_request_id (gx_uuid fx) (gx_timestamp fx)"
  obtain r0 where auth: "authenticate cr ?d auth_config_default (gx_now fx) rid (gw_dispatch cr ?d ax fx rid) req
      \<lparr>cv_found = fs, cv_left = []\<rparr> = Some (r0, v')"
    using run by (auto simp: build_app_run [OF rid_def])
  have key: "keeps ?q (load_user_by_access_key ?d k)"
    "gives ?q (\<lambda>info. \<exists>c0 \<in> set fs. \<exists>uid. bt_get (g_keys (sq_view cr c0)) k = Some uid \<and>
       bt_get (g_users (sq_view cr c0)) uid = Some info) (load_user_by_access_key ?d k)" for k
    unfolding shared_driver_sel
    by (rule keeps_quiet, use sq.reads_ok(2) inv in blast) (rule gives_quiet, use sq.load_key_found inv in blast)
  obtain rv v1 where v: "verify cr ?d auth_config_default (gx_now fx) req \<lparr>cv_found = fs, cv_left = []\<rparr> = (rv, v1)" by fastforce
  have q0: "?q \<lparr>cv_found = fs, cv_left = []\<rparr>" by (simp add: quiet_def)
  have q1: "?q v1" by (rule keeps_run_D [OF keeps_verify_calls [OF key(1)] q0 v])
  show ?thesis
  proof (cases rv)
    case (Inl e)
    with auth v q1 show ?thesis by (auto simp: authenticate_def match_o_apply)
  next
    case (Inr req')
    have v': "verify cr ?d auth_config_default (gx_now fx) req \<lparr>cv_found = fs, cv_left = []\<rparr> = (Inr req', v1)" using v Inr by simp
    have disp: "gw_dispatch cr ?d ax fx rid req' v1 = Some (r0, v')" using auth v' by (simp add: authenticate_def match_o_apply)
    from verify_anonymous [OF v'] obtain i where i: "rq_identity req' = Some i" by metis
    show ?thesis
    proof (cases "gw_handler ax req'")
      case None
      with dispatch_unrouted [OF None disp] q1 show ?thesis by simp
    next
      case (Some h)
      then have h: "gw_handler ax req = Some h" using verify_handler [OF v'] by simp
      have "\<not> permitted (sq_view cr c) i h" if c: "c \<in> set fs" for c
      proof (cases i)
        case Anonymous
        then show ?thesis using permitted_user by blast
      next
        case (User u)
        from verified_authentic [OF assms(1,2) v'] i User have a: "authentic cr auth_config_default (gx_now fx) req u"
          "load_user_by_access_key ?d (au_access_key_id u) \<lparr>cv_found = fs, cv_left = []\<rparr> = (Inr (au_info u), v1)" by simp_all
        from givesD [OF key(2) q0 a(2)] no [OF a(1) h] c User show ?thesis by blast
      qed
      with inv show ?thesis by (intro dispatch_quiet [OF Some i _ assms(4) q1 disp]) blast
    qed
  qed
qed

lemma request_changes:
  assumes "hex_ok cr" and "mac_ok cr" and inv: "\<forall>f \<in> set fs. sq_inv cr f"
    and k: "k < length fs" "k < length (client_calls cr ax (Request fx req) fs)"
    and change: "sq_view cr (client_calls cr ax (Request fx req) fs ! k) \<noteq> sq_view cr (fs ! k)"
  shows "\<exists>u h uid c0 c1. authentic cr auth_config_default (gx_now fx) req u \<and> gw_handler ax req = Some h \<and>
    c0 \<in> set fs \<and> bt_get (g_keys (sq_view cr c0)) (au_access_key_id u) = Some uid \<and>
    bt_get (g_users (sq_view cr c0)) uid = Some (au_info u) \<and>
    c1 \<in> set fs \<and> permitted (sq_view cr c1) (User u) h"
proof (rule ccontr)
  assume no: "\<not> ?thesis"
  obtain r v' where b: "build_app cr (shared_driver (sqlite_driver cr)) ax fx req \<lparr>cv_found = fs, cv_left = []\<rparr> = Some (r, v')"
    and left: "client_calls cr ax (Request fx req) fs = cv_left v'"
    using k by (auto simp: client_calls_def split: option.splits)
  have "quiet (sq_view cr) fs v'"
    by (rule request_quiet [OF assms(1,2) _ _ _ b]) (use inv no k in \<open>blast | force\<close>)+
  then have "map (sq_view cr) (cv_left v') = map (sq_view cr) (take (length (cv_left v')) fs)" "length (cv_left v') \<le> length fs"
    by (simp_all add: quiet_def)
  then have "map (sq_view cr) (cv_left v') ! k = map (sq_view cr) (take (length (cv_left v')) fs) ! k" by simp
  with k left change \<open>length (cv_left v') \<le> length fs\<close> show False by simp
qed

text \<open>
  C15 (safety): whatever states its calls find, a request changes the store at one of its calls only if
  it carries a valid signature of a user who was stored and held the key in a state the request found,
  and who was permitted what it asks for in a state it found.
\<close>

theorem gateway_authorised_interleaved:
  assumes "hex_ok cr" and "mac_ok cr" and inv: "\<forall>f \<in> set fs. sq_inv cr f"
    and k: "k < length fs" "k < length (client_calls cr ax (Request fx req) fs)"
    and change: "sq_view cr (client_calls cr ax (Request fx req) fs ! k) \<noteq> sq_view cr (fs ! k)"
  shows "\<exists>u h uid c0 c1. authentic cr auth_config_default (gx_now fx) req u \<and> gw_handler ax req = Some h \<and>
    c0 \<in> set fs \<and> bt_get (g_keys (sq_view cr c0)) (au_access_key_id u) = Some uid \<and>
    bt_get (g_users (sq_view cr c0)) uid = Some (au_info u) \<and>
    c1 \<in> set fs \<and> permitted (sq_view cr c1) (User u) h"
  by (rule request_changes [OF assms])

text \<open>In a run of the system: the states are those the clients left one another.\<close>

theorem gw_run_authorised:
  assumes "crates_ok cr" and "to_bytes_ok cr" and "hex_ok cr" and "mac_ok cr" and "axum_ok ax"
    and run: "gw_run cr ax c cls" "i < length cls" "cls ! i = (Request fx req, fs)"
    and call: "client_calls cr ax (Request fx req) (fs @ [c]) = ls @ [c']" "length ls = length fs"
    and change: "sq_view cr c' \<noteq> sq_view cr c"
  shows "\<exists>u h. authentic cr auth_config_default (gx_now fx) req u \<and> gw_handler ax req = Some h \<and>
    (\<exists>c1 \<in> set (fs @ [c]). permitted (sq_view cr c1) (User u) h)"
proof -
  have "(Request fx req, fs) \<in> set cls" using run(2,3) by (metis nth_mem)
  with gw_run_tidy [OF assms(1,2,5) run(1)] have inv: "\<forall>f \<in> set (fs @ [c]). sq_inv cr f"
    by (auto simp: sq_tidy_state)
  have "(fs @ [c]) ! length fs = c" "(ls @ [c']) ! length fs = c'" using call(2) by (simp_all add: nth_append)
  with request_changes [OF assms(3,4) inv, of "length fs" ax fx req] call change show ?thesis by auto
qed

subsection \<open>A request whose calls find a store with its object\<close>

lemma verify_visit:
  assumes "verify cr d cfg now req c = (Inr req', c')" and "hdr_get (rq_headers req) ''authorization'' \<noteq> None"
  shows "verify cr (shared_driver d) cfg now req \<lparr>cv_found = c # cs, cv_left = ls\<rparr> =
    (Inr req', \<lparr>cv_found = cs, cv_left = ls @ [c']\<rparr>)"
  using assms
  by (auto simp: verify_def Let_def act_Inr_iff match_a_apply try_a_apply visit_def split: if_splits sum.splits prod.splits option.splits)

lemma gateway_authorised_interleaved_witness:
  "\<exists>ls u. client_calls demo_crates gwp_axum (Request gwp_fx gwp_request) [adm_store, adm_store, adm_store] = ls \<and> length ls = 3 \<and>
     sq_view demo_crates (ls ! 2) \<noteq> adm_gw \<and> authentic demo_crates auth_config_default demo_now gwp_request u \<and>
     granted_on adm_gw (User u) ''b''"
proof (rule gwp_passes)
  fix req' s1
  assume v: "verify demo_crates (sqlite_driver demo_crates) auth_config_default demo_now gwp_request adm_store = (Inr req', s1)"
    and req': "rq_identity req' = Some demo_identity" "rq_query req' = None"
  let ?d = "sqlite_driver demo_crates" and ?rid = "new_request_id ''u'' 0" and ?h = "ObjectDelete ''b'' ''b''"
  let ?s = "shared_driver ?d"
  have "hdr_get (rq_headers gwp_request) ''authorization'' \<noteq> None" "rq_method gwp_request = ''DELETE''" by code_simp+
  then have vs: "verify demo_crates ?s auth_config_default demo_now gwp_request \<lparr>cv_found = [adm_store, adm_store, adm_store], cv_left = []\<rparr> =
      (Inr req', \<lparr>cv_found = [adm_store, adm_store], cv_left = [s1]\<rparr>)"
    and h: "gw_handler gwp_axum gwp_request = Some (Inr ?h)" "gw_handler gwp_axum req' = Some (Inr ?h)"
    using verify_visit [OF v, of "[adm_store, adm_store]" "[]"] verify_handler [OF v, of gwp_axum] by (simp_all add: gw_handler_def gwp_axum_def)
  obtain r2 s2 where load: "load_bucket ?d [] ''b'' adm_store = (r2, s2)" by fastforce
  from exactD [OF sqr.load_bucket_exact adm_store_inv adm_store_calm load]
  have r2: "r2 = Inr demo_bucket" by (simp add: adm_store_view spec_load_bucket_def adm_gw_eq bt_get_def)
  obtain r3 s3 where del: "delete_object ?d demo_bucket_key (object_key_new ''b'') adm_store = (r3, s3)" by fastforce
  from exactD [OF sqr.delete_object_exact adm_store_inv adm_store_calm del]
  have s3: "r3 = Inr ()" "g_objects (sq_view demo_crates s3) = []"
    by (simp_all add: adm_store_view spec_delete_object_def g_find_object_def adm_gw_eq bt_get_def g_bucket_ids_def demo_bucket_def bt_remove_def)
  have access: "verify_bucket_access demo_identity demo_bucket = Inr ()" by code_simp
  have key: "bi_bucket demo_bucket = demo_bucket_key" by (simp add: demo_bucket_def)
  let ?c = "s3_call_of ?rid demo_identity req'"
  have "s3_serve demo_crates ?s demo_fx ?c ?h \<lparr>cv_found = [adm_store, adm_store], cv_left = [s1]\<rparr> =
      Some (Inr (status_response 204 []), \<lparr>cv_found = [], cv_left = [s1, s2, s3]\<rparr>)"
    using load r2 del s3(1) access key req'(2)
    by (simp add: object_delete_def s3_delete_object_def load_bucket_for_def finish_a_def match_a_apply try_a_apply op_a_apply s3_call_of_def
        args_parse_def no_args_supported req_finish_def shared_driver_def visit_def del: sqlite_driver_simps)
  then have calls: "client_calls demo_crates gwp_axum (Request gwp_fx gwp_request) [adm_store, adm_store, adm_store] = [s1, s2, s3]"
    using vs h(2) req'(1)
    by (simp add: client_calls_def build_app_run [OF refl] authenticate_def match_o_apply gw_dispatch_def gwp_fx_def)
  have change: "sq_view demo_crates s3 \<noteq> adm_gw" using s3(2) by (auto simp: adm_gw_eq)
  from gateway_authorised_interleaved [OF demo_crates_more_ok(1,2), of "[adm_store, adm_store, adm_store]" 2 gwp_axum gwp_fx gwp_request]
    calls change adm_store_inv obtain u where "authentic demo_crates auth_config_default (gx_now gwp_fx) gwp_request u"
    "permitted adm_gw (User u) (Inr ?h)"
    by (auto simp: adm_store_view h(1))
  with calls change show ?thesis by (auto simp: permitted_def gwp_fx_def)
qed

subsection \<open>What interleaving breaks: the quota\<close>

text \<open>
  \<open>create_bucket\<close> counts the buckets of the user in one call and creates the bucket in another. Two
  requests of a user who owns no bucket and may own one both succeed when the second counts before
  the first has created its bucket.
\<close>

lemma length_filter_fresh:
  "k \<notin> set (bt_keys m) \<Longrightarrow> length (filter Q (bt_insert k v m)) = (if Q (k, v) then Suc (length (filter Q m)) else length (filter Q m))"
  by (induction k v m rule: bt_insert.induct) auto

lemma g_owned_new:
  assumes "bt_get (g_buckets g) (name, []) = None" and "name \<noteq> []" and "uid_stable (ui_user_id u)"
  shows "length (g_owned (g_add_bucket (new_bucket u name uuid now) g) (ui_user_id u) []) = Suc (length (g_owned g (ui_user_id u) []))"
proof -
  have "(name, []) \<notin> set (bt_keys (g_buckets g))" using assms(1) by (simp add: bt_get_def map_of_eq_None_iff)
  moreover have "[] < name" using assms(2) by (cases name) simp_all
  ultimately show ?thesis using stable_canon [OF assms(3)]
    by (simp add: g_owned_def g_buckets_of_def g_add_bucket_def filter_map length_filter_fresh new_bucket_def bucket_key_new_def)
qed

lemma none_counted:
  assumes c: "sq_inv cr c" "sq_calm cr c" and none: "g_owned (sq_view cr c) uid [] = []"
  obtains c' where "sq_inv cr c'" "sq_calm cr c'" "sq_view cr c' = sq_view cr c"
    "list_buckets (sqlite_driver cr) (Some uid) [] 0 c = (Inr \<lparr>bl_buckets = [], bl_is_truncated = False, bl_next_marker = []\<rparr>, c')"
proof -
  obtain r c' where run: "list_buckets (sqlite_driver cr) (Some uid) [] 0 c = (r, c')" by fastforce
  have spec: "spec_list_buckets (Some uid) [] 0 (sq_view cr c) =
      (Inr \<lparr>bl_buckets = [], bl_is_truncated = False, bl_next_marker = []\<rparr>, sq_view cr c)"
    using none by (simp add: spec_list_buckets_def Let_def g_owned_def)
  have "(0::nat) < 2 ^ 63 - 1" "(0::nat) < 2 ^ 63" by simp_all
  from exactD [OF sqr.list_buckets_exact [OF this(1)] c run] refinesD [OF sq.list_buckets_ok [OF this(2)] c(1) run] spec
  have "sq_calm cr c'" "(r, sq_view cr c') = (Inr \<lparr>bl_buckets = [], bl_is_truncated = False, bl_next_marker = []\<rparr>, sq_view cr c)" "sq_inv cr c'"
    by simp_all
  with run that show thesis by simp
qed

lemma bucket_made:
  assumes c: "sq_inv cr c" "sq_calm cr c" and u: "uid_stable (ui_user_id u)"
    and free: "bt_get (g_buckets (sq_view cr c)) (name, []) = None" "uuid \<notin> set (g_bucket_ids (sq_view cr c))"
  obtains c' where "sq_inv cr c'" "sq_calm cr c'" "sq_view cr c' = g_add_bucket (new_bucket u name uuid now) (sq_view cr c)"
    "create_bucket (sqlite_driver cr) (new_bucket u name uuid now) c = (Inr (), c')"
proof -
  let ?b = "new_bucket u name uuid now"
  obtain r c' where run: "create_bucket (sqlite_driver cr) ?b c = (r, c')" by fastforce
  have st: "uid_stable (bi_owner ?b)" using u by (simp add: new_bucket_def)
  have spec: "spec_create_bucket ?b (sq_view cr c) = (Inr (), g_add_bucket ?b (sq_view cr c))"
    using free by (simp add: spec_create_bucket_def Let_def new_bucket_def bucket_key_new_def g_add_bucket_def)
  from exactD [OF sqr.create_bucket_exact [OF st] c run] refinesD [OF sq.create_bucket_ok [OF st] c(1) run] spec
  have "sq_calm cr c'" "(r, sq_view cr c') = (Inr (), g_add_bucket ?b (sq_view cr c))" "sq_inv cr c'" by simp_all
  with run that show thesis by simp
qed

lemma create_in_two_calls:
  assumes u: "identity_user i = Some u" "sint (ui_max_buckets u) = 1" and ok: "validate_bucket_name name = Inr ()"
    and calls: "list_buckets d (Some (ui_user_id u)) [] 0 c = (Inr \<lparr>bl_buckets = [], bl_is_truncated = False, bl_next_marker = []\<rparr>, c')"
      "create_bucket d (new_bucket u name uuid now) e = (Inr (), e')"
  shows "s3_create_bucket cr (shared_driver d) i name uuid now \<lparr>cv_found = [c, e], cv_left = []\<rparr> =
    Some (Inr (status_response 200 [(''location'', CHR ''/'' # name)]), \<lparr>cv_found = [], cv_left = [c', e']\<rparr>)"
proof -
  have sel: "list_buckets (shared_driver d) ow m mx = visit (list_buckets d ow m mx)"
    "create_bucket (shared_driver d) b = visit (create_bucket d b)" for ow m mx b
    by (simp_all add: shared_driver_def)
  have "list_owned_buckets (shared_driver d) (ui_user_id u) (Some 1) \<lparr>cv_found = [c, e], cv_left = []\<rparr> =
      Some (Inr [], \<lparr>cv_found = [e], cv_left = [c']\<rparr>)"
    using calls(1) by (simp add: list_owned_buckets_def list_owned_loop.simps [of "shared_driver d"] sel visit_def)
  then have quota: "check_quota (shared_driver d) u \<lparr>cv_found = [c, e], cv_left = []\<rparr> = Some (Inr (), \<lparr>cv_found = [e], cv_left = [c']\<rparr>)"
    by (simp add: check_quota_def u(2) try_o_apply op_o_apply)
  have "hdr_from_str_ok (CHR ''/'' # name)"
    using valid_name_chars [OF ok]
    by (fastforce simp: hdr_from_str_ok_def list_all_iff name_alnum_def is_ascii_lowercase_def is_ascii_digit_def)
  then have "store_new_bucket cr (shared_driver d) u name uuid now \<lparr>cv_found = [e], cv_left = [c']\<rparr> =
      (Inr (status_response 200 [(''location'', CHR ''/'' # name)]), \<lparr>cv_found = [], cv_left = [c', e']\<rparr>)"
    using calls(2) by (simp add: store_new_bucket_def match_a_apply try_a_apply header_value_ok sel visit_def)
  with quota u(1) ok show ?thesis
    by (simp add: s3_create_bucket_def try_o_apply require_user_def)
qed

text \<open>
  C26 (bounds): the quota holds for requests one after the other, not for concurrent ones: of a user who
  owns nothing and may own one bucket, two \<open>PUT\<close>s of different buckets both succeed when each counts
  before the other creates, and the user owns two.
\<close>

theorem quota_race:
  assumes c: "sq_inv cr c" "sq_calm cr c" and u: "identity_user i = Some u" "uid_stable (ui_user_id u)" "sint (ui_max_buckets u) = 1"
    and none: "g_owned (sq_view cr c) (ui_user_id u) [] = []"
    and names: "validate_bucket_name a = Inr ()" "validate_bucket_name b = Inr ()" "a \<noteq> b"
    and free: "bt_get (g_buckets (sq_view cr c)) (a, []) = None" "bt_get (g_buckets (sq_view cr c)) (b, []) = None"
    and ids: "ia \<notin> set (g_bucket_ids (sq_view cr c))" "ib \<notin> set (g_bucket_ids (sq_view cr c))" "ia \<noteq> ib"
  shows "\<exists>c1 c2 c3 c4 ra rb.
    s3_create_bucket cr (shared_driver (sqlite_driver cr)) i a ia ta \<lparr>cv_found = [c, c2], cv_left = []\<rparr> =
      Some (Inr ra, \<lparr>cv_found = [], cv_left = [c1, c3]\<rparr>) \<and>
    s3_create_bucket cr (shared_driver (sqlite_driver cr)) i b ib tb \<lparr>cv_found = [c1, c3], cv_left = []\<rparr> =
      Some (Inr rb, \<lparr>cv_found = [], cv_left = [c2, c4]\<rparr>) \<and>
    length (g_owned (sq_view cr c4) (ui_user_id u) []) = 2"
proof -
  let ?g = "sq_view cr c" and ?ba = "new_bucket u a ia ta" and ?bb = "new_bucket u b ib tb"
  obtain c1 where c1: "sq_inv cr c1" "sq_calm cr c1" "sq_view cr c1 = ?g"
    "list_buckets (sqlite_driver cr) (Some (ui_user_id u)) [] 0 c = (Inr \<lparr>bl_buckets = [], bl_is_truncated = False, bl_next_marker = []\<rparr>, c1)"
    using none_counted [OF c none] .
  obtain c2 where c2: "sq_inv cr c2" "sq_calm cr c2" "sq_view cr c2 = sq_view cr c1"
    "list_buckets (sqlite_driver cr) (Some (ui_user_id u)) [] 0 c1 = (Inr \<lparr>bl_buckets = [], bl_is_truncated = False, bl_next_marker = []\<rparr>, c2)"
    using none_counted [OF c1(1,2) none [folded c1(3)]] .
  have g2: "sq_view cr c2 = ?g" using c1(3) c2(3) by simp
  obtain c3 where c3: "sq_inv cr c3" "sq_calm cr c3" "sq_view cr c3 = g_add_bucket ?ba ?g"
    "create_bucket (sqlite_driver cr) ?ba c2 = (Inr (), c3)"
    using bucket_made [OF c2(1,2) u(2), of a ia ta] free(1) ids(1) g2 by metis
  have wf: "bt_wf (g_buckets ?g)" using sq.sinv_wf [OF c(1)] gw_wf_maps by blast
  have "bt_get (g_buckets (sq_view cr c3)) (b, []) = None"
    unfolding c3(3) using wf free(2) names(3) by (simp add: g_add_bucket_def new_bucket_def bucket_key_new_def bt_get_insert)
  moreover have "ib \<notin> set (g_bucket_ids (sq_view cr c3))"
    unfolding c3(3) using ids set_bt_insert [of "(a, [])" "canon_bucket ?ba" "g_buckets ?g"]
    by (auto simp: g_bucket_ids_def g_add_bucket_def new_bucket_def bucket_key_new_def)
  ultimately obtain c4 where c4: "sq_view cr c4 = g_add_bucket ?bb (sq_view cr c3)" "create_bucket (sqlite_driver cr) ?bb c3 = (Inr (), c4)"
    and free3: "bt_get (g_buckets (sq_view cr c3)) (b, []) = None"
    using bucket_made [OF c3(1,2) u(2), of b ib tb] by metis
  have ne: "a \<noteq> []" "b \<noteq> []" using names(1,2) by (auto simp: validate_bucket_name_def)
  have "length (g_owned (sq_view cr c4) (ui_user_id u) []) = 2"
    unfolding c4(1) g_owned_new [OF free3 ne(2) u(2)] unfolding c3(3) g_owned_new [OF free(1) ne(1) u(2)] none by simp
  with create_in_two_calls [OF u(1,3) names(1) c1(4) c3(4)] create_in_two_calls [OF u(1,3) names(2) c2(4) c4(2)]
  show ?thesis by blast
qed

lemma quota_race_witness:
  "\<exists>u c1 c2 c3 c4 ra rb. sint (ui_max_buckets u) = 1 \<and>
    s3_create_bucket demo_crates (shared_driver (sqlite_driver demo_crates)) (User \<lparr>au_info = u, au_access_key_id = ''AKID''\<rparr>) ''abc'' ''i1'' 1
      \<lparr>cv_found = [conn_of db_empty, c2], cv_left = []\<rparr> = Some (Inr ra, \<lparr>cv_found = [], cv_left = [c1, c3]\<rparr>) \<and>
    s3_create_bucket demo_crates (shared_driver (sqlite_driver demo_crates)) (User \<lparr>au_info = u, au_access_key_id = ''AKID''\<rparr>) ''abd'' ''i2'' 1
      \<lparr>cv_found = [c1, c3], cv_left = []\<rparr> = Some (Inr rb, \<lparr>cv_found = [], cv_left = [c2, c4]\<rparr>) \<and>
    length (g_owned (sq_view demo_crates c4) (ui_user_id u) []) = 2"
proof -
  let ?u = "(user_info_new (user_id_new ''alice'') ''Alice'' 0)\<lparr>ui_max_buckets := 1\<rparr>" and ?c = "conn_of db_empty :: json conn"
  have c: "sq_inv demo_crates ?c" "sq_view demo_crates ?c = gw_empty" "sq_calm demo_crates ?c"
    using empty_conn_inv [OF demo_crates_sq, of ?c] by (simp_all add: sq_calm_def)
  have u: "identity_user (User \<lparr>au_info = ?u, au_access_key_id = ''AKID''\<rparr>) = Some ?u" "uid_stable (ui_user_id ?u)" "sint (ui_max_buckets ?u) = 1"
    by (simp_all add: user_info_new_def uid_stable_def user_id_new_def user_id_display_def)
  have n: "validate_bucket_name ''abc'' = Inr ()" "validate_bucket_name ''abd'' = Inr ()" by code_simp+
  have e: "g_owned gw_empty uid [] = []" "bt_get (g_buckets gw_empty) k = None" "i \<notin> set (g_bucket_ids gw_empty)" for uid k i
    by (simp_all add: gw_empty_def g_owned_def g_buckets_of_def g_bucket_ids_def bt_get_def)
  from quota_race [OF c(1,3) u, of "''abc''" "''abd''" "''i1''" "''i2''" 1 1, unfolded c(2), OF e(1) n _ e(2,2,3,3)] u(3)
  show ?thesis by (intro exI [of _ ?u]) simp
qed

end
