(* ===== verification/Test_Server.thy ===== *)
theory Test_Server
  imports Auth_Client Gateway_Props
begin

section \<open>\<open>rgw-tests/src/lib.rs\<close>: the server the integration tests start\<close>

text \<open>
  \<open>TestServer\<close> opens a database in a new directory, puts \<open>build_app\<close> over it and creates the admin user
  with a generated key. The theorem goes from there through key generation, the tables, the signing
  client and \<open>verify\<close> to the capabilities of the request. The directory, the socket and the task that
  serves are the environment; the AWS SDK, \<open>aws_sigv4\<close> and \<open>reqwest\<close> are not modelled.
\<close>

definition ADMIN_UID :: string where "ADMIN_UID = ''admin''"
definition ADMIN_CAPS :: string where "ADMIN_CAPS = ''users=*;buckets=*;info=*''"
definition REGION :: string where "REGION = ''default''"

text \<open>\<open>anyhow::Error\<close> holds the error of the call, or the text of \<open>context\<close>.\<close>

datatype any_error = AnyRgw rgw_error | AnyIo string | AnyContext string

definition any_a :: "('s, 'a) rgw_act \<Rightarrow> ('s, any_error, 'a) act" where
  "any_a m = match_a m (\<lambda>r. lift_a (map_err AnyRgw r))"

text \<open>What the operating system answers: the new directory, the listener, its address.\<close>

record test_env =
  te_tempdir :: "string + unit"
  te_bind :: "string + unit"
  te_local_addr :: "string + string"

record 's test_server =
  ts_addr :: string
  ts_app :: "axum \<Rightarrow> gw_fx \<Rightarrow> request \<Rightarrow> ('s, rgw_error, response) oact"
  ts_admin_keys :: "string \<times> string"

definition create_user_params :: "string \<Rightarrow> string \<Rightarrow> user_create_params" where
  "create_user_params uid caps =
     \<lparr>uc_uid = user_id_parse uid, uc_display_name = uid, uc_email = None, uc_access_key = None, uc_secret_key = None,
      uc_generate_key = Some True, uc_caps = (if caps = [] then None else Some caps), uc_max_buckets = None,
      uc_suspended = None, uc_system = None, uc_admin = None\<rparr>"

definition create_user ::
    "'s driver \<Rightarrow> admin_fx \<Rightarrow> string \<Rightarrow> string \<Rightarrow> ('s, any_error, string \<times> string) act" where
  "create_user drv fx uid caps =
     try_a (any_a (user_create drv fx (create_user_params uid caps))) (\<lambda>info.
     lift_a (case ui_access_keys info of
         [] \<Rightarrow> Inl (AnyContext ''user_create generated no key'')
       | (_, key) # _ \<Rightarrow> Inr (ak_id key, ak_key key)))"

definition spawn ::
    "'j crates \<Rightarrow> test_env \<Rightarrow> admin_fx \<Rightarrow> ('j conn, any_error, 'j conn test_server) act" where
  "spawn cr env fx =
     try_a (lift_a (map_err (\<lambda>_. AnyContext ''creating the database directory'') (te_tempdir env))) (\<lambda>_.
     try_a (any_a sq_open) (\<lambda>_.
     try_a (lift_a (map_err AnyIo (te_bind env))) (\<lambda>_.
     try_a (lift_a (map_err AnyIo (te_local_addr env))) (\<lambda>addr.
     try_a (create_user (sqlite_driver cr) fx ADMIN_UID ADMIN_CAPS) (\<lambda>keys.
     ret_a \<lparr>ts_addr = addr, ts_app = build_app cr (sqlite_driver cr), ts_admin_keys = keys\<rparr>)))))"

definition endpoint :: "'s test_server \<Rightarrow> string" where
  "endpoint ts = ''http://'' @ ts_addr ts"

definition query_encode :: "string \<Rightarrow> string" where
  "query_encode s = concat (map (\<lambda>b.
     if is_ascii_alphanumeric b \<or> b \<in> {CHR ''-'', CHR ''_'', CHR ''.'', CHR ''~''} then [b]
     else [CHR ''%'', hex_upper (byte b div 16), hex_upper (byte b mod 16)]) s)"

subsection \<open>What it encodes is canonical\<close>

lemma query_encode_uri: "query_encode s = uri_encode s True"
  by (simp add: query_encode_def uri_encode_def is_unreserved_def)

lemma query_encode_canonical:
  assumes "pct_ok cr"
  shows "percent_decode cr (query_encode s) = s" and "uri_recode cr (query_encode s) True = query_encode s"
  using percent_decode_uri_encode [OF assms, of s True] by (simp_all add: query_encode_uri uri_recode_def)

subsection \<open>The seeded admin\<close>

definition seeded_admin :: "admin_fx \<Rightarrow> user_info" where
  "seeded_admin fx = (let ak = generate_access_key (af_access fx 0) in
     add_access_key \<lparr>ak_id = ak, ak_key = generate_secret_key (af_secret fx), ak_subuser = [], ak_active = True,
       ak_create_date = af_key_now fx\<rparr>
       ((user_info_new (user_id_new ''admin'') ADMIN_UID (af_now fx))
         \<lparr>ui_caps := [(''buckets'', CAP_ALL), (''info'', CAP_ALL), (''users'', CAP_ALL)]\<rparr>))"

lemma admin_caps_parsed:
  "caps_add_from_string caps_new ADMIN_CAPS = Inr [(''buckets'', CAP_ALL), (''info'', CAP_ALL), (''users'', CAP_ALL)]"
  by code_simp

lemma admin_uid_parsed: "user_id_parse ADMIN_UID = user_id_new ''admin''" "uid_stable (user_id_new ''admin'')"
  "user_id_display (user_id_new ''admin'') = ''admin''" "\<not> user_id_is_empty (user_id_new ''admin'')"
  by code_simp+

lemma first_key_free: "unused_access_key (spec_driver e) fx gw_empty = (Inr (generate_access_key (af_access fx 0)), gw_empty)"
  by (simp add: unused_access_key_def KEYGEN_ATTEMPTS_def upt_conv_Cons match_a_apply spec_load_user_by_access_key_def
      gw_empty_def bt_get_def)

lemma seeded_admin_sel:
  "ui_user_id (seeded_admin fx) = user_id_new ''admin''" "ui_suspended (seeded_admin fx) = False"
  "ui_access_keys (seeded_admin fx) = [(generate_access_key (af_access fx 0),
     \<lparr>ak_id = generate_access_key (af_access fx 0), ak_key = generate_secret_key (af_secret fx), ak_subuser = [],
      ak_active = True, ak_create_date = af_key_now fx\<rparr>)]"
  "ui_caps (seeded_admin fx) = [(''buckets'', CAP_ALL), (''info'', CAP_ALL), (''users'', CAP_ALL)]"
  by (simp_all add: seeded_admin_def Let_def add_access_key_def user_info_new_def)

lemma admin_user_created:
  "user_create (spec_driver e) fx (create_user_params ADMIN_UID ADMIN_CAPS) gw_empty =
     (Inr (seeded_admin fx), g_put_user ''admin'' (seeded_admin fx) gw_empty)"
proof -
  have "spec_store_user (seeded_admin fx) True gw_empty = (Inr (), g_put_user ''admin'' (seeded_admin fx) gw_empty)"
    by (simp add: spec_store_user_def Let_def seeded_admin_sel(1) admin_uid_parsed g_key_clash_def gw_empty_def bt_get_def)
  moreover have "nonempty (Some ADMIN_CAPS) = Some ADMIN_CAPS" "ADMIN_CAPS \<noteq> []" "ADMIN_UID \<noteq> []" by code_simp+
  ultimately show ?thesis
    by (simp add: user_create_def create_user_params_def admin_uid_parsed require_uid_def key_request_def nonempty_def
        unwrap_or_def admin_caps_parsed put_key_request_def put_key_def try_a_apply first_key_free Let_def
        seeded_admin_def [unfolded Let_def] user_info_new_def)
qed


lemma spawn_seeds:
  assumes "crates_ok cr" and "sq_calm cr c" and "cn_db c = db_empty"
    and "te_tempdir env = Inr ()" "te_bind env = Inr ()" "te_local_addr env = Inr addr"
  obtains c' where "spawn cr env fx c = (Inr \<lparr>ts_addr = addr, ts_app = build_app cr (sqlite_driver cr),
      ts_admin_keys = (generate_access_key (af_access fx 0), generate_secret_key (af_secret fx))\<rparr>, c')"
    and "sq_inv cr c'" "sq_calm cr c'" "sq_view cr c' = g_put_user ''admin'' (seeded_admin fx) gw_empty"
proof -
  have c: "sq_inv cr c" "sq_view cr c = gw_empty" using empty_conn_inv [OF assms(1,3)] by simp_all
  have open_it: "sq_open c = (Inr (), c)"
    using assms(2) by (cases c) (simp add: sq_open_def sq_init_def try_a_apply fault_point_def sq_calm_def)
  obtain r c' where run: "user_create (sqlite_driver cr) fx (create_user_params ADMIN_UID ADMIN_CAPS) c = (r, c')" by fastforce
  have "uid_stable (uc_uid (create_user_params ADMIN_UID ADMIN_CAPS))"
    by (simp add: create_user_params_def admin_uid_parsed)
  from simD [OF sg.sim_user_create [OF this] _ run] c assms(2) admin_user_created [of "md5_hex cr" fx]
  have c': "sq_inv cr c'" "sq_calm cr c'" "r = Inr (seeded_admin fx)"
    "sq_view cr c' = g_put_user ''admin'' (seeded_admin fx) gw_empty" by simp_all
  show thesis
    using that [OF _ c'(1,2,4)] run c'(3) assms(4-6) open_it
    by (simp add: spawn_def create_user_def any_a_def try_a_apply match_a_apply seeded_admin_sel)
qed

lemma seeded_key_loads:
  assumes "sq_inv cr c" "sq_calm cr c" and "sq_view cr c = g_put_user ''admin'' (seeded_admin fx) gw_empty"
  obtains c' where "load_user_by_access_key (sqlite_driver cr) (generate_access_key (af_access fx 0)) c =
      (Inr (canon_user (seeded_admin fx)), c')" and "sq_inv cr c'" "sq_calm cr c'" "sq_view cr c' = sq_view cr c"
proof -
  let ?ak = "generate_access_key (af_access fx 0)"
  obtain r c' where run: "load_user_by_access_key (sqlite_driver cr) ?ak c = (r, c')" by fastforce
  have spec: "spec_load_user_by_access_key ?ak (sq_view cr c) = (Inr (canon_user (seeded_admin fx)), sq_view cr c)"
    unfolding assms(3)
    by (simp add: spec_load_user_by_access_key_def g_put_user_def gw_empty_def seeded_admin_sel bt_get_def)
  from simD [OF sg.sim_methods(2) _ run] assms(1,2) spec show thesis using that run by simp
qed
text \<open>A request that \<open>verify\<close> lets through reaches the routes, within the request id's layer.\<close>

lemma build_app_verified:
  "verify cr drv auth_config_default (gx_now gx) req s = (Inr req', s') \<Longrightarrow>
   build_app cr drv ax gx req s =
     request_id_layer (new_request_id (gx_uuid gx) (gx_timestamp gx)) (\<lambda>rid. gw_dispatch cr drv ax gx rid req') s'"
  by (simp add: build_app_def request_id_layer_def authenticate_def try_o_def match_o_apply)

subsection \<open>The property\<close>

text \<open>
  \<open>req\<close> is what the client of \<open>Auth_Client\<close> builds from \<open>sn\<close>, signed with the key of the admin, its
  payload hashed or declared unsigned, within the skew and the limits of the default configuration.
\<close>

definition admin_signed :: "'j crates \<Rightarrow> 's test_server \<Rightarrow> time \<Rightarrow> http_client \<Rightarrow> time \<Rightarrow> signed \<Rightarrow> request \<Rightarrow> bool" where
  "admin_signed cr ts now hc t' sn req \<longleftrightarrow>
     signed_ok cr hc t' sn \<and> (sn_akid sn, sn_secret sn) = ts_admin_keys ts \<and> build cr hc sn = Some req \<and>
     sn_payload_hash sn \<in> {UNSIGNED_PAYLOAD, sha256_hex cr (sn_body sn)} \<and>
     \<bar>now - t'\<bar> \<le> ac_max_skew auth_config_default \<and> length (sn_body sn) \<le> ac_max_body_bytes auth_config_default"

text \<open>The request as the routes get it: what was sent, and an identity that passes every capability check.\<close>

definition routed_as_admin :: "signed \<Rightarrow> request \<Rightarrow> bool" where
  "routed_as_admin sn req' \<longleftrightarrow>
     rq_method req' = sn_method sn \<and> path_query (sn_path_and_query sn) = (rq_path req', request_query req') \<and>
     rq_body req' = body_from_bytes (sn_body sn) \<and>
     (case rq_identity req' of
        Some (User u) \<Rightarrow> ui_user_id (au_info u) = user_id_parse ADMIN_UID \<and>
          list_all (\<lambda>cap. list_all (\<lambda>perm. require_cap (User u) cap perm = Inr ()) [CAP_READ, CAP_WRITE, CAP_ALL])
            [''users'', ''buckets'', ''info'']
      | _ \<Rightarrow> False)"

lemma admin_has_caps:
  "list_all (\<lambda>cap. list_all (\<lambda>perm. require_cap (User \<lparr>au_info = canon_user (seeded_admin fx), au_access_key_id = ak\<rparr>) cap perm = Inr ())
     [CAP_READ, CAP_WRITE, CAP_ALL]) [''users'', ''buckets'', ''info'']"
proof -
  have "list_all (\<lambda>cap. list_all (caps_check_cap [(''buckets'', CAP_ALL), (''info'', CAP_ALL), (''users'', CAP_ALL)] cap)
     [CAP_READ, CAP_WRITE, CAP_ALL]) [''users'', ''buckets'', ''info'']" by code_simp
  then show ?thesis by (simp add: require_cap_def identity_check_cap_def seeded_admin_sel)
qed

lemma admin_request_routed:
  assumes cr: "hex_ok cr" "mac_ok cr" "to_bytes_whole cr"
    and c: "sq_inv cr c" "sq_calm cr c" "sq_view cr c = g_put_user ''admin'' (seeded_admin fx) gw_empty"
    and ts: "ts_admin_keys ts = (generate_access_key (af_access fx 0), generate_secret_key (af_secret fx))"
    and sent: "admin_signed cr ts now hc t' sn req"
  obtains req' c2 where "verify cr (sqlite_driver cr) auth_config_default now req c = (Inr req', c2)"
    and "routed_as_admin sn req'" and "sq_view cr c2 = sq_view cr c"
proof -
  let ?u = "\<lparr>au_info = canon_user (seeded_admin fx), au_access_key_id = sn_akid sn\<rparr>"
  from sent ts have sn: "signed_ok cr hc t' sn" "build cr hc sn = Some req"
    "sn_payload_hash sn \<in> {UNSIGNED_PAYLOAD, sha256_hex cr (sn_body sn)}" "\<bar>now - t'\<bar> \<le> ac_max_skew auth_config_default"
    "length (sn_body sn) \<le> ac_max_body_bytes auth_config_default"
    and keys: "sn_akid sn = generate_access_key (af_access fx 0)" "sn_secret sn = generate_secret_key (af_secret fx)"
    unfolding admin_signed_def by auto
  have key: "key_ok sn (canon_user (seeded_admin fx))" using keys by (simp add: key_ok_def seeded_admin_sel bt_get_def)
  have uid: "ui_user_id (canon_user (seeded_admin fx)) = user_id_parse ADMIN_UID"
    by (simp add: seeded_admin_sel canon_user_id_def admin_uid_parsed) code_simp
  obtain c2 where load: "load_user_by_access_key (sqlite_driver cr) (sn_akid sn) c = (Inr (canon_user (seeded_admin fx)), c2)"
    and c2: "sq_view cr c2 = sq_view cr c" using seeded_key_loads [OF c] unfolding keys .
  obtain req' where v: "verify cr (sqlite_driver cr) auth_config_default now req c = (Inr req', c2)"
    and req': "rq_identity req' = Some (User ?u)" "rq_method req' = sn_method sn"
      "path_query (sn_path_and_query sn) = (rq_path req', request_query req')" "rq_body req' = body_from_bytes (sn_body sn)"
    by (rule verify_plain [OF cr sn load key])
  have "routed_as_admin sn req'"
    unfolding routed_as_admin_def req'(1,2,4) using req'(3) uid admin_has_caps [of fx "sn_akid sn"] by simp
  with v c2 show thesis using that by blast
qed

text \<open>
  C20 (liveness): a server that is spawned on a new database, while the system and SQLite work, hands
  out keys, and every request signed with them passes authentication and reaches the routes as it was
  sent, as the user \<open>admin\<close>, who passes every capability check on users, buckets and info.
\<close>

theorem spawned_admin_served:
  assumes "crates_ok cr" "hex_ok cr" "mac_ok cr" "to_bytes_whole cr"
    and "te_tempdir env = Inr ()" "te_bind env = Inr ()" "te_local_addr env = Inr addr"
    and "sq_calm cr c" "cn_db c = db_empty" and run: "spawn cr env fx c = (r, c')"
  shows "\<exists>ts. r = Inr ts \<and> ts_addr ts = addr \<and> sq_inv cr c' \<and>
    (\<forall>ax gx hc t' sn req. admin_signed cr ts (gx_now gx) hc t' sn req \<longrightarrow>
       (\<exists>req' c2. routed_as_admin sn req' \<and> sq_view cr c2 = sq_view cr c' \<and>
          ts_app ts ax gx req c' = request_id_layer (new_request_id (gx_uuid gx) (gx_timestamp gx))
            (\<lambda>rid. gw_dispatch cr (sqlite_driver cr) ax gx rid req') c2))"
proof -
  let ?ts = "\<lparr>ts_addr = addr, ts_app = build_app cr (sqlite_driver cr),
    ts_admin_keys = (generate_access_key (af_access fx 0), generate_secret_key (af_secret fx))\<rparr>"
  have c': "r = Inr ?ts" "sq_inv cr c'" "sq_calm cr c'" "sq_view cr c' = g_put_user ''admin'' (seeded_admin fx) gw_empty"
    using spawn_seeds [OF assms(1,8,9,5,6,7), of fx] run by (metis prod.inject)+
  have "\<exists>req' c2. routed_as_admin sn req' \<and> sq_view cr c2 = sq_view cr c' \<and>
      ts_app ?ts ax gx req c' = request_id_layer (new_request_id (gx_uuid gx) (gx_timestamp gx))
        (\<lambda>rid. gw_dispatch cr (sqlite_driver cr) ax gx rid req') c2"
    if sent: "admin_signed cr ?ts (gx_now gx) hc t' sn req" for ax gx hc t' sn req
  proof (rule admin_request_routed [OF assms(2-4) c'(2-4) _ sent])
    fix req' c2 assume "verify cr (sqlite_driver cr) auth_config_default (gx_now gx) req c' = (Inr req', c2)"
      "routed_as_admin sn req'" "sq_view cr c2 = sq_view cr c'"
    then show ?thesis using build_app_verified [of cr _ gx req c' req' c2 ax] by (intro exI [of _ req'] exI [of _ c2]) simp
  qed simp
  then show ?thesis using c'(1,2) by (intro exI [of _ ?ts] conjI allI impI) simp_all
qed

text \<open>The admin asks for its own record.\<close>

definition demo_env :: test_env where
  "demo_env = \<lparr>te_tempdir = Inr (), te_bind = Inr (), te_local_addr = Inr ''127.0.0.1:40001''\<rparr>"

definition demo_admin_get :: signed where
  "demo_admin_get = (signed_new demo_crates demo_now ''GET'' ''/admin/user?uid=admin'' [])
     \<lparr>sn_akid := generate_access_key (af_access adm_fx 0), sn_secret := generate_secret_key (af_secret adm_fx)\<rparr>"

lemma spawned_admin_served_witness:
  "\<exists>ts c' req req' c2. spawn demo_crates demo_env adm_fx (conn_of db_empty) = (Inr ts, c') \<and>
     build demo_crates demo_http demo_admin_get = Some req \<and> routed_as_admin demo_admin_get req' \<and>
     ts_app ts gwp_axum gwp_fx req c' = request_id_layer (new_request_id ''u'' 0)
       (\<lambda>rid. gw_dispatch demo_crates (sqlite_driver demo_crates) gwp_axum gwp_fx rid req') c2"
proof -
  let ?c = "conn_of db_empty :: json conn"
  have c: "sq_calm demo_crates ?c" "cn_db ?c = db_empty"
    by (simp_all add: sq_calm_def demo_crates_def json_total_def)
  have env: "te_tempdir demo_env = Inr ()" "te_bind demo_env = Inr ()" "te_local_addr demo_env = Inr ''127.0.0.1:40001''"
    by (simp_all add: demo_env_def)
  obtain r c' where run: "spawn demo_crates demo_env adm_fx ?c = (r, c')" by fastforce
  have sn1: "signed_ok demo_crates demo_http 7 demo_admin_get" by code_simp
  have sn2: "list_all (\<lambda>(_, v). hdr_from_str_ok v) (sent_headers demo_crates demo_admin_get)" by code_simp
  have sn3: "sn_payload_hash demo_admin_get = sha256_hex demo_crates (sn_body demo_admin_get)" by code_simp
  have sn4: "\<bar>demo_now - 7\<bar> \<le> ac_max_skew auth_config_default" by (simp add: demo_now_def auth_config_default_def)
  have sn5: "sn_body demo_admin_get = []" by code_simp
  obtain req where b: "build demo_crates demo_http demo_admin_get = Some req"
    using build_total [OF demo_crates_more_ok(1,2) sn1 sn2] by (auto simp: build_def)
  have keys: "(sn_akid demo_admin_get, sn_secret demo_admin_get) =
      (generate_access_key (af_access adm_fx 0), generate_secret_key (af_secret adm_fx))"
    by (simp add: demo_admin_get_def)
  obtain ts where ts: "r = Inr ts" "ts_admin_keys ts = (sn_akid demo_admin_get, sn_secret demo_admin_get)"
    using spawn_seeds [OF demo_crates_sq c env, of adm_fx] run keys
    by (metis prod.inject test_server.select_convs(3))
  then have "admin_signed demo_crates ts (gx_now gwp_fx) demo_http 7 demo_admin_get req"
    using sn1 sn3 sn4 sn5 b by (simp add: admin_signed_def gwp_fx_def)
  with spawned_admin_served [OF demo_crates_sq demo_crates_more_ok(1,2) demo_to_bytes_whole env c run] ts(1)
  obtain req' c2 where "routed_as_admin demo_admin_get req'"
    "ts_app ts gwp_axum gwp_fx req c' = request_id_layer (new_request_id (gx_uuid gwp_fx) (gx_timestamp gwp_fx))
       (\<lambda>rid. gw_dispatch demo_crates (sqlite_driver demo_crates) gwp_axum gwp_fx rid req') c2" by blast
  with run ts(1) b show ?thesis by (auto simp: gwp_fx_def)
qed

end
