(* ===== verification/Sal_Testsuite.thy ===== *)
theory Sal_Testsuite
  imports Sal_Client
begin

section \<open>\<open>rgw-sal/src/testsuite.rs\<close>: the conformance suite of drivers\<close>

text \<open>
  The suite is the executable form of the error contracts on \<open>Driver\<close>. A section is an action over a
  driver that ends with a value or panics (\<open>Inl\<close>; the text of a panic is not modelled). \<open>now\<close> and
  \<open>put_object\<close> read the clock: the reading number \<open>i\<close> of a run is \<open>tk i\<close>. \<open>BucketStats::default()\<close> is
  the record of zeros.
\<close>

type_synonym ('s, 'a) test = "('s, unit, 'a) act"

subsection \<open>Assertions\<close>

text \<open>\<open>assert!(b)\<close>, \<open>m.await.unwrap()\<close>, \<open>assert_eq!(m.await.unwrap(), x)\<close> and \<open>assert!(matches!(m.await, Err(e)))\<close>.\<close>

definition assert_t :: "bool \<Rightarrow> ('s, unit) test" where
  "assert_t b = lift_a (guard_r b ())"

definition unwrap_t :: "('s, 'a) rgw_act \<Rightarrow> ('s, 'a) test" where
  "unwrap_t m = match_a m (\<lambda>r. lift_a (map_err (\<lambda>_. ()) r))"

definition gives_t :: "('s, 'a) rgw_act \<Rightarrow> 'a \<Rightarrow> ('s, unit) test" where
  "gives_t m x = try_a (unwrap_t m) (\<lambda>y. assert_t (y = x))"

definition fails_t :: "('s, 'a) rgw_act \<Rightarrow> rgw_error \<Rightarrow> ('s, unit) test" where
  "fails_t m e = match_a m (\<lambda>r. assert_t (case r of Inl e' \<Rightarrow> e' = e | Inr _ \<Rightarrow> False))"

fun run_t :: "('s, unit) test list \<Rightarrow> ('s, unit) test" where
  "run_t [] = ret_a ()"
| "run_t (t # ts) = try_a t (\<lambda>_. run_t ts)"

subsection \<open>Fixtures\<close>

text \<open>An instant is its nanoseconds; \<open>with_nanosecond(0)\<close> drops those of the second.\<close>

definition now_t :: "time \<Rightarrow> time" where
  "now_t t = t - t mod 1000000000"

definition user_t :: "time \<Rightarrow> string \<Rightarrow> user_info" where
  "user_t t i = user_info_new (user_id_new i) (i @ '' display'') (now_t t)"

definition key_t :: "time \<Rightarrow> string \<Rightarrow> access_key" where
  "key_t t i = \<lparr>ak_id = i, ak_key = ''secret-'' @ i, ak_subuser = [], ak_active = True, ak_create_date = now_t t\<rparr>"

definition owner_t :: "string \<Rightarrow> owner" where
  "owner_t i = \<lparr>ow_id = user_id_new i, ow_display_name = i @ '' display''\<rparr>"

definition bucket_t :: "time \<Rightarrow> string \<Rightarrow> string \<Rightarrow> bucket_info" where
  "bucket_t t name ow = \<lparr>bi_bucket = bucket_key_new [] name (''id-'' @ name), bi_owner = user_id_new ow,
     bi_creation_time = now_t t, bi_placement_rule = ''default-placement'', bi_zonegroup = ''default'', bi_num_shards = 0\<rparr>"

definition names_t :: "bucket_info list \<Rightarrow> string list" where
  "names_t bs = map (bk_name \<circ> bi_bucket) bs"

definition put_t :: "'s driver \<Rightarrow> time \<Rightarrow> bucket_info \<Rightarrow> string \<Rightarrow> bytes \<Rightarrow> ('s, unit) test" where
  "put_t d t b name data =
     try_a (unwrap_t (put_object d t (bi_bucket b) (object_key_new name) (owner_t (uid_id (bi_owner b))) [] (body_from_bytes data)))
       (\<lambda>_. ret_a ())"

definition stats_t :: "nat \<Rightarrow> nat \<Rightarrow> bucket_stats" where
  "stats_t n sz = \<lparr>bs_num_objects = of_nat n, bs_size = of_nat sz\<rparr>"

definition keys_t :: "list_result \<Rightarrow> string list" where
  "keys_t r = map (ok_name \<circ> oi_key) (lr_objects r)"

subsection \<open>\<open>users\<close>\<close>

definition users_t :: "'s driver \<Rightarrow> (nat \<Rightarrow> time) \<Rightarrow> ('s, unit) test" where
  "users_t d tk =
     try_a (fails_t (load_user d (user_id_new ''nobody'')) NoSuchUser) (\<lambda>_.
     try_a (unwrap_t (lift_a (caps_add_from_string (ui_caps (user_t (tk 0) ''alice'')) ''users=*''))) (\<lambda>caps.
     let alice = add_access_key (key_t (tk 1) ''AKALICE'')
           ((user_t (tk 0) ''alice'')\<lparr>ui_user_email := ''alice@example.com'', ui_caps := caps\<rparr>);
         bob0 = user_t (tk 2) ''bob'';
         bob_clash = add_access_key (key_t (tk 3) ''AKALICE'') bob0;
         bob = add_access_key (key_t (tk 4) ''AKBOB'') (bob_clash\<lparr>ui_access_keys := []\<rparr>);
         alice2 = (add_access_key (key_t (tk 5) ''AKALICE2'') (alice\<lparr>ui_access_keys := []\<rparr>))\<lparr>ui_display_name := ''Alice Two''\<rparr>
     in run_t
      [unwrap_t (store_user d alice True),
       fails_t (store_user d alice True) UserAlreadyExists,
       gives_t (load_user d (ui_user_id alice)) alice,
       gives_t (load_user_by_access_key d ''AKALICE'') alice,
       gives_t (load_user_by_email d ''alice@example.com'') alice,
       fails_t (load_user_by_access_key d ''AKNOPE'') NoSuchUser,
       fails_t (load_user_by_email d ''nope@example.com'') NoSuchUser,
       fails_t (store_user d bob_clash True) KeyExists,
       unwrap_t (store_user d bob True),
       unwrap_t (store_user d alice2 False),
       fails_t (load_user_by_access_key d ''AKALICE'') NoSuchUser,
       try_a (unwrap_t (load_user_by_access_key d ''AKALICE2'')) (\<lambda>u. assert_t (ui_display_name u = ''Alice Two'')),
       try_a (unwrap_t (list_users d [] 0)) (\<lambda>all. assert_t (ui_user_id alice2 \<in> set all \<and> ui_user_id bob \<in> set all)),
       try_a (unwrap_t (list_users d ''alice'' 0)) (\<lambda>after. assert_t (ui_user_id alice2 \<notin> set after \<and> ui_user_id bob \<in> set after)),
       try_a (unwrap_t (list_users d [] 1)) (\<lambda>one. assert_t (length one = 1)),
       unwrap_t (remove_user d (ui_user_id bob)),
       fails_t (load_user d (ui_user_id bob)) NoSuchUser,
       fails_t (load_user_by_access_key d ''AKBOB'') NoSuchUser,
       fails_t (remove_user d (ui_user_id bob)) NoSuchUser]))"

subsection \<open>\<open>buckets\<close>\<close>

definition buckets_t :: "'s driver \<Rightarrow> (nat \<Rightarrow> time) \<Rightarrow> ('s, unit) test" where
  "buckets_t d tk =
     (let alice = user_id_new ''alice'';
          b1 = bucket_t (tk 6) ''b-alpha'' ''alice'';
          b2 = bucket_t (tk 7) ''b-beta'' ''alice'';
          b3 = bucket_t (tk 8) ''b-gamma'' ''carol''
      in run_t
      [fails_t (load_bucket d [] ''nope'') NoSuchBucket,
       unwrap_t (create_bucket d b1),
       fails_t (create_bucket d b1) BucketAlreadyExists,
       unwrap_t (create_bucket d b2),
       unwrap_t (create_bucket d b3),
       gives_t (load_bucket d [] ''b-alpha'') b1,
       try_a (unwrap_t (list_buckets d (Some alice) [] 0)) (\<lambda>mine.
         assert_t (names_t (bl_buckets mine) = [''b-alpha'', ''b-beta''] \<and> \<not> bl_is_truncated mine)),
       try_a (unwrap_t (list_buckets d None [] 0)) (\<lambda>all. assert_t (''b-gamma'' \<in> set (names_t (bl_buckets all)))),
       try_a (unwrap_t (list_buckets d (Some alice) [] 1)) (\<lambda>page.
         try_a (assert_t (names_t (bl_buckets page) = [''b-alpha''] \<and> bl_is_truncated page \<and> bl_next_marker page = ''b-alpha'')) (\<lambda>_.
         try_a (unwrap_t (list_buckets d (Some alice) (bl_next_marker page) 1)) (\<lambda>page2.
           assert_t (names_t (bl_buckets page2) = [''b-beta''] \<and> \<not> bl_is_truncated page2)))),
       gives_t (read_stats d (bi_bucket b1)) (stats_t 0 0),
       put_t d (tk 9) b3 ''x'' ''hi'',
       fails_t (remove_bucket d [] ''b-gamma'') BucketNotEmpty,
       gives_t (read_stats d (bi_bucket b3)) (stats_t 1 2),
       unwrap_t (delete_object d (bi_bucket b3) (object_key_new ''x'')),
       unwrap_t (remove_bucket d [] ''b-gamma''),
       fails_t (remove_bucket d [] ''b-gamma'') NoSuchBucket,
       fails_t (load_bucket d [] ''b-gamma'') NoSuchBucket,
       fails_t (list_objects d (bi_bucket b3) list_params_default) NoSuchBucket])"

subsection \<open>\<open>objects\<close>\<close>

definition objects_t :: "'s driver \<Rightarrow> (nat \<Rightarrow> time) \<Rightarrow> ('s, unit) test" where
  "objects_t d tk =
     (let b = bucket_t (tk 10) ''b-objects'' ''alice''; bk = bi_bucket b; k = object_key_new ''dir/hello.txt'';
          attrs = bt_insert (RGW_ATTR_META_PREFIX @ ''color'') ''blue'' (bt_insert RGW_ATTR_CONTENT_TYPE ''text/plain'' []);
          ghost = bucket_key_new [] ''ghost'' ''id-ghost'';
          body_is = (\<lambda>key text. try_a (unwrap_t (get_object d bk key None)) (\<lambda>rd. assert_t (read_body (rd_body rd) = Inr text)))
      in run_t
      [unwrap_t (create_bucket d b),
       fails_t (head_object d bk k) NoSuchKey,
       fails_t (get_object d bk k None) NoSuchKey,
       fails_t (delete_object d bk k) NoSuchKey,
       try_a (unwrap_t (put_object d (tk 11) bk k (owner_t ''alice'') attrs (body_from_bytes ''hello world''))) (\<lambda>info. run_t
        [assert_t (oi_key info = k),
         assert_t (oi_size info = 11),
         assert_t (oi_etag info = ''5eb63bbbe01eeed093cb22bb8f5acdc3''),
         assert_t (oi_attrs info = attrs),
         assert_t (oi_owner info = owner_t ''alice''),
         assert_t (content_type info = Some ''text/plain''),
         assert_t (user_metadata info = [(''color'', ''blue'')]),
         gives_t (head_object d bk k) info,
         try_a (unwrap_t (get_object d bk k None)) (\<lambda>rd.
           assert_t (rd_info rd = info \<and> rd_range rd = None \<and> read_body (rd_body rd) = Inr ''hello world''))]),
       try_a (unwrap_t (put_object d (tk 12) bk k (owner_t ''alice'') [] (body_from_bytes ''bye''))) (\<lambda>info2.
         assert_t (oi_size info2 = 3 \<and> oi_attrs info2 = [])),
       body_is k ''bye'',
       gives_t (read_stats d bk) (stats_t 1 3),
       try_a (unwrap_t (put_object d (tk 13) bk (object_key_new ''empty'') (owner_t ''alice'') [] (body_from_bytes []))) (\<lambda>empty.
         assert_t (oi_size empty = 0 \<and> oi_etag empty = ''d41d8cd98f00b204e9800998ecf8427e'')),
       body_is (object_key_new ''empty'') [],
       try_a (unwrap_t (put_object d (tk 14) bk (object_key_new ''multi'') (owner_t ''alice'') [] [Inr ''ab'', Inr ''cd''])) (\<lambda>multi.
         assert_t (oi_size multi = 4 \<and> oi_etag multi = ''e2fc714c4727ee9395f324cd2e7f331f'')),
       body_is (object_key_new ''multi'') ''abcd'',
       unwrap_t (delete_object d bk k),
       fails_t (head_object d bk k) NoSuchKey,
       gives_t (read_stats d bk) (stats_t 2 4),
       fails_t (put_object d (tk 15) ghost k (owner_t ''alice'') [] (body_from_bytes ''x'')) NoSuchBucket,
       fails_t (head_object d ghost k) NoSuchBucket,
       fails_t (delete_object d ghost k) NoSuchBucket])"

subsection \<open>\<open>listing\<close>\<close>

definition all_keys_t :: "string list" where
  "all_keys_t = [''a.txt'', ''b.txt'', ''photos/2024/x.jpg'', ''photos/2024/y.jpg'', ''photos/2025/z.jpg'', ''photos/top.jpg'', ''zeta'']"

definition params_t :: "string \<Rightarrow> string \<Rightarrow> string \<Rightarrow> nat \<Rightarrow> list_params" where
  "params_t pre delim marker mx =
     list_params_default\<lparr>lp_prefix := pre, lp_delimiter := delim, lp_marker := marker, lp_max_keys := mx\<rparr>"

definition listing_t :: "'s driver \<Rightarrow> (nat \<Rightarrow> time) \<Rightarrow> ('s, unit) test" where
  "listing_t d tk =
     (let b = bucket_t (tk 16) ''b-listing'' ''alice'';
          listed = (\<lambda>p chk. try_a (unwrap_t (list_objects d (bi_bucket b) p)) (\<lambda>r. assert_t (chk r)))
      in run_t
      [unwrap_t (create_bucket d b),
       run_t (map (\<lambda>(i, name). put_t d (tk i) b name []) (enumerate 17 (rev all_keys_t))),
       listed list_params_default (\<lambda>r. keys_t r = all_keys_t \<and> lr_common_prefixes r = [] \<and> \<not> lr_is_truncated r),
       listed (params_t ''photos/'' ''/'' [] 0) (\<lambda>r. keys_t r = [''photos/top.jpg''] \<and>
         lr_common_prefixes r = [''photos/2024/'', ''photos/2025/'']),
       listed (params_t [] ''/'' [] 0) (\<lambda>r. keys_t r = [''a.txt'', ''b.txt'', ''zeta''] \<and> lr_common_prefixes r = [''photos/'']),
       listed (params_t ''b'' [] [] 0) (\<lambda>r. keys_t r = [''b.txt'']),
       try_a (unwrap_t (list_objects d (bi_bucket b) (params_t [] [] [] 2))) (\<lambda>r.
         try_a (assert_t (keys_t r = [''a.txt'', ''b.txt''] \<and> lr_is_truncated r \<and> lr_next_marker r = ''b.txt'')) (\<lambda>_.
         listed (params_t [] [] (lr_next_marker r) 2) (\<lambda>r2.
           keys_t r2 = [''photos/2024/x.jpg'', ''photos/2024/y.jpg''] \<and> lr_is_truncated r2))),
       try_a (unwrap_t (list_objects d (bi_bucket b) (params_t [] ''/'' [] 3))) (\<lambda>r.
         try_a (assert_t (keys_t r = [''a.txt'', ''b.txt''] \<and> lr_common_prefixes r = [''photos/''] \<and>
           lr_is_truncated r \<and> lr_next_marker r = ''photos/'')) (\<lambda>_.
         listed (params_t [] ''/'' (lr_next_marker r) 3) (\<lambda>r2.
           keys_t r2 = [''zeta''] \<and> lr_common_prefixes r2 = [] \<and> \<not> lr_is_truncated r2))),
       listed (params_t [] [] [] 7) (\<lambda>r. length (lr_objects r) = 7 \<and> \<not> lr_is_truncated r)])"

subsection \<open>\<open>ranges\<close>\<close>

definition range_cases_t :: "(byte_range \<times> (u64 \<times> u64) \<times> string) list" where
  "range_cases_t =
     [(Absolute 0 (Some 3), (0, 3), ''0123''), (Absolute 7 None, (7, 9), ''789''),
      (Absolute 5 (Some 100), (5, 9), ''56789''), (Suffix 3, (7, 9), ''789''), (Suffix 100, (0, 9), ''0123456789'')]"

definition range_invalid_t :: "(string \<times> byte_range) list" where
  "range_invalid_t = [(''digits'', Absolute 10 None), (''digits'', Suffix 0), (''empty'', Absolute 0 None), (''empty'', Suffix 1)]"

definition ranges_t :: "'s driver \<Rightarrow> (nat \<Rightarrow> time) \<Rightarrow> ('s, unit) test" where
  "ranges_t d tk =
     (let b = bucket_t (tk 24) ''b-ranges'' ''alice''; digits = object_key_new ''digits'' in run_t
      [unwrap_t (create_bucket d b),
       put_t d (tk 25) b ''digits'' ''0123456789'',
       put_t d (tk 26) b ''empty'' [],
       run_t (map (\<lambda>(range, want_range, want_body).
         try_a (unwrap_t (get_object d (bi_bucket b) digits (Some range))) (\<lambda>rd.
           assert_t (rd_range rd = Some want_range \<and> oi_size (rd_info rd) = 10 \<and> read_body (rd_body rd) = Inr want_body)))
         range_cases_t),
       run_t (map (\<lambda>(key, range). fails_t (get_object d (bi_bucket b) (object_key_new key) (Some range)) InvalidRange)
         range_invalid_t)])"

text \<open>\<open>run_all\<close>.\<close>

definition run_all :: "'s driver \<Rightarrow> (nat \<Rightarrow> time) \<Rightarrow> ('s, unit) test" where
  "run_all d tk = run_t [users_t d tk, buckets_t d tk, objects_t d tk, listing_t d tk, ranges_t d tk]"

end
