(* ===== verification/Sal_Conforms.thy ===== *)
theory Sal_Conforms
  imports Sal_Testsuite
begin

section \<open>A driver that meets the contract passes the suite\<close>

text \<open>
  The abstract store, seen as a driver, passes every section of the suite: each is run on it, from the
  store the sections before have left. A test that passes on the abstract store passes on every driver
  that meets the contract (\<open>passes\<close>, composed along the section), so \<open>run_all\<close> passes on every such
  driver from an empty store. The only method that needs care is \<open>bucket_stats\<close>, whose sum may
  overflow: a driver has to answer while the sizes of the bucket fit 63 bits, as they do in the suite.
\<close>

subsection \<open>From the abstract store to a driver\<close>

text \<open>
  \<open>meets\<close>: what the abstract method does other than fail with an internal error, the method does.
  \<open>passes\<close>: a test that passes on the abstract store passes on the driver, and leaves the same store.
\<close>

definition meets :: "('s \<Rightarrow> bool) \<Rightarrow> ('s \<Rightarrow> gw) \<Rightarrow> ('s, 'a) rgw_act \<Rightarrow> (gw, 'a) rgw_act \<Rightarrow> bool" where
  "meets I view m sp \<longleftrightarrow> (\<forall>s r g. I s \<longrightarrow> sp (view s) = (r, g) \<longrightarrow> \<not> (\<exists>e. r = Inl e \<and> is_internal e) \<longrightarrow>
     (\<exists>s'. m s = (r, s') \<and> I s' \<and> view s' = g))"

definition passes :: "('s \<Rightarrow> bool) \<Rightarrow> ('s \<Rightarrow> gw) \<Rightarrow> ('s, 'a) test \<Rightarrow> (gw, 'a) test \<Rightarrow> bool" where
  "passes I view t t' \<longleftrightarrow> (\<forall>s x g. I s \<longrightarrow> t' (view s) = (Inr x, g) \<longrightarrow> (\<exists>s'. t s = (Inr x, s') \<and> I s' \<and> view s' = g))"

named_theorems passes_intros \<open>tests that pass on a driver because they pass on the abstract store\<close>

lemma passesD: "passes I view t t' \<Longrightarrow> I s \<Longrightarrow> t' (view s) = (Inr x, g) \<Longrightarrow> \<exists>s'. t s = (Inr x, s') \<and> I s' \<and> view s' = g"
  by (auto simp: passes_def)

lemma meetsD:
  "meets I view m sp \<Longrightarrow> I s \<Longrightarrow> sp (view s) = (r, g) \<Longrightarrow> \<not> (\<exists>e. r = Inl e \<and> is_internal e) \<Longrightarrow>
   \<exists>s'. m s = (r, s') \<and> I s' \<and> view s' = g"
  by (auto simp: meets_def)

lemma passes_lift [passes_intros]: "passes I view (lift_a r) (lift_a r)" "passes I view (ret_a x) (ret_a x)"
  "passes I view (assert_t b) (assert_t b)"
  by (auto simp: passes_def assert_t_def)

lemma passes_try [passes_intros]:
  assumes t: "passes I view t t'" and f: "\<And>x. passes I view (f x) (f' x)"
  shows "passes I view (try_a t f) (try_a t' f')"
  unfolding passes_def
proof (intro allI impI)
  fix s x g assume I: "I s" and run: "try_a t' f' (view s) = (Inr x, g)"
  then obtain y g1 where 1: "t' (view s) = (Inr y, g1)" "f' y g1 = (Inr x, g)"
    by (auto simp: try_a_apply split: prod.splits sum.splits)
  from passesD [OF t I 1(1)] obtain s1 where 2: "t s = (Inr y, s1)" "I s1" "view s1 = g1" by blast
  from passesD [OF f 2(2)] 1(2) 2(3) obtain s2 where "f y s1 = (Inr x, s2)" "I s2" "view s2 = g" by blast
  with 2(1) show "\<exists>s'. try_a t f s = (Inr x, s') \<and> I s' \<and> view s' = g" by (simp add: try_a_apply)
qed

lemma passes_unwrap [passes_intros]: "meets I view m m' \<Longrightarrow> passes I view (unwrap_t m) (unwrap_t m')"
  unfolding passes_def unwrap_t_def
  by (auto simp: match_a_apply split: prod.splits dest!: meetsD)

lemma passes_gives [passes_intros]: "meets I view m m' \<Longrightarrow> passes I view (gives_t m x) (gives_t m' x)"
  unfolding gives_t_def by (intro passes_intros)

lemma passes_fails [passes_intros]:
  "meets I view m m' \<Longrightarrow> \<not> is_internal e \<Longrightarrow> passes I view (fails_t m e) (fails_t m' e)"
  unfolding passes_def fails_t_def assert_t_def
  by (fastforce simp: match_a_apply split: prod.splits sum.splits dest!: meetsD)

lemma passes_run [passes_intros]:
  "passes I view (run_t []) (run_t [])"
  "passes I view t t' \<Longrightarrow> passes I view (run_t ts) (run_t ts') \<Longrightarrow> passes I view (run_t (t # ts)) (run_t (t' # ts'))"
  by (simp_all add: passes_intros)

lemma passes_run_map:
  "(\<And>x. x \<in> set xs \<Longrightarrow> passes I view (t x) (t' x)) \<Longrightarrow> passes I view (run_t (map t xs)) (run_t (map t' xs))"
  by (induction xs) (simp_all add: passes_intros)

definition stats_small :: "bucket_key \<Rightarrow> gw \<Rightarrow> bool" where
  "stats_small b g \<longleftrightarrow> (let obs = g_objects_of g (bk_bucket_id b) in
     length obs < 2 ^ 63 \<and> sum_list (map (unat \<circ> oi_size) obs) < 2 ^ 63)"

text \<open>The abstract store as a driver that may fail to sum up what does not fit.\<close>

definition checked_driver :: "(bytes \<Rightarrow> string) \<Rightarrow> gw driver" where
  "checked_driver etag = (spec_driver etag)\<lparr>read_stats :=
     (\<lambda>b g. if stats_small b g then spec_read_stats b g else (Inl (InternalError []), g))\<rparr>"

lemma checked_driver_sel [simp]:
  "load_user (checked_driver etag) = spec_load_user"
  "load_user_by_access_key (checked_driver etag) = spec_load_user_by_access_key"
  "load_user_by_email (checked_driver etag) = spec_load_user_by_email"
  "store_user (checked_driver etag) = spec_store_user"
  "remove_user (checked_driver etag) = spec_remove_user"
  "list_users (checked_driver etag) = spec_list_users"
  "create_bucket (checked_driver etag) = spec_create_bucket"
  "load_bucket (checked_driver etag) = spec_load_bucket"
  "list_buckets (checked_driver etag) = spec_list_buckets"
  "remove_bucket (checked_driver etag) = spec_remove_bucket"
  "read_stats (checked_driver etag) =
     (\<lambda>b g. if stats_small b g then spec_read_stats b g else (Inl (InternalError []), g))"
  "list_objects (checked_driver etag) = spec_list_objects"
  "head_object (checked_driver etag) = spec_head_object"
  "get_object (checked_driver etag) = spec_get_object"
  "put_object (checked_driver etag) = spec_put_object etag"
  "delete_object (checked_driver etag) = spec_delete_object"
  by (simp_all add: checked_driver_def)


subsection \<open>Evaluating the suite on the abstract store\<close>

lemmas test_simps = run_t.simps unwrap_t_def gives_t_def fails_t_def assert_t_def try_a_apply match_a_apply

lemma caps_users: "caps_add_from_string caps_new ''users=*'' = Inr [(''users'', CAP_ALL)]"
  by code_simp

lemma unwrap_caps [simp]:
  "unwrap_t (lift_a (caps_add_from_string (ui_caps (user_t t i)) ''users=*'')) = ret_a [(''users'', CAP_ALL)]"
  by (simp add: unwrap_t_def fun_eq_iff match_a_apply user_t_def user_info_new_def caps_users)

text \<open>The fixtures as the abstract store sees them.\<close>

lemma bucket_t_sel [simp]:
  "bi_bucket (bucket_t t n ow) = bucket_key_new [] n (''id-'' @ n)" "bi_owner (bucket_t t n ow) = user_id_new ow"
  by (simp_all add: bucket_t_def)

lemma bucket_key_sel [simp]: "bk_tenant (bucket_key_new t n i) = t" "bk_name (bucket_key_new t n i) = n" "bk_bucket_id (bucket_key_new t n i) = i"
  by (simp_all add: bucket_key_new_def)

lemma user_id_new_t [simp]: "user_id_display (user_id_new i) = i" "uid_id (user_id_new i) = i"
  "CHR ''$'' \<notin> set i \<Longrightarrow> canonical_uid (user_id_new i)"
  by (simp_all add: user_id_new_def user_id_display_def canonical_uid_def)

lemma canon_uid_t [simp]: "CHR ''$'' \<notin> set i \<Longrightarrow> canon_user_id (user_id_new i) = user_id_new i"
  using user_id_parse_display [of "user_id_new i"] by (simp add: canon_user_id_def)

lemma canon_bucket_t [simp]: "CHR ''$'' \<notin> set ow \<Longrightarrow> canon_bucket (bucket_t t n ow) = bucket_t t n ow"
  by (simp add: canon_bucket_def bucket_t_def)

lemma new_object_sel [simp]:
  "oi_key (new_object etag t k ow at d) = object_key_new (ok_name k)" "oi_size (new_object etag t k ow at d) = of_nat (length d)"
  "oi_etag (new_object etag t k ow at d) = etag d" "oi_owner (new_object etag t k ow at d) = ow" "oi_attrs (new_object etag t k ow at d) = at"
  by (simp_all add: new_object_def)

lemma new_object_ne [simp]:
  "n \<noteq> n' \<Longrightarrow> new_object etag t (object_key_new n) ow at d \<noteq> new_object etag t' (object_key_new n') ow' at' d'"
  by (simp add: new_object_def object_key_new_def)

lemma canon_object_t [simp]:
  "CHR ''$'' \<notin> set i \<Longrightarrow> canon_object (new_object etag t k (owner_t i) at d) = new_object etag t k (owner_t i) at d"
  by (simp add: canon_object_def new_object_def owner_t_def)

lemma object_key_t [simp]: "ok_name (object_key_new n) = n" "object_key_new m = object_key_new n \<longleftrightarrow> m = n"
  by (simp_all add: object_key_new_def)

lemma params_t_max [simp]: "lp_max_keys (params_t pre delim marker mx) = mx" "lp_max_keys list_params_default = 0"
  by (simp_all add: params_t_def list_params_default_def)


text \<open>The conditions the contract puts on the arguments.\<close>

lemma run_caps: "try_a (ret_a x) f = f x"
  by (simp add: fun_eq_iff try_a_apply)

lemma caps_wf_users: "caps_wf [(''users'', CAP_ALL)]"
  by code_simp

lemma user_t_ok:
  "user_wf (user_t t i)" "ui_user_id (user_t t i) = user_id_new i" "ui_access_keys (user_t t i) = []" "ui_caps (user_t t i) = caps_new"
  by (simp_all add: user_t_def user_info_new_def user_wf_def caps_wf_new)

lemma stable_t: "CHR ''$'' \<notin> set i \<Longrightarrow> uid_stable (user_id_new i)"
  by (simp add: canonical_stable)

lemma utf8_t:
  "from_utf8_ok ''x''" "from_utf8_ok ''dir/hello.txt''" "from_utf8_ok ''empty''" "from_utf8_ok ''multi''" "from_utf8_ok ''digits''"
  "from_utf8_ok ''photos/''" "from_utf8_ok ''b''" "from_utf8_ok []" "list_all from_utf8_ok all_keys_t"
  by code_simp+

lemma refusals [simp]:
  "\<not> is_internal NoSuchUser" "\<not> is_internal UserAlreadyExists" "\<not> is_internal KeyExists" "\<not> is_internal NoSuchBucket"
  "\<not> is_internal BucketAlreadyExists" "\<not> is_internal BucketNotEmpty" "\<not> is_internal NoSuchKey" "\<not> is_internal InvalidRange"
  by (simp_all add: is_internal_def)

lemma attrs_t_wf: "bt_wf (bt_insert (RGW_ATTR_META_PREFIX @ ''color'') ''blue'' (bt_insert RGW_ATTR_CONTENT_TYPE ''text/plain'' []))"
  by (intro bt_wf_insert bt_wf_Nil)

lemma body_fits_t: "length d < 2 ^ 63 \<Longrightarrow> body_fits (body_from_bytes d)"
  by (simp add: body_fits_def)

lemma params_t_prefix [simp]: "lp_prefix (params_t pre delim marker mx) = pre" "lp_prefix list_params_default = []"
  by (simp_all add: params_t_def list_params_default_def)

lemma text_plain: "from_utf8 ''text/plain'' = Some ''text/plain''" by code_simp

lemma users_spec: "\<exists>g. users_t (checked_driver etag) tk gw_empty = (Inr (), g) \<and> g_buckets g = [] \<and> g_objects g = []"
  by (simp add: users_t_def test_simps caps_users Let_def user_t_def user_info_new_def user_id_new_def key_t_def
      add_access_key_def spec_load_user_def spec_store_user_def spec_load_user_by_access_key_def spec_load_user_by_email_def
      spec_list_users_def spec_remove_user_def gw_empty_def g_key_clash_def g_put_user_def canon_user_def canon_user_id_def
      user_id_display_def user_id_parse_def bt_get_def bt_remove_def page_size_def DEFAULT_MAX_ENTRIES_def)

lemmas eval_simps = test_simps Let_def put_t_def stats_t_def names_t_def keys_t_def
   spec_load_bucket_def spec_create_bucket_def spec_get_object_def spec_range_def spec_put_object_def spec_delete_object_def spec_head_object_def
   spec_list_buckets_def spec_remove_bucket_def spec_read_stats_def
   spec_list_objects_def g_find_object_def g_bucket_ids_def g_buckets_of_def g_objects_of_def 
   bt_get_def bt_remove_def page_size_def DEFAULT_MAX_ENTRIES_def stats_small_def

definition after_buckets :: "(nat \<Rightarrow> time) \<Rightarrow> gw \<Rightarrow> gw" where
  "after_buckets tk g = g\<lparr>g_buckets := [((''b-alpha'', []), bucket_t (tk 6) ''b-alpha'' ''alice''), ((''b-beta'', []), bucket_t (tk 7) ''b-beta'' ''alice'')]\<rparr>"

lemma buckets_spec:
  assumes "g_buckets g = []" "g_objects g = []"
  shows "buckets_t (checked_driver etag) tk g = (Inr (), after_buckets tk g)"
  using assms by (cases g) (simp add: buckets_t_def eval_simps after_buckets_def)

definition after_objects :: "(bytes \<Rightarrow> string) \<Rightarrow> (nat \<Rightarrow> time) \<Rightarrow> gw \<Rightarrow> gw" where
  "after_objects etag tk g = (after_buckets tk g)\<lparr>
     g_buckets := g_buckets (after_buckets tk g) @ [((''b-objects'', []), bucket_t (tk 10) ''b-objects'' ''alice'')],
     g_objects := [((''id-b-objects'', ''empty''), new_object etag (tk 13) (object_key_new ''empty'') (owner_t ''alice'') [] [], []),
      ((''id-b-objects'', ''multi''), new_object etag (tk 14) (object_key_new ''multi'') (owner_t ''alice'') [] ''abcd'', ''abcd'')]\<rparr>"

lemma objects_spec: 
 assumes "etag ''hello world'' = ''5eb63bbbe01eeed093cb22bb8f5acdc3''" "etag [] = ''d41d8cd98f00b204e9800998ecf8427e''" "etag ''abcd'' = ''e2fc714c4727ee9395f324cd2e7f331f''"
  and "g_buckets g = []" "g_objects g = []"
 shows "objects_t (checked_driver etag) tk (after_buckets tk g) = (Inr (), after_objects etag tk g)"
  using assms(4,5)
  by (cases g) (simp add: objects_t_def RGW_ATTR_META_PREFIX_def RGW_ATTR_CONTENT_TYPE_def eval_simps assms(1,2,3) content_type_def user_metadata_def
    List.map_filter_def text_plain after_buckets_def after_objects_def)


definition lobj :: "(bytes \<Rightarrow> string) \<Rightarrow> (nat \<Rightarrow> time) \<Rightarrow> nat \<Rightarrow> string \<Rightarrow> object_info" where
  "lobj etag tk i n = new_object etag (tk i) (object_key_new n) (owner_t ''alice'') [] []"

lemma lobj_sel [simp]: "oi_key (lobj etag tk i n) = object_key_new n" "lobj etag tk i n = lobj etag tk j m \<longleftrightarrow> n = m \<and> tk i = tk j"
  by (auto simp: lobj_def new_object_def object_key_new_def)

definition listing_objs :: "(bytes \<Rightarrow> string) \<Rightarrow> (nat \<Rightarrow> time) \<Rightarrow> object_info list" where
  "listing_objs etag tk = map (\<lambda>(i, n). lobj etag tk i n) (zip [23, 22, 21, 20, 19, 18, 17] all_keys_t)"

definition after_listing :: "(bytes \<Rightarrow> string) \<Rightarrow> (nat \<Rightarrow> time) \<Rightarrow> gw \<Rightarrow> gw" where
  "after_listing etag tk g = (after_objects etag tk g)\<lparr>
     g_buckets := g_buckets (after_buckets tk g) @ [((''b-listing'', []), bucket_t (tk 16) ''b-listing'' ''alice''),
       ((''b-objects'', []), bucket_t (tk 10) ''b-objects'' ''alice'')],
     g_objects := map (\<lambda>ob. ((''id-b-listing'', ok_name (oi_key ob)), ob, [])) (listing_objs etag tk) @ g_objects (after_objects etag tk g)\<rparr>"

lemma run_t_Cons: "t s = (Inr (), s1) \<Longrightarrow> run_t ts s1 = r \<Longrightarrow> run_t (t # ts) s = r"
  by (simp add: try_a_apply)

lemma listing_puts:
  assumes "g_buckets g = []" "g_objects g = []"
  shows "run_t [unwrap_t (spec_create_bucket (bucket_t (tk 16) ''b-listing'' ''alice'')),
      run_t (map (\<lambda>(i, name). put_t (checked_driver etag) (tk i) (bucket_t (tk 16) ''b-listing'' ''alice'') name []) (enumerate 17 (rev all_keys_t)))]
    (after_objects etag tk g) = (Inr (), after_listing etag tk g)"
  using assms
  by (cases g) (simp add: eval_simps after_objects_def after_buckets_def after_listing_def listing_objs_def all_keys_t_def enumerate_eq_zip lobj_def)

lemma run_t_two: "run_t [a, b] s = (Inr (), s1) \<Longrightarrow> run_t ts s1 = r \<Longrightarrow> run_t (a # b # ts) s = r"
  by (auto simp: try_a_apply split: prod.splits sum.splits)

lemma listing_read:
  assumes "g_objects g = []"
  shows "spec_list_objects (bucket_key_new [] ''b-listing'' ''id-b-listing'') p (after_listing etag tk g) =
    (Inr (page_of (page_size (lp_max_keys p)) (entries_after p (listing_objs etag tk))), after_listing etag tk g)"
  using assms
  by (cases g) (simp add: spec_list_objects_def g_objects_of_def g_bucket_ids_def after_listing_def after_objects_def after_buckets_def listing_objs_def all_keys_t_def)


lemma listing_prefixes:
  "common_prefix ''photos/'' ''/'' ''photos/2024/x.jpg'' = Some ''photos/2024/''"
  "common_prefix ''photos/'' ''/'' ''photos/2024/y.jpg'' = Some ''photos/2024/''"
  "common_prefix ''photos/'' ''/'' ''photos/2025/z.jpg'' = Some ''photos/2025/''"
  "common_prefix ''photos/'' ''/'' ''photos/top.jpg'' = None"
  "common_prefix [] ''/'' ''a.txt'' = None"
  "common_prefix [] ''/'' ''b.txt'' = None"
  "common_prefix [] ''/'' ''photos/2024/x.jpg'' = Some ''photos/''"
  "common_prefix [] ''/'' ''photos/2024/y.jpg'' = Some ''photos/''"
  "common_prefix [] ''/'' ''photos/2025/z.jpg'' = Some ''photos/''"
  "common_prefix [] ''/'' ''photos/top.jpg'' = Some ''photos/''"
  "common_prefix [] ''/'' ''zeta'' = None"
  by code_simp+

lemma no_delimiter: "common_prefix pre [] n = None"
  by (simp add: common_prefix_def)

lemma listing_entries:
  "entries_after list_params_default (listing_objs etag tk) = map EObject (listing_objs etag tk)"
  "entries_after (params_t ''photos/'' ''/'' [] n) (listing_objs etag tk) =
     [EPrefix ''photos/2024/'', EPrefix ''photos/2025/'', EObject (lobj etag tk 18 ''photos/top.jpg'')]"
  "entries_after (params_t [] ''/'' [] n) (listing_objs etag tk) =
     [EObject (lobj etag tk 23 ''a.txt''), EObject (lobj etag tk 22 ''b.txt''), EPrefix ''photos/'', EObject (lobj etag tk 17 ''zeta'')]"
  "entries_after (params_t ''b'' [] [] n) (listing_objs etag tk) = [EObject (lobj etag tk 22 ''b.txt'')]"
  "entries_after (params_t [] [] [] n) (listing_objs etag tk) = map EObject (listing_objs etag tk)"
  "entries_after (params_t [] [] ''b.txt'' n) (listing_objs etag tk) = map EObject (drop 2 (listing_objs etag tk))"
  "entries_after (params_t [] ''/'' ''photos/'' n) (listing_objs etag tk) = [EObject (lobj etag tk 17 ''zeta'')]"
  by (simp_all add: entries_after_def list_entries_def entry_of_def listing_objs_def all_keys_t_def params_t_def list_params_default_def listing_prefixes no_delimiter)

lemma run_t_append: "run_t (ts @ us) s = (case run_t ts s of (Inl e, s1) \<Rightarrow> (Inl e, s1) | (Inr _, s1) \<Rightarrow> run_t us s1)"
  by (induction ts arbitrary: s) (auto simp: try_a_apply split: prod.splits sum.splits)


lemma listing_spec:
  assumes "g_buckets g = []" "g_objects g = []"
  shows "listing_t (checked_driver etag) tk (after_objects etag tk g) = (Inr (), after_listing etag tk g)"
proof -
  note read = listing_read [OF assms(2)]
  note page = page_of_def entry_objects_def entry_prefixes_def List.map_filter_def page_size_def DEFAULT_MAX_ENTRIES_def keys_t_def
  have objs: "listing_objs etag tk = [lobj etag tk 23 ''a.txt'', lobj etag tk 22 ''b.txt'', lobj etag tk 21 ''photos/2024/x.jpg'',
      lobj etag tk 20 ''photos/2024/y.jpg'', lobj etag tk 19 ''photos/2025/z.jpg'', lobj etag tk 18 ''photos/top.jpg'', lobj etag tk 17 ''zeta'']"
    by (simp add: listing_objs_def all_keys_t_def)
  note entries = listing_entries [where etag = etag and tk = tk, unfolded objs]
  show ?thesis
    unfolding listing_t_def Let_def bucket_t_sel checked_driver_sel append.simps
  proof (rule run_t_two [OF listing_puts [OF assms]])
  qed (simp add: test_simps read entries objs page all_keys_t_def)
qed

lemma ranges_spec: 
  assumes "g_buckets g = []" "g_objects g = []"
 shows "\<exists>g'. ranges_t (checked_driver etag) tk (after_listing etag tk g) = (Inr (), g')"
  using assms
  by (cases g) (simp add: ranges_t_def eval_simps after_objects_def after_buckets_def after_listing_def listing_objs_def
    all_keys_t_def enumerate_eq_zip range_cases_t_def range_invalid_t_def)
text \<open>The three digests the suite was written with.\<close>

definition suite_digests :: "(bytes \<Rightarrow> string) \<Rightarrow> bool" where
  "suite_digests etag \<longleftrightarrow> etag ''hello world'' = ''5eb63bbbe01eeed093cb22bb8f5acdc3'' \<and>
     etag [] = ''d41d8cd98f00b204e9800998ecf8427e'' \<and> etag ''abcd'' = ''e2fc714c4727ee9395f324cd2e7f331f''"

lemma run_all_spec:
  assumes "suite_digests etag"
  shows "\<exists>g. run_all (checked_driver etag) tk gw_empty = (Inr (), g)"
proof -
  obtain g where g: "users_t (checked_driver etag) tk gw_empty = (Inr (), g)" "g_buckets g = []" "g_objects g = []"
    using users_spec by blast
  from ranges_spec [OF g(2,3)] obtain g' where "ranges_t (checked_driver etag) tk (after_listing etag tk g) = (Inr (), g')" by blast
  with g(1) buckets_spec [OF g(2,3)] objects_spec [OF _ _ _ g(2,3)] listing_spec [OF g(2,3)] assms
  show ?thesis by (simp add: run_all_def try_a_apply suite_digests_def)
qed

locale suite_driver = reliable_driver drv sinv view etag calm
  for drv :: "'s driver" and sinv :: "'s \<Rightarrow> bool" and view :: "'s \<Rightarrow> gw"
    and etag :: "bytes \<Rightarrow> string" and calm :: "'s \<Rightarrow> bool" +
  assumes stats_exact:
    "sinv s \<Longrightarrow> calm s \<Longrightarrow> stats_small b (view s) \<Longrightarrow> read_stats drv b s = (r, s') \<Longrightarrow>
     calm s' \<and> (r, view s') = spec_read_stats b (view s)"
begin

definition ready :: "'s \<Rightarrow> bool" where
  "ready s \<longleftrightarrow> sinv s \<and> calm s"

lemma meets_exact:
  assumes m: "refines sinv view m sp" "exact sinv calm view m sp"
  shows "meets ready view m sp"
  unfolding meets_def ready_def
proof (intro allI impI)
  fix s r g assume s: "sinv s \<and> calm s" and sp: "sp (view s) = (r, g)"
  obtain r0 s' where run: "m s = (r0, s')" by fastforce
  from refinesD [OF m(1) _ run] exactD [OF m(2) _ _ run] s sp
  show "\<exists>s'. m s = (r, s') \<and> (sinv s' \<and> calm s') \<and> view s' = g" by (auto simp: run)
qed

lemma meets_methods [passes_intros]:
  "meets ready view (load_user drv uid) (load_user (checked_driver etag) uid)"
  "meets ready view (load_user_by_access_key drv k) (load_user_by_access_key (checked_driver etag) k)"
  "meets ready view (load_user_by_email drv email) (load_user_by_email (checked_driver etag) email)"
  "meets ready view (remove_user drv uid) (remove_user (checked_driver etag) uid)"
  "meets ready view (load_bucket drv tenant name) (load_bucket (checked_driver etag) tenant name)"
  "meets ready view (remove_bucket drv tenant name) (remove_bucket (checked_driver etag) tenant name)"
  "meets ready view (head_object drv bk key) (head_object (checked_driver etag) bk key)"
  "meets ready view (get_object drv bk key rng) (get_object (checked_driver etag) bk key rng)"
  "meets ready view (delete_object drv bk key) (delete_object (checked_driver etag) bk key)"
  unfolding checked_driver_sel
  by (rule meets_exact [OF load_user_ok load_user_exact] meets_exact [OF load_key_ok load_key_exact]
      meets_exact [OF load_email_ok load_email_exact] meets_exact [OF remove_user_ok remove_user_exact]
      meets_exact [OF load_bucket_ok load_bucket_exact] meets_exact [OF remove_bucket_ok remove_bucket_exact]
      meets_exact [OF head_object_ok head_object_exact] meets_exact [OF get_object_ok get_object_exact]
      meets_exact [OF delete_object_ok delete_object_exact])+

lemma meets_guarded [passes_intros]:
  "user_wf info \<Longrightarrow> uid_stable (ui_user_id info) \<Longrightarrow> meets ready view (store_user drv info excl) (store_user (checked_driver etag) info excl)"
  "mx < 2 ^ 63 \<Longrightarrow> meets ready view (list_users drv marker mx) (list_users (checked_driver etag) marker mx)"
  "uid_stable (bi_owner b) \<Longrightarrow> meets ready view (create_bucket drv b) (create_bucket (checked_driver etag) b)"
  "mx < 2 ^ 63 - 1 \<Longrightarrow> meets ready view (list_buckets drv ow marker mx) (list_buckets (checked_driver etag) ow marker mx)"
  "from_utf8_ok (lp_prefix p) \<Longrightarrow> CHR 0x00 \<notin> set (lp_prefix p) \<Longrightarrow>
     meets ready view (list_objects drv bk p) (list_objects (checked_driver etag) bk p)"
  "from_utf8_ok (ok_name key) \<Longrightarrow> bt_wf at \<Longrightarrow> body_fits body \<Longrightarrow>
     meets ready view (put_object drv now bk key ob at body) (put_object (checked_driver etag) now bk key ob at body)"
  unfolding checked_driver_sel
  using meets_exact [OF store_user_ok store_user_exact, of info excl] meets_exact [OF list_users_ok list_users_exact, of mx marker]
    meets_exact [OF create_bucket_ok create_bucket_exact, of b] meets_exact [OF list_buckets_ok list_buckets_exact, of mx ow marker]
    meets_exact [OF list_objects_ok list_objects_exact, of p bk]
    meets_exact [OF put_object_ok put_object_exact, of key at body now bk ob]
  by auto

lemma meets_stats [passes_intros]: "meets ready view (read_stats drv b) (read_stats (checked_driver etag) b)"
  unfolding meets_def ready_def checked_driver_sel
proof (intro allI impI)
  fix s r g assume s: "sinv s \<and> calm s" and sp: "(if stats_small b (view s) then spec_read_stats b (view s) else (Inl (InternalError []), view s)) = (r, g)"
    and no: "\<not> (\<exists>e. r = Inl e \<and> is_internal e)"
  then have small: "stats_small b (view s)" by (auto split: if_splits)
  obtain r0 s' where run: "read_stats drv b s = (r0, s')" by fastforce
  from stats_exact [OF _ _ small run] reads_ok(7) [OF _ run] s sp small
  show "\<exists>s'. read_stats drv b s = (r, s') \<and> (sinv s' \<and> calm s') \<and> view s' = g" by (auto simp: run)
qed


lemma passes_users: "passes ready view (users_t drv tk) (users_t (checked_driver etag) tk)"
  unfolding users_t_def Let_def unwrap_caps run_caps
  by (intro passes_intros)
    (auto simp: user_wf_def add_access_key_def key_t_def user_t_ok caps_wf_users caps_wf_new bt_wf_def stable_t)

lemma passes_put_t:
  "from_utf8_ok name \<Longrightarrow> length data < 2 ^ 63 \<Longrightarrow> passes ready view (put_t drv t b name data) (put_t (checked_driver etag) t b name data)"
  unfolding put_t_def by (intro passes_intros) (simp_all add: body_fits_t)

lemma passes_buckets: "passes ready view (buckets_t drv tk) (buckets_t (checked_driver etag) tk)"
  unfolding buckets_t_def Let_def
  by (intro passes_intros passes_put_t) (simp_all add: stable_t utf8_t)

lemma passes_objects: "passes ready view (objects_t drv tk) (objects_t (checked_driver etag) tk)"
  unfolding objects_t_def Let_def
  by (intro passes_intros)
    (simp_all add: stable_t utf8_t body_fits_t attrs_t_wf del: bt_insert.simps, simp_all add: body_fits_def)

lemma passes_listing: "passes ready view (listing_t drv tk) (listing_t (checked_driver etag) tk)"
  unfolding listing_t_def Let_def
  by (intro passes_intros passes_run_map)
    (auto simp: stable_t utf8_t enumerate_eq_zip list_all_iff [THEN iffD1, OF utf8_t(9)] intro!: passes_put_t dest: set_zip_rightD)

lemma passes_ranges: "passes ready view (ranges_t drv tk) (ranges_t (checked_driver etag) tk)"
  unfolding ranges_t_def Let_def
  by (intro passes_intros passes_run_map passes_put_t)
    (auto simp: stable_t utf8_t simp del: checked_driver_sel intro!: passes_intros)

lemma passes_all: "passes ready view (run_all drv tk) (run_all (checked_driver etag) tk)"
  unfolding run_all_def
  by (intro passes_run passes_users passes_buckets passes_objects passes_listing passes_ranges)

lemma suite_passes:
  assumes "suite_digests etag" and "sinv s" and "calm s" and "view s = gw_empty"
  shows "\<exists>s'. run_all drv tk s = (Inr (), s') \<and> sinv s' \<and> calm s'"
proof -
  obtain g where "run_all (checked_driver etag) tk (view s) = (Inr (), g)" using run_all_spec [OF assms(1)] assms(4) by auto
  from passesD [OF passes_all _ this] assms(2,3) show ?thesis by (auto simp: ready_def)
qed

end

end
