(* ===== verification/Sqlite_Conforms.thy ===== *)
theory Sqlite_Conforms
  imports Sal_Conforms Sqlite_Props
begin

section \<open>The SQLite driver passes the conformance suite\<close>

text \<open>
  The locale of drivers that the suite passes on is interpreted on the SQLite driver, whose sum of
  object sizes does not overflow while the sizes of the bucket fit 63 bits.
\<close>

lemma sql_sum_fits:
  assumes "\<forall>x \<in> set xs. 0 \<le> x" and "0 \<le> a" and "a + sum_list xs < 2 ^ 63"
  shows "fold (\<lambda>x acc. Option.bind acc (\<lambda>a. sql_add a x)) xs (Some a) = Some (a + sum_list xs)"
  using assms
proof (induction xs arbitrary: a)
  case (Cons x xs)
  have "0 \<le> sum_list xs" using Cons.prems(1) by (intro sum_list_nonneg) simp
  with Cons.prems have "sql_add a x = Some (a + x)" by (simp add: sql_add_def)
  with Cons show ?case by (simp add: add.assoc)
qed simp

lemma sint_of_nat_u64: "n < 2 ^ 63 \<Longrightarrow> 0 \<le> sint (of_nat n :: u64)"
proof -
  assume n: "n < 2 ^ 63"
  then have "uint (of_nat n :: u64) = int n" by (simp add: unsigned_of_nat take_bit_nat_eq_self)
  with n have "uint (of_nat n :: u64) < 2 ^ 63" by simp
  then show ?thesis by (simp add: sint_u64)
qed

lemma stats_implements_small:
  assumes "crates_ok cr" and ok: "db_ok cr d" and small: "stats_small b (view_db cr d)"
  shows "implements cr True (ideal (sq_bucket_stats cr b) d) d (spec_read_stats b)"
proof (rule implements_reader [OF _ reader_methods(7)])
  let ?i = "bk_bucket_id b" let ?s = "sql_bucket_sizes (bk_bucket_id b) d"
  have len: "length (g_objects_of (view_db cr d) ?i) = length ?s"
    by (simp add: g_objects_of_view [OF ok] sql_bucket_sizes_def)
  have fits: "length ?s < 2 ^ 63" "sum_list (map unat ?s) < 2 ^ 63"
    using small by (simp_all add: stats_small_def Let_def len sum_list_sizes [OF ok, unfolded o_def] o_def)
  have "map sint ?s = map (\<lambda>w. int (unat w)) ?s" by (rule map_cong) (auto simp: sizes_nonneg [OF ok])
  then have sums: "sum_list (map sint ?s) = int (sum_list (map unat ?s))" by (simp only: sum_list_int)
  have "sql_sum (map sint ?s) = Some (sum_list (map sint ?s))"
    unfolding sql_sum_def using sql_sum_fits [of "map sint ?s" 0] fits(2) sums sizes_nonneg [OF ok] by auto
  then have "sum_sizes cr ?s = Inr \<lparr>bs_num_objects = of_nat (length ?s), bs_size = of_nat (sum_list (map unat ?s))\<rparr>"
    using sint_of_nat_u64 [OF fits(1)] sint_of_nat_u64 [OF fits(2)] by (simp add: sum_sizes_def to_u64_def sums)
  then show "\<not> True \<and> (\<exists>e. fst (ideal (sq_bucket_stats cr b) d) = Inl (InternalError e)) \<or>
      fst (ideal (sq_bucket_stats cr b) d) = fst (spec_read_stats b (view_db cr d))"
    by (auto simp: sq_bucket_stats_def ideal_def try_a_apply check_bucket_def bucket_exists_view [OF ok] guard_r_def
        spec_read_stats_def Let_def sum_list_sizes [OF ok] len simp del: view_simps)
qed (use assms in simp_all)

text \<open>In a calm state a method does what it does on the tables alone.\<close>

lemma implements_at:
  assumes "atomic m" and "sq_calm cr c" and "m c = (r, c')" and "implements cr True (ideal m (cn_db c)) (cn_db c) sp"
  shows "sq_calm cr c' \<and> (r, sq_view cr c') = sp (sq_view cr c)"
proof -
  have c: "c = conn_of (cn_db c)" using assms(2) by (simp add: sq_calm_def conn_of_eq)
  have i: "ideal m (cn_db c) = (r, cn_db c')" unfolding ideal_def c [symmetric] by (simp add: assms(3))
  have "cn_faults c' = []" using assms(1,3) c unfolding atomic_def by (metis snd_conv)
  with i assms(2,4) show ?thesis by (simp add: implements_def sq_calm_def sq_view_def)
qed

interpretation sqs: suite_driver "sqlite_driver cr" "sq_inv cr" "sq_view cr" "md5_hex cr" "sq_calm cr" for cr :: "'j crates"
proof unfold_locales
  fix b s r s' assume s: "sq_inv cr s" "sq_calm cr s" "stats_small b (sq_view cr s)" and run: "read_stats (sqlite_driver cr) b s = (r, s')"
  from s have "implements cr True (ideal (sq_bucket_stats cr b) (cn_db s)) (cn_db s) (spec_read_stats b)"
    by (intro stats_implements_small) (simp_all add: sq_inv_def sq_view_def)
  with implements_at [OF atomic_readers(7) s(2) _ this] run
  show "sq_calm cr s' \<and> (r, sq_view cr s') = spec_read_stats b (sq_view cr s)" by (simp add: sqlite_driver_def)
qed

text \<open>The driver's test \<open>conformance\<close>: open a database in memory and run the suite.\<close>

definition conformance :: "'j crates \<Rightarrow> (nat \<Rightarrow> time) \<Rightarrow> ('j conn, unit) test" where
  "conformance cr tk = try_a (unwrap_t sq_open_in_memory) (\<lambda>_. run_all (sqlite_driver cr) tk)"

text \<open>
  C21 (refinement): the SQLite driver passes the whole conformance suite of \<open>rgw-sal\<close> while SQLite
  does not fail, whatever the clock reads at each call, provided MD5 of three texts is what the suite
  says.
\<close>

theorem sqlite_passes_suite:
  assumes "crates_ok cr" and "sq_calm cr c" and "suite_digests (md5_hex cr)"
  shows "\<exists>c'. conformance cr tk c = (Inr (), c')"
proof -
  have open_it: "sq_open_in_memory c = (Inr (), conn_of db_empty)"
    using assms(2) by (cases c) (simp add: sq_open_in_memory_def sq_init_def try_a_apply fault_point_def sq_calm_def conn_of_def)
  have "sq_inv cr (conn_of db_empty)" "sq_calm cr (conn_of db_empty)" "sq_view cr (conn_of db_empty) = gw_empty"
    using assms(1,2) by (simp_all add: sq_inv_def sq_calm_def sq_view_def)
  from sqs.suite_passes [OF assms(3) this, of tk] open_it show ?thesis
    by (auto simp: conformance_def unwrap_t_def try_a_apply match_a_apply)
qed

definition suite_crates :: "json crates" where
  "suite_crates = demo_crates\<lparr>md5_digest := (\<lambda>b.
     if b = ''hello world'' then the (demo_unhex ''5eb63bbbe01eeed093cb22bb8f5acdc3'')
     else if b = [] then the (demo_unhex ''d41d8cd98f00b204e9800998ecf8427e'')
     else the (demo_unhex ''e2fc714c4727ee9395f324cd2e7f331f''))\<rparr>"

lemma sqlite_passes_suite_witness:
  "\<exists>c'. conformance suite_crates (\<lambda>i. int i * 1000000000 + 5) (conn_of db_empty) = (Inr (), c')"
proof (rule sqlite_passes_suite)
  show "crates_ok suite_crates"
    using demo_crates_sq by (simp add: suite_crates_def crates_ok_def json_ok_def chrono_ok_def)
  show "sq_calm suite_crates (conn_of db_empty)"
    by (simp add: sq_calm_def suite_crates_def demo_crates_def json_total_def)
  show "suite_digests (md5_hex suite_crates)" by code_simp
qed

end
