(* ===== verification/Gateway_Refine.thy ===== *)
theory Gateway_Refine
  imports Sqlite_Conforms S3_Props Gateway_Props
begin

section \<open>Every handler refines, sums of sizes included\<close>

text \<open>
  \<open>bucket_stats\<close> adds up object sizes in SQLite, whose integers have 63 bits, so it does what the
  contract says while the sizes fit. \<open>stats_client\<close> is the locale of the clients of a driver of that
  kind; over it the handlers that report sums, \<open>HEAD\<close> of a bucket and the admin API's bucket info,
  give what they give on the abstract store, as all the others do.
\<close>

definition store_fits :: "gw \<Rightarrow> bool" where
  "store_fits g \<longleftrightarrow> length (g_objects g) < 2 ^ 63 \<and> sum_list (map (\<lambda>e. unat (oi_size (fst (snd e)))) (g_objects g)) < 2 ^ 63"

lemma store_fits_stats: "store_fits g \<Longrightarrow> stats_small b g"
proof -
  assume fits: "store_fits g"
  let ?sz = "\<lambda>e. unat (oi_size (fst (snd e)))" and ?obs = "filter (\<lambda>e. fst (fst e) = bk_bucket_id b) (g_objects g)"
  have "length ?obs < 2 ^ 63" using fits by (intro le_less_trans [OF length_filter_le]) (simp add: store_fits_def)
  moreover have "sum_list (map ?sz (filter P xs)) \<le> sum_list (map ?sz xs)" for P and xs :: "((string \<times> string) \<times> object_info \<times> bytes) list"
    by (induction xs) auto
  then have "sum_list (map ?sz ?obs) \<le> sum_list (map ?sz (g_objects g))" .
  ultimately show ?thesis using fits by (simp add: store_fits_def stats_small_def Let_def g_objects_of_def o_def)
qed

text \<open>Case analysis on a value that both sides of a simulation share.\<close>

lemma sim_o_cases [sim_intros]:
  "(x = None \<Longrightarrow> sim_o I view f f') \<Longrightarrow> (\<And>y. x = Some y \<Longrightarrow> sim_o I view (g y) (g' y)) \<Longrightarrow>
     sim_o I view (case x of None \<Rightarrow> f | Some y \<Rightarrow> g y) (case x of None \<Rightarrow> f' | Some y \<Rightarrow> g' y)"
  "(\<And>a b. p = (a, b) \<Longrightarrow> sim_o I view (h a b) (h' a b)) \<Longrightarrow>
     sim_o I view (case p of (a, b) \<Rightarrow> h a b) (case p of (a, b) \<Rightarrow> h' a b)"
  by (auto split: option.split prod.split)

locale stats_client = suite_driver drv sinv view etag calm + driver_client drv sinv view etag calm cr
  for drv :: "'s driver" and sinv :: "'s \<Rightarrow> bool" and view :: "'s \<Rightarrow> gw"
    and etag :: "bytes \<Rightarrow> string" and calm :: "'s \<Rightarrow> bool" and cr :: "'j crates"
begin

definition fits :: "'s \<Rightarrow> bool" where
  "fits s \<longleftrightarrow> works s \<and> store_fits (view s)"

lemma sim_fits_reads:
  assumes "sim works view m sp" and "reads sp"
  shows "sim fits view m sp"
proof (rule simI)
  fix s r s' assume s: "fits s" and run: "m s = (r, s')"
  from simD [OF assms(1) _ run] s have "works s'" "sp (view s) = (r, view s')" by (simp_all add: fits_def)
  moreover have "view s' = view s" using assms(2) \<open>sp (view s) = (r, view s')\<close> unfolding reads_def by (metis snd_conv)
  ultimately show "fits s' \<and> sp (view s) = (r, view s')" using s by (simp add: fits_def)
qed

lemma sim_fits_load_bucket [sim_intros]:
  "sim fits view (load_bucket drv t n) (load_bucket (spec_driver etag) t n)"
  by (rule sim_fits_reads [OF sim_methods(5)]) (simp add: reads_specs)

lemma sim_fits_stats [sim_intros]: "sim fits view (read_stats drv b) (read_stats (spec_driver etag) b)"
proof (rule simI)
  fix s r s' assume s: "fits s" and run: "read_stats drv b s = (r, s')"
  then have i: "sinv s" "calm s" "store_fits (view s)" by (simp_all add: fits_def works_def)
  from stats_exact [OF i(1,2) store_fits_stats [OF i(3)] run] refinesD [OF read_stats_ok i(1) run] reads_ok(7) [OF i(1) run] i(3)
  show "fits s' \<and> read_stats (spec_driver etag) b (view s) = (r, view s')" by (auto simp: fits_def works_def)
qed

lemma sim_fits_list_all [sim_intros]:
  "sim_o fits view (list_all_loop drv ow out m) (list_all_loop (spec_driver etag) ow out m)"
proof (rule sim_oI)
  fix s r s' assume s: "fits s" and run: "list_all_loop drv ow out m s = Some (r, s')"
  from s have w: "works s" "sinv s" by (simp_all add: fits_def works_def)
  from sim_oD [OF sim_list_all w(1) run] list_all_ends [OF w(2), of ow out m] run s
  show "fits s' \<and> list_all_loop (spec_driver etag) ow out m (view s) = Some (r, view s')" by (auto simp: fits_def)
qed

lemma sim_fits_docs [sim_intros]:
  "sim fits view (bucket_docs cr drv st bs out) (bucket_docs cr (spec_driver etag) st bs out)"
proof (induction bs arbitrary: out)
  case (Cons b bs)
  then show ?case unfolding bucket_docs.simps by (intro sim_intros)
qed (simp add: sim_ret)

lemma stat_bucket_sim [sim_intros]:
  "sim fits view (s3_stat_bucket cr drv i n) (s3_stat_bucket cr (spec_driver etag) i n)"
  unfolding s3_stat_bucket_def load_bucket_for_def by (intro sim_intros)

lemma bucket_head_sim: "sim_o fits view (s3_serve cr drv fx c (BucketHead b)) (s3_serve cr (spec_driver etag) fx c (BucketHead b))"
  unfolding s3_serve.simps bucket_head_def finish_a_def by (intro sim_intros)

lemma bucket_info_sim: "sim_o fits view (admin_serve cr drv fx c AdminBucketGet) (admin_serve cr (spec_driver etag) fx c AdminBucketGet)"
  unfolding admin_serve.simps admin_bucket_get_def admin_bucket_info_def admin_bucket_list_def list_all_buckets_def Let_def
  by (intro sim_intros)

end

interpretation ss: stats_client "sqlite_driver cr" "sq_inv cr" "sq_view cr" "md5_hex cr" "sq_calm cr" cr for cr :: "'j crates" ..

subsection \<open>The properties\<close>

definition s3_call_within :: "'j crates \<Rightarrow> gw \<Rightarrow> s3_call \<Rightarrow> s3_handler \<Rightarrow> bool" where
  "s3_call_within cr g c h = (case h of BucketHead b \<Rightarrow> store_fits g | _ \<Rightarrow> call_ok cr c h)"

definition admin_call_within :: "gw \<Rightarrow> admin_call \<Rightarrow> admin_handler \<Rightarrow> bool" where
  "admin_call_within g c h = (case h of AdminBucketGet \<Rightarrow> store_fits g | _ \<Rightarrow> admin_call_ok c h)"

text \<open>
  While SQLite works, every S3 handler gives the response, and leaves the tables in the state, that the
  same handler gives on the abstract store; \<open>HEAD\<close> of a bucket, which adds up sizes, while the store
  holds less than \<open>2 ^ 63\<close> bytes and objects. So does every admin handler but \<open>info\<close>, which shows the
  driver's name.
\<close>

lemma s3_refines:
  assumes "sq_inv cr s" and "sq_calm cr s"
    and "s3_call_within cr (sq_view cr s) c h"
    and "s3_serve cr (sqlite_driver cr) fx c h s = Some (r, s')"
  shows "sq_inv cr s' \<and> sq_calm cr s' \<and>
    s3_serve cr (spec_driver (md5_hex cr)) fx c h (sq_view cr s) = Some (r, sq_view cr s')"
proof (cases "\<exists>b. h = BucketHead b")
  case True
  then obtain b where h: "h = BucketHead b" ..
  from sim_oD [OF ss.bucket_head_sim _ assms(4) [unfolded h]] assms(1-3) show ?thesis
    unfolding h by (simp add: s3_call_within_def ss.fits_def sg.works_def)
next
  case False
  with assms(3) have "call_ok cr c h" by (cases h) (simp_all add: s3_call_within_def)
  from sim_oD [OF sg.s3_serve_sim [OF this] _ assms(4)] assms(1,2) show ?thesis by simp
qed

lemma admin_refines:
  assumes "sq_inv cr s" and "sq_calm cr s"
    and "admin_call_within (sq_view cr s) c h"
    and "admin_serve cr (sqlite_driver cr) fx c h s = Some (r, s')"
  shows "sq_inv cr s' \<and> sq_calm cr s' \<and>
    admin_serve cr (spec_driver (md5_hex cr)) fx c h (sq_view cr s) = Some (r, sq_view cr s')"
proof (cases "h = AdminBucketGet")
  case True
  from sim_oD [OF ss.bucket_info_sim _ assms(4) [unfolded True]] assms(1-3) show ?thesis
    unfolding True by (simp add: admin_call_within_def ss.fits_def sg.works_def)
next
  case False
  with assms(3) have "admin_call_ok c h" by (cases h) (simp_all add: admin_call_within_def)
  from sim_oD [OF sg.admin_serve_sim [OF this] _ assms(4)] assms(1,2) show ?thesis by simp
qed


subsection \<open>The gateway\<close>

text \<open>What the request that authentication lets through must be, by the route it takes.\<close>

definition routed_within :: "'j crates \<Rightarrow> axum \<Rightarrow> gw \<Rightarrow> string \<Rightarrow> request \<Rightarrow> bool" where
  "routed_within cr ax g rid req = (case (gw_handler ax req, rq_identity req) of
       (Some (Inl h), Some i) \<Rightarrow> h \<noteq> AdminInfoGet \<and> admin_call_within g (admin_call_of ax rid i req) h
     | (Some (Inr h), Some i) \<Rightarrow> s3_call_within cr g (s3_call_of rid i req) h
     | _ \<Rightarrow> True)"

lemma dispatch_refines:
  assumes s: "sq_inv cr s" "sq_calm cr s" and within: "routed_within cr ax (sq_view cr s) rid req"
    and run: "gw_dispatch cr (sqlite_driver cr) ax fx rid req s = Some (r, s')"
  shows "sq_inv cr s' \<and> sq_calm cr s' \<and>
    gw_dispatch cr (spec_driver (md5_hex cr)) ax fx rid req (sq_view cr s) = Some (r, sq_view cr s')"
proof (cases "gw_handler ax req"; cases "rq_identity req")
  fix h i assume h: "gw_handler ax req = Some h" "rq_identity req = Some i"
  show ?thesis
  proof (cases h)
    case (Inl ah)
    with run h obtain r0 where "admin_serve cr (sqlite_driver cr) (gx_admin fx) (admin_call_of ax rid i req) ah s = Some (r0, s')"
      and r: "r = Inr (admin_finish cr rid r0)" by (auto simp: gw_dispatch_def match_o_apply split: option.splits)
    from admin_refines [OF s _ this(1)] within h Inl r show ?thesis
      by (simp add: gw_dispatch_def match_o_apply routed_within_def)
  next
    case (Inr sh)
    with run h obtain r0 where "s3_serve cr (sqlite_driver cr) (gx_s3 fx) (s3_call_of rid i req) sh s = Some (r0, s')"
      and r: "r = Inr (s3_response cr r0)" by (auto simp: gw_dispatch_def match_o_apply split: option.splits)
    from s3_refines [OF s _ this(1)] within h Inr r show ?thesis
      by (simp add: gw_dispatch_def match_o_apply routed_within_def)
  qed
qed (use run s in \<open>auto simp: gw_dispatch_def\<close>)

text \<open>
  C5 (refinement): while SQLite works, the gateway over SQLite answers every request as the gateway over the
  abstract store of users, keys, buckets and objects does - authentication, routing, both APIs, errors
  and their documents - and leaves the tables in the state that it leaves the store in. Sums of sizes
  are those of the store while it holds less than \<open>2 ^ 63\<close> bytes and objects.
\<close>

theorem gateway_refines:
  assumes s: "sq_inv cr s" "sq_calm cr s"
    and run: "build_app cr (sqlite_driver cr) ax fx req s = Some (r, s')"
    and within: "case verify cr (spec_driver (md5_hex cr)) auth_config_default (gx_now fx) req (sq_view cr s) of
        (Inr req', _) \<Rightarrow> routed_within cr ax (sq_view cr s) (new_request_id (gx_uuid fx) (gx_timestamp fx)) req'
      | (Inl e, _) \<Rightarrow> True"
  shows "sq_inv cr s' \<and> sq_calm cr s' \<and>
    build_app cr (spec_driver (md5_hex cr)) ax fx req (sq_view cr s) = Some (r, sq_view cr s')"
proof -
  let ?rid = "new_request_id (gx_uuid fx) (gx_timestamp fx)"
  obtain v s1 where v: "verify cr (sqlite_driver cr) auth_config_default (gx_now fx) req s = (v, s1)" by fastforce
  from simD [OF sim_verify _ v] s have s1: "sq_inv cr s1" "sq_calm cr s1"
    and sp: "verify cr (spec_driver (md5_hex cr)) auth_config_default (gx_now fx) req (sq_view cr s) = (v, sq_view cr s1)"
    by simp_all
  have view: "sq_view cr s1 = sq_view cr s" using verify_view(2) [OF s(1) v] .
  show ?thesis
  proof (cases v)
    case (Inl e)
    with run v sp s1 show ?thesis by (auto simp: build_app_run [OF refl] authenticate_def match_o_apply)
  next
    case (Inr req')
    with run v obtain r0 where d: "gw_dispatch cr (sqlite_driver cr) ax fx ?rid req' s1 = Some (r0, s')"
      and r: "r = map_sum id (stamp_response ?rid) r0"
      by (auto simp: build_app_run [OF refl] authenticate_def match_o_apply)
    have "routed_within cr ax (sq_view cr s1) ?rid req'" using within sp Inr view by simp
    from dispatch_refines [OF s1 this d] sp Inr r show ?thesis
      by (simp add: build_app_run [OF refl] authenticate_def match_o_apply view)
  qed
qed

lemma gateway_refines_witness:
  "\<exists>resp s'. build_app demo_crates (sqlite_driver demo_crates) gwp_axum gwp_fx gwp_request adm_store = Some (Inr resp, s') \<and>
     build_app demo_crates (spec_driver (md5_hex demo_crates)) gwp_axum gwp_fx gwp_request adm_gw = Some (Inr resp, sq_view demo_crates s') \<and>
     rs_status resp = 204 \<and> sq_view demo_crates s' = g_drop_object demo_bucket_key ''b'' adm_gw"
proof (rule gwp_passes)
  fix req' s1
  assume v: "verify demo_crates (sqlite_driver demo_crates) auth_config_default demo_now gwp_request adm_store = (Inr req', s1)"
    and req': "rq_identity req' = Some demo_identity" "rq_query req' = None" "rq_body req' = [Inr ''x'']"
    and s1: "sq_inv demo_crates s1" "sq_calm demo_crates s1" "sq_view demo_crates s1 = adm_gw"
  let ?rid = "new_request_id ''u'' 0" and ?h = "ObjectDelete ''b'' ''b''"
  let ?c = "s3_call_of ?rid demo_identity req'"
  have "rq_method gwp_request = ''DELETE''" by code_simp
  then have h: "gw_handler gwp_axum req' = Some (Inr ?h)"
    using verify_route [OF v] by (simp add: gw_handler_def gwp_axum_def)
  have ok: "call_ok demo_crates ?c ?h"
    by (auto simp: call_ok_def s3_call_of_def prefix_arg_def args_parse_def args_get_def or_default_def demo_alice_id
      demo_uid_stable req' body_fits_def from_utf8_ok.simps)
  from simD [OF sim_verify _ v] have sp: "verify demo_crates (spec_driver (md5_hex demo_crates)) auth_config_default demo_now
      gwp_request (sq_view demo_crates adm_store) = (Inr req', adm_gw)"
    by (simp add: adm_store_inv adm_store_calm s1(3))
  obtain r s2 where serve: "s3_serve demo_crates (sqlite_driver demo_crates) demo_fx ?c ?h s1 = Some (r, s2)"
    using sg.s3_serve_returns [OF s1(1)] by blast
  have run: "build_app demo_crates (sqlite_driver demo_crates) gwp_axum gwp_fx gwp_request adm_store =
      Some (Inr (stamp_response ?rid (s3_response demo_crates r)), s2)"
    using v h req'(1) serve by (simp add: build_app_run [OF refl] authenticate_def match_o_apply gw_dispatch_def gwp_fx_def)
  have "routed_within demo_crates gwp_axum (sq_view demo_crates adm_store) ?rid req'"
    using h req'(1) ok by (simp add: routed_within_def s3_call_within_def)
  then have w: "case verify demo_crates (spec_driver (md5_hex demo_crates)) auth_config_default (gx_now gwp_fx) gwp_request
        (sq_view demo_crates adm_store) of
      (Inr req', _) \<Rightarrow> routed_within demo_crates gwp_axum (sq_view demo_crates adm_store)
        (new_request_id (gx_uuid gwp_fx) (gx_timestamp gwp_fx)) req'
    | (Inl e, _) \<Rightarrow> True"
    using sp by (simp add: gwp_fx_def)
  from sim_oD [OF sg.s3_serve_sim [OF ok] _ serve] s1 adm_spec_delete [OF req'(2)]
  have "r = Inr (status_response 204 [])" "sq_view demo_crates s2 = g_drop_object demo_bucket_key ''b'' adm_gw" by simp_all
  with gateway_refines [OF adm_store_inv adm_store_calm run w] run show ?thesis
    by (simp add: adm_store_view s3_response_def status_response_def)
qed

end
