(* ===== verification/Spec2Isabelle.thy ===== *)
theory Spec2Isabelle
  imports Auth_Props Sqlite_Props Wire_Props S3_Props Admin_Props Gateway_Props Gateway_Interleaved Test_Server Gateway_Refine
begin

text \<open>
  rgw-rs, an S3 gateway on SQLite, as executable HOL definitions with the theorems that make it
  correct.

  THE PROGRAM. A request to the daemon (\<open>crates/rgwd\<close>) passes a layer that gives it an id
  (\<open>crates/rgw-rest\<close>), the authentication of AWS Signature Version 4 (\<open>crates/rgw-auth\<close>), and then
  either the S3 routes (\<open>crates/rgw-rest-s3\<close>) or the admin routes (\<open>crates/rgw-rest-admin\<close>, which run
  \<open>crates/rgw-admin-ops\<close>; the command line tool \<open>crates/radosgw-admin\<close> runs the same operations).
  All of them store users, keys, buckets and objects through the trait \<open>Driver\<close> of \<open>crates/rgw-sal\<close>,
  implemented on SQLite by \<open>crates/rgw-sal-sqlite\<close>; \<open>crates/rgw-types\<close> holds the data and the errors.

  HOW IT IS MODELLED. A fallible function returns a sum, \<open>Inl\<close> the error and \<open>Inr\<close> the value
  (\<open>rgw_result\<close>); a function that uses the store is an action from a state to such a result and the
  next state (\<open>act\<close> in \<open>Prelude\<close>, composed by \<open>try_a\<close>, which is \<open>?\<close>, and \<open>match_a\<close>). A loop that
  pages through a listing until the driver says there is no more need not end for every driver: it
  is a \<open>partial_function\<close> into an option (\<open>oact\<close> in \<open>May_Diverge\<close>), \<open>None\<close> for a run without end, and
  that it ends over a driver that meets the contract is proved (\<open>s3_serve_returns\<close>,
  \<open>admin_serve_ends\<close>, \<open>cli_run_ends\<close>); no fuel is used anywhere. Machine integers keep their width
  (\<open>u64\<close>, \<open>i64\<close>, \<open>u32\<close>, \<open>i32\<close> are words); \<open>usize\<close> lengths and limits are naturals, with the
  conversions the code makes written out. A \<open>String\<close> or byte vector is a list of 8-bit characters; a
  \<open>BTreeMap\<close> is a sorted association list (\<open>BTree_Map\<close>). The theories of one component run an operation from its
  start to its end; \<open>Gateway_System\<close> interleaves any number of clients, call to the driver by call, a
  call being atomic as the connection mutex makes it.

  WHAT IS A PARAMETER. Third-party crates are the fields of the record \<open>crates\<close> (\<open>Crates\<close>): SHA-256,
  HMAC, MD5, CRC-32, hex, base64, percent-encoding, JSON text, XML text and events, and chrono's
  formats. What is relied on is a named predicate for each (\<open>json_ok\<close>, \<open>hex_ok\<close>, \<open>mac_ok\<close>,
  \<open>pct_ok\<close>, \<open>chrono_ok\<close>, ...), and \<open>Demo\<close> gives one instance that meets them, on which every witness
  runs. Random draws and clock readings are arguments; axum's routing is the record \<open>axum\<close>.

  THE THEORIES, from the bottom.
  \<open>Prelude\<close>, \<open>Rust_Str\<close>, \<open>Rust_Text\<close>, \<open>BTree_Map\<close>, \<open>May_Diverge\<close>: actions, the parts of Rust's
  standard library that are used, ordered maps.
  \<open>Rgw_Error\<close>, \<open>Rgw_User\<close>, \<open>User_Caps\<close>, \<open>Rgw_Types\<close>, \<open>Crates\<close>: \<open>rgw-types\<close>, and its JSON documents.
  \<open>Sal\<close>: the types of \<open>rgw-sal\<close>, \<open>Driver\<close> as the record \<open>driver\<close> of its methods, and the documented
  contract as an abstract store (\<open>gw\<close>: users, key index, buckets, objects) with one equation per method
  (\<open>spec_load_user\<close> and so on). \<open>Sal_Contract\<close> states it as the locale \<open>sal_driver\<close> (a call does what
  the equation says, or fails with an internal error and changes nothing) and \<open>reliable_driver\<close> (and it
  does so exactly while the environment is calm); \<open>Sal_History\<close> proves over the locale what follows for
  sequences of calls, and \<open>Sal_Client\<close> is the locale \<open>driver_client\<close> of everything that calls a driver,
  with simulation rules: the abstract store is a driver itself, and running an operation on it is the
  operation's specification. \<open>Listing\<close> is the theory of pages of a listing.
  \<open>Sqlite_Db\<close>: the tables and every SQL statement, with its constraints. \<open>Sqlite_Conn\<close>: calls into
  SQLite, each of which may fail as the list \<open>cn_faults\<close> says, and \<open>with_tx\<close>. \<open>Sqlite\<close>: every method of
  the driver. \<open>Sqlite_Sound\<close>, \<open>Sqlite_View\<close>, \<open>Sqlite_Read\<close>, \<open>Sqlite_Objects\<close>, \<open>Sqlite_Write\<close> prove that
  it meets the contract, faults included, with \<open>sq_view\<close> the store the tables stand for and \<open>sq_inv\<close>
  the invariant of the tables, and interpret the locales; \<open>Sqlite_Props\<close> has the properties.
  \<open>Sal_Testsuite\<close> is the conformance suite of \<open>rgw-sal\<close> over any driver; \<open>Sal_Conforms\<close> proves that it
  passes on the abstract store and so, over the locale \<open>suite_driver\<close>, on every driver that meets the
  contract, which \<open>Sqlite_Conforms\<close> interprets on the SQLite driver.
  \<open>Http\<close>, \<open>Sigv4\<close>, \<open>Sigv4_Canon\<close>, \<open>Chunked\<close>, \<open>Chunked_Facts\<close>, \<open>Auth\<close>: \<open>rgw-auth\<close>, with the
  canonical query, the chunk framing and the chain of chunk signatures; properties in \<open>Wire_Props\<close> (what
  is parsed and compared) and \<open>Auth_Props\<close> (what a request that is let through has shown).
  \<open>Auth_Client\<close> is the client of the tests of \<open>rgw-auth\<close>, which signs: what it signs is let through.
  \<open>Rest\<close>, \<open>S3_Base\<close>, \<open>S3_Xml\<close>, \<open>S3_Bucket\<close>, \<open>S3_List\<close>, \<open>S3_Object\<close>, \<open>S3_Handler\<close>: \<open>rgw-rest\<close> and
  \<open>rgw-rest-s3\<close>, each module's functions by their names (\<open>s3_\<close> before those that clash), and the route
  table. \<open>S3_Facts\<close>, \<open>S3_Access\<close>, \<open>S3_Refine\<close>, \<open>S3_Quota\<close> prove, over any driver, access control, that
  every handler returns, that it does what it does on the abstract store, and the quota;
  \<open>Bucket_Lists\<close> and \<open>S3_Spec\<close> say what it does there.
  \<open>Admin_Ops\<close>, \<open>Admin_Dump\<close>, \<open>Admin_Rest\<close>, \<open>Admin_Cli\<close>: \<open>rgw-admin-ops\<close>, \<open>rgw-rest-admin\<close> and
  \<open>radosgw-admin\<close>. \<open>Admin_Loops\<close>, \<open>Admin_Facts\<close>, \<open>Admin_Spec\<close>, \<open>Admin_Purge\<close> prove the same kinds of
  facts for them.
  \<open>Sqlite_Client\<close> interprets \<open>driver_client\<close> on the SQLite driver; \<open>S3_Props\<close> and \<open>Admin_Props\<close> hold
  the properties of both APIs and of the tool over it.
  \<open>Gateway\<close> composes the pipeline (\<open>build_app\<close>), and \<open>Gateway_Props\<close> proves what holds from the
  request to the tables. \<open>Client_Keeps\<close> proves once, for every operation of the three clients (S3, admin
  API, command line), what all of its calls keep. \<open>Gateway_System\<close> is the relation \<open>gw_run\<close>: clients over
  one connection, each of whose calls finds the store as the calls of the others have left it, and who
  may stop after any of their calls (a killed process, a dropped future); a call is atomic, as the
  connection mutex makes it in the daemon and a transaction across processes (reads of several
  statements outside a transaction could interleave finer with the tool, which is another process).
  \<open>Gateway_Interleaved\<close> proves what authorisation means when the store changes between the calls of a
  request, and that the quota check is not atomic.
  \<open>Gateway_Refine\<close> proves that the whole gateway over SQLite does what it does over the abstract store,
  sums of sizes included (locale \<open>stats_client\<close>), and \<open>Test_Server\<close> (\<open>rgw-tests\<close>) that a server which
  is started on a new database serves the admin it creates.

  WHAT IS SHOWN. From the request to the tables: a request that changes the store or succeeds on a
  route was signed by a stored, unsuspended user who is permitted what it asks for, also when others
  change the store between its calls; every request is answered, and while SQLite works answered as
  by the gateway over the abstract store; the invariants of the store survive every interleaving of
  requests and commands. Authentication: the signature covers the request, the payload is the one
  signed for, chunk by chunk; what the signing client sends is let through with its payload, and a
  fresh server serves the admin it was seeded with. The driver: it refines the abstract store under
  every schedule of SQLite failures, keeps the tables consistent, passes the conformance suite, and
  its listing is the specified one, page by page. S3: access, quotas, bucket names, \<open>HEAD\<close> as \<open>GET\<close>,
  put/get/delete, checksums, listings. Admin: capabilities, creation, revocation of keys, purging,
  paging. Formats: round trips and canonical forms.

  BOUNDS. Bodies are shorter than \<open>2 ^ 63\<close> bytes (\<open>body_fits\<close>) where a put is claimed to succeed, as
  the size column is an \<open>i64\<close>; the statements that involve sums of sizes (\<open>HEAD\<close> of a bucket, the
  admin API's bucket info) ask for a store below \<open>2 ^ 63\<close> bytes and objects (\<open>store_fits\<close>), beyond
  which SQLite's sum may overflow; listing limits are below \<open>2 ^ 63\<close> for the same reason. Listing
  prefixes hold no NUL character, at which SQLite's \<open>length\<close> stops. User ids are stable under
  printing and parsing (\<open>uid_stable\<close>); \<open>UserId::parse\<close> gives others for a string such as \<open>$acme$bob\<close>.
  Statements about complete bucket listings need every bucket in the default tenant
  (\<open>default_tenant\<close>), which the system keeps under any interleaving (\<open>gateway_store_tidy\<close>), provided
  ids read off a request or a command line are stable (\<open>client_ok\<close>) and axum's parameters are those
  of the path (\<open>axum_ok\<close>).

  NOT MODELLED. The contents of the file system (a run starts from any consistent store, the empty
  one for histories), sockets, logging, clap's and axum's own code, process start-up, the assertions
  of the integration tests and the clients they build on the AWS SDK and \<open>reqwest\<close>
  (\<open>crates/rgw-tests\<close>, \<open>rgw-rest-s3/tests\<close>). HTTP details below axum, such as the dropped body of an
  answer to \<open>HEAD\<close>, are not in the responses.
\<close>

end
